(* ===== verification/Prelude.thy ===== *)
theory Prelude
  imports Main "HOL-Library.Word" "HOL-Library.Finite_Map" "HOL-Library.Sublist"
begin

text \<open>
  What the component theories share: the Go types the sources use, the parts of
  the Go standard library they call (\<open>strings\<close>, \<open>strconv\<close>, map ranges,
  \<open>math/rand\<close>), and generic lemmas on finite maps, lists and words.

  \<^item> A fixed-width Go integer is a word; Go's \<open>int\<close> is \<open>int\<close> where it
    cannot overflow in the code that uses it.
  \<^item> A Go \<open>map[K]V\<close> is a finite map \<open>('k, 'v) fmap\<close>; reading an absent
    key gives the zero value (\<open>gm_get\<close>).
  \<^item> A Go \<open>error\<close> is \<open>None\<close> for \<open>nil\<close> and \<open>Some msg\<close> otherwise;
    a function with several results returns a tuple, so that the values returned
    beside an error are visible.
  \<^item> The order in which \<open>range\<close> visits a map is not specified by Go. It is the
    sorted list of keys re-sorted by an arbitrary priority function
    (\<open>range_keys\<close>): every order arises from some priority, and each key is
    visited exactly once whatever the priority is.
\<close>

type_synonym u8 = "8 word"
type_synonym u16 = "16 word"
type_synonym u32 = "32 word"
type_synonym u64 = "64 word"
type_synonym bytes = "u8 list"
type_synonym go_err = "string option"
type_synonym ('k, 'v) gomap = "('k, 'v) fmap"

named_theorems go_simps \<open>unfolding rules for the modelled Go library functions\<close>

section \<open>Go maps\<close>

definition gm_get :: "'v \<Rightarrow> ('k, 'v) gomap \<Rightarrow> 'k \<Rightarrow> 'v" where
  "gm_get zero m k = (case fmlookup m k of None \<Rightarrow> zero | Some v \<Rightarrow> v)"

definition gm_has :: "('k, 'v) gomap \<Rightarrow> 'k \<Rightarrow> bool" where
  "gm_has m k \<longleftrightarrow> fmlookup m k \<noteq> None"

definition gm_len :: "('k, 'v) gomap \<Rightarrow> nat" where
  "gm_len m = fcard (fmdom m)"

lemma gm_has_upd [simp]: "gm_has (fmupd k v m) k' \<longleftrightarrow> k' = k \<or> gm_has m k'"
  by (auto simp: gm_has_def)

lemma gm_has_drop [simp]: "gm_has (fmdrop k m) k' \<longleftrightarrow> k' \<noteq> k \<and> gm_has m k'"
  by (auto simp: gm_has_def)

lemma gm_has_empty [simp]: "\<not> gm_has fmempty k"
  by (simp add: gm_has_def)

lemma gm_get_upd [simp]: "gm_get z (fmupd k v m) k' = (if k' = k then v else gm_get z m k')"
  by (simp add: gm_get_def)

lemma gm_get_drop [simp]: "gm_get z (fmdrop k m) k' = (if k' = k then z else gm_get z m k')"
  by (simp add: gm_get_def)

lemma gm_get_empty [simp]: "gm_get z fmempty k = z"
  by (simp add: gm_get_def)

lemma gm_has_fmdom: "gm_has m k \<longleftrightarrow> k |\<in>| fmdom m"
  by (auto simp: gm_has_def fmdom_notI) (metis fmdom_notD option.distinct(1))

lemma gm_has_iff: "gm_has m k \<longleftrightarrow> (\<exists>v. fmlookup m k = Some v)"
  by (auto simp: gm_has_def)

lemma gm_get_lookup: "fmlookup m k = Some v \<Longrightarrow> gm_get z m k = v"
  by (simp add: gm_get_def)

lemma gm_len_empty [simp]: "gm_len fmempty = 0"
  by (simp add: gm_len_def)

lemma gm_len_upd [simp]: "gm_len (fmupd k v m) = (if gm_has m k then gm_len m else Suc (gm_len m))"
  by (simp add: gm_len_def gm_has_fmdom fcard_finsert_if)

lemma gm_len_drop [simp]: "gm_len (fmdrop k m) = (if gm_has m k then gm_len m - 1 else gm_len m)"
proof (cases "k |\<in>| fmdom m")
  case True
  then show ?thesis by (simp add: gm_len_def gm_has_fmdom fcard_fminus_fsingleton)
next
  case False
  then show ?thesis by (simp add: gm_len_def gm_has_fmdom)
qed

lemma gm_len_0_iff: "gm_len m = 0 \<longleftrightarrow> (\<forall>k. \<not> gm_has m k)"
  by (auto simp: gm_len_def gm_has_fmdom)

lemma gm_len_card: "gm_len m = card {k. gm_has m k}"
  by (simp add: gm_len_def gm_has_fmdom fcard.rep_eq fset_of_list.rep_eq)

text \<open>The keys of a map in the order in which a \<open>range\<close> statement visits them.\<close>

definition range_keys :: "('k::linorder \<Rightarrow> nat) \<Rightarrow> ('k, 'v) gomap \<Rightarrow> 'k list" where
  "range_keys prio m = sort_key prio (sorted_list_of_fset (fmdom m))"

lemma set_range_keys [simp]: "k \<in> set (range_keys prio m) \<longleftrightarrow> gm_has m k"
  by (simp add: range_keys_def gm_has_fmdom)

lemma distinct_range_keys [simp]: "distinct (range_keys prio m)"
  by (simp add: range_keys_def sorted_list_of_fset.rep_eq)

lemma length_range_keys [simp]: "length (range_keys prio m) = gm_len m"
  by (simp add: range_keys_def gm_len_def fcard.rep_eq sorted_list_of_fset.rep_eq)

lemma range_keys_empty [simp]: "range_keys prio fmempty = []"
  using length_range_keys [of prio fmempty] by (simp only: length_0_conv gm_len_def fmdom_empty fcard_fempty)

text \<open>\<open>rand.Intn(n)\<close>: some number below \<open>n\<close>, taken from an arbitrary seed.\<close>

definition rand_Intn :: "nat \<Rightarrow> nat \<Rightarrow> nat" where
  "rand_Intn seed n = seed mod n"

lemma rand_Intn_less: "0 < n \<Longrightarrow> rand_Intn seed n < n"
  by (simp add: rand_Intn_def)

section \<open>Counting loops over unsigned integers\<close>

definition u64_upto :: "u64 \<Rightarrow> u64 list" where
  "u64_upto n = map of_nat [0..<unat n]"

lemma unat_u64_bound: "unat (n::u64) < 2 ^ 64"
proof -
  have "unat n < 2 ^ LENGTH(64)" by (rule unsigned_less)
  then show ?thesis by simp
qed

lemma unat_of_nat_u64: "k < 2 ^ 64 \<Longrightarrow> unat (of_nat k :: u64) = k"
  by (simp add: unsigned_of_nat take_bit_nat_eq_self)

lemma of_nat_u64_less: "k < unat (n::u64) \<Longrightarrow> of_nat k < n"
  using unat_u64_bound [of n] by (simp add: word_less_nat_alt unat_of_nat_u64)

lemma set_u64_upto [simp]: "i \<in> set (u64_upto n) \<longleftrightarrow> i < n"
proof
  assume "i \<in> set (u64_upto n)"
  then show "i < n" by (auto simp: u64_upto_def of_nat_u64_less)
next
  assume "i < n"
  then have "unat i < unat n" by (simp add: word_less_nat_alt)
  then show "i \<in> set (u64_upto n)"
    by (auto simp: u64_upto_def image_iff intro!: bexI [of _ "unat i"])
qed

lemma distinct_u64_upto [simp]: "distinct (u64_upto n)"
proof -
  have "inj_on (of_nat :: nat \<Rightarrow> u64) (set [0..<unat n])"
  proof (rule inj_onI)
    fix x y assume xy: "x \<in> set [0..<unat n]" "y \<in> set [0..<unat n]" "of_nat x = (of_nat y :: u64)"
    from xy(1,2) have "x < 2 ^ 64" "y < 2 ^ 64"
      using unat_u64_bound [of n] by auto
    then have "unat (of_nat x :: u64) = x" "unat (of_nat y :: u64) = y"
      by (simp_all only: unat_of_nat_u64)
    with xy(3) show "x = y" by metis
  qed
  then show ?thesis by (simp add: u64_upto_def distinct_map)
qed

lemma length_u64_upto [simp]: "length (u64_upto n) = unat n"
  by (simp add: u64_upto_def)

lemma card_below_u64: "card {i::u64. i < n} = unat n"
proof -
  have "{i. i < n} = set (u64_upto n)" by auto
  also have "card \<dots> = unat n" using distinct_card [OF distinct_u64_upto, of n] by simp
  finally show ?thesis .
qed

section \<open>The \<open>strings\<close> package\<close>

definition strings_HasPrefix :: "string \<Rightarrow> string \<Rightarrow> bool" where
  [go_simps]: "strings_HasPrefix s p \<longleftrightarrow> take (length p) s = p"

definition strings_HasSuffix :: "string \<Rightarrow> string \<Rightarrow> bool" where
  [go_simps]: "strings_HasSuffix s p \<longleftrightarrow> length p \<le> length s \<and> drop (length s - length p) s = p"

definition strings_TrimPrefix :: "string \<Rightarrow> string \<Rightarrow> string" where
  [go_simps]: "strings_TrimPrefix s p = (if strings_HasPrefix s p then drop (length p) s else s)"

lemma HasPrefix_prefix: "strings_HasPrefix s p \<longleftrightarrow> prefix p s"
  by (auto simp: strings_HasPrefix_def prefix_def) (metis append_take_drop_id)

lemma HasPrefix_append [simp]: "strings_HasPrefix (p @ s) p"
  by (simp add: strings_HasPrefix_def)

lemma HasSuffix_append [simp]: "strings_HasSuffix (s @ p) p"
  by (simp add: strings_HasSuffix_def)

lemma TrimPrefix_append [simp]: "strings_TrimPrefix (p @ s) p = s"
  by (simp add: strings_TrimPrefix_def)

text \<open>\<open>strings.Split(s, sep)\<close> for a separator of one character.\<close>

fun strings_Split :: "string \<Rightarrow> char \<Rightarrow> string list" where
  "strings_Split [] sep = [[]]"
| "strings_Split (c # s) sep =
     (if c = sep then [] # strings_Split s sep
      else (case strings_Split s sep of
              [] \<Rightarrow> [[c]]
            | w # ws \<Rightarrow> (c # w) # ws))"

fun strings_Join :: "string list \<Rightarrow> string \<Rightarrow> string" where
  "strings_Join [] sep = []"
| "strings_Join [w] sep = w"
| "strings_Join (w # ws) sep = w @ sep @ strings_Join ws sep"

lemma Split_not_Nil [simp]: "strings_Split s sep \<noteq> []"
  by (induction s sep rule: strings_Split.induct) (auto split: list.splits)

lemma Join_Cons: "ws \<noteq> [] \<Longrightarrow> strings_Join (w # ws) sep = w @ sep @ strings_Join ws sep"
  by (cases ws) auto

lemma Join_Split: "strings_Join (strings_Split s sep) [sep] = s"
proof (induction s sep rule: strings_Split.induct)
  case (1 sep)
  then show ?case by simp
next
  case (2 c s sep)
  obtain w ws where w: "strings_Split s sep = w # ws"
    by (cases "strings_Split s sep") auto
  show ?case
  proof (cases "c = sep")
    case True
    with 2 show ?thesis by (simp add: Join_Cons)
  next
    case False
    with 2 w show ?thesis by (cases ws) auto
  qed
qed

lemma Split_no_sep: "w \<in> set (strings_Split s sep) \<Longrightarrow> sep \<notin> set w"
  by (induction s sep arbitrary: w rule: strings_Split.induct)
    (auto split: list.splits if_splits)

lemma Split_word: "sep \<notin> set w \<Longrightarrow> strings_Split w sep = [w]"
  by (induction w) auto

lemma Split_append: "sep \<notin> set w \<Longrightarrow> strings_Split (w @ sep # s) sep = w # strings_Split s sep"
  by (induction w) auto

lemma Split_Join:
  assumes "ws \<noteq> []" and "\<And>w. w \<in> set ws \<Longrightarrow> sep \<notin> set w"
  shows "strings_Split (strings_Join ws [sep]) sep = ws"
  using assms
proof (induction ws "[sep]" rule: strings_Join.induct)
  case (3 w v vs)
  then show ?case by (simp add: Split_append)
qed (simp_all add: Split_word)

text \<open>\<open>strings.Trim(s, " ")\<close>.\<close>

text \<open>\<open>strings.Trim(s, " ")\<close> and \<open>strings.TrimSpace\<close>, the latter for the ASCII white space.\<close>

definition strings_TrimFunc :: "(char \<Rightarrow> bool) \<Rightarrow> string \<Rightarrow> string" where
  "strings_TrimFunc P s = rev (dropWhile P (rev (dropWhile P s)))"

definition strings_TrimBlanks :: "string \<Rightarrow> string" where
  "strings_TrimBlanks s = strings_TrimFunc (\<lambda>c. c = CHR '' '') s"

definition ascii_space :: "char \<Rightarrow> bool" where
  "ascii_space c \<longleftrightarrow> c = CHR '' '' \<or> (9 \<le> (of_char c :: nat) \<and> (of_char c :: nat) \<le> 13)"

definition strings_TrimSpace :: "string \<Rightarrow> string" where
  "strings_TrimSpace s = strings_TrimFunc ascii_space s"

section \<open>The \<open>strconv\<close> package\<close>

definition digit_char :: "nat \<Rightarrow> char" where
  "digit_char d = char_of (d + 48)"

definition char_digit :: "char \<Rightarrow> nat option" where
  "char_digit c = (let k = of_char c :: nat in if 48 \<le> k \<and> k \<le> 57 then Some (k - 48) else None)"

fun dec_nat :: "nat \<Rightarrow> string" where
  "dec_nat n = (if n < 10 then [digit_char n] else dec_nat (n div 10) @ [digit_char (n mod 10)])"

declare dec_nat.simps [simp del]

definition strconv_Itoa :: "int \<Rightarrow> string" where
  "strconv_Itoa i = (if i < 0 then CHR ''-'' # dec_nat (nat (- i)) else dec_nat (nat i))"

fun parse_digits :: "nat \<Rightarrow> string \<Rightarrow> nat option" where
  "parse_digits acc [] = Some acc"
| "parse_digits acc (c # s) =
     (case char_digit c of None \<Rightarrow> None | Some d \<Rightarrow> parse_digits (10 * acc + d) s)"

definition parse_nat :: "string \<Rightarrow> nat option" where
  "parse_nat s = (if s = [] then None else parse_digits 0 s)"

text \<open>
  \<open>strconv.Atoi\<close> on a 64-bit platform: an optional sign and decimal digits; a syntax
  error gives 0, an out-of-range value the nearest bound, each with an error.
\<close>

definition int_max :: int where "int_max = 2 ^ 63 - 1"
definition int_min :: int where "int_min = - (2 ^ 63)"

definition strconv_Atoi :: "string \<Rightarrow> int \<times> go_err" where
  "strconv_Atoi s =
     (let (neg, digits) = (case s of
            [] \<Rightarrow> (False, [])
          | c # cs \<Rightarrow> if c = CHR ''-'' then (True, cs) else if c = CHR ''+'' then (False, cs) else (False, s))
      in case parse_nat digits of
           None \<Rightarrow> (0, Some ''invalid syntax'')
         | Some n \<Rightarrow>
             (let v = (if neg then - int n else int n) in
              if int_max < v then (int_max, Some ''value out of range'')
              else if v < int_min then (int_min, Some ''value out of range'')
              else (v, None)))"

lemma char_digit_digit_char: "d < 10 \<Longrightarrow> char_digit (digit_char d) = Some d"
  by (simp add: char_digit_def digit_char_def Let_def)

lemma parse_digits_append:
  "parse_digits acc (s @ t) = Option.bind (parse_digits acc s) (\<lambda>a. parse_digits a t)"
  by (induction acc s rule: parse_digits.induct) (auto split: option.splits)

lemma dec_nat_not_Nil [simp]: "dec_nat n \<noteq> []"
  by (subst dec_nat.simps) simp

lemma parse_dec_nat: "parse_digits 0 (dec_nat n) = Some n"
proof (induction n rule: dec_nat.induct)
  case (1 n)
  show ?case
  proof (cases "n < 10")
    case True
    then show ?thesis by (subst dec_nat.simps) (simp add: char_digit_digit_char)
  next
    case False
    with 1 have "parse_digits 0 (dec_nat (n div 10)) = Some (n div 10)" by simp
    with False show ?thesis
      by (subst dec_nat.simps) (simp add: parse_digits_append char_digit_digit_char)
  qed
qed

lemma dec_nat_inj: "dec_nat m = dec_nat n \<Longrightarrow> m = n"
  by (metis option.inject parse_dec_nat)

lemma char_digit_no_sign [simp]: "char_digit (CHR ''-'') = None" "char_digit (CHR ''+'') = None"
  by (simp_all add: char_digit_def)

lemma dec_nat_hd_digit: "dec_nat n = c # cs \<Longrightarrow> char_digit c \<noteq> None"
  using parse_dec_nat [of n] by (auto split: option.splits)

lemma Atoi_Itoa:
  assumes "int_min \<le> i" and "i \<le> int_max"
  shows "strconv_Atoi (strconv_Itoa i) = (i, None)"
proof (cases "i < 0")
  case True
  with assms show ?thesis
    by (simp add: strconv_Itoa_def strconv_Atoi_def parse_nat_def parse_dec_nat Let_def)
next
  case False
  obtain c cs where c: "dec_nat (nat i) = c # cs" by (cases "dec_nat (nat i)") auto
  then have "c \<noteq> CHR ''-''" "c \<noteq> CHR ''+''" using dec_nat_hd_digit [OF c] by auto
  with False assms c parse_dec_nat [of "nat i"] show ?thesis
    by (simp add: strconv_Itoa_def strconv_Atoi_def parse_nat_def Let_def)
qed

section \<open>Early return\<close>

text \<open>
  A loop that may return from the middle of its body: \<open>Inl r\<close> is a \<open>return r\<close>,
  \<open>Inr s\<close> the state carried to the next iteration.
\<close>

fun go_for :: "'a list \<Rightarrow> ('a \<Rightarrow> 's \<Rightarrow> 'r + 's) \<Rightarrow> 's \<Rightarrow> 'r + 's" where
  "go_for [] body s = Inr s"
| "go_for (x # xs) body s =
     (case body x s of Inl r \<Rightarrow> Inl r | Inr s' \<Rightarrow> go_for xs body s')"

lemma go_for_append:
  "go_for (xs @ ys) body s = (case go_for xs body s of Inl r \<Rightarrow> Inl r | Inr s' \<Rightarrow> go_for ys body s')"
  by (induction xs body s rule: go_for.induct) (auto split: sum.splits)

lemma go_for_invariant:
  assumes "I s" and "\<And>x s s'. x \<in> set xs \<Longrightarrow> I s \<Longrightarrow> body x s = Inr s' \<Longrightarrow> I s'"
    and "go_for xs body s = Inr t"
  shows "I t"
  using assms by (induction xs arbitrary: s) (auto split: sum.splits)


section \<open>Panics and slice indexing\<close>

text \<open>The outcome of a call that may panic.\<close>

datatype 'a outcome = Ret 'a | Panic string

fun go_bind :: "'a outcome \<Rightarrow> ('a \<Rightarrow> 'b outcome) \<Rightarrow> 'b outcome" where
  "go_bind (Ret x) f = f x"
| "go_bind (Panic msg) f = Panic msg"

lemma go_bind_Ret: "go_bind r f = Ret y \<longleftrightarrow> (\<exists>x. r = Ret x \<and> f x = Ret y)"
  by (cases r) auto

lemma go_bind_cong [fundef_cong]:
  "r = r' \<Longrightarrow> (\<And>x. r' = Ret x \<Longrightarrow> f x = g x) \<Longrightarrow> go_bind r f = go_bind r' g"
  by (cases r') auto

text \<open>Reading and writing \<open>xs[i]\<close>, which panics outside the slice.\<close>

definition slice_get :: "'a list \<Rightarrow> int \<Rightarrow> 'a outcome" where
  "slice_get xs i = (if 0 \<le> i \<and> i < int (length xs) then Ret (xs ! nat i) else Panic ''index out of range'')"

definition slice_set :: "'a list \<Rightarrow> int \<Rightarrow> 'a \<Rightarrow> 'a list outcome" where
  "slice_set xs i v =
     (if 0 \<le> i \<and> i < int (length xs) then Ret (xs[nat i := v]) else Panic ''index out of range'')"

lemma slice_get_ok: "0 \<le> i \<Longrightarrow> i < int (length xs) \<Longrightarrow> slice_get xs i = Ret (xs ! nat i)"
  by (simp add: slice_get_def)

lemma slice_set_ok: "0 \<le> i \<Longrightarrow> i < int (length xs) \<Longrightarrow> slice_set xs i v = Ret (xs[nat i := v])"
  by (simp add: slice_set_def)

section \<open>Counting the goroutines in a state\<close>

definition cnt :: "('a \<Rightarrow> bool) \<Rightarrow> 'a list \<Rightarrow> nat" where
  "cnt P xs = length (filter P xs)"

lemma cnt_update:
  "i < length xs \<Longrightarrow> cnt P (xs[i := y]) + (if P (xs ! i) then 1 else 0) = cnt P xs + (if P y then 1 else 0)"
proof (induction xs arbitrary: i)
  case (Cons x xs)
  then show ?case by (cases i) (fastforce simp: cnt_def)+
qed simp

lemma cnt_pos: "x \<in> set xs \<Longrightarrow> P x \<Longrightarrow> 0 < cnt P xs"
  by (auto simp: cnt_def filter_empty_conv)

lemma cnt_two:
  assumes "i < length xs" "j < length xs" "i \<noteq> j" "P (xs ! i)" "P (xs ! j)"
  shows "2 \<le> cnt P xs"
proof -
  let ?Q = "\<lambda>k. k < length xs \<and> P (xs ! k)"
  have "card {i, j} \<le> card {k. ?Q k}" using assms by (intro card_mono) auto
  then show ?thesis using assms(3) by (simp add: cnt_def length_filter_conv_card)
qed

end
