(* ===== verification/DhcpPool.thy ===== *)
theory DhcpPool
  imports Prelude
begin

text \<open>
  The DHCP address pool of \<open>go/dhcp/pool\<close>: the data of \<open>pool.go\<close>, the in-memory
  backend of \<open>memory.go\<close>, the \<open>Backend\<close> interface as a record of operations, and
  the contract the DHCP server relies on as the locale \<open>pool_backend\<close>.

  Every method takes the pool's \<open>RWMutex\<close> for its whole body, so a method is one
  atomic transition from pool to pool. The mutex, the log context and the statsd timer
  of the struct carry no pool state and are left out. \<open>time.Now()\<close> is an argument.
\<close>

section \<open>pool.go\<close>

definition FreeMac :: string where "FreeMac = ''00:00:00:00:00:00''"
definition FakeMac :: string where "FakeMac = ''ff:ff:ff:ff:ff:ff''"
definition Random :: int where "Random = 1"
definition OldestReleased :: int where "OldestReleased = 2"

record DHCPPool =
  pool_free :: "(u64, bool) gomap"
  pool_mac :: "(u64, string) gomap"
  pool_capacity :: u64
  pool_released :: "(u64, int) gomap"
  pool_algorithm :: int

text \<open>
  What the runtime decides in one call of \<open>GetFreeIPIndex\<close>: the order in which
  \<open>range\<close> visits the map, and the seed behind \<open>rand.Intn\<close>.
\<close>

type_synonym choice = "(u64 \<Rightarrow> nat) \<times> nat"

text \<open>The \<open>Backend\<close> interface, over an arbitrary type of pools.\<close>

record 'p Backend =
  bReserveIPIndex :: "u64 \<Rightarrow> string \<Rightarrow> 'p \<Rightarrow> (string \<times> go_err) \<times> 'p"
  bIsFreeIPAtIndex :: "u64 \<Rightarrow> 'p \<Rightarrow> bool"
  bGetMACIndex :: "u64 \<Rightarrow> 'p \<Rightarrow> u64 \<times> string \<times> go_err"
  bGetFreeIPIndex :: "choice \<Rightarrow> string \<Rightarrow> 'p \<Rightarrow> (u64 \<times> string \<times> go_err) \<times> 'p"
  bIndexInPool :: "u64 \<Rightarrow> 'p \<Rightarrow> bool"
  bFreeIPsRemaining :: "'p \<Rightarrow> u64"
  bFreeIPIndex :: "int \<Rightarrow> u64 \<Rightarrow> 'p \<Rightarrow> go_err \<times> 'p"
  bCapacity :: "'p \<Rightarrow> u64"
  bGetIssues :: "string list \<Rightarrow> 'p \<Rightarrow> string list \<times> (u64, string) gomap"
  bListen :: bool

section \<open>memory.go\<close>

record Memory =
  mem_PoolName :: string
  mem_DHCPPool :: DHCPPool

definition Memory_NewDHCPPool :: "(u64 \<Rightarrow> int) \<Rightarrow> u64 \<Rightarrow> int \<Rightarrow> Memory \<Rightarrow> Memory" where
  "Memory_NewDHCPPool now capacity algorithm dp =
     (let d = \<lparr>pool_free = fmempty, pool_mac = fmempty, pool_capacity = capacity,
               pool_released = fmempty, pool_algorithm = algorithm\<rparr>;
          d' = fold (\<lambda>i d. d\<lparr>pool_free := fmupd i True (pool_free d),
                               pool_released := fmupd i (now i) (pool_released d)\<rparr>)
                 (u64_upto capacity) d
      in dp\<lparr>mem_DHCPPool := d'\<rparr>)"

definition NewMemoryPool :: "(u64 \<Rightarrow> int) \<Rightarrow> u64 \<Rightarrow> string \<Rightarrow> int \<Rightarrow> Memory \<times> go_err" where
  "NewMemoryPool now capacity name algorithm =
     (let zero = \<lparr>pool_free = fmempty, pool_mac = fmempty, pool_capacity = 0,
                  pool_released = fmempty, pool_algorithm = 0\<rparr>;
          Pool = \<lparr>mem_PoolName = name, mem_DHCPPool = zero\<rparr>
      in (Memory_NewDHCPPool now capacity algorithm Pool, None))"

definition Memory_GetDHCPPool :: "Memory \<Rightarrow> DHCPPool" where
  "Memory_GetDHCPPool dp = mem_DHCPPool dp"

text \<open>
  \<open>GetIssues\<close>, on the pool data (the MySQL backend has the same body). The flag
  \<open>found\<close> is declared outside the loop and never reset, as in the source.
\<close>

definition issues_seen :: "string \<Rightarrow> string list \<Rightarrow> bool \<Rightarrow> bool" where
  "issues_seen m macs found = fold (\<lambda>mac found. if m = mac then True else found) macs found"

definition issues_step1 ::
  "DHCPPool \<Rightarrow> string list \<Rightarrow> u64 \<Rightarrow> bool \<times> string list \<Rightarrow> bool \<times> string list" where
  "issues_step1 d macs i st =
     (case st of (found, acc) \<Rightarrow>
        if gm_get False (pool_free d) i then (found, acc)
        else let found' = issues_seen (gm_get [] (pool_mac d) i) macs found
             in (found', if \<not> found'
                         then acc @ [gm_get [] (pool_mac d) i @ '', '' @ strconv_Itoa (sint i)]
                         else acc))"

definition issues_step2 ::
  "DHCPPool \<Rightarrow> string \<Rightarrow> u64 \<Rightarrow> nat \<times> u64 \<times> (u64, string) gomap \<Rightarrow> nat \<times> u64 \<times> (u64, string) gomap" where
  "issues_step2 d mac i st =
     (case st of (count, saveindex, dup) \<Rightarrow>
        if gm_get False (pool_free d) i then st
        else if gm_get [] (pool_mac d) i = mac then
          (let saveindex' = (if count = 0 then i else saveindex);
               dup' = (if count = 1 then fmupd i mac (fmupd saveindex' mac dup)
                       else if count > 1 then fmupd i mac dup else dup)
           in (count + 1, saveindex', dup'))
        else st)"

definition pool_GetIssues :: "DHCPPool \<Rightarrow> string list \<Rightarrow> string list \<times> (u64, string) gomap" where
  "pool_GetIssues d macs =
     (let inPoolNotInCache = snd (fold (issues_step1 d macs) (u64_upto (pool_capacity d)) (False, []));
          duplicateInPool = fold (\<lambda>mac dup. snd (snd (fold (issues_step2 d mac)
                                     (u64_upto (pool_capacity d)) (0, 0, dup)))) macs fmempty
      in (inPoolNotInCache, duplicateInPool))"

definition Memory_GetIssues :: "string list \<Rightarrow> Memory \<Rightarrow> string list \<times> (u64, string) gomap" where
  "Memory_GetIssues macs dp = pool_GetIssues (mem_DHCPPool dp) macs"

definition Memory_IndexInPool :: "u64 \<Rightarrow> Memory \<Rightarrow> bool" where
  "Memory_IndexInPool index dp \<longleftrightarrow> index < pool_capacity (mem_DHCPPool dp)"

definition Memory_ReserveIPIndex :: "u64 \<Rightarrow> string \<Rightarrow> Memory \<Rightarrow> (string \<times> go_err) \<times> Memory" where
  "Memory_ReserveIPIndex index mac dp =
     (let d = mem_DHCPPool dp in
      if index \<ge> pool_capacity d then
        ((FreeMac, Some ''Trying to reserve an IP that is outside the capacity of this pool''), dp)
      else if gm_has (pool_free d) index then
        ((mac, None),
         dp\<lparr>mem_DHCPPool := d\<lparr>pool_free := fmdrop index (pool_free d),
                                 pool_mac := fmupd index mac (pool_mac d)\<rparr>\<rparr>)
      else ((FreeMac, Some ''IP is already reserved''), dp))"

definition Memory_FreeIPIndex :: "int \<Rightarrow> u64 \<Rightarrow> Memory \<Rightarrow> go_err \<times> Memory" where
  "Memory_FreeIPIndex now index dp =
     (let d = mem_DHCPPool dp in
      if \<not> Memory_IndexInPool index dp then
        (Some ''Trying to free an IP that is outside the capacity of this pool'', dp)
      else if gm_has (pool_free d) index then (Some ''IP is already free'', dp)
      else (None,
            dp\<lparr>mem_DHCPPool := d\<lparr>pool_free := fmupd index True (pool_free d),
                                    pool_released := fmupd index now (pool_released d),
                                    pool_mac := fmdrop index (pool_mac d)\<rparr>\<rparr>))"

definition Memory_IsFreeIPAtIndex :: "u64 \<Rightarrow> Memory \<Rightarrow> bool" where
  "Memory_IsFreeIPAtIndex index dp =
     (if \<not> Memory_IndexInPool index dp then False
      else if gm_has (pool_free (mem_DHCPPool dp)) index then True else False)"

definition Memory_GetMACIndex :: "u64 \<Rightarrow> Memory \<Rightarrow> u64 \<times> string \<times> go_err" where
  "Memory_GetMACIndex index dp =
     (if \<not> Memory_IndexInPool index dp then
        (index, FreeMac, Some ''The index is not part of the pool'')
      else if gm_has (pool_free (mem_DHCPPool dp)) index then (index, FreeMac, None)
      else (index, gm_get [] (pool_mac (mem_DHCPPool dp)) index, None))"

text \<open>
  The two searches of \<open>GetFreeIPIndex\<close>. \<open>sort.Slice\<close> sorts the entries by release
  time; the entries come in an arbitrary order, so a stable sort reaches every outcome an
  unstable one has.
\<close>

definition oldest_released :: "(u64 \<Rightarrow> nat) \<Rightarrow> DHCPPool \<Rightarrow> u64" where
  "oldest_released prio d =
     (let ss = map (\<lambda>k. (k, gm_get 0 (pool_released d) k)) (range_keys prio (pool_released d))
      in case sort_key snd ss of [] \<Rightarrow> 0 | kv # _ \<Rightarrow> fst kv)"

fun pick_range :: "nat \<Rightarrow> u64 list \<Rightarrow> u64 \<Rightarrow> u64" where
  "pick_range index [] available = available"
| "pick_range index (k # ks) available = (if index = 0 then k else pick_range (index - 1) ks k)"

definition Memory_GetFreeIPIndex ::
  "choice \<Rightarrow> string \<Rightarrow> Memory \<Rightarrow> (u64 \<times> string \<times> go_err) \<times> Memory" where
  "Memory_GetFreeIPIndex ch mac dp =
     (let d = mem_DHCPPool dp in
      if gm_len (pool_free d) = 0 then ((0, FreeMac, Some ''DHCP pool is full''), dp)
      else
        let available =
              (if pool_algorithm d = OldestReleased then oldest_released (fst ch) d
               else pick_range (rand_Intn (snd ch) (gm_len (pool_free d)))
                      (range_keys (fst ch) (pool_free d)) 0)
        in ((available, mac, None),
            dp\<lparr>mem_DHCPPool := d\<lparr>pool_free := fmdrop available (pool_free d),
                                    pool_mac := fmupd available mac (pool_mac d)\<rparr>\<rparr>))"

definition Memory_FreeIPsRemaining :: "Memory \<Rightarrow> u64" where
  "Memory_FreeIPsRemaining dp = of_nat (gm_len (pool_free (mem_DHCPPool dp)))"

definition Memory_Capacity :: "Memory \<Rightarrow> u64" where
  "Memory_Capacity dp = pool_capacity (mem_DHCPPool dp)"

definition Memory_Listen :: bool where
  "Memory_Listen = False"

definition memory_backend :: "Memory Backend" where
  "memory_backend =
     \<lparr>bReserveIPIndex = Memory_ReserveIPIndex, bIsFreeIPAtIndex = Memory_IsFreeIPAtIndex,
      bGetMACIndex = Memory_GetMACIndex, bGetFreeIPIndex = Memory_GetFreeIPIndex,
      bIndexInPool = Memory_IndexInPool, bFreeIPsRemaining = Memory_FreeIPsRemaining,
      bFreeIPIndex = Memory_FreeIPIndex, bCapacity = Memory_Capacity,
      bGetIssues = Memory_GetIssues, bListen = Memory_Listen\<rparr>"

section \<open>The invariant of the in-memory pool\<close>

text \<open>
  Inside the capacity every index is either free or has an owner, never both; outside it
  there is nothing; and every index of the pool has a release time.
\<close>

definition mem_inv :: "Memory \<Rightarrow> bool" where
  "mem_inv dp \<longleftrightarrow>
     (let d = mem_DHCPPool dp in
      (\<forall>i. gm_has (pool_free d) i \<longrightarrow> i < pool_capacity d) \<and>
      (\<forall>i. gm_has (pool_mac d) i \<longrightarrow> i < pool_capacity d) \<and>
      (\<forall>i. i < pool_capacity d \<longrightarrow> gm_has (pool_free d) i = (\<not> gm_has (pool_mac d) i)) \<and>
      (\<forall>i. gm_has (pool_free d) i = gm_get False (pool_free d) i) \<and>
      (\<forall>i. gm_has (pool_released d) i = (i < pool_capacity d)))"

definition mem_owner :: "Memory \<Rightarrow> u64 \<Rightarrow> string option" where
  "mem_owner dp i = fmlookup (pool_mac (mem_DHCPPool dp)) i"

named_theorems memory_defs \<open>the operations of the in-memory backend\<close>

lemmas [memory_defs] =
  Memory_ReserveIPIndex_def Memory_FreeIPIndex_def Memory_IsFreeIPAtIndex_def Memory_GetMACIndex_def
  Memory_GetFreeIPIndex_def Memory_FreeIPsRemaining_def Memory_Capacity_def Memory_IndexInPool_def
  Memory_GetIssues_def Memory_Listen_def

lemma mem_owner_None: "mem_owner dp i = None \<longleftrightarrow> \<not> gm_has (pool_mac (mem_DHCPPool dp)) i"
  by (simp add: mem_owner_def gm_has_def)

lemma mem_inv_free_iff:
  assumes "mem_inv dp" and "i < pool_capacity (mem_DHCPPool dp)"
  shows "gm_has (pool_free (mem_DHCPPool dp)) i \<longleftrightarrow> mem_owner dp i = None"
  using assms by (auto simp: mem_inv_def Let_def mem_owner_None)

lemma mem_inv_free_less:
  "mem_inv dp \<Longrightarrow> gm_has (pool_free (mem_DHCPPool dp)) i \<Longrightarrow> i < pool_capacity (mem_DHCPPool dp)"
  by (auto simp: mem_inv_def Let_def)

lemma mem_inv_free_unowned:
  "mem_inv dp \<Longrightarrow> gm_has (pool_free (mem_DHCPPool dp)) i \<Longrightarrow> mem_owner dp i = None"
  using mem_inv_free_iff mem_inv_free_less by blast

lemma mem_inv_owner_less:
  "mem_inv dp \<Longrightarrow> mem_owner dp i = Some m \<Longrightarrow> i < pool_capacity (mem_DHCPPool dp)"
  by (auto simp: mem_inv_def Let_def mem_owner_def gm_has_iff)


lemma fold_new_free:
  "fmlookup (pool_free (fold (\<lambda>i d. d\<lparr>pool_free := fmupd i True (pool_free d),
      pool_released := fmupd i (now i) (pool_released d)\<rparr>) xs d)) i =
   (if i \<in> set xs then Some True else fmlookup (pool_free d) i)"
  by (induction xs arbitrary: d) auto

lemma fold_new_released:
  "gm_has (pool_released (fold (\<lambda>i d. d\<lparr>pool_free := fmupd i True (pool_free d),
      pool_released := fmupd i (now i) (pool_released d)\<rparr>) xs d)) i =
   (i \<in> set xs \<or> gm_has (pool_released d) i)"
  by (induction xs arbitrary: d) auto

lemma fold_new_rest:
  "pool_mac (fold (\<lambda>i d. d\<lparr>pool_free := fmupd i True (pool_free d),
      pool_released := fmupd i (now i) (pool_released d)\<rparr>) xs d) = pool_mac d"
  "pool_capacity (fold (\<lambda>i d. d\<lparr>pool_free := fmupd i True (pool_free d),
      pool_released := fmupd i (now i) (pool_released d)\<rparr>) xs d) = pool_capacity d"
  "pool_algorithm (fold (\<lambda>i d. d\<lparr>pool_free := fmupd i True (pool_free d),
      pool_released := fmupd i (now i) (pool_released d)\<rparr>) xs d) = pool_algorithm d"
  by (induction xs arbitrary: d) auto

lemma NewMemoryPool_fields:
  assumes "NewMemoryPool now cap name alg = (dp, e)"
  shows "e = None" "mem_PoolName dp = name" "pool_capacity (mem_DHCPPool dp) = cap"
    "pool_algorithm (mem_DHCPPool dp) = alg" "mem_owner dp = (\<lambda>_. None)" "mem_inv dp"
proof -
  let ?d = "\<lparr>pool_free = fmempty, pool_mac = fmempty, pool_capacity = cap,
             pool_released = fmempty, pool_algorithm = alg\<rparr>"
  let ?f = "\<lambda>i d. d\<lparr>pool_free := fmupd i True (pool_free d),
                      pool_released := fmupd i (now i) (pool_released d)\<rparr>"
  from assms have dp: "dp = \<lparr>mem_PoolName = name, mem_DHCPPool = fold ?f (u64_upto cap) ?d\<rparr>" "e = None"
    by (simp_all add: NewMemoryPool_def Memory_NewDHCPPool_def Let_def)
  have free: "gm_has (pool_free (fold ?f (u64_upto cap) ?d)) i = (i < cap)"
    "gm_get False (pool_free (fold ?f (u64_upto cap) ?d)) i = (i < cap)" for i
    by (auto simp: gm_has_def gm_get_def fold_new_free)
  show "e = None" "mem_PoolName dp = name" "pool_capacity (mem_DHCPPool dp) = cap"
    "pool_algorithm (mem_DHCPPool dp) = alg" "mem_owner dp = (\<lambda>_. None)"
    by (simp_all add: dp fold_new_rest mem_owner_def fun_eq_iff)
  show "mem_inv dp"
    by (simp add: mem_inv_def dp fold_new_rest fold_new_released free)
qed

section \<open>Every operation keeps the invariant\<close>

lemma mem_inv_reserve:
  "mem_inv dp \<Longrightarrow> Memory_ReserveIPIndex i m dp = (r, dp') \<Longrightarrow> mem_inv dp'"
  by (auto simp: mem_inv_def memory_defs Let_def split: if_splits)

lemma mem_inv_free:
  "mem_inv dp \<Longrightarrow> Memory_FreeIPIndex now i dp = (r, dp') \<Longrightarrow> mem_inv dp'"
  by (auto simp: mem_inv_def memory_defs Let_def split: if_splits)

lemma pick_range_nth: "n < length ks \<Longrightarrow> pick_range n ks a = ks ! n"
  by (induction n ks a rule: pick_range.induct) (auto simp: nth_Cons')

lemma pick_range_free:
  assumes "gm_len m \<noteq> 0"
  shows "gm_has m (pick_range (rand_Intn seed (gm_len m)) (range_keys prio m) a)"
proof -
  let ?n = "rand_Intn seed (gm_len m)"
  have "?n < length (range_keys prio m)" using assms by (simp add: rand_Intn_less)
  then have "range_keys prio m ! ?n \<in> set (range_keys prio m)" by (rule nth_mem)
  with \<open>?n < _\<close> show ?thesis by (simp add: pick_range_nth)
qed

lemma sort_key_hd:
  assumes "xs \<noteq> []"
  obtains x rest where "sort_key f xs = x # rest" "x \<in> set xs" "\<And>y. y \<in> set xs \<Longrightarrow> f x \<le> f y"
proof -
  obtain x rest where x: "sort_key f xs = x # rest"
    using assms by (cases "sort_key f xs") (auto dest: arg_cong [where f = length])
  have "sorted (map f (x # rest))" using sorted_sort_key [of f xs] x by simp
  moreover have "set (x # rest) = set xs" using set_sort [of f xs] x by simp
  ultimately have "\<And>y. y \<in> set xs \<Longrightarrow> f x \<le> f y" "x \<in> set xs" by auto
  with x that show thesis by blast
qed

lemma oldest_released_min:
  assumes "gm_has (pool_released d) j"
  shows "gm_has (pool_released d) (oldest_released prio d)"
    and "gm_has (pool_released d) k \<Longrightarrow>
      gm_get 0 (pool_released d) (oldest_released prio d) \<le> gm_get 0 (pool_released d) k"
proof -
  let ?ss = "map (\<lambda>k. (k, gm_get 0 (pool_released d) k)) (range_keys prio (pool_released d))"
  have "j \<in> set (range_keys prio (pool_released d))" using assms by simp
  then have "?ss \<noteq> []" by (cases "range_keys prio (pool_released d)") simp_all
  then obtain x rest where x: "sort_key snd ?ss = x # rest" "x \<in> set ?ss"
      "\<And>y. y \<in> set ?ss \<Longrightarrow> snd x \<le> snd y"
    using sort_key_hd [of ?ss snd] by blast
  have old: "oldest_released prio d = fst x" using x(1) by (simp add: oldest_released_def)
  with x(2) show "gm_has (pool_released d) (oldest_released prio d)" by auto
  show "gm_has (pool_released d) k \<Longrightarrow>
      gm_get 0 (pool_released d) (oldest_released prio d) \<le> gm_get 0 (pool_released d) k"
    using x(2) x(3) [of "(k, gm_get 0 (pool_released d) k)"] old by auto
qed

lemma mem_inv_nonempty:
  assumes "mem_inv dp" and "gm_len (pool_free (mem_DHCPPool dp)) \<noteq> 0"
  obtains j where "j < pool_capacity (mem_DHCPPool dp)" "mem_owner dp j = None"
  using assms mem_inv_free_less mem_inv_free_unowned unfolding gm_len_0_iff by blast

lemma mem_inv_give:
  assumes "mem_inv dp" and "a < pool_capacity (mem_DHCPPool dp)"
  shows "mem_inv (dp\<lparr>mem_DHCPPool := (mem_DHCPPool dp)
    \<lparr>pool_free := fmdrop a (pool_free (mem_DHCPPool dp)), pool_mac := fmupd a m (pool_mac (mem_DHCPPool dp))\<rparr>\<rparr>)"
  using assms by (auto simp: mem_inv_def Let_def)

lemma mem_inv_get_free:
  assumes "mem_inv dp" and "Memory_GetFreeIPIndex ch m dp = (r, dp')"
  shows "mem_inv dp'"
proof (cases "gm_len (pool_free (mem_DHCPPool dp)) = 0")
  case True
  with assms show ?thesis by (simp add: memory_defs Let_def)
next
  case False
  let ?d = "mem_DHCPPool dp"
  let ?a = "if pool_algorithm ?d = OldestReleased then oldest_released (fst ch) ?d
            else pick_range (rand_Intn (snd ch) (gm_len (pool_free ?d))) (range_keys (fst ch) (pool_free ?d)) 0"
  from mem_inv_nonempty [OF assms(1) False] obtain j where "j < pool_capacity ?d" .
  then have "gm_has (pool_released ?d) j" using assms(1) by (simp add: mem_inv_def Let_def)
  then have "oldest_released (fst ch) ?d < pool_capacity ?d"
    using assms(1) oldest_released_min(1) [of ?d j "fst ch"] by (simp add: mem_inv_def Let_def)
  moreover have "pick_range (rand_Intn (snd ch) (gm_len (pool_free ?d)))
      (range_keys (fst ch) (pool_free ?d)) 0 < pool_capacity ?d"
    using mem_inv_free_less [OF assms(1) pick_range_free [OF False]] .
  ultimately have "?a < pool_capacity ?d" by simp
  from mem_inv_give [OF assms(1) this, of m] show ?thesis
    using assms(2) False by (simp only: Memory_GetFreeIPIndex_def Let_def if_False prod.inject)
qed

section \<open>The contract of a pool backend\<close>

text \<open>
  The laws the DHCP server needs of any backend. \<open>owner p i\<close> is the MAC address that
  holds index \<open>i\<close>, \<open>None\<close> when the index is free. \<open>lease_store\<close> is what every
  backend keeps; \<open>pool_backend\<close> adds that free indexes are found and reported as free.
\<close>

locale lease_store =
  fixes B :: "'p Backend"
    and inv :: "'p \<Rightarrow> bool"
    and owner :: "'p \<Rightarrow> u64 \<Rightarrow> string option"
  assumes owner_bound: "inv p \<Longrightarrow> owner p i = Some m \<Longrightarrow> i < bCapacity B p"
    and in_pool: "inv p \<Longrightarrow> bIndexInPool B i p \<longleftrightarrow> i < bCapacity B p"
    and reserve_ok: "inv p \<Longrightarrow> i < bCapacity B p \<Longrightarrow> owner p i = None \<Longrightarrow>
      \<exists>p'. bReserveIPIndex B i m p = ((m, None), p') \<and> inv p' \<and> owner p' = (owner p)(i \<mapsto> m) \<and>
           bCapacity B p' = bCapacity B p"
    and reserve_err: "inv p \<Longrightarrow> \<not> (i < bCapacity B p \<and> owner p i = None) \<Longrightarrow>
      \<exists>e. bReserveIPIndex B i m p = ((FreeMac, Some e), p)"
    and free_ok: "inv p \<Longrightarrow> owner p i = Some m \<Longrightarrow>
      \<exists>p'. bFreeIPIndex B now i p = (None, p') \<and> inv p' \<and> owner p' = (owner p)(i := None) \<and>
           bCapacity B p' = bCapacity B p"
    and free_err: "inv p \<Longrightarrow> owner p i = None \<Longrightarrow> \<exists>e. bFreeIPIndex B now i p = (Some e, p)"
    and get_mac_owned: "inv p \<Longrightarrow> owner p i = Some m \<Longrightarrow> bGetMACIndex B i p = (i, m, None)"
    and get_mac_err: "inv p \<Longrightarrow> \<not> i < bCapacity B p \<Longrightarrow>
      \<exists>e. bGetMACIndex B i p = (i, FreeMac, Some e)"
    and remaining: "inv p \<Longrightarrow>
      unat (bFreeIPsRemaining B p) = card {i. i < bCapacity B p \<and> owner p i = None}"
    and get_free_safe: "inv p \<Longrightarrow> bGetFreeIPIndex B ch m p = ((i, m', e), p') \<Longrightarrow>
      inv p' \<and> bCapacity B p' = bCapacity B p \<and>
      (e = None \<and> m' = m \<and> i < bCapacity B p \<and> owner p i = None \<and> owner p' = (owner p)(i \<mapsto> m) \<or>
       e \<noteq> None \<and> m' = FreeMac \<and> owner p' = owner p)"

locale pool_backend = lease_store B inv owner
  for B :: "'p Backend" and inv :: "'p \<Rightarrow> bool" and owner :: "'p \<Rightarrow> u64 \<Rightarrow> string option" +
  assumes is_free: "inv p \<Longrightarrow> bIsFreeIPAtIndex B i p \<longleftrightarrow> i < bCapacity B p \<and> owner p i = None"
    and get_mac: "inv p \<Longrightarrow> i < bCapacity B p \<Longrightarrow>
      bGetMACIndex B i p = (i, case owner p i of None \<Rightarrow> FreeMac | Some m \<Rightarrow> m, None)"
    and get_free_ok: "inv p \<Longrightarrow> j < bCapacity B p \<Longrightarrow> owner p j = None \<Longrightarrow>
      \<exists>i p'. bGetFreeIPIndex B ch m p = ((i, m, None), p') \<and> i < bCapacity B p \<and> owner p i = None \<and>
             inv p' \<and> owner p' = (owner p)(i \<mapsto> m) \<and> bCapacity B p' = bCapacity B p"
    and get_free_err: "inv p \<Longrightarrow> \<forall>j < bCapacity B p. owner p j \<noteq> None \<Longrightarrow>
      \<exists>e. bGetFreeIPIndex B ch m p = ((0, FreeMac, Some e), p)"

text \<open>Sequences of calls that change the pool, and what they return.\<close>

datatype pool_op = OpReserve u64 string | OpFree int u64 | OpGetFree choice string

datatype pool_res = RMac string go_err | RErr go_err | RIndex u64 string go_err

fun pool_exec :: "'p Backend \<Rightarrow> pool_op \<Rightarrow> 'p \<Rightarrow> pool_res \<times> 'p" where
  "pool_exec B (OpReserve i m) p = (case bReserveIPIndex B i m p of ((m', e), p') \<Rightarrow> (RMac m' e, p'))"
| "pool_exec B (OpFree now i) p = (case bFreeIPIndex B now i p of (e, p') \<Rightarrow> (RErr e, p'))"
| "pool_exec B (OpGetFree ch m) p =
     (case bGetFreeIPIndex B ch m p of ((i, m', e), p') \<Rightarrow> (RIndex i m' e, p'))"

fun pool_run :: "'p Backend \<Rightarrow> pool_op list \<Rightarrow> 'p \<Rightarrow> pool_res list \<times> 'p" where
  "pool_run B [] p = ([], p)"
| "pool_run B (x # xs) p =
     (case pool_exec B x p of (r, p') \<Rightarrow> case pool_run B xs p' of (rs, p'') \<Rightarrow> (r # rs, p''))"

context lease_store
begin

lemma reserve_cases:
  assumes "inv p" and "bReserveIPIndex B i m p = ((m', e), p')"
  obtains (ok) "i < bCapacity B p" "owner p i = None" "m' = m" "e = None" "inv p'"
      "owner p' = (owner p)(i \<mapsto> m)" "bCapacity B p' = bCapacity B p"
  | (err) "\<not> (i < bCapacity B p \<and> owner p i = None)" "m' = FreeMac" "e \<noteq> None" "p' = p"
proof (cases "i < bCapacity B p \<and> owner p i = None")
  case True
  with reserve_ok [OF assms(1), of i m] assms(2) ok show thesis by auto
next
  case False
  with reserve_err [OF assms(1), of i m] assms(2) err show thesis by auto
qed

lemma free_cases:
  assumes "inv p" and "bFreeIPIndex B now i p = (e, p')"
  obtains (ok) m where "owner p i = Some m" "e = None" "inv p'"
      "owner p' = (owner p)(i := None)" "bCapacity B p' = bCapacity B p"
  | (err) "owner p i = None" "e \<noteq> None" "p' = p"
proof (cases "owner p i")
  case (Some m)
  with free_ok [OF assms(1), of i m now] assms(2) ok show thesis by auto
next
  case None
  with free_err [OF assms(1), of i now] assms(2) err show thesis by auto
qed

lemma exec_inv:
  assumes inv: "inv p" and ex: "pool_exec B x p = (r, p')"
  shows "inv p' \<and> bCapacity B p' = bCapacity B p"
proof (cases x)
  case (OpReserve i m)
  with ex obtain m' e where eq: "bReserveIPIndex B i m p = ((m', e), p')" by (auto split: prod.splits)
  show ?thesis by (rule reserve_cases [OF inv eq]) (simp_all add: inv)
next
  case (OpFree now i)
  with ex obtain e where eq: "bFreeIPIndex B now i p = (e, p')" by (auto split: prod.splits)
  show ?thesis by (rule free_cases [OF inv eq]) (simp_all add: inv)
next
  case (OpGetFree ch m)
  with ex obtain i m' e where eq: "bGetFreeIPIndex B ch m p = ((i, m', e), p')" by (auto split: prod.splits)
  show ?thesis using get_free_safe [OF inv eq] by simp
qed

lemma run_inv:
  assumes "inv p" and "pool_run B xs p = (rs, p')"
  shows "inv p' \<and> bCapacity B p' = bCapacity B p"
  using assms
proof (induction xs arbitrary: p rs)
  case (Cons x xs)
  then obtain r q rs' where q: "pool_exec B x p = (r, q)" "pool_run B xs q = (rs', p')"
    by (auto split: prod.splits)
  with exec_inv [OF Cons.prems(1) q(1)] Cons.IH [of q rs'] show ?case by simp
qed simp

lemma exec_keeps_owner:
  assumes inv: "inv p" and own: "owner p i = Some m" and nofree: "\<forall>now. x \<noteq> OpFree now i"
    and ex: "pool_exec B x p = (r, p')"
  shows "owner p' i = Some m \<and> r \<noteq> RIndex i m' None"
proof (cases x)
  case (OpReserve j n)
  with ex obtain n' e where eq: "bReserveIPIndex B j n p = ((n', e), p')" "r = RMac n' e"
    by (auto split: prod.splits)
  show ?thesis by (rule reserve_cases [OF inv eq(1)]) (use own eq(2) in auto)
next
  case (OpFree now j)
  with ex nofree obtain e where eq: "bFreeIPIndex B now j p = (e, p')" "r = RErr e" "j \<noteq> i"
    by (auto split: prod.splits)
  show ?thesis by (rule free_cases [OF inv eq(1)]) (use own eq(2,3) in auto)
next
  case (OpGetFree ch n)
  with ex obtain j n' e where eq: "bGetFreeIPIndex B ch n p = ((j, n', e), p')" "r = RIndex j n' e"
    by (auto split: prod.splits)
  show ?thesis using get_free_safe [OF inv eq(1)] own eq(2) by auto
qed

lemma run_keeps_owner:
  assumes "inv p" and "owner p i = Some m" and "\<forall>now. OpFree now i \<notin> set xs"
    and "pool_run B xs p = (rs, p')"
  shows "owner p' i = Some m \<and> (\<forall>m'. RIndex i m' None \<notin> set rs)"
  using assms
proof (induction xs arbitrary: p rs)
  case Nil
  then show ?case by simp
next
  case (Cons x xs)
  obtain r q rs' where q: "pool_exec B x p = (r, q)" "pool_run B xs q = (rs', p')" "rs = r # rs'"
    using Cons.prems(4) by (auto split: prod.splits)
  from Cons.prems(3) have x: "\<forall>now. x \<noteq> OpFree now i" and xs: "\<forall>now. OpFree now i \<notin> set xs" by auto
  from exec_inv [OF Cons.prems(1) q(1)] have invq: "inv q" by simp
  from exec_keeps_owner [OF Cons.prems(1,2) x q(1)] have ownq: "owner q i = Some m"
    and r: "\<And>m'. r \<noteq> RIndex i m' None" by auto
  from Cons.IH [OF invq ownq xs q(2)] q(3) r show ?case by auto
qed

lemma owned_plus_free:
  assumes "inv p"
  shows "unat (bFreeIPsRemaining B p) + card {i. \<exists>m. owner p i = Some m} = unat (bCapacity B p)"
proof -
  let ?free = "{i. i < bCapacity B p \<and> owner p i = None}" and ?own = "{i. \<exists>m. owner p i = Some m}"
  have un: "?free \<union> ?own = {i. i < bCapacity B p}" using owner_bound [OF assms] by auto
  have "card (?free \<union> ?own) = card ?free + card ?own"
    by (rule card_Un_disjoint) auto
  then have "card ?free + card ?own = card {i. i < bCapacity B p}" by (simp only: un)
  then show ?thesis by (simp add: remaining [OF assms] card_below_u64)
qed

lemma remaining_pos: "inv p \<Longrightarrow> 0 < bFreeIPsRemaining B p \<longleftrightarrow> (\<exists>j < bCapacity B p. owner p j = None)"
  using remaining [of p] by (auto simp: word_less_nat_alt card_gt_0_iff)

end

context pool_backend
begin

lemma get_free_cases:
  assumes "inv p" and "bGetFreeIPIndex B ch m p = ((i, m', e), p')"
  obtains (ok) "i < bCapacity B p" "owner p i = None" "m' = m" "e = None" "inv p'"
      "owner p' = (owner p)(i \<mapsto> m)" "bCapacity B p' = bCapacity B p"
  | (err) "\<forall>j < bCapacity B p. owner p j \<noteq> None" "m' = FreeMac" "e \<noteq> None" "p' = p"
proof (cases "\<forall>j < bCapacity B p. owner p j \<noteq> None")
  case True
  with get_free_err [OF assms(1) True, of ch m] assms(2) err show thesis by auto
next
  case False
  then obtain j where "j < bCapacity B p" "owner p j = None" by auto
  with get_free_ok [OF assms(1), of j ch m] assms(2) ok show thesis by auto
qed

end

lemma mem_free_count:
  assumes "mem_inv dp"
  shows "unat (Memory_FreeIPsRemaining dp) =
    card {i. i < pool_capacity (mem_DHCPPool dp) \<and> mem_owner dp i = None}"
proof -
  let ?d = "mem_DHCPPool dp"
  have eq: "{i. gm_has (pool_free ?d) i} = {i. i < pool_capacity ?d \<and> mem_owner dp i = None}"
    using assms mem_inv_free_less mem_inv_free_unowned by (auto simp: mem_inv_free_iff)
  have "card {i. gm_has (pool_free ?d) i} \<le> card {i. i < pool_capacity ?d}"
    by (intro card_mono) (auto simp: assms dest: mem_inv_free_less [OF assms])
  then have "gm_len (pool_free ?d) < 2 ^ 64"
    using unat_u64_bound [of "pool_capacity ?d"] by (simp add: gm_len_card card_below_u64)
  then have "unat (of_nat (gm_len (pool_free ?d)) :: u64) = gm_len (pool_free ?d)"
    by (rule unat_of_nat_u64)
  then show ?thesis by (simp add: Memory_FreeIPsRemaining_def gm_len_card eq)
qed

definition mem_random_inv :: "Memory \<Rightarrow> bool" where
  "mem_random_inv dp \<longleftrightarrow> mem_inv dp \<and> pool_algorithm (mem_DHCPPool dp) \<noteq> OldestReleased"

lemma mem_get_free_ok:
  assumes "mem_random_inv dp" "j < pool_capacity (mem_DHCPPool dp)" "mem_owner dp j = None"
  shows "\<exists>i dp'. Memory_GetFreeIPIndex ch m dp = ((i, m, None), dp') \<and> i < pool_capacity (mem_DHCPPool dp) \<and>
    mem_owner dp i = None \<and> mem_random_inv dp' \<and> mem_owner dp' = (mem_owner dp)(i \<mapsto> m) \<and>
    pool_capacity (mem_DHCPPool dp') = pool_capacity (mem_DHCPPool dp)"
proof -
  let ?d = "mem_DHCPPool dp"
  from assms have inv: "mem_inv dp" by (simp add: mem_random_inv_def)
  with assms have "gm_has (pool_free ?d) j" by (simp add: mem_inv_free_iff)
  then have ne: "gm_len (pool_free ?d) \<noteq> 0" by (auto simp: gm_len_0_iff)
  obtain r dp' where r: "Memory_GetFreeIPIndex ch m dp = (r, dp')" by fastforce
  let ?a = "pick_range (rand_Intn (snd ch) (gm_len (pool_free ?d))) (range_keys (fst ch) (pool_free ?d)) 0"
  have a: "gm_has (pool_free ?d) ?a" using pick_range_free [OF ne] .
  then have "?a < pool_capacity ?d" "mem_owner dp ?a = None"
    using inv mem_inv_free_less mem_inv_free_unowned by blast+
  moreover have "mem_inv dp'" by (rule mem_inv_get_free [OF inv r])
  ultimately show ?thesis using r ne assms(1)
    by (auto simp: memory_defs Let_def mem_random_inv_def mem_owner_def fun_eq_iff)
qed

lemma mem_get_free_err:
  assumes "mem_inv dp" "\<forall>j < pool_capacity (mem_DHCPPool dp). mem_owner dp j \<noteq> None"
  shows "Memory_GetFreeIPIndex ch m dp = ((0, FreeMac, Some ''DHCP pool is full''), dp)"
proof -
  have "gm_len (pool_free (mem_DHCPPool dp)) = 0"
    using assms mem_inv_nonempty [OF assms(1)] by blast
  then show ?thesis by (simp add: memory_defs Let_def)
qed

lemma mem_reserve_ok:
  assumes "mem_random_inv dp" "i < pool_capacity (mem_DHCPPool dp)" "mem_owner dp i = None"
  shows "\<exists>dp'. Memory_ReserveIPIndex i m dp = ((m, None), dp') \<and> mem_random_inv dp' \<and>
    mem_owner dp' = (mem_owner dp)(i \<mapsto> m) \<and> pool_capacity (mem_DHCPPool dp') = pool_capacity (mem_DHCPPool dp)"
proof -
  from assms have inv: "mem_inv dp" by (simp add: mem_random_inv_def)
  obtain r dp' where r: "Memory_ReserveIPIndex i m dp = (r, dp')" by fastforce
  have "gm_has (pool_free (mem_DHCPPool dp)) i" using inv assms by (simp add: mem_inv_free_iff)
  moreover have "mem_inv dp'" by (rule mem_inv_reserve [OF inv r])
  ultimately show ?thesis using r assms
    by (auto simp: Memory_ReserveIPIndex_def Let_def mem_random_inv_def mem_owner_def fun_eq_iff split: if_splits)
qed

lemma mem_free_ok:
  assumes "mem_random_inv dp" "mem_owner dp i = Some m"
  shows "\<exists>dp'. Memory_FreeIPIndex now i dp = (None, dp') \<and> mem_random_inv dp' \<and>
    mem_owner dp' = (mem_owner dp)(i := None) \<and> pool_capacity (mem_DHCPPool dp') = pool_capacity (mem_DHCPPool dp)"
proof -
  from assms have inv: "mem_inv dp" by (simp add: mem_random_inv_def)
  obtain r dp' where r: "Memory_FreeIPIndex now i dp = (r, dp')" by fastforce
  have i: "i < pool_capacity (mem_DHCPPool dp)" using mem_inv_owner_less [OF inv assms(2)] .
  then have "\<not> gm_has (pool_free (mem_DHCPPool dp)) i" using inv assms by (simp add: mem_inv_free_iff)
  moreover have "mem_inv dp'" by (rule mem_inv_free [OF inv r])
  ultimately show ?thesis using r assms i
    by (auto simp: Memory_FreeIPIndex_def Memory_IndexInPool_def Let_def mem_random_inv_def mem_owner_def fun_eq_iff
        split: if_splits)
qed

interpretation memory: pool_backend memory_backend mem_random_inv mem_owner
proof (unfold_locales, unfold memory_backend_def Backend.simps)
  fix p :: Memory and i j :: u64 and m :: string and now :: int and ch :: choice
  assume rinv: "mem_random_inv p"
  then have inv: "mem_inv p" by (simp add: mem_random_inv_def)
  show "mem_owner p i = Some m \<Longrightarrow> i < Memory_Capacity p"
    by (simp add: Memory_Capacity_def mem_inv_owner_less [OF inv])
  show "Memory_IndexInPool i p \<longleftrightarrow> i < Memory_Capacity p"
    by (simp add: memory_defs)
  show "i < Memory_Capacity p \<Longrightarrow> mem_owner p i = None \<Longrightarrow>
      \<exists>p'. Memory_ReserveIPIndex i m p = ((m, None), p') \<and> mem_random_inv p' \<and>
        mem_owner p' = (mem_owner p)(i \<mapsto> m) \<and> Memory_Capacity p' = Memory_Capacity p"
    using mem_reserve_ok [OF rinv] by (simp add: Memory_Capacity_def)
  show "\<not> (i < Memory_Capacity p \<and> mem_owner p i = None) \<Longrightarrow>
      \<exists>e. Memory_ReserveIPIndex i m p = ((FreeMac, Some e), p)"
    by (auto simp: memory_defs Let_def mem_inv_free_iff [OF inv])
  show "mem_owner p i = Some m \<Longrightarrow>
      \<exists>p'. Memory_FreeIPIndex now i p = (None, p') \<and> mem_random_inv p' \<and>
        mem_owner p' = (mem_owner p)(i := None) \<and> Memory_Capacity p' = Memory_Capacity p"
    using mem_free_ok [OF rinv] by (simp add: Memory_Capacity_def)
  show "mem_owner p i = None \<Longrightarrow> \<exists>e. Memory_FreeIPIndex now i p = (Some e, p)"
    by (auto simp: memory_defs Let_def mem_inv_free_iff [OF inv])
  show "mem_owner p i = Some m \<Longrightarrow> Memory_GetMACIndex i p = (i, m, None)"
    using mem_inv_owner_less [OF inv] by (auto simp: memory_defs mem_inv_free_iff [OF inv] mem_owner_def gm_get_def split: option.splits)
  show "Memory_GetFreeIPIndex ch m p = ((i, m', e), p') \<Longrightarrow>
      mem_random_inv p' \<and> Memory_Capacity p' = Memory_Capacity p \<and>
      (e = None \<and> m' = m \<and> i < Memory_Capacity p \<and> mem_owner p i = None \<and> mem_owner p' = (mem_owner p)(i \<mapsto> m) \<or>
       e \<noteq> None \<and> m' = FreeMac \<and> mem_owner p' = mem_owner p)" for m' e p'
    using mem_get_free_ok [OF rinv, of _ ch m] mem_get_free_err [OF inv, of ch m] rinv
    by (cases "\<forall>j < pool_capacity (mem_DHCPPool p). mem_owner p j \<noteq> None") (auto simp: Memory_Capacity_def)
  show "Memory_IsFreeIPAtIndex i p \<longleftrightarrow> i < Memory_Capacity p \<and> mem_owner p i = None"
    by (auto simp: memory_defs mem_inv_free_iff [OF inv])
  show "i < Memory_Capacity p \<Longrightarrow>
      Memory_GetMACIndex i p = (i, case mem_owner p i of None \<Rightarrow> FreeMac | Some m \<Rightarrow> m, None)"
    by (auto simp: memory_defs mem_inv_free_iff [OF inv] mem_owner_def gm_get_def split: option.splits)
  show "\<not> i < Memory_Capacity p \<Longrightarrow> \<exists>e. Memory_GetMACIndex i p = (i, FreeMac, Some e)"
    by (auto simp: memory_defs)
  show "unat (Memory_FreeIPsRemaining p) = card {i. i < Memory_Capacity p \<and> mem_owner p i = None}"
    by (simp add: mem_free_count [OF inv] Memory_Capacity_def)
  show "j < Memory_Capacity p \<Longrightarrow> mem_owner p j = None \<Longrightarrow>
      \<exists>i p'. Memory_GetFreeIPIndex ch m p = ((i, m, None), p') \<and> i < Memory_Capacity p \<and>
        mem_owner p i = None \<and> mem_random_inv p' \<and> mem_owner p' = (mem_owner p)(i \<mapsto> m) \<and>
        Memory_Capacity p' = Memory_Capacity p"
    using mem_get_free_ok [OF rinv] by (simp add: Memory_Capacity_def)
  show "\<forall>j < Memory_Capacity p. mem_owner p j \<noteq> None \<Longrightarrow>
      \<exists>e. Memory_GetFreeIPIndex ch m p = ((0, FreeMac, Some e), p)"
    using mem_get_free_err [OF inv] by (auto simp: Memory_Capacity_def)
qed

end
