(* ===== verification/DhcpPoolSpec.thy ===== *)
theory DhcpPoolSpec
  imports DhcpPool
begin

text \<open>
  What the in-memory address pool promises: the invariant along any sequence of calls, the
  refinement of an abstract lease table, exclusive allocation, conservation of addresses,
  and the exact contents of the two reports of \<open>GetIssues\<close>
  (\<open>src/go/dhcp/pool/memory.go\<close>).
\<close>

section \<open>What \<open>GetIssues\<close> reports\<close>

text \<open>The indexes \<open>GetIssues\<close> counts as held by a MAC address.\<close>

definition held_by :: "DHCPPool \<Rightarrow> string \<Rightarrow> u64 \<Rightarrow> bool" where
  "held_by d mac i \<longleftrightarrow> \<not> gm_get False (pool_free d) i \<and> gm_get [] (pool_mac d) i = mac"

lemma issues_step2_skip: "\<not> held_by d mac x \<Longrightarrow> issues_step2 d mac x st = st"
  by (cases st) (auto simp: issues_step2_def held_by_def)

lemma issues_step2_count:
  "held_by d mac x \<Longrightarrow> issues_step2 d mac x (c, sv, du) =
    (Suc c, if c = 0 then x else sv,
     if c = 0 then du else if c = 1 then fmupd x mac (fmupd sv mac du) else fmupd x mac du)"
  by (simp add: issues_step2_def held_by_def Let_def)

lemma issues_step2_fold:
  assumes "fold (issues_step2 d mac) xs (0, s0, dup) = (c, sv, du)"
    and "filter (held_by d mac) xs = H"
  shows "c = length H \<and> (H \<noteq> [] \<longrightarrow> sv = hd H) \<and>
    (\<forall>i. fmlookup du i = (if i \<in> set H \<and> 2 \<le> length H then Some mac else fmlookup dup i))"
  using assms
proof (induction xs arbitrary: c sv du H rule: rev_induct)
  case (snoc x xs)
  obtain c0 sv0 du0 where prev: "fold (issues_step2 d mac) xs (0, s0, dup) = (c0, sv0, du0)"
    by (cases "fold (issues_step2 d mac) xs (0, s0, dup)") auto
  obtain H0 where H0: "filter (held_by d mac) xs = H0" by simp
  note IH = snoc.IH [OF prev H0]
  show ?case
  proof (cases "held_by d mac x")
    case False
    with snoc.prems prev H0 IH show ?thesis by (simp add: issues_step2_skip)
  next
    case True
    then have H: "H = H0 @ [x]" using snoc.prems(2) H0 by simp
    have step: "(c, sv, du) = (Suc c0, if c0 = 0 then x else sv0,
       if c0 = 0 then du0 else if c0 = 1 then fmupd x mac (fmupd sv0 mac du0) else fmupd x mac du0)"
      using snoc.prems(1) prev issues_step2_count [OF True] by simp
    consider "H0 = []" | y where "H0 = [y]" | y z zs where "H0 = y # z # zs"
      by (metis list.exhaust)
    then show ?thesis using step IH unfolding H by cases auto
  qed
qed auto

lemma filter_two:
  assumes "distinct xs" and "i \<in> set xs" and "P i"
  shows "2 \<le> length (filter P xs) \<longleftrightarrow> (\<exists>j \<in> set xs. j \<noteq> i \<and> P j)"
proof -
  let ?A = "{j \<in> set xs. j \<noteq> i \<and> P j}"
  have "length (filter P xs) = card {j \<in> set xs. P j}"
    using assms(1) by (metis distinct_card distinct_filter set_filter)
  also have "{j \<in> set xs. P j} = insert i ?A" using assms by auto
  also have "card (insert i ?A) = Suc (card ?A)" by (subst card_insert_disjoint) auto
  finally have "2 \<le> length (filter P xs) \<longleftrightarrow> 0 < card ?A" by linarith
  also have "\<dots> \<longleftrightarrow> (\<exists>j \<in> set xs. j \<noteq> i \<and> P j)" by (subst card_gt_0_iff) auto
  finally show ?thesis .
qed

lemma issues_dup_fold:
  "fmlookup (fold (\<lambda>mac dup. snd (snd (fold (issues_step2 d mac) (u64_upto cap) (0, 0, dup)))) macs dup) i =
   (if i < cap \<and> (\<exists>mac \<in> set macs. held_by d mac i \<and> (\<exists>j < cap. j \<noteq> i \<and> held_by d mac j))
    then Some (gm_get [] (pool_mac d) i) else fmlookup dup i)"
proof (induction macs arbitrary: dup)
  case (Cons mac macs)
  obtain c sv du where du: "fold (issues_step2 d mac) (u64_upto cap) (0, 0, dup) = (c, sv, du)"
    by (cases "fold (issues_step2 d mac) (u64_upto cap) (0, 0, dup)") auto
  have "fmlookup du i = (if i < cap \<and> held_by d mac i \<and> (\<exists>j < cap. j \<noteq> i \<and> held_by d mac j)
      then Some mac else fmlookup dup i)"
    using issues_step2_fold [OF du refl] filter_two [OF distinct_u64_upto, of i cap "held_by d mac"]
    by auto
  with Cons.IH [of du] du show ?case by (auto simp: held_by_def)
qed simp

lemma issues_seen_iff: "issues_seen m macs found \<longleftrightarrow> found \<or> m \<in> set macs"
  by (induction macs arbitrary: found) (auto simp: issues_seen_def)

lemma issues_step1_fold:
  "fold (issues_step1 d macs) xs (found, acc) =
   (found \<or> (\<exists>i \<in> set xs. \<not> gm_get False (pool_free d) i \<and> gm_get [] (pool_mac d) i \<in> set macs),
    if found then acc
    else acc @ map (\<lambda>i. gm_get [] (pool_mac d) i @ '', '' @ strconv_Itoa (sint i))
                 (takeWhile (\<lambda>i. gm_get [] (pool_mac d) i \<notin> set macs)
                   (filter (\<lambda>i. \<not> gm_get False (pool_free d) i) xs)))"
  by (induction xs arbitrary: found acc) (auto simp: issues_step1_def issues_seen_iff Let_def)

section \<open>Refinement of the lease table\<close>

text \<open>
  The abstract pool: a partial map from indexes to owners. \<open>lease_step cap x own r own'\<close>
  says that operation \<open>x\<close> may answer \<open>r\<close> and turn the table \<open>own\<close> into \<open>own'\<close>;
  which free index an allocation returns is not determined.
\<close>

inductive lease_step ::
  "u64 \<Rightarrow> pool_op \<Rightarrow> (u64 \<Rightarrow> string option) \<Rightarrow> pool_res \<Rightarrow> (u64 \<Rightarrow> string option) \<Rightarrow> bool" where
  reserve: "i < cap \<Longrightarrow> own i = None \<Longrightarrow>
     lease_step cap (OpReserve i m) own (RMac m None) (own(i \<mapsto> m))"
| reserve_refused: "\<not> (i < cap \<and> own i = None) \<Longrightarrow>
     lease_step cap (OpReserve i m) own (RMac FreeMac (Some e)) own"
| release: "own i = Some m \<Longrightarrow> lease_step cap (OpFree now i) own (RErr None) (own(i := None))"
| release_refused: "own i = None \<Longrightarrow> lease_step cap (OpFree now i) own (RErr (Some e)) own"
| allocate: "i < cap \<Longrightarrow> own i = None \<Longrightarrow>
     lease_step cap (OpGetFree ch m) own (RIndex i m None) (own(i \<mapsto> m))"
| exhausted: "\<forall>j < cap. own j \<noteq> None \<Longrightarrow>
     lease_step cap (OpGetFree ch m) own (RIndex 0 FreeMac (Some e)) own"

inductive_cases lease_allocate: "lease_step cap (OpGetFree ch m) own r own'"

fun lease_trace ::
  "u64 \<Rightarrow> pool_op list \<Rightarrow> (u64 \<Rightarrow> string option) \<Rightarrow> pool_res list \<Rightarrow> (u64 \<Rightarrow> string option) \<Rightarrow> bool" where
  "lease_trace cap [] own rs own' \<longleftrightarrow> rs = [] \<and> own' = own"
| "lease_trace cap (x # xs) own rs own' \<longleftrightarrow>
     (\<exists>r rs' own1. rs = r # rs' \<and> lease_step cap x own r own1 \<and> lease_trace cap xs own1 rs' own')"

context pool_backend
begin

lemma exec_refines:
  assumes inv: "inv p" and ex: "pool_exec B x p = (r, p')"
  shows "lease_step (bCapacity B p) x (owner p) r (owner p')"
proof (cases x)
  case (OpReserve i m)
  with ex obtain m' e where eq: "bReserveIPIndex B i m p = ((m', e), p')" "r = RMac m' e"
    by (auto split: prod.splits)
  show ?thesis
    by (rule reserve_cases [OF inv eq(1)])
      (use eq(2) OpReserve in \<open>auto intro: lease_step.reserve lease_step.reserve_refused\<close>)
next
  case (OpFree now i)
  with ex obtain e where eq: "bFreeIPIndex B now i p = (e, p')" "r = RErr e"
    by (auto split: prod.splits)
  show ?thesis
    by (rule free_cases [OF inv eq(1)])
      (use eq(2) OpFree in \<open>auto intro: lease_step.release lease_step.release_refused\<close>)
next
  case (OpGetFree ch m)
  with ex obtain i m' e where eq: "bGetFreeIPIndex B ch m p = ((i, m', e), p')" "r = RIndex i m' e"
    by (auto split: prod.splits)
  show ?thesis
  proof (rule get_free_cases [OF inv eq(1)])
    assume "\<forall>j < bCapacity B p. owner p j \<noteq> None" "m' = FreeMac" "e \<noteq> None" "p' = p"
    with get_free_err [OF inv this(1), of ch m] eq OpGetFree show ?thesis
      by (auto intro: lease_step.exhausted)
  qed (use eq(2) OpGetFree in \<open>auto intro: lease_step.allocate\<close>)
qed

lemma run_refines:
  assumes "inv p" and "pool_run B xs p = (rs, p')"
  shows "lease_trace (bCapacity B p) xs (owner p) rs (owner p')"
  using assms
proof (induction xs arbitrary: p rs)
  case (Cons x xs)
  then obtain r q rs' where q: "pool_exec B x p = (r, q)" "pool_run B xs q = (rs', p')" "rs = r # rs'"
    by (auto split: prod.splits)
  have "lease_step (bCapacity B p) x (owner p) r (owner q)" by (rule exec_refines [OF Cons.prems(1) q(1)])
  moreover have "inv q" "bCapacity B q = bCapacity B p" using exec_inv [OF Cons.prems(1) q(1)] by auto
  moreover from Cons.IH [OF this(1) q(2)] have "lease_trace (bCapacity B q) xs (owner q) rs' (owner p')" .
  ultimately show ?case using q(3) by auto
qed simp

end

section \<open>Properties of the pool\<close>

lemma mem_exec_inv:
  assumes "mem_inv p" and "pool_exec memory_backend x p = (r, p')"
  shows "mem_inv p' \<and> pool_capacity (mem_DHCPPool p') = pool_capacity (mem_DHCPPool p)"
proof (cases x)
  case (OpReserve i m)
  with assms(2) obtain r' where eq: "Memory_ReserveIPIndex i m p = (r', p')"
    by (auto simp: memory_backend_def split: prod.splits)
  then have "pool_capacity (mem_DHCPPool p') = pool_capacity (mem_DHCPPool p)"
    by (auto simp: Memory_ReserveIPIndex_def Let_def split: if_splits)
  with mem_inv_reserve [OF assms(1) eq] show ?thesis by simp
next
  case (OpFree now i)
  with assms(2) obtain r' where eq: "Memory_FreeIPIndex now i p = (r', p')"
    by (auto simp: memory_backend_def split: prod.splits)
  then have "pool_capacity (mem_DHCPPool p') = pool_capacity (mem_DHCPPool p)"
    by (auto simp: Memory_FreeIPIndex_def Let_def split: if_splits)
  with mem_inv_free [OF assms(1) eq] show ?thesis by simp
next
  case (OpGetFree ch m)
  with assms(2) obtain r' where eq: "Memory_GetFreeIPIndex ch m p = (r', p')"
    by (auto simp: memory_backend_def split: prod.splits)
  then have "pool_capacity (mem_DHCPPool p') = pool_capacity (mem_DHCPPool p)"
    by (simp add: Memory_GetFreeIPIndex_def Let_def split: if_splits) auto
  with mem_inv_get_free [OF assms(1) eq] show ?thesis by simp
qed

lemma mem_run_inv:
  assumes "mem_inv p" and "pool_run memory_backend xs p = (rs, p')"
  shows "mem_inv p' \<and> pool_capacity (mem_DHCPPool p') = pool_capacity (mem_DHCPPool p)"
  using assms
proof (induction xs arbitrary: p rs)
  case (Cons x xs)
  then obtain r q rs' where q: "pool_exec memory_backend x p = (r, q)" "pool_run memory_backend xs q = (rs', p')"
    by (auto split: prod.splits)
  with mem_exec_inv [OF Cons.prems(1) q(1)] Cons.IH [of q rs'] show ?case by simp
qed simp

text \<open>
  Whatever sequence of reservations, releases and allocations runs on a freshly created
  in-memory pool, with either allocation algorithm, the pool stays well formed: inside the
  capacity each index is free or owned and never both, nothing exists outside the capacity,
  and the capacity does not change.
\<close>
theorem memory_pool_invariant:
  assumes "NewMemoryPool now cap name alg = (p, e)" and "pool_run memory_backend ops p = (rs, p')"
  shows "mem_inv p' \<and> pool_capacity (mem_DHCPPool p') = cap"
  using mem_run_inv [OF NewMemoryPool_fields(6) [OF assms(1)] assms(2)]
    NewMemoryPool_fields(3) [OF assms(1)] by simp

lemma memory_pool_invariant_witness:
  "mem_inv (snd (pool_run memory_backend [OpReserve 1 ''m'', OpFree 5 1]
      (fst (NewMemoryPool (\<lambda>_. 0) 4 ''net'' OldestReleased)))) \<and>
   pool_capacity (mem_DHCPPool (snd (pool_run memory_backend [OpReserve 1 ''m'', OpFree 5 1]
      (fst (NewMemoryPool (\<lambda>_. 0) 4 ''net'' OldestReleased))))) = 4"
  by (rule memory_pool_invariant [OF surjective_pairing surjective_pairing])

text \<open>
  C8. The in-memory pool with the random algorithm refines the abstract lease table: every
  sequence of calls gives answers that the table may give, and ends in the table that the
  calls lead to.
\<close>
theorem memory_refines_lease_table:
  assumes "NewMemoryPool now cap name alg = (p, e)" and "alg \<noteq> OldestReleased"
    and "pool_run memory_backend ops p = (rs, p')"
  shows "lease_trace cap ops (\<lambda>_. None) rs (mem_owner p')"
proof -
  note new = NewMemoryPool_fields [OF assms(1)]
  have "mem_random_inv p" using new assms(2) by (simp add: mem_random_inv_def)
  from memory.run_refines [OF this assms(3)] show ?thesis
    by (simp add: new memory_backend_def Memory_Capacity_def)
qed

lemma memory_refines_lease_table_witness:
  "lease_trace 4 [OpGetFree (\<lambda>_. 0, 7) ''m''] (\<lambda>_. None)
     (fst (pool_run memory_backend [OpGetFree (\<lambda>_. 0, 7) ''m''] (fst (NewMemoryPool (\<lambda>_. 0) 4 ''net'' Random))))
     (mem_owner (snd (pool_run memory_backend [OpGetFree (\<lambda>_. 0, 7) ''m''] (fst (NewMemoryPool (\<lambda>_. 0) 4 ''net'' Random)))))"
proof -
  have "Random \<noteq> OldestReleased" by (simp add: Random_def OldestReleased_def)
  then show ?thesis by (rule memory_refines_lease_table [OF surjective_pairing _ surjective_pairing])
qed



text \<open>
  Addresses are neither lost nor created: in every pool reached from a new one with the
  random algorithm, the number \<open>FreeIPsRemaining\<close> reports plus the number of owned
  indexes is the capacity.
\<close>
theorem memory_pool_conservation:
  assumes "NewMemoryPool now cap name alg = (p, e)" and "alg \<noteq> OldestReleased"
    and "pool_run memory_backend ops p = (rs, p')"
  shows "unat (Memory_FreeIPsRemaining p') + card {i. \<exists>m. mem_owner p' i = Some m} = unat cap"
proof -
  note new = NewMemoryPool_fields [OF assms(1)]
  have "mem_random_inv p" using new assms(2) by (simp add: mem_random_inv_def)
  from memory.run_inv [OF this assms(3)] memory.owned_plus_free [of p'] show ?thesis
    by (simp add: memory_backend_def Memory_Capacity_def new)
qed

lemma memory_pool_conservation_witness:
  "unat (Memory_FreeIPsRemaining (snd (pool_run memory_backend [OpReserve 1 ''m'', OpReserve 2 ''n'']
      (fst (NewMemoryPool (\<lambda>_. 0) 4 ''net'' Random))))) +
   card {i. \<exists>m. mem_owner (snd (pool_run memory_backend [OpReserve 1 ''m'', OpReserve 2 ''n'']
      (fst (NewMemoryPool (\<lambda>_. 0) 4 ''net'' Random)))) i = Some m} = unat (4 :: u64)"
proof -
  have "Random \<noteq> OldestReleased" by (simp add: Random_def OldestReleased_def)
  then show ?thesis by (rule memory_pool_conservation [OF surjective_pairing _ surjective_pairing])
qed

text \<open>
  The duplicate report of \<open>GetIssues\<close> is exact: it maps an index to a MAC address
  precisely when the address is one of the cache's, holds that index and holds another
  index of the pool as well.
\<close>
theorem GetIssues_duplicates_exact:
  "fmlookup (snd (pool_GetIssues d macs)) i = Some mac \<longleftrightarrow>
   i < pool_capacity d \<and> mac \<in> set macs \<and> held_by d mac i \<and>
   (\<exists>j < pool_capacity d. j \<noteq> i \<and> held_by d mac j)"
  by (auto simp: pool_GetIssues_def Let_def issues_dup_fold held_by_def)

text \<open>
  The list \<open>inPoolNotInCache\<close> of \<open>GetIssues\<close> holds only the reserved indexes that
  come before the first reserved index whose MAC address is in the cache: the flag
  \<open>found\<close> is never reset, so nothing after that index is reported.
\<close>
theorem GetIssues_not_in_cache_prefix:
  "fst (pool_GetIssues d macs) =
   map (\<lambda>i. gm_get [] (pool_mac d) i @ '', '' @ strconv_Itoa (sint i))
     (takeWhile (\<lambda>i. gm_get [] (pool_mac d) i \<notin> set macs)
       (filter (\<lambda>i. \<not> gm_get False (pool_free d) i) (u64_upto (pool_capacity d))))"
  by (simp add: pool_GetIssues_def Let_def issues_step1_fold)

lemma oldest_released_unique:
  assumes "gm_has (pool_released d) i"
    and "\<And>k. gm_has (pool_released d) k \<Longrightarrow> k \<noteq> i \<Longrightarrow> gm_get 0 (pool_released d) i < gm_get 0 (pool_released d) k"
  shows "oldest_released prio d = i"
  using oldest_released_min(1) [OF assms(1), of prio] oldest_released_min(2) [OF assms(1,1), of prio] assms(2)
  by (metis linorder_not_less)

text \<open>
  With the algorithm \<open>OldestReleased\<close> allocation is not exclusive: when one index has the
  oldest release time and the pool has another free index, two allocations in a row both
  return that index, and the second takes it away from the first client. The map
  \<open>released\<close> keeps the entry of an index that is in use.
\<close>
theorem OldestReleased_allocates_twice:
  assumes "mem_inv p" and "pool_algorithm (mem_DHCPPool p) = OldestReleased"
    and "i < pool_capacity (mem_DHCPPool p)"
    and "\<And>k. k < pool_capacity (mem_DHCPPool p) \<Longrightarrow> k \<noteq> i \<Longrightarrow>
      gm_get 0 (pool_released (mem_DHCPPool p)) i < gm_get 0 (pool_released (mem_DHCPPool p)) k"
    and "gm_has (pool_free (mem_DHCPPool p)) j" and "j \<noteq> i"
  shows "\<exists>p1 p2. Memory_GetFreeIPIndex ch m p = ((i, m, None), p1) \<and> Memory_GetMACIndex i p1 = (i, m, None) \<and>
    Memory_GetFreeIPIndex ch' n p1 = ((i, n, None), p2) \<and> Memory_GetMACIndex i p2 = (i, n, None)"
proof -
  let ?d = "mem_DHCPPool p"
  let ?d1 = "?d\<lparr>pool_free := fmdrop i (pool_free ?d), pool_mac := fmupd i m (pool_mac ?d)\<rparr>"
  have rel: "gm_has (pool_released ?d) k \<longleftrightarrow> k < pool_capacity ?d" for k
    using assms(1) by (simp add: mem_inv_def Let_def)
  have old: "oldest_released q ?d = i" "oldest_released q ?d1 = i" for q
    by (rule oldest_released_unique; use rel assms(3,4) in simp)+
  have "gm_has (pool_free ?d1) j" using assms(5,6) by simp
  with assms(5) have ne: "gm_len (pool_free ?d) \<noteq> 0" "gm_len (pool_free ?d1) \<noteq> 0"
    unfolding gm_len_0_iff by (metis gm_has_empty)+
  show ?thesis
    using old ne assms(2,3)
    by (simp add: Memory_GetFreeIPIndex_def Memory_GetMACIndex_def Memory_IndexInPool_def Let_def)
qed

lemma OldestReleased_allocates_twice_witness:
  "let p = fst (NewMemoryPool (\<lambda>i. uint i) 3 ''net'' OldestReleased) in
   \<exists>p1 p2. Memory_GetFreeIPIndex (\<lambda>_. 0, 0) ''m'' p = ((0, ''m'', None), p1) \<and>
     Memory_GetMACIndex 0 p1 = (0, ''m'', None) \<and>
     Memory_GetFreeIPIndex (\<lambda>_. 0, 0) ''n'' p1 = ((0, ''n'', None), p2) \<and>
     Memory_GetMACIndex 0 p2 = (0, ''n'', None)"
proof -
  let ?p = "fst (NewMemoryPool (\<lambda>i. uint i) 3 ''net'' OldestReleased)"
  note new = NewMemoryPool_fields [OF surjective_pairing, of "\<lambda>i. uint i" 3 "''net''" OldestReleased]
  have "gm_has (pool_free (mem_DHCPPool ?p)) 1" by code_simp
  moreover have "\<forall>k \<in> set (u64_upto 3). k \<noteq> 0 \<longrightarrow>
      gm_get 0 (pool_released (mem_DHCPPool ?p)) 0 < gm_get 0 (pool_released (mem_DHCPPool ?p)) k"
    by code_simp
  ultimately show ?thesis unfolding Let_def
    by (intro OldestReleased_allocates_twice [where j = 1]) (use new in \<open>simp_all add: set_u64_upto\<close>)
qed

end
