(* ===== verification/RequestHistory.thy ===== *)
theory RequestHistory
  imports Prelude
begin

text \<open>
  The bounded history of requests and their log messages
  (\<open>src/go/requesthistory/request_history.go\<close>): a ring of pointers to requests with an
  index from request ids to positions. Requests are reached through pointers and a request
  is reused when the ring wraps, so they live in an explicit store \<open>rh_store\<close>.
\<close>

section \<open>request_history.go\<close>

record Request =
  RequestId :: string
  Messages :: "string list"

type_synonym ptr = nat

record RequestHistory =
  rh_container :: "ptr option list"
  rh_uuidMap :: "(string, int) gomap"
  rh_currentPosition :: int
  rh_store :: "(ptr, Request) gomap"

definition NewRequest :: Request where
  "NewRequest = \<lparr>RequestId = [], Messages = []\<rparr>"

definition Request_Reset :: "Request \<Rightarrow> Request" where
  "Request_Reset r = r\<lparr>RequestId := [], Messages := replicate 100 []\<rparr>"

definition Request_AddMessage :: "string \<Rightarrow> Request \<Rightarrow> Request" where
  "Request_AddMessage message r = r\<lparr>Messages := Messages r @ [message]\<rparr>"

definition empty_history :: RequestHistory where
  "empty_history = \<lparr>rh_container = [], rh_uuidMap = fmempty, rh_currentPosition = 0, rh_store = fmempty\<rparr>"

definition NewRequestHistory :: "int \<Rightarrow> RequestHistory \<times> go_err" where
  "NewRequestHistory sz =
     (if sz \<le> 0 then (empty_history, Some ''Size can't be 0 or negative'')
      else (empty_history\<lparr>rh_container := replicate (nat sz) None\<rparr>, None))"

definition uuidIndexNoLock :: "string \<Rightarrow> RequestHistory \<Rightarrow> int" where
  "uuidIndexNoLock uuid rh = (case fmlookup (rh_uuidMap rh) uuid of Some i \<Rightarrow> i | None \<Rightarrow> -1)"

definition UuidIndex :: "string \<Rightarrow> RequestHistory \<Rightarrow> int" where
  "UuidIndex uuid rh = uuidIndexNoLock uuid rh"

text \<open>The request a pointer refers to, and a pointer that is not in use.\<close>

definition deref :: "RequestHistory \<Rightarrow> ptr \<Rightarrow> Request" where
  "deref rh a = gm_get NewRequest (rh_store rh) a"

definition fresh_ptr :: "RequestHistory \<Rightarrow> ptr" where
  "fresh_ptr rh = Suc (fold max (sorted_list_of_fset (fmdom (rh_store rh))) 0)"

definition Create :: "string \<Rightarrow> RequestHistory \<Rightarrow> ((ptr option \<times> go_err) \<times> RequestHistory) outcome" where
  "Create uuid rh =
     (if uuidIndexNoLock uuid rh \<noteq> -1
      then Ret ((None, Some ''An element with this UUID already exists''), rh)
      else go_bind (slice_get (rh_container rh) (rh_currentPosition rh)) (\<lambda>slot.
        let (a, r, uuids) =
              (case slot of
                 Some a \<Rightarrow> (a, Request_Reset (deref rh a), fmdrop (RequestId (deref rh a)) (rh_uuidMap rh))
               | None \<Rightarrow> (fresh_ptr rh, NewRequest, rh_uuidMap rh))
        in go_bind (slice_set (rh_container rh) (rh_currentPosition rh) (Some a)) (\<lambda>cont.
           let pos = rh_currentPosition rh + 1
           in Ret ((Some a, None),
                   \<lparr>rh_container = cont,
                    rh_uuidMap = fmupd uuid (rh_currentPosition rh) uuids,
                    rh_currentPosition = (if pos \<ge> int (length cont) then 0 else pos),
                    rh_store = fmupd a (r\<lparr>RequestId := uuid\<rparr>) (rh_store rh)\<rparr>))))"

definition GetRequestByUuid :: "string \<Rightarrow> RequestHistory \<Rightarrow> (ptr option \<times> go_err) outcome" where
  "GetRequestByUuid uuid rh =
     (let i = uuidIndexNoLock uuid rh in
      if i \<noteq> -1 then go_bind (slice_get (rh_container rh) i) (\<lambda>r. Ret (r, None))
      else Ret (None, Some ''Cannot find a request for this UUID''))"

record RequestHistoryIterator =
  it_started :: bool
  it_start :: int
  it_current :: int

definition NewRequestHistoryIterator :: "RequestHistory \<Rightarrow> int \<Rightarrow> RequestHistoryIterator" where
  "NewRequestHistoryIterator rh startAt =
     (let s = (if startAt < 0 then int (length (rh_container rh)) + startAt else startAt)
      in \<lparr>it_started = False, it_start = s, it_current = s\<rparr>)"

definition Iterator :: "RequestHistory \<Rightarrow> RequestHistoryIterator" where
  "Iterator rh = NewRequestHistoryIterator rh (rh_currentPosition rh - 1)"

definition Next :: "RequestHistory \<Rightarrow> RequestHistoryIterator \<Rightarrow> (ptr option \<times> RequestHistoryIterator) outcome" where
  "Next rh it =
     (if it_started it then
        (let c = it_current it - 1;
             c' = (if c < 0 then int (length (rh_container rh)) - 1 else c);
             it' = it\<lparr>it_current := c'\<rparr>
         in if c' = it_start it then Ret (None, it')
            else go_bind (slice_get (rh_container rh) c') (\<lambda>r. Ret (r, it')))
      else
        (let it' = it\<lparr>it_started := True\<rparr>
         in go_bind (slice_get (rh_container rh) (it_current it)) (\<lambda>r. Ret (r, it'))))"

text \<open>
  The loop of \<open>All\<close>. It stops when \<open>Next\<close> returns \<open>nil\<close>; the fuel counts the calls
  of \<open>Next\<close>, and one more than the size of the ring is enough (\<open>All_loop_recent\<close> below).
\<close>

fun All_loop :: "nat \<Rightarrow> RequestHistory \<Rightarrow> RequestHistoryIterator \<Rightarrow> ptr list \<Rightarrow> ptr list outcome option" where
  "All_loop 0 rh it result = None"
| "All_loop (Suc fuel) rh it result =
     (case Next rh it of
        Panic msg \<Rightarrow> Some (Panic msg)
      | Ret (None, it') \<Rightarrow> Some (Ret result)
      | Ret (Some r, it') \<Rightarrow> All_loop fuel rh it' (result @ [r]))"

definition All :: "RequestHistory \<Rightarrow> ptr list outcome option" where
  "All rh = All_loop (Suc (length (rh_container rh))) rh (Iterator rh) []"

text \<open>
  \<open>HandleLogRecord\<close>. \<open>TupleToMap\<close> belongs to another module (\<open>go-utils/sharedutils\<close>) and is
  a parameter; so is the key \<open>log.RequestUuidKey\<close>. A context value is a string or
  something else; \<open>sharedutils.CheckError\<close> panics on an error.
\<close>

datatype ctx_value = CtxString string | CtxOther

record 'c log_record =
  Msg :: string
  Ctx :: 'c

definition AddMessage :: "ptr \<Rightarrow> string \<Rightarrow> RequestHistory \<Rightarrow> RequestHistory" where
  "AddMessage a message rh =
     rh\<lparr>rh_store := fmupd a (Request_AddMessage message (deref rh a)) (rh_store rh)\<rparr>"

definition HandleLogRecord ::
  "('c \<Rightarrow> (string, ctx_value) gomap \<times> go_err) \<Rightarrow> string \<Rightarrow> 'c log_record \<Rightarrow> RequestHistory \<Rightarrow>
   (go_err \<times> RequestHistory) outcome" where
  "HandleLogRecord TupleToMap RequestUuidKey rec rh =
     (case TupleToMap (Ctx rec) of
        (m, Some e) \<Rightarrow> Panic e
      | (m, None) \<Rightarrow>
          if Msg rec = [] then Ret (None, rh)
          else case fmlookup m RequestUuidKey of
            Some (CtxString uuid) \<Rightarrow>
              go_bind (GetRequestByUuid uuid rh) (\<lambda>(r, err).
                if err \<noteq> None then
                  go_bind (Create uuid rh) (\<lambda>((r', err'), rh').
                    case (err', r') of
                      (Some e, _) \<Rightarrow> Panic e
                    | (None, None) \<Rightarrow> Panic ''nil pointer dereference''
                    | (None, Some a) \<Rightarrow> Ret (None, AddMessage a (Msg rec) rh'))
                else case r of
                  None \<Rightarrow> Panic ''nil pointer dereference''
                | Some a \<Rightarrow> Ret (None, AddMessage a (Msg rec) rh))
          | _ \<Rightarrow> Ret (None, rh))"

section \<open>The ring as a bounded list\<close>

text \<open>
  \<open>recent rh\<close> lists the slots of the ring from the most recently used one backwards. In a
  well-formed history the used slots come first, pointers are distinct, and the map
  \<open>uuidMap\<close> is exactly the index of the used slots.
\<close>

definition slot_back :: "RequestHistory \<Rightarrow> nat \<Rightarrow> nat" where
  "slot_back rh k = nat ((rh_currentPosition rh - 1 - int k) mod int (length (rh_container rh)))"

definition recent :: "RequestHistory \<Rightarrow> ptr option list" where
  "recent rh = map (\<lambda>k. rh_container rh ! slot_back rh k) [0..<length (rh_container rh)]"

definition rh_pointers :: "RequestHistory \<Rightarrow> ptr list" where
  "rh_pointers rh = map the (takeWhile (\<lambda>s. s \<noteq> None) (recent rh))"

definition rh_ids :: "RequestHistory \<Rightarrow> string list" where
  "rh_ids rh = map (\<lambda>a. RequestId (deref rh a)) (rh_pointers rh)"

definition rh_inv :: "RequestHistory \<Rightarrow> bool" where
  "rh_inv rh \<longleftrightarrow>
     0 < length (rh_container rh) \<and>
     0 \<le> rh_currentPosition rh \<and> rh_currentPosition rh < int (length (rh_container rh)) \<and>
     recent rh = map Some (rh_pointers rh) @
       replicate (length (rh_container rh) - length (rh_pointers rh)) None \<and>
     (\<forall>i < length (rh_container rh). \<forall>j < length (rh_container rh). \<forall>a.
        rh_container rh ! i = Some a \<longrightarrow> rh_container rh ! j = Some a \<longrightarrow> i = j) \<and>
     (\<forall>a. Some a \<in> set (rh_container rh) \<longrightarrow> gm_has (rh_store rh) a) \<and>
     (\<forall>u i. fmlookup (rh_uuidMap rh) u = Some i \<longleftrightarrow>
        0 \<le> i \<and> i < int (length (rh_container rh)) \<and>
        (\<exists>a. rh_container rh ! nat i = Some a \<and> RequestId (deref rh a) = u))"


lemma fold_max_ge: "x \<in> set xs \<or> x \<le> y \<Longrightarrow> x \<le> fold max xs (y :: nat)"
proof (induction xs arbitrary: y)
  case (Cons a xs)
  then have "x \<in> set xs \<or> x \<le> max a y" by (auto simp: le_max_iff_disj)
  from Cons.IH [OF this] show ?case by simp
qed simp

lemma fresh_ptr_new: "\<not> gm_has (rh_store rh) (fresh_ptr rh)"
proof
  assume "gm_has (rh_store rh) (fresh_ptr rh)"
  then have "fresh_ptr rh \<in> set (sorted_list_of_fset (fmdom (rh_store rh)))" by (simp add: gm_has_fmdom)
  from fold_max_ge [OF disjI1 [OF this], of 0] show False by (simp add: fresh_ptr_def)
qed

lemma slot_back_less: "0 < length (rh_container rh) \<Longrightarrow> slot_back rh k < length (rh_container rh)"
  by (simp add: slot_back_def nat_less_iff)

lemma mod_eq_small:
  fixes p k n :: int
  assumes "0 \<le> p" "p < n" "0 \<le> k" "k < n - 1"
  shows "(p - 1 - k) mod n \<noteq> p"
proof
  assume "(p - 1 - k) mod n = p"
  then have "(p - 1 - k) mod n = p mod n" using assms by simp
  then have "n dvd k + 1" by (auto simp: mod_eq_dvd_iff) (metis add.commute dvd_minus_iff minus_add_distrib uminus_add_conv_diff)
  with assms show False using zdvd_imp_le [of n "k + 1"] by simp
qed

lemma slot_back_last:
  assumes "0 \<le> rh_currentPosition rh" "rh_currentPosition rh < int (length (rh_container rh))"
  shows "slot_back rh (length (rh_container rh) - 1) = nat (rh_currentPosition rh)"
proof -
  let ?n = "int (length (rh_container rh))" and ?p = "rh_currentPosition rh"
  have "(?p - 1 - int (length (rh_container rh) - 1)) mod ?n = (?p - ?n) mod ?n"
    using assms by (simp add: of_nat_diff)
  also have "\<dots> = ?p" using assms by (simp add: mod_diff_right_eq [symmetric])
  finally show ?thesis by (simp add: slot_back_def)
qed

lemma slot_back_other:
  assumes "0 \<le> rh_currentPosition rh" "rh_currentPosition rh < int (length (rh_container rh))"
    and "k < length (rh_container rh) - 1"
  shows "slot_back rh k \<noteq> nat (rh_currentPosition rh)"
proof -
  have "(rh_currentPosition rh - 1 - int k) mod int (length (rh_container rh)) \<noteq> rh_currentPosition rh"
    using assms by (intro mod_eq_small) auto
  moreover have "0 \<le> (rh_currentPosition rh - 1 - int k) mod int (length (rh_container rh))"
    using assms by (intro pos_mod_sign) auto
  ultimately show ?thesis using assms(1) by (simp add: slot_back_def)
qed

lemma upt_butlast: "0 < n \<Longrightarrow> [0..<n] = [0..<n - 1] @ [n - 1]"
  by (metis Suc_pred' upt_Suc_append zero_le)

lemma upt_Cons: "0 < n \<Longrightarrow> [0..<n] = 0 # map Suc [0..<n - 1]"
  by (cases n) (simp_all add: map_Suc_upt upt_conv_Cons del: upt_Suc)

lemma recent_split:
  assumes "0 \<le> rh_currentPosition rh" "rh_currentPosition rh < int (length (rh_container rh))"
  shows "recent rh = map (\<lambda>k. rh_container rh ! slot_back rh k) [0..<length (rh_container rh) - 1] @
    [rh_container rh ! nat (rh_currentPosition rh)]"
proof -
  have "0 < length (rh_container rh)" using assms by linarith
  then show ?thesis
    unfolding recent_def by (subst upt_butlast) (use slot_back_last [OF assms] in simp_all)
qed

lemma recent_older:
  assumes "0 \<le> rh_currentPosition rh" "rh_currentPosition rh < int (length (rh_container rh))"
    and "x \<in> set (butlast (recent rh))"
  obtains i where "i < length (rh_container rh)" "i \<noteq> nat (rh_currentPosition rh)" "rh_container rh ! i = x"
proof -
  from assms(3) obtain k where "k < length (rh_container rh) - 1" "x = rh_container rh ! slot_back rh k"
    by (auto simp: recent_split [OF assms(1,2)])
  moreover from this assms(1,2) have "0 < length (rh_container rh)" by linarith
  ultimately show ?thesis
    using slot_back_other [OF assms(1,2)] slot_back_less [of rh k] that by blast
qed

text \<open>One step of the ring: the new element in front, the oldest slot gone.\<close>

lemma recent_advance:
  assumes "0 \<le> rh_currentPosition rh" "rh_currentPosition rh < int (length (rh_container rh))"
    and "rh_container rh' = (rh_container rh)[nat (rh_currentPosition rh) := x]"
    and "rh_currentPosition rh' =
      (if rh_currentPosition rh + 1 \<ge> int (length (rh_container rh)) then 0 else rh_currentPosition rh + 1)"
  shows "recent rh' = x # butlast (recent rh)"
proof -
  let ?n = "length (rh_container rh)" and ?p = "rh_currentPosition rh"
  have n: "0 < ?n" using assms(1,2) by linarith
  have "rh_currentPosition rh' mod int ?n = (?p + 1) mod int ?n"
    using assms(1,2,4) by (auto simp: not_le) (metis add1_zle_eq dual_order.antisym mod_self)
  then have pos: "(rh_currentPosition rh' - c) mod int ?n = (?p + 1 - c) mod int ?n" for c
    by (metis mod_diff_left_eq)
  have s0: "slot_back rh' 0 = nat ?p"
    using pos [of 1] assms(1,2) by (simp add: slot_back_def assms(3))
  have sS: "slot_back rh' (Suc k) = slot_back rh k" for k
    using pos [of "2 + int k"] by (simp add: slot_back_def assms(3) algebra_simps)
  have "recent rh' = map (\<lambda>k. rh_container rh' ! slot_back rh' k) (0 # map Suc [0..<?n - 1])"
    by (simp only: recent_def assms(3) length_list_update upt_Cons [OF n])
  also have "\<dots> = x # map (\<lambda>k. rh_container rh ! slot_back rh k) [0..<?n - 1]"
    using n assms(1,2) slot_back_other [OF assms(1,2), THEN not_sym]
    by (simp add: s0 sS assms(3) nat_less_iff)
  also have "\<dots> = x # butlast (recent rh)" by (simp add: recent_split [OF assms(1,2)])
  finally show ?thesis .
qed

lemma rh_pointers_eq: "recent rh = map Some ps @ replicate j None \<Longrightarrow> rh_pointers rh = ps"
proof -
  assume *: "recent rh = map Some ps @ replicate j None"
  have "takeWhile (\<lambda>s. s \<noteq> None) (map Some ps @ replicate j None) = map Some ps"
    by (subst takeWhile_append2) (auto simp: takeWhile_eq_Nil_iff)
  then show ?thesis by (simp add: rh_pointers_def * comp_def)
qed

section \<open>What the operations do to the bounded list\<close>

lemma rh_invD:
  assumes "rh_inv rh"
  shows "0 < length (rh_container rh)" "0 \<le> rh_currentPosition rh"
    "rh_currentPosition rh < int (length (rh_container rh))"
    "recent rh = map Some (rh_pointers rh) @ replicate (length (rh_container rh) - length (rh_pointers rh)) None"
    "\<And>i j a. i < length (rh_container rh) \<Longrightarrow> j < length (rh_container rh) \<Longrightarrow>
       rh_container rh ! i = Some a \<Longrightarrow> rh_container rh ! j = Some a \<Longrightarrow> i = j"
    "\<And>a. Some a \<in> set (rh_container rh) \<Longrightarrow> gm_has (rh_store rh) a"
    "\<And>u i. fmlookup (rh_uuidMap rh) u = Some i \<longleftrightarrow> 0 \<le> i \<and> i < int (length (rh_container rh)) \<and>
       (\<exists>a. rh_container rh ! nat i = Some a \<and> RequestId (deref rh a) = u)"
  using assms unfolding rh_inv_def by blast+

lemma length_recent [simp]: "length (recent rh) = length (rh_container rh)"
  by (simp add: recent_def)

lemma length_rh_pointers: "length (rh_pointers rh) \<le> length (rh_container rh)"
  using length_takeWhile_le [of _ "recent rh"] by (simp add: rh_pointers_def)

lemma slot_of_index:
  assumes "i < length (rh_container rh)"
  obtains k where "k < length (rh_container rh)" "slot_back rh k = i"
proof -
  let ?n = "int (length (rh_container rh))"
  let ?k = "nat ((rh_currentPosition rh - 1 - int i) mod ?n)"
  have n: "0 < ?n" using assms by linarith
  have k: "int ?k = (rh_currentPosition rh - 1 - int i) mod ?n" using n by simp
  have "(rh_currentPosition rh - 1 - int ?k) mod ?n = int i"
    unfolding k by (simp add: mod_diff_right_eq) (use assms in simp)
  then have "slot_back rh ?k = i" by (simp add: slot_back_def)
  moreover have "?k < length (rh_container rh)" using n by (simp add: nat_less_iff)
  ultimately show ?thesis using that by blast
qed

lemma set_recent: "set (recent rh) = set (rh_container rh)"
proof
  show "set (recent rh) \<subseteq> set (rh_container rh)"
    by (auto simp: recent_def intro!: nth_mem slot_back_less)
  show "set (rh_container rh) \<subseteq> set (recent rh)"
  proof
    fix x assume "x \<in> set (rh_container rh)"
    then obtain i where "i < length (rh_container rh)" "x = rh_container rh ! i" by (metis in_set_conv_nth)
    moreover from slot_of_index [OF this(1)] obtain k
      where "k < length (rh_container rh)" "slot_back rh k = i" by blast
    ultimately show "x \<in> set (recent rh)" by (force simp: recent_def)
  qed
qed

lemma pointer_iff:
  assumes "rh_inv rh"
  shows "a \<in> set (rh_pointers rh) \<longleftrightarrow> Some a \<in> set (rh_container rh)"
proof -
  have "set (rh_container rh) = set (map Some (rh_pointers rh) @
      replicate (length (rh_container rh) - length (rh_pointers rh)) None)"
    using rh_invD(4) [OF assms] set_recent [of rh] by simp
  then show ?thesis by (auto simp: set_replicate_conv_if)
qed

lemma pointer_lookup:
  assumes "rh_inv rh" and "a \<in> set (rh_pointers rh)"
  obtains i where "i < length (rh_container rh)" "rh_container rh ! i = Some a"
    "fmlookup (rh_uuidMap rh) (RequestId (deref rh a)) = Some (int i)"
proof -
  from assms have "Some a \<in> set (rh_container rh)" using pointer_iff by blast
  then obtain i where "i < length (rh_container rh)" "rh_container rh ! i = Some a"
    unfolding in_set_conv_nth by blast
  with that [of i] rh_invD(7) [OF assms(1), of "RequestId (deref rh a)" "int i"] show ?thesis by simp
qed

lemma slot_back_inj:
  assumes "i < length (rh_container rh)" "j < length (rh_container rh)" "slot_back rh i = slot_back rh j"
  shows "i = j"
proof -
  let ?n = "int (length (rh_container rh))" and ?q = "rh_currentPosition rh - 1"
  have n: "0 < ?n" using assms(1) by linarith
  have "int (nat ((?q - int i) mod ?n)) = int (nat ((?q - int j) mod ?n))"
    using assms(3) by (simp only: slot_back_def)
  then have "(?q - int i) mod ?n = (?q - int j) mod ?n" using n by simp
  then have "(?q - (?q - int i) mod ?n) mod ?n = (?q - (?q - int j) mod ?n) mod ?n" by simp
  then show ?thesis using assms(1,2) by (simp add: mod_diff_right_eq)
qed

lemma distinct_pointers:
  assumes "rh_inv rh"
  shows "distinct (rh_pointers rh)"
  unfolding distinct_conv_nth
proof (intro allI impI notI)
  fix i j
  assume ij: "i < length (rh_pointers rh)" "j < length (rh_pointers rh)" "i \<noteq> j"
    "rh_pointers rh ! i = rh_pointers rh ! j"
  have slot: "k < length (rh_container rh) \<and> rh_container rh ! slot_back rh k = Some (rh_pointers rh ! k)"
    if "k < length (rh_pointers rh)" for k
  proof -
    have k: "k < length (rh_container rh)" using that length_rh_pointers [of rh] by linarith
    have "rh_container rh ! slot_back rh k = recent rh ! k" using k by (simp add: recent_def)
    also have "\<dots> = Some (rh_pointers rh ! k)"
      using that by (subst rh_invD(4) [OF assms]) (simp add: nth_append)
    finally show ?thesis using k by simp
  qed
  have "slot_back rh i = slot_back rh j"
    by (rule rh_invD(5) [OF assms]) (use slot ij slot_back_less rh_invD(1) [OF assms] in auto)
  with slot_back_inj slot ij show False by blast
qed

lemma rh_ids_iff:
  assumes "rh_inv rh"
  shows "u \<in> set (rh_ids rh) \<longleftrightarrow> (\<exists>i. fmlookup (rh_uuidMap rh) u = Some i)"
proof -
  have "u \<in> set (rh_ids rh) \<longleftrightarrow> (\<exists>a. Some a \<in> set (rh_container rh) \<and> RequestId (deref rh a) = u)"
    by (auto simp: rh_ids_def pointer_iff [OF assms])
  also have "\<dots> \<longleftrightarrow> (\<exists>i. fmlookup (rh_uuidMap rh) u = Some i)"
    unfolding rh_invD(7) [OF assms] in_set_conv_nth
  proof (intro iffI; elim exE conjE)
    fix a i assume "i < length (rh_container rh)" "rh_container rh ! i = Some a" "RequestId (deref rh a) = u"
    then show "\<exists>i. 0 \<le> i \<and> i < int (length (rh_container rh)) \<and>
        (\<exists>a. rh_container rh ! nat i = Some a \<and> RequestId (deref rh a) = u)"
      by (intro exI [of _ "int i"]) simp
  next
    fix i a assume "0 \<le> i" "i < int (length (rh_container rh))" "rh_container rh ! nat i = Some a"
      "RequestId (deref rh a) = u"
    then show "\<exists>a. (\<exists>i < length (rh_container rh). rh_container rh ! i = Some a) \<and> RequestId (deref rh a) = u"
      by (intro exI [of _ a] conjI exI [of _ "nat i"]) (simp_all add: nat_less_iff)
  qed
  finally show ?thesis .
qed

lemma uuidIndex_unknown:
  assumes "rh_inv rh"
  shows "uuidIndexNoLock u rh = -1 \<longleftrightarrow> u \<notin> set (rh_ids rh)"
proof (cases "fmlookup (rh_uuidMap rh) u")
  case (Some i)
  then have "0 \<le> i" using rh_invD(7) [OF assms] by blast
  with Some rh_ids_iff [OF assms, of u] show ?thesis by (simp add: uuidIndexNoLock_def)
qed (simp add: uuidIndexNoLock_def rh_ids_iff [OF assms])

text \<open>The pointer \<open>Create\<close> uses: the one in the slot it overwrites, or a new one.\<close>

definition create_ptr :: "RequestHistory \<Rightarrow> ptr" where
  "create_ptr rh = (case rh_container rh ! nat (rh_currentPosition rh) of Some a \<Rightarrow> a | None \<Rightarrow> fresh_ptr rh)"

definition create_base :: "RequestHistory \<Rightarrow> Request" where
  "create_base rh = (case rh_container rh ! nat (rh_currentPosition rh) of
     Some a \<Rightarrow> Request_Reset (deref rh a) | None \<Rightarrow> NewRequest)"

definition create_state :: "string \<Rightarrow> RequestHistory \<Rightarrow> RequestHistory" where
  "create_state u rh =
     \<lparr>rh_container = (rh_container rh)[nat (rh_currentPosition rh) := Some (create_ptr rh)],
      rh_uuidMap = fmupd u (rh_currentPosition rh)
        (case rh_container rh ! nat (rh_currentPosition rh) of
           Some a \<Rightarrow> fmdrop (RequestId (deref rh a)) (rh_uuidMap rh) | None \<Rightarrow> rh_uuidMap rh),
      rh_currentPosition = (if rh_currentPosition rh + 1 \<ge> int (length (rh_container rh)) then 0
                            else rh_currentPosition rh + 1),
      rh_store = fmupd (create_ptr rh) ((create_base rh)\<lparr>RequestId := u\<rparr>) (rh_store rh)\<rparr>"

lemma Create_new:
  assumes "rh_inv rh" and "u \<notin> set (rh_ids rh)"
  shows "Create u rh = Ret ((Some (create_ptr rh), None), create_state u rh)"
  using assms rh_invD(2,3) [OF assms(1)]
  by (cases "rh_container rh ! nat (rh_currentPosition rh)")
    (simp_all add: Create_def uuidIndex_unknown slice_get_ok slice_set_ok create_ptr_def create_base_def
      create_state_def Let_def)

lemma create_ptr_other:
  assumes "rh_inv rh" and "i < length (rh_container rh)" and "i \<noteq> nat (rh_currentPosition rh)"
    and "rh_container rh ! i = Some a"
  shows "a \<noteq> create_ptr rh"
proof (cases "rh_container rh ! nat (rh_currentPosition rh)")
  case None
  have "gm_has (rh_store rh) a" using rh_invD(6) [OF assms(1)] assms(2,4) by (metis nth_mem)
  with None fresh_ptr_new [of rh] show ?thesis by (auto simp: create_ptr_def)
next
  case (Some b)
  moreover have "nat (rh_currentPosition rh) < length (rh_container rh)"
    using rh_invD(2,3) [OF assms(1)] by linarith
  ultimately show ?thesis
    using rh_invD(5) [OF assms(1,2) _ assms(4), of "nat (rh_currentPosition rh)"] assms(3)
    by (auto simp: create_ptr_def)
qed

lemma deref_create:
  "deref (create_state u rh) a = (if a = create_ptr rh then (create_base rh)\<lparr>RequestId := u\<rparr> else deref rh a)"
  by (simp add: deref_def create_state_def gm_get_def)

lemma recent_create:
  assumes "rh_inv rh"
  shows "recent (create_state u rh) = Some (create_ptr rh) # butlast (recent rh)"
  by (rule recent_advance) (use rh_invD [OF assms] in \<open>simp_all add: create_state_def\<close>)

lemma butlast_pointers:
  assumes "rh_inv rh"
  shows "butlast (recent rh) =
    map Some (take (length (rh_container rh) - 1) (rh_pointers rh)) @
    replicate (length (rh_container rh) - 1 - length (take (length (rh_container rh) - 1) (rh_pointers rh))) None"
proof -
  have "butlast (recent rh) = take (length (rh_container rh) - 1) (recent rh)" by (simp add: butlast_conv_take)
  also have "\<dots> = take (length (rh_container rh) - 1) (map Some (rh_pointers rh) @
      replicate (length (rh_container rh) - length (rh_pointers rh)) None)"
    using rh_invD(4) [OF assms] by simp
  finally show ?thesis
    using length_rh_pointers [of rh] by (simp add: take_map [symmetric] min_def)
qed

lemma pointers_create:
  assumes "rh_inv rh"
  shows "rh_pointers (create_state u rh) = take (length (rh_container rh)) (create_ptr rh # rh_pointers rh)"
proof (rule rh_pointers_eq)
  let ?n = "length (rh_container rh)"
  have "recent (create_state u rh) = map Some (create_ptr rh # take (?n - 1) (rh_pointers rh)) @
      replicate (?n - 1 - length (take (?n - 1) (rh_pointers rh))) None"
    by (simp add: recent_create [OF assms] butlast_pointers [OF assms])
  moreover have "take ?n (create_ptr rh # rh_pointers rh) = create_ptr rh # take (?n - 1) (rh_pointers rh)"
    using rh_invD(1) [OF assms] by (cases ?n) simp_all
  ultimately show "recent (create_state u rh) = map Some (take ?n (create_ptr rh # rh_pointers rh)) @
      replicate (?n - 1 - length (take (?n - 1) (rh_pointers rh))) None"
    by simp
qed

lemma ids_create:
  assumes "rh_inv rh"
  shows "rh_ids (create_state u rh) = take (length (rh_container rh)) (u # rh_ids rh)"
proof -
  let ?n = "length (rh_container rh)"
  have "a \<noteq> create_ptr rh" if "a \<in> set (take (?n - 1) (rh_pointers rh))" for a
  proof -
    have "Some a \<in> set (butlast (recent rh))" using that by (simp add: butlast_pointers [OF assms])
    from recent_older [OF rh_invD(2,3) [OF assms] this] create_ptr_other [OF assms] show ?thesis by metis
  qed
  then have "map (\<lambda>a. RequestId (deref (create_state u rh) a)) (take (?n - 1) (rh_pointers rh)) =
      map (\<lambda>a. RequestId (deref rh a)) (take (?n - 1) (rh_pointers rh))"
    by (simp add: deref_create)
  moreover obtain m where "?n = Suc m" using rh_invD(1) [OF assms] by (cases ?n) simp_all
  ultimately show ?thesis
    by (simp add: rh_ids_def pointers_create [OF assms] deref_create take_map)
qed

lemma create_state_sel [simp]:
  "length (rh_container (create_state u rh)) = length (rh_container rh)"
  "i < length (rh_container rh) \<Longrightarrow> rh_container (create_state u rh) ! i =
     (if i = nat (rh_currentPosition rh) then Some (create_ptr rh) else rh_container rh ! i)"
  by (auto simp: create_state_def nth_list_update)

lemma recent_create_shape:
  assumes "rh_inv rh"
  shows "recent (create_state u rh) = map Some (rh_pointers (create_state u rh)) @
    replicate (length (rh_container rh) - length (rh_pointers (create_state u rh))) None"
proof -
  obtain m where m: "length (rh_container rh) = Suc m"
    using rh_invD(1) [OF assms] by (cases "length (rh_container rh)") simp_all
  then show ?thesis
    by (simp add: recent_create [OF assms] butlast_pointers [OF assms] pointers_create [OF assms] min_def)
qed

lemma create_map:
  "fmlookup (rh_uuidMap (create_state u rh)) v =
    (if v = u then Some (rh_currentPosition rh)
     else case rh_container rh ! nat (rh_currentPosition rh) of
       Some a \<Rightarrow> if v = RequestId (deref rh a) then None else fmlookup (rh_uuidMap rh) v
     | None \<Rightarrow> fmlookup (rh_uuidMap rh) v)"
  by (auto simp: create_state_def split: option.splits)

lemma create_lookup:
  assumes inv: "rh_inv rh" and new: "u \<notin> set (rh_ids rh)"
  shows "fmlookup (rh_uuidMap (create_state u rh)) v = Some i \<longleftrightarrow>
    0 \<le> i \<and> i < int (length (rh_container rh)) \<and>
    (\<exists>a. rh_container (create_state u rh) ! nat i = Some a \<and> RequestId (deref (create_state u rh) a) = v)"
    (is "?L \<longleftrightarrow> ?R")
proof -
  let ?n = "length (rh_container rh)" and ?p = "rh_currentPosition rh"
  note p = rh_invD(2,3) [OF inv]
  have newmap: "fmlookup (rh_uuidMap rh) u \<noteq> Some j" for j using new rh_ids_iff [OF inv] by blast
  show ?thesis
  proof (cases "0 \<le> i \<and> i < int ?n")
    case False
    then have "fmlookup (rh_uuidMap rh) v \<noteq> Some i" using rh_invD(7) [OF inv] by blast
    with False p show ?thesis by (auto simp: create_map split: option.splits if_splits)
  next
    case True
    then have i: "nat i < ?n" by (simp add: nat_less_iff)
    have same: "nat i = nat ?p \<longleftrightarrow> i = ?p" using True p by auto
    show ?thesis
    proof (cases "i = ?p")
      case True
      have "?R \<longleftrightarrow> u = v" using i p \<open>i = ?p\<close> by (auto simp: deref_create)
      moreover have "fmlookup (rh_uuidMap rh) v = Some ?p \<longleftrightarrow>
          (\<exists>a. rh_container rh ! nat ?p = Some a \<and> RequestId (deref rh a) = v)"
        using rh_invD(7) [OF inv] p by blast
      ultimately show ?thesis using True
        by (cases "rh_container rh ! nat ?p") (auto simp: create_map)
    next
      case False
      have "?R \<longleftrightarrow> fmlookup (rh_uuidMap rh) v = Some i"
        unfolding rh_invD(7) [OF inv] using True False same i create_ptr_other [OF inv i]
        by (auto simp: deref_create)
      moreover have "v \<noteq> RequestId (deref rh a)"
        if "rh_container rh ! nat ?p = Some a" "fmlookup (rh_uuidMap rh) v = Some i" for a
        using that False rh_invD(7) [OF inv, of v ?p] p by (metis option.inject)
      moreover have "v = u \<Longrightarrow> fmlookup (rh_uuidMap rh) v \<noteq> Some i" using newmap [of i] by simp
      ultimately have "?R \<longleftrightarrow> ?L" using False
        by (cases "rh_container rh ! nat ?p") (auto simp: create_map)
      then show ?thesis by blast
    qed
  qed
qed

lemma rh_inv_create:
  assumes inv: "rh_inv rh" and new: "u \<notin> set (rh_ids rh)"
  shows "rh_inv (create_state u rh)"
proof -
  let ?n = "length (rh_container rh)"
  note d = rh_invD [OF inv]
  have "0 \<le> rh_currentPosition (create_state u rh) \<and>
      rh_currentPosition (create_state u rh) < int ?n"
    using d(1-3) by (simp add: create_state_def)
  moreover have "i = j" if "i < ?n" "j < ?n" "rh_container (create_state u rh) ! i = Some a"
      "rh_container (create_state u rh) ! j = Some a" for i j a
    using that d(5) [of i j a] create_ptr_other [OF inv, of i a] create_ptr_other [OF inv, of j a]
    by (auto split: if_splits)
  moreover have "gm_has (rh_store (create_state u rh)) a" if "Some a \<in> set (rh_container (create_state u rh))" for a
  proof -
    have "Some a \<in> insert (Some (create_ptr rh)) (set (rh_container rh))"
      using that set_update_subset_insert unfolding create_state_def by fastforce
    then show ?thesis using d(6) by (auto simp: create_state_def)
  qed
  ultimately show ?thesis
    unfolding rh_inv_def create_state_sel(1) using d(1) recent_create_shape [OF inv] create_lookup [OF inv new]
    by blast
qed

lemma NewRequestHistory_inv:
  assumes "0 < sz" and "NewRequestHistory sz = (rh, e)"
  shows "rh_inv rh \<and> rh_ids rh = [] \<and> length (rh_container rh) = nat sz \<and> e = None"
proof -
  have rh: "rh = empty_history\<lparr>rh_container := replicate (nat sz) None\<rparr>" "e = None"
    using assms by (auto simp: NewRequestHistory_def)
  have "slot_back rh k < nat sz" for k
    using slot_back_less [of rh k] assms(1) by (simp add: rh)
  then have rec: "recent rh = map Some [] @ replicate (nat sz) None"
    by (simp add: recent_def rh map_replicate_trivial list_eq_iff_nth_eq)
  then have "rh_pointers rh = []" by (rule rh_pointers_eq)
  with rec assms(1) show ?thesis
    by (simp add: rh_inv_def rh_ids_def rh empty_history_def)
qed

text \<open>The iterator walks \<open>recent\<close> and stops after one turn.\<close>

lemma slot_back_wrap:
  assumes "0 < length (rh_container rh)" and "k < length (rh_container rh)"
  shows "int (slot_back rh (Suc k)) =
      (if int (slot_back rh k) - 1 < 0 then int (length (rh_container rh)) - 1 else int (slot_back rh k) - 1)"
    and "slot_back rh (Suc k) = slot_back rh 0 \<longleftrightarrow> Suc k = length (rh_container rh)"
proof -
  let ?n = "int (length (rh_container rh))" and ?p = "rh_currentPosition rh"
  have n: "0 < ?n" using assms by linarith
  have sb: "int (slot_back rh j) = (?p - 1 - int j) mod ?n" for j using n by (simp add: slot_back_def)
  have "int (slot_back rh (Suc k)) = (int (slot_back rh k) - 1) mod ?n"
    unfolding sb by (simp add: mod_diff_left_eq algebra_simps)
  moreover have "(int (slot_back rh k) - 1) mod ?n =
      (if int (slot_back rh k) - 1 < 0 then ?n - 1 else int (slot_back rh k) - 1)"
    using n slot_back_less [OF assms(1), of k] by (auto simp: zmod_minus1)
  ultimately show "int (slot_back rh (Suc k)) =
      (if int (slot_back rh k) - 1 < 0 then ?n - 1 else int (slot_back rh k) - 1)" by simp
  have "slot_back rh (Suc k) = slot_back rh 0 \<longleftrightarrow> (?p - 1 - int (Suc k)) mod ?n = (?p - 1) mod ?n"
    by (simp only: of_nat_eq_iff [symmetric, where 'a = int] sb) simp
  also have "\<dots> \<longleftrightarrow> ?n dvd int (Suc k)"
    unfolding mod_eq_dvd_iff by (subst dvd_minus_iff [symmetric]) (simp add: algebra_simps)
  also have "\<dots> \<longleftrightarrow> Suc k = length (rh_container rh)"
    using assms(2) dvd_imp_le [of "length (rh_container rh)" "Suc k"] by (auto simp: of_nat_dvd_iff simp del: of_nat_Suc)
  finally show "slot_back rh (Suc k) = slot_back rh 0 \<longleftrightarrow> Suc k = length (rh_container rh)" .
qed

lemma All_loop_recent:
  assumes "0 < length (rh_container rh)" and "k < length (rh_container rh)"
    and "length (rh_container rh) - k \<le> fuel"
  shows "All_loop fuel rh \<lparr>it_started = True, it_start = int (slot_back rh 0), it_current = int (slot_back rh k)\<rparr> acc =
    Some (Ret (acc @ map the (takeWhile (\<lambda>s. s \<noteq> None) (drop (Suc k) (recent rh)))))"
  using assms(2,3)
proof (induction fuel arbitrary: k acc)
  case (Suc fuel)
  let ?n = "length (rh_container rh)"
  note wrap = slot_back_wrap [OF assms(1) Suc.prems(1)]
  show ?case
  proof (cases "Suc k = ?n")
    case True
    then have "slot_back rh (Suc k) = slot_back rh 0" using wrap(2) by blast
    with wrap(1) True show ?thesis by (simp add: Next_def Let_def)
  next
    case False
    then have k: "Suc k < ?n" using Suc.prems(1) by simp
    have ne: "int (slot_back rh (Suc k)) \<noteq> int (slot_back rh 0)" using wrap(2) False by simp
    have get: "slice_get (rh_container rh) (int (slot_back rh (Suc k))) = Ret (recent rh ! Suc k)"
      using slot_back_less [OF assms(1)] k by (simp add: slice_get_ok recent_def del: upt_Suc)
    have drop: "drop (Suc k) (recent rh) = recent rh ! Suc k # drop (Suc (Suc k)) (recent rh)"
      using k by (simp add: Cons_nth_drop_Suc)
    have "Next rh \<lparr>it_started = True, it_start = int (slot_back rh 0), it_current = int (slot_back rh k)\<rparr> =
        Ret (recent rh ! Suc k,
          \<lparr>it_started = True, it_start = int (slot_back rh 0), it_current = int (slot_back rh (Suc k))\<rparr>)"
      using ne get unfolding wrap(1) by (simp add: Next_def Let_def del: of_nat_Suc)
    with Suc.IH [OF k] Suc.prems drop show ?thesis by (cases "recent rh ! Suc k") simp_all
  qed
qed simp

lemma All_pointers:
  assumes "0 < length (rh_container rh)" "0 \<le> rh_currentPosition rh"
    "rh_currentPosition rh < int (length (rh_container rh))"
  shows "All rh = Some (Ret (rh_pointers rh))"
proof -
  let ?n = "length (rh_container rh)"
  have it: "Iterator rh = \<lparr>it_started = False, it_start = int (slot_back rh 0), it_current = int (slot_back rh 0)\<rparr>"
    using assms by (cases "rh_currentPosition rh = 0")
      (auto simp: Iterator_def NewRequestHistoryIterator_def slot_back_def Let_def zmod_minus1)
  have get: "slice_get (rh_container rh) (int (slot_back rh 0)) = Ret (recent rh ! 0)"
    using slot_back_less [OF assms(1)] assms(1) by (simp add: slice_get_ok recent_def)
  have rec: "recent rh = recent rh ! 0 # drop (Suc 0) (recent rh)"
    using assms(1) by (metis Cons_nth_drop_Suc drop0 length_recent)
  have tw: "takeWhile (\<lambda>s. s \<noteq> None) (recent rh) = (if recent rh ! 0 = None then []
      else recent rh ! 0 # takeWhile (\<lambda>s. s \<noteq> None) (drop (Suc 0) (recent rh)))"
    by (subst rec) simp
  have "All_loop (Suc ?n) rh (Iterator rh) [] = Some (Ret (map the (takeWhile (\<lambda>s. s \<noteq> None) (recent rh))))"
    using All_loop_recent [OF assms(1,1), of ?n] get unfolding tw
    by (cases "recent rh ! 0") (simp_all add: it Next_def Let_def)
  then show ?thesis by (simp add: All_def rh_pointers_def)
qed

lemma GetRequestByUuid_known:
  assumes "rh_inv rh" and "u \<in> set (rh_ids rh)"
  shows "\<exists>a \<in> set (rh_pointers rh). GetRequestByUuid u rh = Ret (Some a, None) \<and> RequestId (deref rh a) = u"
proof -
  from assms obtain i where i: "fmlookup (rh_uuidMap rh) u = Some i" using rh_ids_iff by blast
  then obtain a where a: "0 \<le> i" "i < int (length (rh_container rh))" "rh_container rh ! nat i = Some a"
      "RequestId (deref rh a) = u"
    using rh_invD(7) [OF assms(1)] by blast
  have "nat i < length (rh_container rh)" using a(1,2) by linarith
  then have "a \<in> set (rh_pointers rh)" using a(3) unfolding pointer_iff [OF assms(1)] by (metis nth_mem)
  with i a show ?thesis by (auto simp: GetRequestByUuid_def uuidIndexNoLock_def slice_get_ok)
qed

lemma GetRequestByUuid_unknown:
  "rh_inv rh \<Longrightarrow> u \<notin> set (rh_ids rh) \<Longrightarrow>
   GetRequestByUuid u rh = Ret (None, Some ''Cannot find a request for this UUID'')"
  by (simp add: GetRequestByUuid_def uuidIndex_unknown)

lemma Create_known:
  "rh_inv rh \<Longrightarrow> u \<in> set (rh_ids rh) \<Longrightarrow>
   Create u rh = Ret ((None, Some ''An element with this UUID already exists''), rh)"
  using uuidIndex_unknown [of rh u] by (simp add: Create_def)

lemma GetRequest_create:
  assumes "rh_inv rh"
  shows "GetRequestByUuid u (create_state u rh) = Ret (Some (create_ptr rh), None)"
proof -
  have "uuidIndexNoLock u (create_state u rh) = rh_currentPosition rh"
    by (simp add: uuidIndexNoLock_def create_map)
  then show ?thesis
    using rh_invD(2,3) [OF assms] by (simp add: GetRequestByUuid_def slice_get_ok nat_less_iff)
qed

lemma AddMessage_sel:
  "deref (AddMessage a m rh) b = (if b = a then Request_AddMessage m (deref rh a) else deref rh b)"
  "rh_container (AddMessage a m rh) = rh_container rh" "rh_uuidMap (AddMessage a m rh) = rh_uuidMap rh"
  "rh_currentPosition (AddMessage a m rh) = rh_currentPosition rh"
  "gm_has (rh_store rh) b \<Longrightarrow> gm_has (rh_store (AddMessage a m rh)) b"
  by (auto simp: AddMessage_def deref_def gm_get_def)

lemma GetRequest_AddMessage: "GetRequestByUuid u (AddMessage a m rh) = GetRequestByUuid u rh"
  unfolding GetRequestByUuid_def uuidIndexNoLock_def AddMessage_sel ..

lemma AddMessage_ids:
  "recent (AddMessage a m rh) = recent rh" "rh_pointers (AddMessage a m rh) = rh_pointers rh"
  "RequestId (deref (AddMessage a m rh) b) = RequestId (deref rh b)" "rh_ids (AddMessage a m rh) = rh_ids rh"
proof -
  show rec: "recent (AddMessage a m rh) = recent rh" by (simp add: recent_def slot_back_def AddMessage_sel)
  then show "rh_pointers (AddMessage a m rh) = rh_pointers rh" by (simp add: rh_pointers_def)
  moreover show id: "RequestId (deref (AddMessage a m rh) b) = RequestId (deref rh b)" for b
    by (simp add: AddMessage_sel Request_AddMessage_def)
  ultimately show "rh_ids (AddMessage a m rh) = rh_ids rh" by (simp add: rh_ids_def)
qed

lemma rh_inv_AddMessage: "rh_inv rh \<Longrightarrow> rh_inv (AddMessage a m rh)"
  by (simp add: rh_inv_def AddMessage_sel(2-4) AddMessage_ids AddMessage_sel(5))

section \<open>Properties\<close>

text \<open>
  C26. The ring implements a bounded history: creating a request with a new id puts it in
  front of the list of ids and drops the oldest one when the ring is full; creating one
  with a known id is refused and changes nothing. No call panics.
\<close>
theorem Create_bounded_history:
  assumes "rh_inv rh"
  shows "(if u \<in> set (rh_ids rh)
          then Create u rh = Ret ((None, Some ''An element with this UUID already exists''), rh)
          else \<exists>a rh'. Create u rh = Ret ((Some a, None), rh') \<and> rh_inv rh' \<and>
            length (rh_container rh') = length (rh_container rh) \<and>
            rh_ids rh' = take (length (rh_container rh)) (u # rh_ids rh) \<and>
            GetRequestByUuid u rh' = Ret (Some a, None))"
proof (cases "u \<in> set (rh_ids rh)")
  case False
  then show ?thesis
    using Create_new [OF assms False] rh_inv_create [OF assms False] ids_create [OF assms]
      GetRequest_create [OF assms] by simp
qed (simp add: Create_known [OF assms])

lemma Create_bounded_history_witness:
  "let rh = fst (NewRequestHistory 2) in
   \<exists>a rh'. Create ''u'' rh = Ret ((Some a, None), rh') \<and> rh_inv rh' \<and> rh_ids rh' = [''u'']"
proof -
  have "rh_inv (fst (NewRequestHistory 2))" "rh_ids (fst (NewRequestHistory 2)) = []"
    "length (rh_container (fst (NewRequestHistory 2))) = 2"
    using NewRequestHistory_inv [OF _ surjective_pairing, of 2] by simp_all
  with Create_bounded_history [of "fst (NewRequestHistory 2)" "''u''"] show ?thesis by auto
qed

text \<open>
  \<open>All\<close> returns: it visits the requests of the history from the newest to the oldest,
  each exactly once, and then stops, and each of them is the one \<open>GetRequestByUuid\<close> finds
  under its id.
\<close>
theorem All_lists_history:
  assumes "rh_inv rh"
  shows "All rh = Some (Ret (rh_pointers rh)) \<and> distinct (rh_pointers rh) \<and>
    (\<forall>a \<in> set (rh_pointers rh). GetRequestByUuid (RequestId (deref rh a)) rh = Ret (Some a, None))"
proof -
  have "GetRequestByUuid (RequestId (deref rh a)) rh = Ret (Some a, None)" if a: "a \<in> set (rh_pointers rh)" for a
    by (rule pointer_lookup [OF assms a]) (simp add: GetRequestByUuid_def uuidIndexNoLock_def slice_get_ok)
  with distinct_pointers [OF assms] All_pointers [OF rh_invD(1-3) [OF assms]] show ?thesis by blast
qed

lemma All_lists_history_witness:
  "All (fst (NewRequestHistory 3)) = Some (Ret [])"
proof -
  have "rh_inv (fst (NewRequestHistory 3))" "rh_ids (fst (NewRequestHistory 3)) = []"
    using NewRequestHistory_inv [OF _ surjective_pairing, of 3] by simp_all
  with All_lists_history [of "fst (NewRequestHistory 3)"] show ?thesis by (simp add: rh_ids_def)
qed

text \<open>
  Logging a message for a request keeps the history well formed and appends the message
  to that request, which is created when its id is unknown; other requests of the history
  that stay in it keep their messages.
\<close>
theorem HandleLogRecord_appends:
  assumes "rh_inv rh" and "TupleToMap (Ctx r) = (m, None)" and "Msg r \<noteq> []"
    and "fmlookup m key = Some (CtxString u)"
  shows "\<exists>rh' a. HandleLogRecord TupleToMap key r rh = Ret (None, rh') \<and> rh_inv rh' \<and>
    GetRequestByUuid u rh' = Ret (Some a, None) \<and>
    Messages (deref rh' a) =
      (if u \<in> set (rh_ids rh) then Messages (deref rh a) else Messages (create_base rh)) @ [Msg r] \<and>
    (\<forall>b. b \<noteq> a \<longrightarrow> deref rh' b = deref rh b)"
proof (cases "u \<in> set (rh_ids rh)")
  case True
  from GetRequestByUuid_known [OF assms(1) True] obtain a where
    a: "GetRequestByUuid u rh = Ret (Some a, None)" by blast
  with True assms show ?thesis
    by (auto simp: HandleLogRecord_def AddMessage_sel(1) Request_AddMessage_def rh_inv_AddMessage GetRequest_AddMessage)
next
  case False
  with False assms GetRequestByUuid_unknown [OF assms(1) False] Create_new [OF assms(1) False]
    rh_inv_create [OF assms(1) False] GetRequest_create [OF assms(1), of u]
  show ?thesis
    by (auto simp: HandleLogRecord_def AddMessage_sel(1) Request_AddMessage_def rh_inv_AddMessage deref_create
        GetRequest_AddMessage)
qed

lemma HandleLogRecord_appends_witness:
  "let rh = fst (NewRequestHistory 2); TupleToMap = (\<lambda>c. (fmupd ''request-uuid'' (CtxString c) fmempty, None)) in
   \<exists>rh' a. HandleLogRecord TupleToMap ''request-uuid'' \<lparr>Msg = ''hello'', Ctx = ''u''\<rparr> rh = Ret (None, rh') \<and>
     GetRequestByUuid ''u'' rh' = Ret (Some a, None) \<and> last (Messages (deref rh' a)) = ''hello''"
proof -
  let ?T = "\<lambda>c. (fmupd ''request-uuid'' (CtxString c) fmempty, None)"
  have inv: "rh_inv (fst (NewRequestHistory 2))" using NewRequestHistory_inv [OF _ surjective_pairing, of 2] by simp
  obtain rh' a where "HandleLogRecord ?T ''request-uuid'' \<lparr>Msg = ''hello'', Ctx = ''u''\<rparr> (fst (NewRequestHistory 2)) = Ret (None, rh')"
    "GetRequestByUuid ''u'' rh' = Ret (Some a, None)" "\<exists>ms. Messages (deref rh' a) = ms @ [''hello'']"
    using HandleLogRecord_appends [OF inv, of ?T "\<lparr>Msg = ''hello'', Ctx = ''u''\<rparr>" _ "''request-uuid''" "''u''"]
    by auto
  then show ?thesis by (auto simp: Let_def)
qed

text \<open>
  A recycled request is not empty: when the ring has wrapped, the request \<open>Create\<close>
  returns carries a hundred empty messages, because \<open>Reset\<close> makes a slice of length 100
  rather than of capacity 100; the request of an unused slot has none.
\<close>
theorem Create_recycled_messages:
  assumes "rh_inv rh" and "u \<notin> set (rh_ids rh)" and "Create u rh = Ret ((Some a, None), rh')"
  shows "Messages (deref rh' a) =
    (if length (rh_ids rh) = length (rh_container rh) then replicate 100 [] else [])"
proof -
  let ?n = "length (rh_container rh)" and ?s = "rh_container rh ! nat (rh_currentPosition rh)"
  have a: "a = create_ptr rh" "rh' = create_state u rh" using assms(3) Create_new [OF assms(1,2)] by auto
  have "?s = last (recent rh)" using recent_split [OF rh_invD(2,3) [OF assms(1)]] by simp
  also have "last (recent rh) = None \<longleftrightarrow> length (rh_pointers rh) \<noteq> ?n"
    using rh_invD(1) [OF assms(1)] length_rh_pointers [of rh]
    by (subst rh_invD(4) [OF assms(1)], cases "rh_pointers rh" rule: rev_cases) (auto simp: last_append)
  finally show ?thesis
    by (cases ?s) (simp_all add: a deref_create create_base_def rh_ids_def NewRequest_def Request_Reset_def)
qed

lemma Create_recycled_messages_witness:
  "let rh = create_state ''u'' (fst (NewRequestHistory 1)) in
   \<exists>a rh'. Create ''v'' rh = Ret ((Some a, None), rh') \<and> Messages (deref rh' a) = replicate 100 []"
proof -
  let ?base = "fst (NewRequestHistory 1)"
  let ?rh = "create_state ''u'' ?base"
  have inv0: "rh_inv ?base" "rh_ids ?base = []" "length (rh_container ?base) = 1"
    using NewRequestHistory_inv [of 1 ?base "snd (NewRequestHistory 1)"] by simp_all
  have inv: "rh_inv ?rh" by (rule rh_inv_create [OF inv0(1)]) (simp add: inv0)
  have ids: "rh_ids ?rh = [''u'']" using ids_create [OF inv0(1), of "''u''"] by (simp add: inv0)
  then have new: "''v'' \<notin> set (rh_ids ?rh)" by simp
  note c = Create_new [OF inv new]
  with Create_recycled_messages [OF inv new c] ids inv0(3) show ?thesis by (auto simp: Let_def)
qed

end
