(* ===== verification/TimedLock.thy ===== *)
theory TimedLock
  imports Prelude
begin

text \<open>
  The read-write lock with timeouts (\<open>src/go/timedlock/rw_lock.go\<close>). The operations are split
  at the points where another goroutine can run: channel receives and sends, and the critical
  sections of \<open>internalLock\<close>. A system is the shared lock and one program counter for
  each goroutine; \<open>rw_step\<close> lets any goroutine make its next step, and a timer may fire
  at any moment. The buffered channels carry only tokens, so a channel is the number of
  tokens in it.
\<close>

section \<open>rw_lock.go\<close>

definition MAX_RLOCK :: nat where
  "MAX_RLOCK = 1000"

definition TIMEOUT_ERROR :: string where
  "TIMEOUT_ERROR = ''Timeout occured''"

record RWLock =
  internalLock :: "nat option"
  lockChan :: nat
  rlockChan :: nat
  rw_c :: u64
  rw_Panic :: bool
  rw_PrintErrors :: bool

text \<open>\<open>internalLock\<close> names the goroutine that holds the mutex.\<close>

definition NewRWLock :: RWLock where
  "NewRWLock =
     (let l = \<lparr>internalLock = None, lockChan = 0, rlockChan = 0, rw_c = 1, rw_Panic = True, rw_PrintErrors = False\<rparr>;
          l = l\<lparr>lockChan := lockChan l + 1\<rparr>
      in fold (\<lambda>i l. l\<lparr>rlockChan := rlockChan l + 1\<rparr>) [0..<MAX_RLOCK] l)"

definition getNextId :: "RWLock \<Rightarrow> u64 \<times> RWLock" where
  "getNextId l =
     (let c = rw_c l + 1;
          c = (if c = 0 then c + 1 else c)
      in (c, l\<lparr>rw_c := c\<rparr>))"

definition handleTimeout :: "string \<Rightarrow> u64 \<Rightarrow> string \<Rightarrow> RWLock \<Rightarrow> string option outcome" where
  "handleTimeout stackStr lid msg l =
     (let msg = dec_nat (unat lid) @ '' '' @ msg @ '' '' @ stackStr in
      if rw_Panic l then Panic msg
      else if rw_PrintErrors l then Ret (Some msg)
      else Ret None)"

definition Unlock :: "u64 \<Rightarrow> RWLock \<Rightarrow> RWLock outcome" where
  "Unlock lid l =
     (if lockChan l \<noteq> 0 then Panic ''Unlock of unlocked mutex''
      else if lid = 0 then Panic ''Unlocking mutex with ID 0''
      else Ret (l\<lparr>lockChan := lockChan l + 1\<rparr>))"

definition RUnlock :: "u64 \<Rightarrow> RWLock \<Rightarrow> RWLock outcome" where
  "RUnlock lid l =
     (if rlockChan l \<ge> MAX_RLOCK then Panic ''RUnlock of unlocked mutex''
      else if lid = 0 then Panic ''Unlocking mutex with ID 0''
      else Ret (l\<lparr>rlockChan := rlockChan l + 1\<rparr>))"

text \<open>
  Where a goroutine is. \<open>LockWait\<close>: in the \<open>select\<close> of \<open>Lock\<close>; \<open>LockSpin\<close>: it took the
  token of \<open>lockChan\<close> and waits for the readers; \<open>LockGiveUp\<close>: the loop ended without
  the lock; \<open>RLockGot\<close>: \<open>RLock\<close> took the token; \<open>RLockInner\<close>: in the inner \<open>select\<close>,
  holding \<open>internalLock\<close>; \<open>RLockPutBack\<close>, \<open>RLockDone\<close>: about to return the token
  and to release \<open>internalLock\<close>, with whether the read lock was obtained.
\<close>

datatype pc = Idle
  | LockWait u64 | LockSpin u64 | LockGiveUp u64 | LockHeld u64
  | RLockWait u64 | RLockGot u64 | RLockInner u64 | RLockPutBack u64 bool | RLockDone u64 bool | RLockHeld u64
  | TimeoutPanic | UnlockPanic

definition after_timeout :: "string \<Rightarrow> u64 \<Rightarrow> string \<Rightarrow> RWLock \<Rightarrow> pc" where
  "after_timeout stackStr lid msg l =
     (case handleTimeout stackStr lid msg l of Panic m \<Rightarrow> TimeoutPanic | Ret out \<Rightarrow> Idle)"

definition lock_msg :: string where
  "lock_msg = ''Timeout obtaining or releasing lock that came from: '' @ [CHR 0x0A]"

definition rlock_msg :: string where
  "rlock_msg = ''Timeout obtaining or releasing read lock that came from: '' @ [CHR 0x0A]"

text \<open>The next step of goroutine \<open>i\<close> at a program counter.\<close>

inductive thread_step :: "nat \<Rightarrow> pc \<Rightarrow> RWLock \<Rightarrow> pc \<Rightarrow> RWLock \<Rightarrow> bool" where
  lock_start: "internalLock l = None \<Longrightarrow> getNextId l = (lid, l') \<Longrightarrow> thread_step i Idle l (LockWait lid) l'"
| lock_timeout: "thread_step i (LockWait lid) l (after_timeout st lid lock_msg l) l"
| lock_token: "0 < lockChan l \<Longrightarrow> thread_step i (LockWait lid) l (LockSpin lid) (l\<lparr>lockChan := lockChan l - 1\<rparr>)"
| lock_ready: "internalLock l = None \<Longrightarrow> rlockChan l = MAX_RLOCK \<Longrightarrow> thread_step i (LockSpin lid) l (LockHeld lid) l"
| lock_sleep: "internalLock l = None \<Longrightarrow> rlockChan l \<noteq> MAX_RLOCK \<Longrightarrow> thread_step i (LockSpin lid) l (LockSpin lid) l"
| lock_late: "thread_step i (LockSpin lid) l (LockGiveUp lid) l"
| lock_giveup: "lockChan l < 1 \<Longrightarrow>
    thread_step i (LockGiveUp lid) l (after_timeout st lid lock_msg l) (l\<lparr>lockChan := lockChan l + 1\<rparr>)"
| unlock: "internalLock l = None \<Longrightarrow> Unlock lid l = Ret l' \<Longrightarrow> thread_step i (LockHeld lid) l Idle l'"
| unlock_panic: "internalLock l = None \<Longrightarrow> Unlock lid l = Panic m \<Longrightarrow> thread_step i (LockHeld lid) l UnlockPanic l"
| rlock_start: "internalLock l = None \<Longrightarrow> getNextId l = (lid, l') \<Longrightarrow> thread_step i Idle l (RLockWait lid) l'"
| rlock_timeout: "thread_step i (RLockWait lid) l (after_timeout st lid rlock_msg l) l"
| rlock_token: "0 < lockChan l \<Longrightarrow> thread_step i (RLockWait lid) l (RLockGot lid) (l\<lparr>lockChan := lockChan l - 1\<rparr>)"
| rlock_enter: "internalLock l = None \<Longrightarrow> thread_step i (RLockGot lid) l (RLockInner lid) (l\<lparr>internalLock := Some i\<rparr>)"
| rlock_inner_timeout: "thread_step i (RLockInner lid) l (RLockPutBack lid False) l"
| rlock_inner_token: "0 < rlockChan l \<Longrightarrow>
    thread_step i (RLockInner lid) l (RLockPutBack lid True) (l\<lparr>rlockChan := rlockChan l - 1\<rparr>)"
| rlock_put_back: "lockChan l < 1 \<Longrightarrow>
    thread_step i (RLockPutBack lid ok) l (RLockDone lid ok) (l\<lparr>lockChan := lockChan l + 1\<rparr>)"
| rlock_done: "thread_step i (RLockDone lid True) l (RLockHeld lid) (l\<lparr>internalLock := None\<rparr>)"
| rlock_failed: "thread_step i (RLockDone lid False) l (after_timeout st lid rlock_msg l) (l\<lparr>internalLock := None\<rparr>)"
| runlock: "internalLock l = None \<Longrightarrow> RUnlock lid l = Ret l' \<Longrightarrow> thread_step i (RLockHeld lid) l Idle l'"
| runlock_panic: "internalLock l = None \<Longrightarrow> RUnlock lid l = Panic m \<Longrightarrow> thread_step i (RLockHeld lid) l UnlockPanic l"

inductive rw_step :: "RWLock \<times> pc list \<Rightarrow> RWLock \<times> pc list \<Rightarrow> bool" where
  "i < length ts \<Longrightarrow> thread_step i (ts ! i) l p' l' \<Longrightarrow> rw_step (l, ts) (l', ts[i := p'])"

definition rw_start :: "bool \<Rightarrow> bool \<Rightarrow> nat \<Rightarrow> RWLock \<times> pc list" where
  "rw_start panic print n = (NewRWLock\<lparr>rw_Panic := panic, rw_PrintErrors := print\<rparr>, replicate n Idle)"

section \<open>Tokens are conserved\<close>

fun has_token :: "pc \<Rightarrow> bool" where
  "has_token (LockSpin _) = True" | "has_token (LockGiveUp _) = True" | "has_token (LockHeld _) = True"
| "has_token (RLockGot _) = True" | "has_token (RLockInner _) = True" | "has_token (RLockPutBack _ _) = True"
| "has_token _ = False"

fun has_read :: "pc \<Rightarrow> bool" where
  "has_read (RLockPutBack _ ok) = ok" | "has_read (RLockDone _ ok) = ok" | "has_read (RLockHeld _) = True"
| "has_read _ = False"

fun in_internal :: "pc \<Rightarrow> bool" where
  "in_internal (RLockInner _) = True" | "in_internal (RLockPutBack _ _) = True" | "in_internal (RLockDone _ _) = True"
| "in_internal _ = False"

fun pc_id :: "pc \<Rightarrow> u64 option" where
  "pc_id Idle = None" | "pc_id TimeoutPanic = None" | "pc_id UnlockPanic = None"
| "pc_id (LockWait x) = Some x" | "pc_id (LockSpin x) = Some x" | "pc_id (LockGiveUp x) = Some x"
| "pc_id (LockHeld x) = Some x" | "pc_id (RLockWait x) = Some x" | "pc_id (RLockGot x) = Some x"
| "pc_id (RLockInner x) = Some x" | "pc_id (RLockPutBack x _) = Some x" | "pc_id (RLockDone x _) = Some x"
| "pc_id (RLockHeld x) = Some x"

definition rw_inv :: "RWLock \<times> pc list \<Rightarrow> bool" where
  "rw_inv s \<longleftrightarrow> (case s of (l, ts) \<Rightarrow>
     lockChan l + cnt has_token ts = 1 \<and>
     rlockChan l + cnt has_read ts = MAX_RLOCK \<and>
     (\<forall>i < length ts. in_internal (ts ! i) \<longleftrightarrow> internalLock l = Some i) \<and>
     (\<forall>i < length ts. \<forall>lid. ts ! i = LockHeld lid \<longrightarrow> rlockChan l = MAX_RLOCK) \<and>
     (\<forall>p \<in> set ts. pc_id p \<noteq> Some 0) \<and> UnlockPanic \<notin> set ts)"

lemma NewRWLock_eq: "NewRWLock =
  \<lparr>internalLock = None, lockChan = 1, rlockChan = MAX_RLOCK, rw_c = 1, rw_Panic = True, rw_PrintErrors = False\<rparr>"
proof -
  have "fold (\<lambda>i l. l\<lparr>rlockChan := rlockChan l + 1\<rparr>) xs l = l\<lparr>rlockChan := rlockChan l + length xs\<rparr>" for xs :: "nat list" and l :: RWLock
    by (induction xs arbitrary: l) auto
  then show ?thesis by (simp add: NewRWLock_def Let_def)
qed

lemma getNextId_sel:
  "getNextId l = (lid, l') \<Longrightarrow> lid \<noteq> 0 \<and> lockChan l' = lockChan l \<and> rlockChan l' = rlockChan l \<and>
   internalLock l' = internalLock l \<and> rw_Panic l' = rw_Panic l"
  by (auto simp: getNextId_def Let_def split: if_splits)

lemma after_timeout_cases: "after_timeout st lid msg l = (if rw_Panic l then TimeoutPanic else Idle)"
  by (simp add: after_timeout_def handleTimeout_def Let_def)

text \<open>Each step moves tokens between a channel and the goroutine that makes it.\<close>

lemma thread_step_token:
  assumes "thread_step i p l p' l'" and "p' \<noteq> UnlockPanic"
  shows "lockChan l' + of_bool (has_token p') = lockChan l + of_bool (has_token p)"
  using assms
  by cases (auto simp: after_timeout_cases Unlock_def RUnlock_def dest: getNextId_sel split: if_splits)

lemma thread_step_read:
  assumes "thread_step i p l p' l'" and "p' \<noteq> UnlockPanic"
  shows "rlockChan l' + of_bool (has_read p') = rlockChan l + of_bool (has_read p)"
  using assms
  by cases (auto simp: after_timeout_cases Unlock_def RUnlock_def dest: getNextId_sel split: if_splits)

lemma thread_step_internal:
  assumes "thread_step i p l p' l'" and "in_internal p \<longleftrightarrow> internalLock l = Some i"
  shows "in_internal p' \<longleftrightarrow> internalLock l' = Some i"
    and "j \<noteq> i \<Longrightarrow> internalLock l' = Some j \<longleftrightarrow> internalLock l = Some j"
  using assms
  by (cases; auto simp: after_timeout_cases Unlock_def RUnlock_def dest: getNextId_sel split: if_splits)+

lemma thread_step_id:
  assumes "thread_step i p l p' l'" and "pc_id p \<noteq> Some 0"
  shows "pc_id p' \<noteq> Some 0"
  using assms by cases (auto simp: after_timeout_cases dest: getNextId_sel)

lemma thread_step_no_panic:
  assumes "thread_step i p l p' l'" and "p \<noteq> UnlockPanic" and "pc_id p \<noteq> Some 0"
    and "has_token p \<Longrightarrow> lockChan l = 0" and "has_read p \<Longrightarrow> rlockChan l < MAX_RLOCK"
  shows "p' \<noteq> UnlockPanic"
  using assms by cases (auto simp: after_timeout_cases Unlock_def RUnlock_def)

lemma thread_step_writer:
  assumes "thread_step i p l (LockHeld x) l'"
  shows "rlockChan l' = MAX_RLOCK \<and> has_token p"
  using assms by cases (auto simp: after_timeout_cases split: if_splits)

lemma thread_step_rlock_kept:
  assumes "thread_step i p l p' l'" and "\<not> has_read p" and "\<not> has_token p"
  shows "rlockChan l' = rlockChan l"
  using assms by cases (auto simp: after_timeout_cases dest: getNextId_sel)

lemma thread_step_stalled:
  assumes "thread_step j p l p' l'" and "\<not> has_token p" and "\<not> in_internal p"
    and "internalLock l = Some i" and "rlockChan l = 0"
  shows "rlockChan l' = 0"
  using assms by cases auto

lemma rw_inv_step:
  assumes "rw_inv s" and "rw_step s s'"
  shows "rw_inv s'"
  using assms(2)
proof cases
  case (1 i ts l p' l')
  let ?p = "ts ! i" and ?ts = "ts[i := p']"
  note step = 1(4) and i = 1(3)
  from assms(1) have tok: "lockChan l + cnt has_token ts = 1" and rd: "rlockChan l + cnt has_read ts = MAX_RLOCK"
    and int: "\<And>j. j < length ts \<Longrightarrow> in_internal (ts ! j) \<longleftrightarrow> internalLock l = Some j"
    and held: "\<And>j x. j < length ts \<Longrightarrow> ts ! j = LockHeld x \<Longrightarrow> rlockChan l = MAX_RLOCK"
    and ids: "\<And>p. p \<in> set ts \<Longrightarrow> pc_id p \<noteq> Some 0 \<and> p \<noteq> UnlockPanic"
    by (auto simp: rw_inv_def 1(1))
  have mem: "?p \<in> set ts" using i by simp
  have np: "p' \<noteq> UnlockPanic"
    by (rule thread_step_no_panic [OF step])
      (use ids [OF mem] tok rd cnt_pos [OF mem, of has_token] cnt_pos [OF mem, of has_read] in auto)
  have "lockChan l' + cnt has_token ?ts = 1"
    using tok thread_step_token [OF step np] cnt_update [OF i, of has_token p'] by (simp split: if_splits)
  moreover have "rlockChan l' + cnt has_read ?ts = MAX_RLOCK"
    using rd thread_step_read [OF step np] cnt_update [OF i, of has_read p'] by (simp split: if_splits)
  moreover have "in_internal (?ts ! j) \<longleftrightarrow> internalLock l' = Some j" if "j < length ts" for j
    using thread_step_internal [OF step int [OF i]] int [OF that] i that by (cases "j = i") auto
  moreover have "rlockChan l' = MAX_RLOCK" if j: "j < length ts" "?ts ! j = LockHeld x" for j x
  proof (cases "j = i")
    case True
    with j i step thread_step_writer show ?thesis by auto
  next
    case False
    with j have hj: "ts ! j = LockHeld x" by simp
    have "\<not> has_token ?p"
      using cnt_two [of i ts j has_token] i j(1) False hj tok by auto
    moreover have "\<not> has_read ?p"
      using held [OF j(1) hj] rd cnt_pos [OF mem, of has_read] by auto
    ultimately show ?thesis using thread_step_rlock_kept [OF step] held [OF j(1) hj] by simp
  qed
  moreover have "pc_id p \<noteq> Some 0 \<and> p \<noteq> UnlockPanic" if "p \<in> set ?ts" for p
    using that ids thread_step_id [OF step] np mem set_update_subset_insert [of ts i p'] by blast
  ultimately show ?thesis unfolding 1(2) rw_inv_def by auto
qed

lemma rw_inv_start: "rw_inv (rw_start panic print n)"
  by (auto simp: rw_inv_def rw_start_def NewRWLock_eq cnt_def)

lemma rw_reachable_inv:
  assumes "rw_step\<^sup>*\<^sup>* (rw_start panic print n) s"
  shows "rw_inv s"
  using assms by induction (auto intro: rw_inv_start rw_inv_step)

section \<open>Properties\<close>

text \<open>
  C16. Mutual exclusion: in every state that any number of goroutines can reach, when one of
  them holds the write lock no other holds the write lock or a read lock, and at most
  1000 hold the read lock.
\<close>
theorem timedlock_mutual_exclusion:
  assumes "rw_step\<^sup>*\<^sup>* (rw_start panic print n) (l, ts)"
  shows "(\<forall>i j x y. i < length ts \<and> j < length ts \<and> i \<noteq> j \<and> ts ! i = LockHeld x \<longrightarrow>
            ts ! j \<noteq> LockHeld y \<and> ts ! j \<noteq> RLockHeld y) \<and>
         cnt has_read ts \<le> MAX_RLOCK"
proof -
  have inv: "rw_inv (l, ts)" using rw_reachable_inv [OF assms] .
  have "ts ! j \<noteq> LockHeld y \<and> ts ! j \<noteq> RLockHeld y"
    if ij: "i < length ts" "j < length ts" "i \<noteq> j" "ts ! i = LockHeld x" for i j x y
  proof -
    have "cnt has_token ts \<le> 1" "cnt has_read ts = 0" using inv ij by (auto simp: rw_inv_def)
    with cnt_two [OF ij(1-3), of has_token] cnt_pos [OF nth_mem [OF ij(2)], of has_read] ij(4)
    show ?thesis by auto
  qed
  moreover have "cnt has_read ts \<le> MAX_RLOCK" using inv by (auto simp: rw_inv_def)
  ultimately show ?thesis by blast
qed

text \<open>Two goroutines: one takes the write lock, the other is waiting for a read lock.\<close>

lemma rw_two_run:
  "rw_step\<^sup>*\<^sup>* (rw_start True False 2)
     (NewRWLock\<lparr>rw_c := 3, lockChan := 0\<rparr>, [LockHeld 2, RLockWait 3])"
proof -
  let ?l = "\<lambda>c k. NewRWLock\<lparr>rw_c := c, lockChan := k\<rparr>"
  have eq: "rw_start True False 2 = (?l 1 1, [Idle, Idle])"
    by (simp add: rw_start_def NewRWLock_eq numeral_2_eq_2)
  have s1: "rw_step (?l 1 1, [Idle, Idle]) (?l 2 1, [LockWait 2, Idle])"
    using rw_step.intros [of 0 "[Idle, Idle]" "?l 1 1" "LockWait 2" "?l 2 1"]
      thread_step.lock_start [of "?l 1 1" 2 "?l 2 1" 0] by (simp add: NewRWLock_eq getNextId_def)
  have s2: "rw_step (?l 2 1, [LockWait 2, Idle]) (?l 3 1, [LockWait 2, RLockWait 3])"
    using rw_step.intros [of 1 "[LockWait 2, Idle]" "?l 2 1" "RLockWait 3" "?l 3 1"]
      thread_step.rlock_start [of "?l 2 1" 3 "?l 3 1" 1] by (simp add: NewRWLock_eq getNextId_def)
  have s3: "rw_step (?l 3 1, [LockWait 2, RLockWait 3]) (?l 3 0, [LockSpin 2, RLockWait 3])"
    using rw_step.intros [of 0 "[LockWait 2, RLockWait 3]" "?l 3 1" "LockSpin 2" "?l 3 0"]
      thread_step.lock_token [of "?l 3 1" 0 2] by (simp add: NewRWLock_eq)
  have s4: "rw_step (?l 3 0, [LockSpin 2, RLockWait 3]) (?l 3 0, [LockHeld 2, RLockWait 3])"
    using rw_step.intros [of 0 "[LockSpin 2, RLockWait 3]" "?l 3 0" "LockHeld 2" "?l 3 0"]
      thread_step.lock_ready [of "?l 3 0" 0 2] by (simp add: NewRWLock_eq)
  show ?thesis unfolding eq
    using s1 s2 s3 s4 by (meson converse_rtranclp_into_rtranclp rtranclp.rtrancl_refl)
qed

lemma timedlock_mutual_exclusion_witness:
  "[LockHeld 2, RLockWait 3] ! 1 \<noteq> RLockHeld 3 \<and> cnt has_read [LockHeld 2, RLockWait 3] \<le> MAX_RLOCK"
  using timedlock_mutual_exclusion [OF rw_two_run] by (metis One_nat_def length_Cons lessI list.size(3) nth_Cons_0 zero_less_Suc zero_neq_one)

text \<open>
  Timeouts lose no token: in every reachable state in which no goroutine is inside an
  operation or holds a lock (each is idle or died of a timeout panic), the lock is as good as
  new: the write token and all read tokens are there and the internal mutex is free.
\<close>
theorem timedlock_no_lost_tokens:
  assumes "rw_step\<^sup>*\<^sup>* (rw_start panic print n) (l, ts)" and "set ts \<subseteq> {Idle, TimeoutPanic}"
  shows "lockChan l = 1 \<and> rlockChan l = MAX_RLOCK \<and> (\<forall>i < length ts. internalLock l \<noteq> Some i)"
proof -
  have inv: "rw_inv (l, ts)" using rw_reachable_inv [OF assms(1)] .
  have "cnt has_token ts = 0" "cnt has_read ts = 0" using assms(2) by (auto simp: cnt_def filter_empty_conv)
  moreover have "\<not> in_internal (ts ! i)" if "i < length ts" for i
    using assms(2) nth_mem [OF that] by (auto simp: subset_iff)
  ultimately show ?thesis using inv by (auto simp: rw_inv_def)
qed

lemma timedlock_no_lost_tokens_witness:
  "lockChan NewRWLock = 1 \<and> rlockChan NewRWLock = MAX_RLOCK"
proof -
  have "rw_step\<^sup>*\<^sup>* (rw_start True False 1) (NewRWLock, [Idle])" by (simp add: rw_start_def NewRWLock_eq)
  from timedlock_no_lost_tokens [OF this] show ?thesis by simp
qed

text \<open>
  A well-behaved goroutine, one that only releases what it holds, never runs into the panics
  of \<open>Unlock\<close> and \<open>RUnlock\<close>, and never has the identifier 0, even after the 64-bit
  counter of identifiers wraps around.
\<close>
theorem timedlock_unlock_never_panics:
  assumes "rw_step\<^sup>*\<^sup>* (rw_start panic print n) (l, ts)" and "i < length ts"
  shows "(ts ! i = LockHeld x \<longrightarrow> (\<exists>l'. Unlock x l = Ret l')) \<and>
         (ts ! i = RLockHeld x \<longrightarrow> (\<exists>l'. RUnlock x l = Ret l')) \<and>
         fst (getNextId l) \<noteq> 0"
proof -
  have inv: "rw_inv (l, ts)" using rw_reachable_inv [OF assms(1)] .
  have mem: "ts ! i \<in> set ts" using assms(2) by simp
  then have "x \<noteq> 0" if "pc_id (ts ! i) = Some x" using inv that by (auto simp: rw_inv_def)
  then show ?thesis
    using inv cnt_pos [OF mem, of has_token] cnt_pos [OF mem, of has_read]
    by (auto simp: rw_inv_def Unlock_def RUnlock_def getNextId_def Let_def)
qed

lemma timedlock_unlock_never_panics_witness:
  "\<exists>l'. Unlock 2 (NewRWLock\<lparr>rw_c := 3, lockChan := 0\<rparr>) = Ret l'"
  using timedlock_unlock_never_panics [OF rw_two_run, of 0 2] by simp

text \<open>
  A reader that waits for a read token keeps \<open>internalLock\<close> all the while: when all
  1000 tokens are out and a goroutine is in the inner \<open>select\<close> of \<open>RLock\<close>, no
  goroutine can release its lock, so every step leaves the tokens at zero and the waiter
  where it is, except the waiter's own timeout.
\<close>
theorem timedlock_reader_stall:
  assumes "rw_inv (l, ts)" and "i < length ts" and "ts ! i = RLockInner x" and "rlockChan l = 0"
    and "rw_step (l, ts) (l', ts')"
  shows "rlockChan l' = 0 \<and> (ts' ! i = RLockInner x \<or> ts' ! i = RLockPutBack x False)"
proof -
  have il: "internalLock l = Some i" using assms(1-3) by (auto simp: rw_inv_def)
  have tok: "cnt has_token ts \<le> 1" using assms(1) by (auto simp: rw_inv_def)
  from assms(5) obtain j p' where j: "j < length ts" "thread_step j (ts ! j) l p' l'" "ts' = ts[j := p']"
    by (auto elim: rw_step.cases)
  show ?thesis
  proof (cases "j = i")
    case True
    with j assms(2-4) show ?thesis by (auto elim: thread_step.cases)
  next
    case False
    then have "\<not> has_token (ts ! j)" using cnt_two [of i ts j has_token] assms(2,3) j(1) tok by auto
    moreover have "\<not> in_internal (ts ! j)" using False assms(1) j(1) il by (auto simp: rw_inv_def)
    ultimately have "rlockChan l' = 0" using thread_step_stalled [OF j(2)] il assms(4) by blast
    with False assms(2,3) j(3) show ?thesis by simp
  qed
qed

lemma timedlock_reader_stall_witness:
  "let l = NewRWLock\<lparr>internalLock := Some MAX_RLOCK, lockChan := 0, rlockChan := 0\<rparr>;
       ts = replicate MAX_RLOCK (RLockHeld 7) @ [RLockInner 8]
   in rlockChan l = 0 \<and> (ts[MAX_RLOCK := RLockPutBack 8 False] ! MAX_RLOCK = RLockInner 8 \<or>
        ts[MAX_RLOCK := RLockPutBack 8 False] ! MAX_RLOCK = RLockPutBack 8 False)"
proof -
  let ?l = "NewRWLock\<lparr>internalLock := Some MAX_RLOCK, lockChan := 0, rlockChan := 0\<rparr>"
  let ?ts = "replicate MAX_RLOCK (RLockHeld 7) @ [RLockInner 8]"
  have "rw_inv (?l, ?ts)"
    by (auto simp: rw_inv_def cnt_def nth_append NewRWLock_eq)
  moreover have at: "MAX_RLOCK < length ?ts" "?ts ! MAX_RLOCK = RLockInner 8" by (simp_all add: nth_append)
  moreover have "rw_step (?l, ?ts) (?l, ?ts[MAX_RLOCK := RLockPutBack 8 False])"
    using at thread_step.rlock_inner_timeout by (intro rw_step.intros) simp_all
  ultimately show ?thesis unfolding Let_def
    using timedlock_reader_stall [of ?l ?ts MAX_RLOCK 8 ?l "?ts[MAX_RLOCK := RLockPutBack 8 False]"] by simp
qed

end
