(* ===== verification/TryableOnce.thy ===== *)
theory TryableOnce
  imports Prelude
begin

text \<open>
  The retryable \<open>sync.Once\<close> (\<open>src/go/tryableonce/once.go\<close>): \<open>Do\<close> split at its atomic
  operations, run by any number of goroutines. Whether the function succeeds is chosen by
  the environment. \<open>once_calls\<close> and \<open>once_successes\<close> are ghost counters of the calls of
  the function.
\<close>

section \<open>once.go\<close>

definition Retry :: string where
  "Retry = ''Retry''"

record TryableOnce =
  once_done :: u32
  once_calls :: nat
  once_successes :: nat

text \<open>
  Program counters of \<open>Do\<close>: the test \<open>o.done == 2\<close>, the compare-and-swap, the call of
  the function, the store of its outcome, the load of the \<open>switch\<close>, and the return.
\<close>

datatype once_pc = DoTest | DoCAS | DoCall | DoStore go_err | DoSwitch | DoReturn go_err

definition CompareAndSwap :: "u32 \<Rightarrow> u32 \<Rightarrow> TryableOnce \<Rightarrow> bool \<times> TryableOnce" where
  "CompareAndSwap old new oc = (if once_done oc = old then (True, oc\<lparr>once_done := new\<rparr>) else (False, oc))"

text \<open>One step of \<open>Do\<close>; \<open>res\<close> is what the function returns if this step calls it.\<close>

fun Do_step :: "go_err \<Rightarrow> once_pc \<Rightarrow> TryableOnce \<Rightarrow> once_pc \<times> TryableOnce" where
  "Do_step res DoTest oc = (if once_done oc = 2 then (DoReturn None, oc) else (DoCAS, oc))"
| "Do_step res DoCAS oc =
     (case CompareAndSwap 0 1 oc of
        (True, oc') \<Rightarrow> (DoCall, oc')
      | (False, oc') \<Rightarrow> (DoSwitch, oc'))"
| "Do_step res DoCall oc =
     (DoStore res, oc\<lparr>once_calls := once_calls oc + 1,
                      once_successes := once_successes oc + (if res = None then 1 else 0)\<rparr>)"
| "Do_step res (DoStore err) oc =
     (DoReturn err, oc\<lparr>once_done := (if err \<noteq> None then 0 else 2)\<rparr>)"
| "Do_step res DoSwitch oc =
     (if once_done oc = 0 then (DoReturn (Some Retry), oc)
      else if once_done oc = 1 then (DoTest, oc)
      else if once_done oc = 2 then (DoReturn None, oc)
      else (DoTest, oc))"
| "Do_step res (DoReturn err) oc = (DoTest, oc)"

text \<open>After a return the goroutine may call \<open>Do\<close> again, which is the last equation.\<close>

inductive once_step :: "TryableOnce \<times> once_pc list \<Rightarrow> TryableOnce \<times> once_pc list \<Rightarrow> bool" where
  "i < length ts \<Longrightarrow> Do_step res (ts ! i) oc = (p', oc') \<Longrightarrow> once_step (oc, ts) (oc', ts[i := p'])"

definition once_start :: "nat \<Rightarrow> TryableOnce \<times> once_pc list" where
  "once_start n = (\<lparr>once_done = 0, once_calls = 0, once_successes = 0\<rparr>, replicate n DoTest)"

section \<open>Invariant\<close>

fun owns :: "once_pc \<Rightarrow> bool" where
  "owns DoCall = True" | "owns (DoStore _) = True" | "owns _ = False"

fun succeeded :: "once_pc \<Rightarrow> bool" where
  "succeeded (DoStore err) = (err = None)" | "succeeded _ = False"

text \<open>
  The flag is 1 exactly while one goroutine owns the call. The function has succeeded once
  if the flag is 2 or a success is about to be stored, and never otherwise.
\<close>

definition once_inv :: "TryableOnce \<times> once_pc list \<Rightarrow> bool" where
  "once_inv s \<longleftrightarrow> (case s of (oc, ts) \<Rightarrow>
     once_done oc \<in> {0, 1, 2} \<and>
     cnt owns ts = (if once_done oc = 1 then 1 else 0) \<and>
     once_successes oc = (if once_done oc = 2 then 1 else 0) + cnt succeeded ts)"

lemma once_inv_start: "once_inv (once_start n)"
  by (simp add: once_inv_def once_start_def cnt_def)

lemma cnt_mono: "(\<And>x. P x \<Longrightarrow> Q x) \<Longrightarrow> cnt P xs \<le> cnt Q xs"
  by (induction xs) (auto simp: cnt_def)

lemma once_inv_step:
  assumes "once_inv s" and "once_step s s'"
  shows "once_inv s'"
  using assms(2)
proof cases
  case (1 i ts res oc p' oc')
  have mem: "ts ! i \<in> set ts" using 1(3) by simp
  have "owns (ts ! i) \<Longrightarrow> once_done oc = 1"
    using assms(1) cnt_pos [OF mem, of owns] by (auto simp: once_inv_def 1(1) split: if_splits)
  moreover have "cnt succeeded ts \<le> cnt owns ts"
    by (rule cnt_mono) (auto elim: succeeded.elims)
  ultimately show ?thesis
    using assms(1) 1(4) cnt_update [OF 1(3), of owns p'] cnt_update [OF 1(3), of succeeded p']
    by (cases "ts ! i") (auto simp: once_inv_def 1(1,2) CompareAndSwap_def split: if_splits)
qed

lemma once_reachable_inv: "once_step\<^sup>*\<^sup>* (once_start n) s \<Longrightarrow> once_inv s"
  by (induction rule: rtranclp_induct) (auto intro: once_inv_start once_inv_step)



text \<open>
  Once the function has succeeded and the flag is stored, it is never called again: the
  count of calls stays as it is in every later state.
\<close>
theorem once_not_called_again:
  assumes "once_step\<^sup>*\<^sup>* (once_start n) (oc, ts)" and "once_done oc = 2" and "once_step\<^sup>*\<^sup>* (oc, ts) (oc', ts')"
  shows "once_done oc' = 2 \<and> once_calls oc' = once_calls oc"
  using assms(3)
proof (induction "(oc', ts')" arbitrary: oc' ts' rule: rtranclp_induct)
  case base
  then show ?case using assms(2) by simp
next
  case (step y)
  obtain o1 t1 where y: "y = (o1, t1)" by fastforce
  have IH: "once_done o1 = 2" "once_calls o1 = once_calls oc" using step.hyps(3) y by auto
  have "once_step\<^sup>*\<^sup>* (once_start n) (o1, t1)" using assms(1) step.hyps(1) y by simp
  then have none: "cnt owns t1 = 0" using once_reachable_inv [of n "(o1, t1)"] IH(1) by (auto simp: once_inv_def)
  from step.hyps(2) obtain i res p' where i: "i < length t1" "Do_step res (t1 ! i) o1 = (p', oc')"
    unfolding y by (auto elim: once_step.cases)
  have "\<not> owns (t1 ! i)" using cnt_pos [of "t1 ! i" t1 owns] none i(1) by auto
  with i(2) IH show ?case by (cases "t1 ! i") (auto simp: CompareAndSwap_def split: if_splits)
qed

lemma once_one_run:
  "once_step\<^sup>*\<^sup>* (once_start 1) (\<lparr>once_done = 2, once_calls = 1, once_successes = 1\<rparr>, [DoReturn None])"
proof -
  let ?o = "\<lambda>d c. \<lparr>once_done = d, once_calls = c, once_successes = c\<rparr>"
  have s1: "once_step (?o 0 0, [DoTest]) (?o 0 0, [DoCAS])"
    using once_step.intros [of 0 "[DoTest]" None "?o 0 0"] by simp
  have s2: "once_step (?o 0 0, [DoCAS]) (?o 1 0, [DoCall])"
    using once_step.intros [of 0 "[DoCAS]" None "?o 0 0"] by (simp add: CompareAndSwap_def)
  have s3: "once_step (?o 1 0, [DoCall]) (?o 1 1, [DoStore None])"
    using once_step.intros [of 0 "[DoCall]" None "?o 1 0"] by simp
  have s4: "once_step (?o 1 1, [DoStore None]) (?o 2 1, [DoReturn None])"
    using once_step.intros [of 0 "[DoStore None]" None "?o 1 1"] by simp
  have "once_start 1 = (?o 0 0, [DoTest])" by (simp add: once_start_def)
  with s1 s2 s3 s4 show ?thesis by (simp add: converse_rtranclp_into_rtranclp [of once_step])
qed

lemma once_not_called_again_witness:
  "once_calls \<lparr>once_done = 2, once_calls = 1, once_successes = 1\<rparr> = 1 \<and>
   once_step\<^sup>*\<^sup>* (\<lparr>once_done = 2, once_calls = 1, once_successes = 1\<rparr>, [DoReturn None])
     (\<lparr>once_done = 2, once_calls = 1, once_successes = 1\<rparr>, [DoTest]) \<and>
   once_done \<lparr>once_done = 2, once_calls = 1, once_successes = 1\<rparr> = 2"
proof -
  let ?o = "\<lparr>once_done = 2, once_calls = 1, once_successes = 1\<rparr>"
  have s: "once_step\<^sup>*\<^sup>* (?o, [DoReturn None]) (?o, [DoTest])"
    using once_step.intros [of 0 "[DoReturn None]" None ?o] by auto
  from once_not_called_again [OF once_one_run _ s] s show ?thesis by simp
qed

end
