(* ===== verification/Interval.thy ===== *)
theory Interval
  imports Prelude
begin

text \<open>
  Recurring jobs (\<open>src/go/interval/interval.go\<close>). Times and durations are nanoseconds; the
  current time is an argument, and \<open>time.ParseDuration\<close> and \<open>rand.Int63n\<close> are passed as
  their results. The scheduling goroutine of \<open>Run\<close> is a step function on the events its
  \<open>select\<close> waits for.
\<close>

section \<open>interval.go\<close>

record recurrent =
  rec_delay :: int
  rec_started :: int
  rec_count :: int
  rec_done :: bool
  rec_randomize :: bool

text \<open>
  \<open>doRun\<close> is \<open>None\<close> while \<open>DoRun\<close> has not been called: a nil function, whose call
  panics. The interface value \<open>schedule\<close> is \<open>None\<close> when it is nil.
\<close>

record Job =
  job_err :: go_err
  job_schedule :: "recurrent option"
  job_doRun :: "bool option"
  job_isRunning :: bool

definition nextRun :: "int \<Rightarrow> nat \<Rightarrow> recurrent \<Rightarrow> ((int \<times> go_err) \<times> recurrent) outcome" where
  "nextRun now seed r =
     (if rec_delay r < 0 then Ret ((0, Some ''invalid delay''), r)
      else if \<not> rec_done r then Ret ((0, None), r\<lparr>rec_done := True\<rparr>)
      else if rec_randomize r \<and> rec_delay r = 0 then Panic ''invalid argument to Int63n''
      else
        let r' = (if rec_randomize r then
                    r\<lparr>rec_randomize := False,
                      rec_started := rec_started r - int (rand_Intn seed (nat (rec_delay r)))\<rparr>
                  else r);
            offset = rec_count r' * rec_delay r' - (now - rec_started r')
        in Ret ((rec_delay r' + offset, None), r'))"

definition Every :: "int \<Rightarrow> string \<Rightarrow> int option \<Rightarrow> Job" where
  "Every now duration parsed =
     (case parsed of
        None \<Rightarrow> \<lparr>job_err = Some (''Could not parse duration: '' @ duration), job_schedule = None,
                  job_doRun = None, job_isRunning = False\<rparr>
      | Some t \<Rightarrow> \<lparr>job_err = None,
                    job_schedule = Some \<lparr>rec_delay = t, rec_started = now, rec_count = 0, rec_done = False,
                                         rec_randomize = False\<rparr>,
                    job_doRun = None, job_isRunning = False\<rparr>)"

definition DoRun :: "bool \<Rightarrow> Job \<Rightarrow> Job" where
  "DoRun f j = j\<lparr>job_doRun := Some f\<rparr>"

definition Randomize :: "Job \<Rightarrow> Job" where
  "Randomize j =
     (case job_schedule j of
        None \<Rightarrow> j\<lparr>job_err := Some ''bad function chaining''\<rparr>
      | Some rj \<Rightarrow> j\<lparr>job_schedule := Some (rj\<lparr>rec_done := True, rec_randomize := True\<rparr>)\<rparr>)"

text \<open>
  \<open>runJob\<close> in two parts: up to the decision to run the function, which returns whether it
  runs, and the end of the run. \<open>again\<close> is what \<open>doRun\<close> answers.
\<close>

definition runJob_start :: "Job \<Rightarrow> (bool \<times> Job) outcome" where
  "runJob_start job =
     (case job_schedule job of
        None \<Rightarrow> Ret (False, job\<lparr>job_err := Some ''bad function chaining''\<rparr>)
      | Some rj \<Rightarrow>
          let job' = job\<lparr>job_schedule := Some (rj\<lparr>rec_count := rec_count rj + 1\<rparr>)\<rparr> in
          if job_isRunning job' then Ret (False, job')
          else case job_doRun job' of
            None \<Rightarrow> Panic ''nil pointer dereference''
          | Some again \<Rightarrow> if \<not> again then Ret (False, job')
                          else Ret (True, job'\<lparr>job_isRunning := True\<rparr>))"

definition runJob_end :: "Job \<Rightarrow> Job" where
  "runJob_end job = job\<lparr>job_isRunning := False\<rparr>"

text \<open>\<open>Run\<close> up to the start of its goroutine: the first wait.\<close>

definition Run_start :: "int \<Rightarrow> nat \<Rightarrow> Job \<Rightarrow> ((go_err \<times> int) \<times> Job) outcome" where
  "Run_start now seed j =
     (if job_err j \<noteq> None then Ret ((job_err j, 0), j)
      else case job_schedule j of
        None \<Rightarrow> Panic ''nil pointer dereference''
      | Some r \<Rightarrow> go_bind (nextRun now seed r)
          (\<lambda>((nxt, err), r'). Ret ((err, nxt), j\<lparr>job_schedule := Some r'\<rparr>)))"

text \<open>
  The goroutine of \<open>Run\<close>. A wake-up (\<open>SkipWait\<close> or \<open>Elapsed\<close>) starts \<open>go runJob(j)\<close> and
  computes the next wait at once; the started goroutine runs at some later moment
  (\<open>Spawned\<close>), so the wait may be computed before or after \<open>runJob\<close> counts the run.
  \<open>rs_pending\<close> counts the goroutines that have not begun, \<open>rs_wakeups\<close> the wake-ups.
\<close>

datatype job_event = Quit | SkipWait | Elapsed | Spawned | Finished

record run_state =
  rs_job :: Job
  rs_next :: int
  rs_pending :: nat
  rs_wakeups :: nat
  rs_stopped :: bool

definition Run_wakeup :: "int \<Rightarrow> nat \<Rightarrow> run_state \<Rightarrow> run_state outcome" where
  "Run_wakeup now seed st =
     (case job_schedule (rs_job st) of
        None \<Rightarrow> Panic ''nil pointer dereference''
      | Some r \<Rightarrow> go_bind (nextRun now seed r) (\<lambda>((nxt, err), r').
          Ret (st\<lparr>rs_job := (rs_job st)\<lparr>job_schedule := Some r'\<rparr>, rs_next := nxt,
                  rs_pending := rs_pending st + 1, rs_wakeups := rs_wakeups st + 1\<rparr>)))"

fun Run_event :: "int \<times> nat \<times> job_event \<Rightarrow> run_state \<Rightarrow> run_state outcome" where
  "Run_event (now, seed, Quit) st = Ret (st\<lparr>rs_stopped := True\<rparr>)"
| "Run_event (now, seed, SkipWait) st = (if rs_stopped st then Ret st else Run_wakeup now seed st)"
| "Run_event (now, seed, Elapsed) st = (if rs_stopped st then Ret st else Run_wakeup now seed st)"
| "Run_event (now, seed, Spawned) st =
     (if rs_pending st = 0 then Ret st
      else go_bind (runJob_start (rs_job st)) (\<lambda>(ran, j).
        Ret (st\<lparr>rs_job := j, rs_pending := rs_pending st - 1\<rparr>)))"
| "Run_event (now, seed, Finished) st = Ret (st\<lparr>rs_job := runJob_end (rs_job st)\<rparr>)"

fun Run_events :: "(int \<times> nat \<times> job_event) list \<Rightarrow> run_state \<Rightarrow> run_state outcome" where
  "Run_events [] st = Ret st"
| "Run_events (e # es) st = go_bind (Run_event e st) (Run_events es)"

definition run_init :: "int \<Rightarrow> Job \<Rightarrow> run_state" where
  "run_init nxt j = \<lparr>rs_job = j, rs_next = nxt, rs_pending = 0, rs_wakeups = 0, rs_stopped = False\<rparr>"

section \<open>Properties\<close>

text \<open>
  In every state of the goroutine the start time and the delay are the ones it began with,
  every wake-up is counted or pending, and the condition set by \<open>DoRun\<close> is there.
\<close>

definition run_inv :: "int \<Rightarrow> int \<Rightarrow> run_state \<Rightarrow> bool" where
  "run_inv t0 t st \<longleftrightarrow>
     (case job_schedule (rs_job st) of
        None \<Rightarrow> False
      | Some r \<Rightarrow> rec_started r = t0 \<and> rec_delay r = t \<and> rec_done r \<and> \<not> rec_randomize r \<and>
                  rec_count r = int (rs_wakeups st) - int (rs_pending st)) \<and>
     job_doRun (rs_job st) \<noteq> None"

lemma Run_wakeup_ok:
  assumes "run_inv t0 t st" and "0 \<le> t"
  shows "\<exists>st'. Run_wakeup now seed st = Ret st' \<and> run_inv t0 t st' \<and>
    now + rs_next st' = t0 + (int (rs_wakeups st) - int (rs_pending st) + 1) * t"
proof -
  from assms(1) obtain r where r: "job_schedule (rs_job st) = Some r" "rec_started r = t0" "rec_delay r = t"
    "rec_done r" "\<not> rec_randomize r" "rec_count r = int (rs_wakeups st) - int (rs_pending st)"
    "job_doRun (rs_job st) \<noteq> None"
    by (auto simp: run_inv_def split: option.splits)
  then show ?thesis using assms(2)
    by (simp add: run_inv_def Run_wakeup_def nextRun_def Let_def) (simp add: algebra_simps)
qed

lemma Run_event_inv:
  assumes "run_inv t0 t st" and "0 \<le> t"
  shows "\<exists>st'. Run_event e st = Ret st' \<and> run_inv t0 t st'"
proof (cases e)
  case (fields now seed ev)
  show ?thesis
  proof (cases ev)
    case Spawned
    then show ?thesis using assms fields
      by (cases "rs_pending st")
        (auto simp: run_inv_def runJob_start_def Let_def split: option.splits)
  qed (use assms fields Run_wakeup_ok [OF assms, of now seed] in
      \<open>auto simp: run_inv_def runJob_end_def split: option.splits\<close>)
qed

lemma Run_events_inv:
  assumes "run_inv t0 t st" and "0 \<le> t"
  shows "\<exists>st'. Run_events es st = Ret st' \<and> run_inv t0 t st'"
  using assms(1)
proof (induction es arbitrary: st)
  case (Cons e es)
  from Run_event_inv [OF Cons.prems assms(2), of e] obtain st1 where "Run_event e st = Ret st1" "run_inv t0 t st1"
    by blast
  with Cons.IH [of st1] show ?case by simp
qed simp



text \<open>
  \<open>Randomize\<close> spreads the first run over one period: for a positive delay \<open>Run\<close> never
  panics and plans the first run after the job was created and at most one delay later, and
  later runs keep that phase.
\<close>
theorem Randomize_first_run:
  assumes "0 < t"
  shows "\<exists>nxt j r. Run_start now' seed (Randomize (Every now d (Some t))) = Ret ((None, nxt), j) \<and>
    now < now' + nxt \<and> now' + nxt \<le> now + t \<and> job_schedule j = Some r \<and>
    rec_started r + t = now' + nxt \<and> \<not> rec_randomize r"
proof -
  let ?jit = "int (rand_Intn seed (nat t))"
  have "?jit < t" using rand_Intn_less [of "nat t" seed] assms by simp
  moreover have "0 \<le> ?jit" by simp
  ultimately show ?thesis using assms
    by (simp add: Run_start_def Randomize_def Every_def nextRun_def Let_def)
qed

lemma Randomize_first_run_witness:
  "\<exists>nxt j. Run_start 1000 7 (Randomize (Every 1000 ''10ns'' (Some 10))) = Ret ((None, nxt), j) \<and>
    1000 < 1000 + nxt \<and> 1000 + nxt \<le> 1010"
  using Randomize_first_run [of 10 1000 7 1000 "''10ns''"] by fastforce

text \<open>
  At most one run of a job is in progress: while one is, a further wake-up only counts and
  does not start the function, and a job without a \<open>DoRun\<close> condition panics as soon as it
  is woken up while idle.
\<close>
theorem runJob_start_guard:
  assumes "job_schedule j = Some r"
  shows "runJob_start j =
    (if job_isRunning j then Ret (False, j\<lparr>job_schedule := Some (r\<lparr>rec_count := rec_count r + 1\<rparr>)\<rparr>)
     else case job_doRun j of
       None \<Rightarrow> Panic ''nil pointer dereference''
     | Some again \<Rightarrow> Ret (again, j\<lparr>job_schedule := Some (r\<lparr>rec_count := rec_count r + 1\<rparr>), job_isRunning := again\<rparr>))"
  using assms by (cases j) (auto simp: runJob_start_def Let_def split: option.splits)

lemma runJob_start_guard_witness:
  "runJob_start (Every 0 ''1s'' (Some 1000000000)) = Panic ''nil pointer dereference''"
  using runJob_start_guard [of "Every 0 ''1s'' (Some 1000000000)"] by (simp add: Every_def)

end
