(* ===== verification/AaaTokens.thy ===== *)
theory AaaTokens
  imports Prelude "HOL-Library.List_Lexorder" "HOL-Library.Char_ord"
begin

text \<open>
  Tokens and authentication of the API front end (\<open>src/go/api-frontend/aaa\<close>): the token
  information and its administrative actions, the in-memory token backend, the three
  authentication backends and \<open>Login\<close>.

  The expiring cache (\<open>go-cache\<close>), \<open>bcrypt\<close>, the HTTP client and the database are parameters.
  The cache is a record of the operations the code calls, and \<open>token_cache_laws\<close> states what
  its documentation promises. One call of an operation sees one current time \<open>now\<close>, in
  nanoseconds.
\<close>

section \<open>token\_backend.go\<close>

definition AccessAllTenants :: int where "AccessAllTenants = 0"
definition AccessNoTenants :: int where "AccessNoTenants = -1"

record Tenant =
  ten_Name :: string
  ten_PortalDomainName :: string
  ten_DomainName :: string
  ten_Id :: int

record TokenInfo =
  ti_AdminRoles :: "(string, bool) gomap"
  ti_Tenant :: Tenant
  ti_Username :: string
  ti_CreatedAt :: int

text \<open>
  The configuration \<open>Config.AdminRoles.Element\<close> maps a role to its actions; a role that is
  not there has none. \<open>multi\<close> is the package variable \<open>multipleTenants\<close>.
\<close>

type_synonym admin_roles = "(string, (string, string) gomap) gomap"

definition IsTenantMaster :: "bool \<Rightarrow> TokenInfo \<Rightarrow> bool" where
  "IsTenantMaster multi ti =
     (if \<not> multi \<or> (multi \<and> ten_Id (ti_Tenant ti) = AccessAllTenants) then True else False)"

definition AdminActions :: "admin_roles \<Rightarrow> bool \<Rightarrow> TokenInfo \<Rightarrow> (string, bool) gomap" where
  "AdminActions cfg multi ti =
     (let adminRolesMap =
            fold (\<lambda>role m. fold (\<lambda>act m. fmupd act True m)
                             (range_keys (\<lambda>_. 0) (gm_get fmempty cfg role)) m)
              (range_keys (\<lambda>_. 0) (ti_AdminRoles ti)) fmempty
      in if IsTenantMaster multi ti then fmupd ''TENANT_MASTER'' True adminRolesMap else adminRolesMap)"

section \<open>mem\_token\_backend.go\<close>

record 'c token_cache =
  cGet :: "int \<Rightarrow> string \<Rightarrow> 'c \<Rightarrow> TokenInfo option"
  cGetWithExpiration :: "int \<Rightarrow> string \<Rightarrow> 'c \<Rightarrow> (TokenInfo \<times> int) option"
  cSetDefault :: "int \<Rightarrow> string \<Rightarrow> TokenInfo \<Rightarrow> 'c \<Rightarrow> 'c"

text \<open>
  The documented behaviour of the cache with default expiration \<open>d\<close>: \<open>SetDefault\<close> replaces
  the item of its key and of no other; the item is found, with its expiration time, until
  \<open>d\<close> has passed and not after; \<open>Get\<close> and \<open>GetWithExpiration\<close> find the same items.
\<close>

definition token_cache_laws :: "int \<Rightarrow> 'c token_cache \<Rightarrow> bool" where
  "token_cache_laws d C \<longleftrightarrow>
     (\<forall>now k c. cGet C now k c = map_option fst (cGetWithExpiration C now k c)) \<and>
     (\<forall>now now' k ti c. now \<le> now' \<and> now' < now + d \<longrightarrow>
        cGetWithExpiration C now' k (cSetDefault C now k ti c) = Some (ti, now + d)) \<and>
     (\<forall>now now' k ti c. now + d < now' \<longrightarrow>
        cGetWithExpiration C now' k (cSetDefault C now k ti c) = None) \<and>
     (\<forall>now now' k ti c ti' e. cGetWithExpiration C now' k (cSetDefault C now k ti c) = Some (ti', e) \<longrightarrow>
        ti' = ti \<and> e = now + d) \<and>
     (\<forall>now now' k k' ti c. k' \<noteq> k \<longrightarrow>
        cGetWithExpiration C now' k' (cSetDefault C now k ti c) = cGetWithExpiration C now' k' c)"

record 'c MemTokenBackend =
  mtb_store :: 'c
  mtb_maxExpiration :: int

definition NewMemTokenBackend :: "'c \<Rightarrow> int \<Rightarrow> 'c MemTokenBackend" where
  "NewMemTokenBackend store maxExpiration = \<lparr>mtb_store = store, mtb_maxExpiration = maxExpiration\<rparr>"

definition TokenIsValid :: "'c token_cache \<Rightarrow> int \<Rightarrow> string \<Rightarrow> 'c MemTokenBackend \<Rightarrow> bool" where
  "TokenIsValid C now token mtb \<longleftrightarrow> cGet C now token (mtb_store mtb) \<noteq> None"

definition TokenInfoForToken ::
  "'c token_cache \<Rightarrow> int \<Rightarrow> string \<Rightarrow> 'c MemTokenBackend \<Rightarrow> TokenInfo option \<times> int" where
  "TokenInfoForToken C now token mtb =
     (case cGetWithExpiration C now token (mtb_store mtb) of
        Some (ti, expiration) \<Rightarrow>
          if now - ti_CreatedAt ti > mtb_maxExpiration mtb then (None, 0)
          else
            let expiration' = (if expiration > ti_CreatedAt ti + mtb_maxExpiration mtb
                               then ti_CreatedAt ti + mtb_maxExpiration mtb else expiration)
            in (Some ti, expiration')
      | None \<Rightarrow> (None, 0))"

definition TenantIdForToken :: "'c token_cache \<Rightarrow> int \<Rightarrow> string \<Rightarrow> 'c MemTokenBackend \<Rightarrow> int" where
  "TenantIdForToken C now token mtb =
     (case fst (TokenInfoForToken C now token mtb) of
        Some ti \<Rightarrow> ten_Id (ti_Tenant ti)
      | None \<Rightarrow> AccessNoTenants)"

definition AdminActionsForToken ::
  "admin_roles \<Rightarrow> bool \<Rightarrow> 'c token_cache \<Rightarrow> int \<Rightarrow> string \<Rightarrow> 'c MemTokenBackend \<Rightarrow> (string, bool) gomap" where
  "AdminActionsForToken cfg multi C now token mtb =
     (case fst (TokenInfoForToken C now token mtb) of
        Some ti \<Rightarrow> AdminActions cfg multi ti
      | None \<Rightarrow> fmempty)"

definition StoreTokenInfo ::
  "'c token_cache \<Rightarrow> int \<Rightarrow> string \<Rightarrow> TokenInfo \<Rightarrow> 'c MemTokenBackend \<Rightarrow> go_err \<times> 'c MemTokenBackend" where
  "StoreTokenInfo C now token ti mtb =
     (None, mtb\<lparr>mtb_store := cSetDefault C now token (ti\<lparr>ti_CreatedAt := now\<rparr>) (mtb_store mtb)\<rparr>)"

definition TouchTokenInfo :: "'c token_cache \<Rightarrow> int \<Rightarrow> string \<Rightarrow> 'c MemTokenBackend \<Rightarrow> 'c MemTokenBackend" where
  "TouchTokenInfo C now token mtb =
     (case fst (TokenInfoForToken C now token mtb) of
        Some ti \<Rightarrow> mtb\<lparr>mtb_store := cSetDefault C now token ti (mtb_store mtb)\<rparr>
      | None \<Rightarrow> mtb)"

section \<open>authentication\_backend.go\<close>

text \<open>What \<open>Authenticate\<close> answers: whether it accepts, the token information, an error.\<close>

type_synonym auth_reply = "bool \<times> TokenInfo option \<times> go_err"

definition zero_tenant :: Tenant where
  "zero_tenant = \<lparr>ten_Name = [], ten_PortalDomainName = [], ten_DomainName = [], ten_Id = 0\<rparr>"

definition new_token_info :: "(string, bool) gomap \<Rightarrow> Tenant \<Rightarrow> TokenInfo" where
  "new_token_info roles tenant =
     \<lparr>ti_AdminRoles = roles, ti_Tenant = tenant, ti_Username = [], ti_CreatedAt = 0\<rparr>"

record MemAuthenticationBackend =
  mab_validUsers :: "(string, string) gomap"
  mab_adminRoles :: "(string, bool) gomap"

definition NewMemAuthenticationBackend ::
  "(string, string) gomap \<Rightarrow> (string, bool) gomap \<Rightarrow> MemAuthenticationBackend" where
  "NewMemAuthenticationBackend validUsers adminRoles =
     \<lparr>mab_validUsers = validUsers, mab_adminRoles = adminRoles\<rparr>"

definition Mem_SetUser :: "string \<Rightarrow> string \<Rightarrow> MemAuthenticationBackend \<Rightarrow> MemAuthenticationBackend" where
  "Mem_SetUser username password mab = mab\<lparr>mab_validUsers := fmupd username password (mab_validUsers mab)\<rparr>"

definition Mem_RemoveUser :: "string \<Rightarrow> string \<Rightarrow> MemAuthenticationBackend \<Rightarrow> MemAuthenticationBackend" where
  "Mem_RemoveUser username password mab = mab\<lparr>mab_validUsers := fmdrop username (mab_validUsers mab)\<rparr>"

definition Mem_Authenticate :: "MemAuthenticationBackend \<Rightarrow> string \<Rightarrow> string \<Rightarrow> auth_reply outcome" where
  "Mem_Authenticate mab username password =
     (case fmlookup (mab_validUsers mab) username of
        Some storedPass \<Rightarrow>
          if password = storedPass
          then Ret (True, Some (new_token_info (mab_adminRoles mab) (zero_tenant\<lparr>ten_Id := AccessAllTenants\<rparr>)), None)
          else Ret (False, None, None)
      | None \<Rightarrow> Ret (False, None, None))"

section \<open>pf\_authentication\_backend.go\<close>

record PfAuthenticationReply =
  pf_Result :: int
  pf_Roles :: "string list"
  pf_Tenant :: Tenant

definition roles_map :: "string list \<Rightarrow> (string, bool) gomap" where
  "roles_map adminRoles = fold (\<lambda>role m. fmupd (strings_TrimBlanks role) True m) adminRoles fmempty"

definition Pf_buildTokenInfo :: "PfAuthenticationReply \<Rightarrow> TokenInfo" where
  "Pf_buildTokenInfo data = new_token_info (roles_map (pf_Roles data)) (pf_Tenant data)"

text \<open>
  What the HTTP client and the JSON decoder make of the request: the request failed, the body
  could not be read (\<open>CheckError\<close> panics), it could not be decoded, or a reply.
\<close>

datatype pf_response = PfFailed string | PfUnreadable string | PfBadJson string | PfReply PfAuthenticationReply

definition Pf_Authenticate :: "(string \<Rightarrow> string \<Rightarrow> pf_response) \<Rightarrow> string \<Rightarrow> string \<Rightarrow> auth_reply outcome" where
  "Pf_Authenticate request username password =
     (case request username password of
        PfFailed e \<Rightarrow> Ret (False, None, Some e)
      | PfUnreadable e \<Rightarrow> Panic e
      | PfBadJson e \<Rightarrow> Ret (False, None, Some e)
      | PfReply reply \<Rightarrow>
          if pf_Result reply \<noteq> 1 then Ret (False, None, None)
          else Ret (True, Some (Pf_buildTokenInfo reply), None))"

section \<open>db\_authentication\_backend.go\<close>

record ApiUser =
  au_Username :: string
  au_Password :: string
  au_ValidFrom :: int
  au_Expiration :: int
  au_AccessLevel :: string
  au_TenantId :: int

text \<open>
  \<open>sql.Rows\<close> of the standard library: a cursor that stands before the first row until \<open>Next\<close>
  is called. \<open>Scan\<close> without a current row is an error; a row that does not convert to the
  destinations is \<open>Inl\<close> the error of its scan.
\<close>

record 'r Rows =
  rows_current :: "(string + 'r) option"
  rows_rest :: "(string + 'r) list"

definition sql_rows :: "(string + 'r) list \<Rightarrow> 'r Rows" where
  "sql_rows rs = \<lparr>rows_current = None, rows_rest = rs\<rparr>"

definition rows_Next :: "'r Rows \<Rightarrow> bool \<times> 'r Rows" where
  "rows_Next r = (case rows_rest r of
     [] \<Rightarrow> (False, \<lparr>rows_current = None, rows_rest = []\<rparr>)
   | x # xs \<Rightarrow> (True, \<lparr>rows_current = Some x, rows_rest = xs\<rparr>))"

definition rows_Scan :: "'r Rows \<Rightarrow> string + 'r" where
  "rows_Scan r = (case rows_current r of
     None \<Rightarrow> Inl ''sql: Scan called without calling Next''
   | Some x \<Rightarrow> x)"

text \<open>The two queries of the backend: rows, or the error of the query.\<close>

record auth_db =
  db_users :: "string \<Rightarrow> string + (string + ApiUser) list"
  db_tenant :: "int \<Rightarrow> string + (string + Tenant) list"

definition Db_buildTokenInfo :: "auth_db \<Rightarrow> ApiUser \<Rightarrow> TokenInfo outcome" where
  "Db_buildTokenInfo db apiUser =
     (let adminRolesMap = roles_map (strings_Split (au_AccessLevel apiUser) CHR '','') in
      case db_tenant db (au_TenantId apiUser) of
        Inl e \<Rightarrow> Panic ''nil pointer dereference''
      | Inr rs \<Rightarrow>
          (case rows_Scan (sql_rows rs) of
             Inl e \<Rightarrow> Panic e
           | Inr tenant \<Rightarrow> Ret (new_token_info adminRolesMap tenant)))"

definition Db_Authenticate ::
  "(string \<Rightarrow> string \<Rightarrow> go_err) \<Rightarrow> auth_db \<Rightarrow> string \<Rightarrow> string \<Rightarrow> auth_reply outcome" where
  "Db_Authenticate CompareHashAndPassword db username password =
     (case db_users db username of
        Inl e \<Rightarrow> Ret (False, None, Some e)
      | Inr rs \<Rightarrow>
          (case rows_Next (sql_rows rs) of
             (False, _) \<Rightarrow> Ret (False, None, None)
           | (True, rows) \<Rightarrow>
               (case rows_Scan rows of
                  Inl e \<Rightarrow> Panic e
                | Inr apiUser \<Rightarrow>
                    if CompareHashAndPassword (au_Password apiUser) password \<noteq> None
                    then Ret (False, None, None)
                    else go_bind (Db_buildTokenInfo db apiUser) (\<lambda>ti. Ret (True, Some ti, None)))))"

text \<open>\<open>SetUser\<close>: the stored row is the user with the hashed password.\<close>

definition Db_SetUser ::
  "(string \<Rightarrow> string + string) \<Rightarrow> (ApiUser \<Rightarrow> go_err) \<Rightarrow> ApiUser \<Rightarrow> (go_err \<times> ApiUser) outcome" where
  "Db_SetUser GenerateFromPassword replace_user apiUser =
     (case GenerateFromPassword (au_Password apiUser) of
        Inl e \<Rightarrow> Panic e
      | Inr bcryptBytes \<Rightarrow>
          let apiUser' = apiUser\<lparr>au_Password := bcryptBytes\<rparr>
          in Ret (replace_user apiUser', apiUser'))"

section \<open>authentication.go\<close>

definition hex_digit :: "nat \<Rightarrow> char" where
  "hex_digit n = ''0123456789abcdef'' ! n"

definition hex_Encode :: "bytes \<Rightarrow> string" where
  "hex_Encode b = concat (map (\<lambda>x. [hex_digit (unat x div 16), hex_digit (unat x mod 16)]) b)"

text \<open>\<open>rand.Read\<close> fills the buffer of 32 bytes and returns a count and an error.\<close>

definition GenerateToken :: "bytes \<times> nat \<times> go_err \<Rightarrow> string \<times> go_err" where
  "GenerateToken read =
     (case read of (b, l, err) \<Rightarrow>
        if l \<noteq> 32 then ([], Some ''Didn't generate a token of the right length'')
        else case err of
          Some e \<Rightarrow> ([], Some e)
        | None \<Rightarrow> (hex_Encode b, None))"

type_synonym auth_backend = "string \<Rightarrow> string \<Rightarrow> auth_reply outcome"

fun Login ::
  "'c token_cache \<Rightarrow> int \<Rightarrow> bytes \<times> nat \<times> go_err \<Rightarrow> auth_backend list \<Rightarrow> string \<Rightarrow> string \<Rightarrow>
   'c MemTokenBackend \<Rightarrow> ((bool \<times> string \<times> go_err) \<times> 'c MemTokenBackend) outcome" where
  "Login C now read [] username password mtb =
     Ret ((False, [], Some ''Wasn't able to authenticate those credentials''), mtb)"
| "Login C now read (backend # backends) username password mtb =
     go_bind (backend username password) (\<lambda>(auth, tokenInfo, err).
       if auth then
         (case tokenInfo of
            None \<Rightarrow> Panic ''nil pointer dereference''
          | Some ti \<Rightarrow>
              (case GenerateToken read of
                 (token, Some e) \<Rightarrow> Ret ((False, [], Some e), mtb)
               | (token, None) \<Rightarrow>
                   let (_, mtb') = StoreTokenInfo C now token (ti\<lparr>ti_Username := username\<rparr>) mtb
                   in Ret ((True, token, None), mtb')))
       else Login C now read backends username password mtb)"

definition tokenFromRequest :: "string \<Rightarrow> string" where
  "tokenFromRequest authHeader = strings_TrimPrefix authHeader ''Bearer ''"

definition IsAuthenticated :: "'c token_cache \<Rightarrow> int \<Rightarrow> string \<Rightarrow> 'c MemTokenBackend \<Rightarrow> bool \<times> go_err" where
  "IsAuthenticated C now token mtb = (TokenIsValid C now token mtb, None)"

section \<open>The laws of the cache\<close>

lemma token_cache_lawsD:
  assumes "token_cache_laws d C"
  shows "cGet C now k c = map_option fst (cGetWithExpiration C now k c)"
    and "now \<le> now' \<Longrightarrow> now' < now + d \<Longrightarrow>
      cGetWithExpiration C now' k (cSetDefault C now k ti c) = Some (ti, now + d)"
    and "cGetWithExpiration C now' k (cSetDefault C now k ti c) = Some (ti', e) \<Longrightarrow> ti' = ti"
    and "k' \<noteq> k \<Longrightarrow> cGetWithExpiration C now' k' (cSetDefault C now k ti c) = cGetWithExpiration C now' k' c"
  using assms unfolding token_cache_laws_def by metis+

text \<open>An implementation of the laws: a map from keys to items with expiration times.\<close>

definition map_cache :: "int \<Rightarrow> (string, TokenInfo \<times> int) gomap token_cache" where
  "map_cache d =
     (let get = (\<lambda>now k c. case fmlookup c k of
                   Some (ti, e) \<Rightarrow> if now \<le> e then Some (ti, e) else None
                 | None \<Rightarrow> None)
      in \<lparr>cGet = (\<lambda>now k c. map_option fst (get now k c)), cGetWithExpiration = get,
          cSetDefault = (\<lambda>now k ti c. fmupd k (ti, now + d) c)\<rparr>)"

lemma map_cache_laws: "token_cache_laws d (map_cache d)"
  by (auto simp: token_cache_laws_def map_cache_def Let_def split: if_splits)

section \<open>The authenticator contract\<close>

text \<open>
  What \<open>Login\<close> relies on: a backend that accepts gives the token information that \<open>Login\<close>
  dereferences, and no error.
\<close>

locale authenticator =
  fixes A :: auth_backend
  assumes accept_info: "A u p = Ret (True, ti, e) \<Longrightarrow> ti \<noteq> None \<and> e = None"
begin

lemma login_head:
  assumes "A u p = Ret (auth, ti, e)"
  shows "Login C now read (A # bs) u p mtb =
    (if auth then
       case GenerateToken read of
         (token, Some e) \<Rightarrow> Ret ((False, [], Some e), mtb)
       | (token, None) \<Rightarrow>
           Ret ((True, token, None), snd (StoreTokenInfo C now token ((the ti)\<lparr>ti_Username := u\<rparr>) mtb))
     else Login C now read bs u p mtb)"
  using assms accept_info [of u p ti e]
  by (cases ti) (auto simp: StoreTokenInfo_def split: prod.splits option.splits)

lemma login_head_panic:
  assumes "Login C now read (A # bs) u p mtb = Panic m"
  shows "A u p = Panic m \<or> Login C now read bs u p mtb = Panic m"
proof (cases "A u p")
  case (Ret r)
  obtain auth ti e where r: "r = (auth, ti, e)" by (cases r) auto
  with assms Ret login_head [of u p auth ti e C now read bs mtb] show ?thesis
    by (auto split: if_splits prod.splits option.splits)
qed (use assms in simp)

end

interpretation mem_auth: authenticator "Mem_Authenticate mab" for mab
  by unfold_locales (auto simp: Mem_Authenticate_def split: option.splits if_splits)

interpretation pf_auth: authenticator "Pf_Authenticate request" for request
  by unfold_locales (auto simp: Pf_Authenticate_def split: pf_response.splits if_splits)

interpretation db_auth: authenticator "Db_Authenticate cmp db" for cmp db
  by unfold_locales
    (auto simp: Db_Authenticate_def go_bind_Ret split: sum.splits prod.splits bool.splits if_splits)

section \<open>Properties\<close>

lemma Login_accepts:
  assumes "Login C now read bs u p mtb = Ret ((True, token, e), mtb')"
  shows "\<exists>pre b post ti err. bs = pre @ b # post \<and> (\<forall>x \<in> set pre. \<exists>t er. x u p = Ret (False, t, er)) \<and>
    b u p = Ret (True, Some ti, err) \<and> GenerateToken read = (token, None) \<and>
    mtb' = snd (StoreTokenInfo C now token (ti\<lparr>ti_Username := u\<rparr>) mtb)"
  using assms
proof (induction bs)
  case (Cons b bs)
  then obtain auth ti err where b: "b u p = Ret (auth, ti, err)" by (auto simp: go_bind_Ret)
  show ?case
  proof (cases auth)
    case True
    with Cons.prems b show ?thesis
      by (intro exI [of _ "[]"])
        (auto simp: StoreTokenInfo_def split: option.splits prod.splits)
  next
    case False
    with Cons b obtain pre b' post ti' err' where "bs = pre @ b' # post"
      "\<forall>x \<in> set pre. \<exists>t er. x u p = Ret (False, t, er)" "b' u p = Ret (True, Some ti', err')"
      "GenerateToken read = (token, None)"
      "mtb' = snd (StoreTokenInfo C now token (ti'\<lparr>ti_Username := u\<rparr>) mtb)"
      by auto
    with b False show ?thesis by (intro exI [of _ "b # pre"]) auto
  qed
qed simp

text \<open>
  A successful login hands out a working token: the first backend that does not refuse the
  credentials accepts them, and from then on, until the inactivity timeout or the maximal
  age, whichever comes first, the token stands for that backend's token information under
  the user name given to \<open>Login\<close>.
\<close>
theorem Login_token_usable:
  assumes "token_cache_laws d C"
    and "Login C now read bs u p mtb = Ret ((True, token, e), mtb')"
    and "now \<le> now'" and "now' < now + d" and "now' - now \<le> mtb_maxExpiration mtb"
  shows "\<exists>pre b post ti err. bs = pre @ b # post \<and> (\<forall>x \<in> set pre. \<exists>t er. x u p = Ret (False, t, er)) \<and>
    b u p = Ret (True, Some ti, err) \<and> TokenIsValid C now' token mtb' \<and>
    TokenInfoForToken C now' token mtb' =
      (Some (ti\<lparr>ti_Username := u, ti_CreatedAt := now\<rparr>), now + min d (mtb_maxExpiration mtb))"
proof -
  from Login_accepts [OF assms(2)] obtain pre b post ti err where
    b: "bs = pre @ b # post" "\<forall>x \<in> set pre. \<exists>t er. x u p = Ret (False, t, er)" "b u p = Ret (True, Some ti, err)"
    and mtb': "mtb' = snd (StoreTokenInfo C now token (ti\<lparr>ti_Username := u\<rparr>) mtb)"
    by blast
  let ?ti = "ti\<lparr>ti_Username := u, ti_CreatedAt := now\<rparr>"
  have get: "cGetWithExpiration C now' token (mtb_store mtb') = Some (?ti, now + d)"
    using token_cache_lawsD(2) [OF assms(1,3,4)] by (simp add: mtb' StoreTokenInfo_def)
  moreover have "cGet C now' token (mtb_store mtb') \<noteq> None"
    using get by (simp add: token_cache_lawsD(1) [OF assms(1)])
  moreover have "mtb_maxExpiration mtb' = mtb_maxExpiration mtb" by (simp add: mtb' StoreTokenInfo_def)
  ultimately have "TokenIsValid C now' token mtb'"
    "TokenInfoForToken C now' token mtb' = (Some ?ti, now + min d (mtb_maxExpiration mtb))"
    using assms(5) by (auto simp: TokenIsValid_def TokenInfoForToken_def Let_def min_def)
  with b show ?thesis by blast
qed

lemma Login_token_usable_witness:
  "let C = map_cache 100; mtb = NewMemTokenBackend fmempty 1000;
       mab = Mem_SetUser ''admin'' ''secret'' (NewMemAuthenticationBackend fmempty fmempty);
       tok = hex_Encode (replicate 32 171)
   in \<exists>mtb' ti. Login C 5 (replicate 32 171, 32, None) [Mem_Authenticate mab] ''admin'' ''secret'' mtb =
        Ret ((True, tok, None), mtb') \<and> TokenIsValid C 50 tok mtb' \<and>
        fst (TokenInfoForToken C 50 tok mtb') = Some ti \<and> ti_Username ti = ''admin''"
proof -
  let ?mab = "Mem_SetUser ''admin'' ''secret'' (NewMemAuthenticationBackend fmempty fmempty)"
  let ?mtb = "NewMemTokenBackend fmempty 1000 :: (string, TokenInfo \<times> int) gomap MemTokenBackend"
  have acc: "Mem_Authenticate ?mab ''admin'' ''secret'' =
      Ret (True, Some (new_token_info fmempty (zero_tenant\<lparr>ten_Id := AccessAllTenants\<rparr>)), None)"
    by (simp add: Mem_Authenticate_def Mem_SetUser_def NewMemAuthenticationBackend_def)
  obtain mtb' where L: "Login (map_cache 100) 5 (replicate 32 171, 32, None) [Mem_Authenticate ?mab] ''admin'' ''secret'' ?mtb =
      Ret ((True, hex_Encode (replicate 32 171), None), mtb')"
    using mem_auth.login_head [OF acc, of "map_cache 100" 5 "(replicate 32 171, 32, None)" "[]" ?mtb]
    by (auto simp: GenerateToken_def)
  from Login_token_usable [OF map_cache_laws L, of 50] L show ?thesis
    by (auto simp: Let_def NewMemTokenBackend_def)
qed

text \<open>Any later use of the token store: touching tokens, and storing other ones.\<close>

datatype token_op = OpTouch int string | OpStore int string TokenInfo

fun token_run :: "'c token_cache \<Rightarrow> token_op list \<Rightarrow> 'c MemTokenBackend \<Rightarrow> 'c MemTokenBackend" where
  "token_run C [] mtb = mtb"
| "token_run C (OpTouch now k # ops) mtb = token_run C ops (TouchTokenInfo C now k mtb)"
| "token_run C (OpStore now k ti # ops) mtb = token_run C ops (snd (StoreTokenInfo C now k ti mtb))"

definition created_at :: "'c token_cache \<Rightarrow> string \<Rightarrow> int \<Rightarrow> 'c MemTokenBackend \<Rightarrow> bool" where
  "created_at C k t mtb \<longleftrightarrow>
     (\<forall>now ti e. cGetWithExpiration C now k (mtb_store mtb) = Some (ti, e) \<longrightarrow> ti_CreatedAt ti = t)"

lemma created_at_set:
  assumes "token_cache_laws d C" and "created_at C k t mtb" and "k' = k \<Longrightarrow> ti_CreatedAt ti = t"
  shows "created_at C k t (mtb\<lparr>mtb_store := cSetDefault C now k' ti (mtb_store mtb)\<rparr>)"
proof (cases "k' = k")
  case True
  then show ?thesis
    using assms(3) by (auto simp: created_at_def dest: token_cache_lawsD(3) [OF assms(1)])
next
  case False
  then show ?thesis
    using assms(2) by (simp add: created_at_def token_cache_lawsD(4) [OF assms(1)])
qed

lemma created_at_store:
  assumes "token_cache_laws d C"
  shows "created_at C k t (snd (StoreTokenInfo C t k ti mtb))"
  unfolding created_at_def StoreTokenInfo_def
proof (intro allI impI)
  fix now ti' e
  assume "cGetWithExpiration C now k (mtb_store (snd (None,
      mtb\<lparr>mtb_store := cSetDefault C t k (ti\<lparr>ti_CreatedAt := t\<rparr>) (mtb_store mtb)\<rparr>))) = Some (ti', e)"
  then have "ti' = ti\<lparr>ti_CreatedAt := t\<rparr>" by (intro token_cache_lawsD(3) [OF assms]) simp
  then show "ti_CreatedAt ti' = t" by simp
qed

lemma token_run_created:
  assumes "token_cache_laws d C" and "created_at C k t mtb" and "\<forall>now ti. OpStore now k ti \<notin> set ops"
  shows "created_at C k t (token_run C ops mtb) \<and> mtb_maxExpiration (token_run C ops mtb) = mtb_maxExpiration mtb"
  using assms(2,3)
proof (induction ops arbitrary: mtb)
  case (Cons x ops)
  show ?case
  proof (cases x)
    case (OpTouch now k')
    have "created_at C k t (TouchTokenInfo C now k' mtb)"
    proof (cases "fst (TokenInfoForToken C now k' mtb)")
      case (Some ti)
      have "k' = k \<Longrightarrow> ti_CreatedAt ti = t"
        using Some Cons.prems(1) unfolding created_at_def TokenInfoForToken_def Let_def
        by (fastforce split: option.splits if_splits)
      from created_at_set [OF assms(1) Cons.prems(1) this] Some show ?thesis by (simp add: TouchTokenInfo_def)
    qed (use Cons.prems(1) in \<open>simp add: TouchTokenInfo_def\<close>)
    moreover have "mtb_maxExpiration (TouchTokenInfo C now k' mtb) = mtb_maxExpiration mtb"
      by (simp add: TouchTokenInfo_def split: option.splits)
    ultimately show ?thesis using Cons OpTouch by simp
  next
    case (OpStore now k' ti)
    then have "k' \<noteq> k" using Cons.prems(2) by auto
    then have "created_at C k t (snd (StoreTokenInfo C now k' ti mtb))"
      using created_at_set [OF assms(1) Cons.prems(1)] by (simp add: StoreTokenInfo_def)
    with Cons OpStore show ?thesis by (simp add: StoreTokenInfo_def)
  qed
qed simp

text \<open>
  C25. Activity cannot keep a token alive for ever: whatever tokens are touched and whatever
  other tokens are stored after a token was stored at time \<open>t\<close>, the token yields no
  information once the maximal age is exceeded, and the expiration reported before that is
  never later than the maximal age.
\<close>
theorem token_max_age:
  assumes "token_cache_laws d C" and "StoreTokenInfo C t k ti mtb = (e, mtb1)"
    and "\<forall>now ti. OpStore now k ti \<notin> set ops"
  shows "if t + mtb_maxExpiration mtb < now then TokenInfoForToken C now k (token_run C ops mtb1) = (None, 0)
    else \<forall>ti' ex. TokenInfoForToken C now k (token_run C ops mtb1) = (Some ti', ex) \<longrightarrow>
      ti_CreatedAt ti' = t \<and> ex \<le> t + mtb_maxExpiration mtb"
proof -
  have "created_at C k t mtb1"
    using assms(2) created_at_store [OF assms(1), of k t ti mtb] by simp
  from token_run_created [OF assms(1) this assms(3)] assms(2) have
    cr: "created_at C k t (token_run C ops mtb1)"
    and max: "mtb_maxExpiration (token_run C ops mtb1) = mtb_maxExpiration mtb"
    by (auto simp: StoreTokenInfo_def)
  show ?thesis
  proof (cases "cGetWithExpiration C now k (mtb_store (token_run C ops mtb1))")
    case (Some r)
    obtain ti' ex where r: "r = (ti', ex)" by fastforce
    then have "ti_CreatedAt ti' = t" using cr Some unfolding created_at_def by blast
    with Some r max show ?thesis by (auto simp: TokenInfoForToken_def Let_def)
  qed (simp add: TokenInfoForToken_def)
qed

lemma token_max_age_witness:
  "let C = map_cache 100; mtb = NewMemTokenBackend fmempty 150;
       ti = new_token_info fmempty zero_tenant;
       mtb1 = snd (StoreTokenInfo C 0 ''tok'' ti mtb)
   in TokenInfoForToken C 151 ''tok'' (token_run C [OpTouch 60 ''tok'', OpTouch 140 ''tok''] mtb1) = (None, 0)"
  using token_max_age [OF map_cache_laws, where d = 100 and t = 0 and k = "''tok''" and now = 151
      and ops = "[OpTouch 60 ''tok'', OpTouch 140 ''tok'']" and ti = "new_token_info fmempty zero_tenant"
      and mtb = "NewMemTokenBackend fmempty 150", OF surjective_pairing]
  by (simp add: NewMemTokenBackend_def Let_def)

lemma hex_digit_inj: "i < 16 \<Longrightarrow> j < 16 \<Longrightarrow> hex_digit i = hex_digit j \<longleftrightarrow> i = j"
proof -
  have "distinct ''0123456789abcdef''" "length ''0123456789abcdef'' = 16" by code_simp+
  then show "i < 16 \<Longrightarrow> j < 16 \<Longrightarrow> hex_digit i = hex_digit j \<longleftrightarrow> i = j"
    unfolding hex_digit_def by (metis nth_eq_iff_index_eq)
qed

lemma hex_byte_inj:
  fixes x y :: u8
  assumes "hex_digit (unat x div 16) = hex_digit (unat y div 16)" "hex_digit (unat x mod 16) = hex_digit (unat y mod 16)"
  shows "x = y"
proof -
  have "unat z < 256" for z :: u8 using unsigned_less [of z] by simp
  then have "unat z div 16 < 16" for z :: u8 by (simp add: less_mult_imp_div_less)
  with assms have "unat x div 16 = unat y div 16" "unat x mod 16 = unat y mod 16"
    by (auto simp: hex_digit_inj)
  then have "unat x = unat y" by (metis mult_div_mod_eq)
  then show ?thesis by (simp add: word_unat_eq_iff)
qed

lemma hex_Encode_inj: "hex_Encode a = hex_Encode b \<Longrightarrow> a = b"
proof (induction a arbitrary: b)
  case Nil
  then show ?case by (cases b) (simp_all add: hex_Encode_def)
next
  case (Cons x a)
  then show ?case by (cases b) (auto simp: hex_Encode_def dest: hex_byte_inj)
qed

lemma length_hex_Encode: "length (hex_Encode b) = 2 * length b"
  by (induction b) (simp_all add: hex_Encode_def)

text \<open>
  Tokens are as good as the random bytes: a full read of 32 bytes gives a token of 64
  hexadecimal digits, two reads give the same token only if they gave the same bytes,
  and a short read or an error gives no token.
\<close>
theorem GenerateToken_injective:
  assumes "length b = 32" and "length b' = 32"
  shows "\<exists>tok. GenerateToken (b, 32, None) = (tok, None) \<and> length tok = 64 \<and>
    set tok \<subseteq> set ''0123456789abcdef'' \<and>
    (GenerateToken (b', 32, None) = (tok, None) \<longleftrightarrow> b' = b) \<and>
    (l \<noteq> 32 \<or> err \<noteq> None \<longrightarrow> fst (GenerateToken (b, l, err)) = [] \<and> snd (GenerateToken (b, l, err)) \<noteq> None)"
proof -
  have "hex_digit (unat x div 16) \<in> set ''0123456789abcdef'' \<and> hex_digit (unat x mod 16) \<in> set ''0123456789abcdef''"
    for x :: u8
  proof -
    have "unat x < 256" using unsigned_less [of x] by simp
    then have "unat x div 16 < 16" by (simp add: less_mult_imp_div_less)
    moreover have "unat x mod 16 < 16" by simp
    moreover have "length ''0123456789abcdef'' = 16" by code_simp
    ultimately show ?thesis unfolding hex_digit_def by (metis nth_mem)
  qed
  then have "set (hex_Encode b) \<subseteq> set ''0123456789abcdef''" by (auto simp: hex_Encode_def)
  then show ?thesis
    using assms by (auto simp: GenerateToken_def length_hex_Encode dest: hex_Encode_inj split: option.splits)
qed

lemma GenerateToken_injective_witness:
  "GenerateToken (replicate 32 0, 32, None) \<noteq> GenerateToken (replicate 32 1, 32, None)"
proof -
  have "(replicate 32 1 :: bytes) \<noteq> replicate 32 0" by simp
  with GenerateToken_injective [of "replicate 32 0" "replicate 32 1"] show ?thesis
    by (metis length_replicate)
qed

lemma fold_fmupd_True:
  "gm_has (fold (\<lambda>a m. fmupd a True m) xs m) x \<longleftrightarrow> x \<in> set xs \<or> gm_has m x"
  by (induction xs arbitrary: m) auto

lemma fold_actions:
  "gm_has (fold (\<lambda>role m. fold (\<lambda>act m. fmupd act True m) (range_keys (\<lambda>_. 0) (gm_get fmempty cfg role)) m) rs m) x \<longleftrightarrow>
   (\<exists>role \<in> set rs. gm_has (gm_get fmempty cfg role) x) \<or> gm_has m x"
  by (induction rs arbitrary: m) (auto simp: fold_fmupd_True)

lemma AdminActions_gm_has:
  "gm_has (AdminActions cfg multi ti) a \<longleftrightarrow>
     (\<exists>role. gm_has (ti_AdminRoles ti) role \<and> gm_has (gm_get fmempty cfg role) a) \<or>
     a = ''TENANT_MASTER'' \<and> (\<not> multi \<or> ten_Id (ti_Tenant ti) = 0)"
  by (auto simp: AdminActions_def Let_def fold_actions IsTenantMaster_def AccessAllTenants_def)

text \<open>
  The database backend cannot log anybody in: with the password of an existing user
  \<open>Authenticate\<close> always panics, because \<open>buildTokenInfo\<close> scans the tenant row without
  calling \<open>Next\<close> first, whatever the database holds.
\<close>
theorem Db_Authenticate_panics:
  assumes "db_users db u = Inr (Inr user # rest)" and "cmp (au_Password user) p = None"
  shows "\<exists>msg. Db_Authenticate cmp db u p = Panic msg"
  using assms
  by (auto simp: Db_Authenticate_def Db_buildTokenInfo_def rows_Next_def rows_Scan_def sql_rows_def Let_def
      split: sum.splits)

lemma Db_Authenticate_panics_witness:
  "let user = \<lparr>au_Username = ''admin'', au_Password = ''h'', au_ValidFrom = 0, au_Expiration = 9,
               au_AccessLevel = ''ALL'', au_TenantId = 1\<rparr>
   in \<exists>msg. Db_Authenticate (\<lambda>h p. if p = ''secret'' then None else Some ''mismatch'')
        \<lparr>db_users = (\<lambda>u. if u = ''admin'' then Inr [Inr user] else Inr []),
         db_tenant = (\<lambda>t. Inr [Inr zero_tenant])\<rparr> ''admin'' ''secret'' = Panic msg"
  unfolding Let_def by (rule Db_Authenticate_panics) simp_all

end
