(* ===== verification/AaaAuthz.thy ===== *)
theory AaaAuthz
  imports AaaTokens
begin

text \<open>
  Authorization of API requests (\<open>src/go/api-frontend/aaa/authorization.go\<close> and
  \<open>paths.go\<close>): the table of path prefixes and administrative roles, the checks on roles,
  tenants and the configuration name space, and the treatment of a bearer request with its
  headers. A header map has canonical names as keys. The package variables
  \<open>multipleTenants\<close> and \<open>successMultipleTenants\<close> are a record of globals.
\<close>

section \<open>authorization.go\<close>

definition apiPrefix :: string where "apiPrefix = ''/api/v1''"
definition apiPrefixV1_1 :: string where "apiPrefixV1_1 = ''/api/v1.1''"
definition configApiPrefix :: string where "configApiPrefix = apiPrefix @ ''/config''"

record adminRoleMapping =
  arm_prefix :: string
  arm_role :: string
  arm_roleSuffix :: string

definition ALLOW_ANY :: string where "ALLOW_ANY = ''*''"

definition pathAdminRolesMap :: "adminRoleMapping list" where
  "pathAdminRolesMap = [
     \<lparr>arm_prefix = apiPrefix @ ''/current_user'', arm_role = ALLOW_ANY, arm_roleSuffix = []\<rparr>,
     \<lparr>arm_prefix = apiPrefix @ ''/radius_attributes'', arm_role = ALLOW_ANY, arm_roleSuffix = []\<rparr>,
     \<lparr>arm_prefix = apiPrefix @ ''/preference/'', arm_role = ALLOW_ANY, arm_roleSuffix = []\<rparr>,
     \<lparr>arm_prefix = apiPrefix @ ''/preferences'', arm_role = ALLOW_ANY, arm_roleSuffix = []\<rparr>,
     \<lparr>arm_prefix = apiPrefix @ ''/auth_log/'', arm_role = ''NODES'', arm_roleSuffix = []\<rparr>,
     \<lparr>arm_prefix = apiPrefix @ ''/auth_logs'', arm_role = ''NODES'', arm_roleSuffix = []\<rparr>,
     \<lparr>arm_prefix = apiPrefix @ ''/class/'', arm_role = ''SECURITY_EVENTS'', arm_roleSuffix = []\<rparr>,
     \<lparr>arm_prefix = apiPrefix @ ''/classes'', arm_role = ''SECURITY_EVENTS'', arm_roleSuffix = []\<rparr>,
     \<lparr>arm_prefix = apiPrefix @ ''/ip4log/'', arm_role = ''NODES'', arm_roleSuffix = []\<rparr>,
     \<lparr>arm_prefix = apiPrefix @ ''/ip4logs'', arm_role = ''NODES'', arm_roleSuffix = []\<rparr>,
     \<lparr>arm_prefix = apiPrefix @ ''/ip6log/'', arm_role = ''NODES'', arm_roleSuffix = []\<rparr>,
     \<lparr>arm_prefix = apiPrefix @ ''/ip6logs'', arm_role = ''NODES'', arm_roleSuffix = []\<rparr>,
     \<lparr>arm_prefix = apiPrefix @ ''/locationlog/'', arm_role = ''NODES'', arm_roleSuffix = []\<rparr>,
     \<lparr>arm_prefix = apiPrefix @ ''/locationlogs'', arm_role = ''NODES'', arm_roleSuffix = []\<rparr>,
     \<lparr>arm_prefix = apiPrefix @ ''/nodes/network_graph'', arm_role = ''NODES'', arm_roleSuffix = ''_READ''\<rparr>,
     \<lparr>arm_prefix = apiPrefix @ ''/node/'', arm_role = ''NODES'', arm_roleSuffix = []\<rparr>,
     \<lparr>arm_prefix = apiPrefix @ ''/nodes'', arm_role = ''NODES'', arm_roleSuffix = []\<rparr>,
     \<lparr>arm_prefix = apiPrefix @ ''/node_categories'', arm_role = ''NODES'', arm_roleSuffix = []\<rparr>,
     \<lparr>arm_prefix = apiPrefix @ ''/node_category/'', arm_role = ''NODES'', arm_roleSuffix = []\<rparr>,
     \<lparr>arm_prefix = apiPrefix @ ''/security_event/'', arm_role = ''SECURITY_EVENTS'', arm_roleSuffix = []\<rparr>,
     \<lparr>arm_prefix = apiPrefix @ ''/security_events'', arm_role = ''SECURITY_EVENTS'', arm_roleSuffix = []\<rparr>,
     \<lparr>arm_prefix = apiPrefix @ ''/user/'', arm_role = ''USERS'', arm_roleSuffix = []\<rparr>,
     \<lparr>arm_prefix = apiPrefix @ ''/users'', arm_role = ''USERS'', arm_roleSuffix = []\<rparr>,
     \<lparr>arm_prefix = apiPrefix @ ''/fingerbank'', arm_role = ''FINGERBANK'', arm_roleSuffix = []\<rparr>,
     \<lparr>arm_prefix = apiPrefix @ ''/service/'', arm_role = ''SERVICES'', arm_roleSuffix = []\<rparr>,
     \<lparr>arm_prefix = apiPrefix @ ''/services'', arm_role = ''SERVICES'', arm_roleSuffix = []\<rparr>,
     \<lparr>arm_prefix = apiPrefix @ ''/reports/'', arm_role = ''REPORTS'', arm_roleSuffix = []\<rparr>,
     \<lparr>arm_prefix = apiPrefixV1_1 @ ''/reports'', arm_role = ''REPORTS'', arm_roleSuffix = []\<rparr>,
     \<lparr>arm_prefix = apiPrefixV1_1 @ ''/report/'', arm_role = ''REPORTS'', arm_roleSuffix = []\<rparr>,
     \<lparr>arm_prefix = apiPrefix @ ''/dynamic_reports'', arm_role = ''REPORTS'', arm_roleSuffix = []\<rparr>,
     \<lparr>arm_prefix = apiPrefix @ ''/dynamic_report/'', arm_role = ''REPORTS'', arm_roleSuffix = []\<rparr>,
     \<lparr>arm_prefix = apiPrefix @ ''/radius_audit_log/'', arm_role = ''RADIUS_LOG'', arm_roleSuffix = []\<rparr>,
     \<lparr>arm_prefix = apiPrefix @ ''/dhcp_option82s'', arm_role = ''DHCP_OPTION_82'', arm_roleSuffix = []\<rparr>,
     \<lparr>arm_prefix = apiPrefix @ ''/dhcp_option82/'', arm_role = ''DHCP_OPTION_82'', arm_roleSuffix = []\<rparr>,
     \<lparr>arm_prefix = apiPrefix @ ''/radius_audit_logs'', arm_role = ''RADIUS_LOG'', arm_roleSuffix = []\<rparr>,
     \<lparr>arm_prefix = apiPrefix @ ''/dns_audit_logs'', arm_role = ''DNS_LOG'', arm_roleSuffix = []\<rparr>,
     \<lparr>arm_prefix = apiPrefix @ ''/dns_audit_log/'', arm_role = ''DNS_LOG'', arm_roleSuffix = []\<rparr>,
     \<lparr>arm_prefix = apiPrefix @ ''/admin_api_audit_logs'', arm_role = ''ADMIN_API_AUDIT_LOG'', arm_roleSuffix = []\<rparr>,
     \<lparr>arm_prefix = apiPrefix @ ''/admin_api_audit_log/'', arm_role = ''ADMIN_API_AUDIT_LOG'', arm_roleSuffix = []\<rparr>,
     \<lparr>arm_prefix = configApiPrefix @ ''/admin_role/'', arm_role = ''ADMIN_ROLES'', arm_roleSuffix = []\<rparr>,
     \<lparr>arm_prefix = configApiPrefix @ ''/admin_roles'', arm_role = ''ADMIN_ROLES'', arm_roleSuffix = []\<rparr>,
     \<lparr>arm_prefix = configApiPrefix @ ''/base/'', arm_role = ''CONFIGURATION_MAIN'', arm_roleSuffix = []\<rparr>,
     \<lparr>arm_prefix = configApiPrefix @ ''/bases'', arm_role = ''CONFIGURATION_MAIN'', arm_roleSuffix = []\<rparr>,
     \<lparr>arm_prefix = configApiPrefix @ ''/billing_tier/'', arm_role = ''BILLING_TIER'', arm_roleSuffix = []\<rparr>,
     \<lparr>arm_prefix = configApiPrefix @ ''/billing_tiers'', arm_role = ''BILLING_TIER'', arm_roleSuffix = []\<rparr>,
     \<lparr>arm_prefix = configApiPrefix @ ''/certificate/'', arm_role = ''CONFIGURATION_MAIN'', arm_roleSuffix = []\<rparr>,
     \<lparr>arm_prefix = configApiPrefix @ ''/certificates'', arm_role = ''CONFIGURATION_MAIN'', arm_roleSuffix = []\<rparr>,
     \<lparr>arm_prefix = configApiPrefix @ ''/checkup'', arm_role = ALLOW_ANY, arm_roleSuffix = []\<rparr>,
     \<lparr>arm_prefix = configApiPrefix @ ''/cluster_status'', arm_role = ''SERVICES'', arm_roleSuffix = []\<rparr>,
     \<lparr>arm_prefix = configApiPrefix @ ''/connection_profile/'', arm_role = ''CONNECTION_PROFILES'', arm_roleSuffix = []\<rparr>,
     \<lparr>arm_prefix = configApiPrefix @ ''/connection_profiles'', arm_role = ''CONNECTION_PROFILES'', arm_roleSuffix = []\<rparr>,
     \<lparr>arm_prefix = configApiPrefix @ ''/event_logger/'', arm_role = ''EVENT_LOGGERS'', arm_roleSuffix = []\<rparr>,
     \<lparr>arm_prefix = configApiPrefix @ ''/event_loggers'', arm_role = ''EVENT_LOGGERS'', arm_roleSuffix = []\<rparr>,
     \<lparr>arm_prefix = configApiPrefix @ ''/self_service/'', arm_role = ''SELF_SERVICE'', arm_roleSuffix = []\<rparr>,
     \<lparr>arm_prefix = configApiPrefix @ ''/self_services'', arm_role = ''SELF_SERVICE'', arm_roleSuffix = []\<rparr>,
     \<lparr>arm_prefix = configApiPrefix @ ''/domain/'', arm_role = ''DOMAIN'', arm_roleSuffix = []\<rparr>,
     \<lparr>arm_prefix = configApiPrefix @ ''/domains'', arm_role = ''DOMAIN'', arm_roleSuffix = []\<rparr>,
     \<lparr>arm_prefix = configApiPrefix @ ''/fingerbank_setting/'', arm_role = ''FINGERBANK'', arm_roleSuffix = []\<rparr>,
     \<lparr>arm_prefix = configApiPrefix @ ''/fingerbank_settings'', arm_role = ''FINGERBANK'', arm_roleSuffix = []\<rparr>,
     \<lparr>arm_prefix = configApiPrefix @ ''/firewall/'', arm_role = ''FIREWALL_SSO'', arm_roleSuffix = []\<rparr>,
     \<lparr>arm_prefix = configApiPrefix @ ''/firewalls'', arm_role = ''FIREWALL_SSO'', arm_roleSuffix = []\<rparr>,
     \<lparr>arm_prefix = configApiPrefix @ ''/floating_device/'', arm_role = ''FLOATING_DEVICES'', arm_roleSuffix = []\<rparr>,
     \<lparr>arm_prefix = configApiPrefix @ ''/floating_devices'', arm_role = ''FLOATING_DEVICES'', arm_roleSuffix = []\<rparr>,
     \<lparr>arm_prefix = configApiPrefix @ ''/interface/'', arm_role = ''INTERFACES'', arm_roleSuffix = []\<rparr>,
     \<lparr>arm_prefix = configApiPrefix @ ''/interfaces'', arm_role = ''INTERFACES'', arm_roleSuffix = []\<rparr>,
     \<lparr>arm_prefix = configApiPrefix @ ''/l2_network/'', arm_role = ''INTERFACES'', arm_roleSuffix = []\<rparr>,
     \<lparr>arm_prefix = configApiPrefix @ ''/l2_networks'', arm_role = ''INTERFACES'', arm_roleSuffix = []\<rparr>,
     \<lparr>arm_prefix = configApiPrefix @ ''/maintenance_task/'', arm_role = ''PFCRON'', arm_roleSuffix = []\<rparr>,
     \<lparr>arm_prefix = configApiPrefix @ ''/maintenance_tasks'', arm_role = ''PFCRON'', arm_roleSuffix = []\<rparr>,
     \<lparr>arm_prefix = configApiPrefix @ ''/pki_provider/'', arm_role = ''PKI_PROVIDER'', arm_roleSuffix = []\<rparr>,
     \<lparr>arm_prefix = configApiPrefix @ ''/pki_providers'', arm_role = ''PKI_PROVIDER'', arm_roleSuffix = []\<rparr>,
     \<lparr>arm_prefix = configApiPrefix @ ''/portal_module/'', arm_role = ''PORTAL_MODULE'', arm_roleSuffix = []\<rparr>,
     \<lparr>arm_prefix = configApiPrefix @ ''/pki/'', arm_role = ''PKI'', arm_roleSuffix = []\<rparr>,
     \<lparr>arm_prefix = configApiPrefix @ ''/portal_modules'', arm_role = ''PORTAL_MODULE'', arm_roleSuffix = []\<rparr>,
     \<lparr>arm_prefix = configApiPrefix @ ''/provisioning'', arm_role = ''PROVISIONING'', arm_roleSuffix = []\<rparr>,
     \<lparr>arm_prefix = configApiPrefix @ ''/provisionings/'', arm_role = ''PROVISIONING'', arm_roleSuffix = []\<rparr>,
     \<lparr>arm_prefix = configApiPrefix @ ''/realm/'', arm_role = ''REALM'', arm_roleSuffix = []\<rparr>,
     \<lparr>arm_prefix = configApiPrefix @ ''/realms'', arm_role = ''REALM'', arm_roleSuffix = []\<rparr>,
     \<lparr>arm_prefix = configApiPrefix @ ''/role/'', arm_role = ''USERS_ROLES'', arm_roleSuffix = []\<rparr>,
     \<lparr>arm_prefix = configApiPrefix @ ''/roles'', arm_role = ''USERS_ROLES'', arm_roleSuffix = []\<rparr>,
     \<lparr>arm_prefix = configApiPrefix @ ''/routed_network/'', arm_role = ''INTERFACES'', arm_roleSuffix = []\<rparr>,
     \<lparr>arm_prefix = configApiPrefix @ ''/routed_networks'', arm_role = ''INTERFACES'', arm_roleSuffix = []\<rparr>,
     \<lparr>arm_prefix = configApiPrefix @ ''/scan/'', arm_role = ''SCAN'', arm_roleSuffix = []\<rparr>,
     \<lparr>arm_prefix = configApiPrefix @ ''/scans'', arm_role = ''SCAN'', arm_roleSuffix = []\<rparr>,
     \<lparr>arm_prefix = configApiPrefix @ ''/security_event/'', arm_role = ''SECURITY_EVENTS'', arm_roleSuffix = []\<rparr>,
     \<lparr>arm_prefix = configApiPrefix @ ''/security_events'', arm_role = ''SECURITY_EVENTS'', arm_roleSuffix = []\<rparr>,
     \<lparr>arm_prefix = configApiPrefix @ ''/source/'', arm_role = ''USERS_SOURCES'', arm_roleSuffix = []\<rparr>,
     \<lparr>arm_prefix = configApiPrefix @ ''/sources'', arm_role = ''USERS_SOURCES'', arm_roleSuffix = []\<rparr>,
     \<lparr>arm_prefix = configApiPrefix @ ''/switch/'', arm_role = ''SWITCHES'', arm_roleSuffix = []\<rparr>,
     \<lparr>arm_prefix = configApiPrefix @ ''/switch_group/'', arm_role = ''SWITCHES'', arm_roleSuffix = []\<rparr>,
     \<lparr>arm_prefix = configApiPrefix @ ''/switch_groups'', arm_role = ''SWITCHES'', arm_roleSuffix = []\<rparr>,
     \<lparr>arm_prefix = configApiPrefix @ ''/switches'', arm_role = ''SWITCHES'', arm_roleSuffix = []\<rparr>,
     \<lparr>arm_prefix = configApiPrefix @ ''/syslog_forwarder/'', arm_role = ''SYSLOG'', arm_roleSuffix = []\<rparr>,
     \<lparr>arm_prefix = configApiPrefix @ ''/syslog_forwarders'', arm_role = ''SYSLOG'', arm_roleSuffix = []\<rparr>,
     \<lparr>arm_prefix = configApiPrefix @ ''/syslog_parser/'', arm_role = ''PFDETECT'', arm_roleSuffix = []\<rparr>,
     \<lparr>arm_prefix = configApiPrefix @ ''/syslog_parsers'', arm_role = ''PFDETECT'', arm_roleSuffix = []\<rparr>,
     \<lparr>arm_prefix = configApiPrefix @ ''/traffic_shaping_policies'', arm_role = ''TRAFFIC_SHAPING'', arm_roleSuffix = []\<rparr>,
     \<lparr>arm_prefix = configApiPrefix @ ''/traffic_shaping_policy/'', arm_role = ''TRAFFIC_SHAPING'', arm_roleSuffix = []\<rparr>
   ]"

definition allTenantsPaths :: "string list" where
  "allTenantsPaths = [configApiPrefix @ ''/security_events'', configApiPrefix @ ''/security_event/'',
     configApiPrefix @ ''/base/guests_admin_registration'', configApiPrefix @ ''/admin_roles'']"

definition multiTenantDenyPaths :: "string list" where
  "multiTenantDenyPaths = [apiPrefix @ ''/queues'', apiPrefix @ ''/services'', apiPrefix @ ''/service'']"

definition methodSuffixMap :: "string \<Rightarrow> string" where
  "methodSuffixMap method =
     (if method = ''GET'' then ''_READ'' else if method = ''OPTIONS'' then ''_READ''
      else if method = ''POST'' then ''_CREATE'' else if method = ''PUT'' then ''_UPDATE''
      else if method = ''PATCH'' then ''_UPDATE'' else if method = ''DELETE'' then ''_DELETE''
      else [])"

definition InvalidTokenInfoErr :: string where "InvalidTokenInfoErr = ''Invalid token info''"

text \<open>
  The multi-tenant status. \<open>TenantDbFail\<close>: the connection or the query fails, or the code
  panics and recovers; \<open>TenantDbRows\<close>: the counts the query returns, \<open>None\<close> for a row
  that does not scan.
\<close>

record aaa_globals =
  multipleTenants :: bool
  successMultipleTenants :: bool

datatype tenant_db = TenantDbFail | TenantDbRows "int option list"

fun tenant_rows :: "int option list \<Rightarrow> bool \<Rightarrow> bool \<times> bool" where
  "tenant_rows [] multi = (True, multi)"
| "tenant_rows (None # rs) multi = (False, multi)"
| "tenant_rows (Some count # rs) multi = tenant_rows rs (if count > 2 then True else multi)"

definition computeMultipleTenants :: "tenant_db \<Rightarrow> aaa_globals \<Rightarrow> bool \<times> aaa_globals" where
  "computeMultipleTenants db g =
     (case db of
        TenantDbFail \<Rightarrow> (False, g)
      | TenantDbRows rs \<Rightarrow>
          (case tenant_rows rs (multipleTenants g) of (ok, multi) \<Rightarrow> (ok, g\<lparr>multipleTenants := multi\<rparr>)))"

definition isAuthorizedTenantId :: "int \<Rightarrow> int \<Rightarrow> bool \<times> go_err" where
  "isAuthorizedTenantId requestTenantId tokenTenantId =
     (if tokenTenantId = AccessNoTenants
      then (False, Some ''Token is prohibited from accessing data from any tenant'')
      else if tokenTenantId = AccessAllTenants then (True, None)
      else if requestTenantId = tokenTenantId then (True, None)
      else (False, Some (''Token is not allowed to access this tenant '' @ strconv_Itoa requestTenantId @
              '' and only has access to tenant '' @ strconv_Itoa tokenTenantId)))"

fun find_role :: "adminRoleMapping list \<Rightarrow> string \<Rightarrow> string \<times> string" where
  "find_role [] path = ([], [])"
| "find_role (x # xs) path =
     (if strings_HasPrefix path (arm_prefix x) \<and> arm_role x \<noteq> [] then (arm_role x, arm_roleSuffix x)
      else find_role xs path)"

definition isAuthorizedAdminActions :: "string \<Rightarrow> string \<Rightarrow> (string, bool) gomap \<Rightarrow> bool \<times> go_err" where
  "isAuthorizedAdminActions method path roles =
     (let (role, suffix) = find_role pathAdminRolesMap path;
          baseAdminRole = (if role = [] then ''SYSTEM'' else role);
          suffix' = (if suffix = [] then methodSuffixMap method else suffix)
      in if suffix' = []
         then (False, Some (''Impossible to find admin role suffix for unknown method '' @ method))
         else
           let suffix'' = (if method = ''POST'' \<and> strings_HasSuffix path ''/search'' then ''_READ'' else suffix')
           in if baseAdminRole = ALLOW_ANY then (True, None)
              else if gm_has roles (baseAdminRole @ suffix'') then (True, None)
              else (False, Some (''Unauthorized access, lacking the '' @ baseAdminRole @ suffix'' @ '' administrative role'')))"

definition isAuthorizedPathMultiTenant :: "bool \<Rightarrow> string \<Rightarrow> TokenInfo \<Rightarrow> bool \<times> go_err" where
  "isAuthorizedPathMultiTenant multi path tokenInfo =
     (if \<not> IsTenantMaster multi tokenInfo then
        (if (\<exists>base \<in> set multiTenantDenyPaths. strings_HasPrefix path base)
         then (False, Some ''Token is not allowed to access this namespace because it is scoped to a single tenant.'')
         else (True, None))
      else (True, None))"

definition isAuthorizedConfigNamespace :: "bool \<Rightarrow> string \<Rightarrow> string \<Rightarrow> TokenInfo \<Rightarrow> bool \<times> go_err" where
  "isAuthorizedConfigNamespace multi method path tokenInfo =
     (if \<not> strings_HasPrefix path configApiPrefix then (True, None)
      else if \<not> IsTenantMaster multi tokenInfo then
        (if (method = ''GET'' \<or> method = ''OPTIONS'') \<and> (\<exists>base \<in> set allTenantsPaths. strings_HasPrefix path base)
         then (True, None)
         else (False, Some ''Token is not allowed to access the configuration namespace because it is scoped to a single tenant.''))
      else (True, None))"

definition isAuthorizedMultiTenant :: "bool \<Rightarrow> string \<Rightarrow> string \<Rightarrow> TokenInfo \<Rightarrow> bool \<times> go_err" where
  "isAuthorizedMultiTenant multi method path tokenInfo =
     (let (authConfig, err) = isAuthorizedConfigNamespace multi method path tokenInfo in
      if \<not> authConfig \<or> err \<noteq> None then (authConfig, err)
      else let (authMultiTenant, err) = isAuthorizedPathMultiTenant multi path tokenInfo in
        if \<not> authMultiTenant \<or> err \<noteq> None then (authMultiTenant, err)
        else (True, None))"

definition IsAuthorized ::
  "admin_roles \<Rightarrow> bool \<Rightarrow> string \<Rightarrow> string \<Rightarrow> int \<Rightarrow> TokenInfo option \<Rightarrow> bool \<times> go_err" where
  "IsAuthorized cfg multi method path tenantId tokenInfo =
     (case tokenInfo of
        None \<Rightarrow> (False, Some InvalidTokenInfoErr)
      | Some ti \<Rightarrow>
          let (authAdminRoles, err) = isAuthorizedAdminActions method path (AdminActions cfg multi ti) in
          if \<not> authAdminRoles \<or> err \<noteq> None then (authAdminRoles, err)
          else let (authTenant, err) = isAuthorizedTenantId tenantId (ten_Id (ti_Tenant ti)) in
            if \<not> authTenant \<or> err \<noteq> None then (authTenant, err)
            else let (authConfig, err) = isAuthorizedMultiTenant multi method path ti in
              if \<not> authConfig \<or> err \<noteq> None then (authConfig, err)
              else (True, None))"

text \<open>A request: the parts the handlers read, and the headers they set for the next handler.\<close>

record http_request =
  rq_Method :: string
  rq_Path :: string
  rq_Header :: "(string, string) gomap"

definition header_Get :: "http_request \<Rightarrow> string \<Rightarrow> string" where
  "header_Get r k = gm_get [] (rq_Header r) k"

definition header_Set :: "string \<Rightarrow> string \<Rightarrow> http_request \<Rightarrow> http_request" where
  "header_Set k v r = r\<lparr>rq_Header := fmupd k v (rq_Header r)\<rparr>"

definition tenant_header :: string where "tenant_header = ''X-Packetfence-Tenant-Id''"
definition roles_header :: string where "roles_header = ''X-Packetfence-Admin-Roles''"
definition username_header :: string where "username_header = ''X-Packetfence-Username''"

definition TokenFromBearerRequest :: "http_request \<Rightarrow> string" where
  "TokenFromBearerRequest r = strings_TrimPrefix (header_Get r ''Authorization'') ''Bearer ''"

text \<open>
  The tenant of a request: from its header, or from the token, which is then written to the
  header. \<open>Inl\<close> is the error of a header that is not a number.
\<close>

definition request_tenant :: "http_request \<Rightarrow> TokenInfo \<Rightarrow> string + int \<times> http_request" where
  "request_tenant r ti =
     (let xptid = header_Get r tenant_header; tid = ten_Id (ti_Tenant ti) in
      if tid = AccessAllTenants \<and> xptid = [] then Inr (0, r)
      else if xptid = [] then Inr (tid, header_Set tenant_header (strconv_Itoa tid) r)
      else case strconv_Atoi xptid of
        (_, Some err) \<Rightarrow> Inl (''Impossible to parse X-PacketFence-Tenant-Id '' @ xptid @
                              '' into a valid number, error: '' @ err)
      | (n, None) \<Rightarrow> Inr (n, r))"

text \<open>
  \<open>prio\<close> is the order in which the role map is visited; \<open>tok\<close> is the answer of
  \<open>TokenInfoForToken\<close> for the token of the request.
\<close>

definition Authz_BearerRequestIsAuthorized ::
  "admin_roles \<Rightarrow> tenant_db \<Rightarrow> (string \<Rightarrow> nat) \<Rightarrow> (string \<Rightarrow> TokenInfo option) \<Rightarrow> aaa_globals \<Rightarrow> http_request \<Rightarrow>
   (bool \<times> go_err) \<times> aaa_globals \<times> http_request" where
  "Authz_BearerRequestIsAuthorized cfg db prio tok g r =
     (let g' = (if \<not> successMultipleTenants g
                then (case computeMultipleTenants db g of (ok, g1) \<Rightarrow> g1\<lparr>successMultipleTenants := ok\<rparr>)
                else g)
      in case tok (TokenFromBearerRequest r) of
           None \<Rightarrow> ((False, Some InvalidTokenInfoErr), g', r)
         | Some ti \<Rightarrow>
             (case request_tenant r ti of
                Inl msg \<Rightarrow> ((False, Some msg), g', r)
              | Inr (tenantId, r1) \<Rightarrow>
                  let r2 = header_Set roles_header (strings_Join (range_keys prio (ti_AdminRoles ti)) '','') r1;
                      r3 = header_Set username_header (ti_Username ti) r2
                  in (IsAuthorized cfg (multipleTenants g') (rq_Method r3) (rq_Path r3) tenantId (Some ti), g', r3)))"

section \<open>paths.go\<close>

definition publicPaths :: "string list" where
  "publicPaths = [apiPrefix @ ''/translations'', apiPrefix @ ''/translation/'', apiPrefix @ ''/configurator/'']"

definition IsPathPublic :: "string \<Rightarrow> bool" where
  "IsPathPublic path \<longleftrightarrow>
     (case go_for publicPaths (\<lambda>s _. if strings_HasPrefix path s then Inl True else Inr ()) () of
        Inl r \<Rightarrow> r | Inr _ \<Rightarrow> False)"

section \<open>Properties\<close>

text \<open>Each check answers yes without an error or no with one.\<close>

named_theorems decided \<open>a check answers yes exactly when it gives no error\<close>

lemma decided_Admin [decided]:
  "snd (isAuthorizedAdminActions method path roles) = None \<longleftrightarrow> fst (isAuthorizedAdminActions method path roles)"
  by (auto simp: isAuthorizedAdminActions_def Let_def split: prod.splits)

lemma decided_Tenant [decided]: "snd (isAuthorizedTenantId q t) = None \<longleftrightarrow> fst (isAuthorizedTenantId q t)"
  by (auto simp: isAuthorizedTenantId_def)

lemma decided_Config [decided]:
  "snd (isAuthorizedConfigNamespace multi method path ti) = None \<longleftrightarrow>
   fst (isAuthorizedConfigNamespace multi method path ti)"
  by (auto simp: isAuthorizedConfigNamespace_def)

lemma decided_Path [decided]:
  "snd (isAuthorizedPathMultiTenant multi path ti) = None \<longleftrightarrow> fst (isAuthorizedPathMultiTenant multi path ti)"
  by (auto simp: isAuthorizedPathMultiTenant_def)

lemma fst_MultiTenant:
  "fst (isAuthorizedMultiTenant multi method path ti) \<longleftrightarrow>
   fst (isAuthorizedConfigNamespace multi method path ti) \<and> fst (isAuthorizedPathMultiTenant multi path ti)"
  by (simp add: isAuthorizedMultiTenant_def Let_def split_beta decided del: not_None_eq)

lemma decided_MultiTenant [decided]:
  "snd (isAuthorizedMultiTenant multi method path ti) = None \<longleftrightarrow> fst (isAuthorizedMultiTenant multi method path ti)"
  by (simp add: isAuthorizedMultiTenant_def Let_def split_beta decided del: not_None_eq)

lemma IsAuthorized_checks:
  "fst (IsAuthorized cfg multi method path tid (Some ti)) \<longleftrightarrow>
     fst (isAuthorizedAdminActions method path (AdminActions cfg multi ti)) \<and>
     fst (isAuthorizedTenantId tid (ten_Id (ti_Tenant ti))) \<and>
     fst (isAuthorizedMultiTenant multi method path ti)"
  by (simp add: IsAuthorized_def Let_def split_beta decided del: not_None_eq)

lemma decided_IsAuthorized [decided]:
  "snd (IsAuthorized cfg multi method path tid tok) = None \<longleftrightarrow> fst (IsAuthorized cfg multi method path tid tok)"
  by (cases tok) (simp_all add: IsAuthorized_def Let_def split_beta decided del: not_None_eq)

text \<open>The action a request needs: none, an action of a role, or the method is unknown.\<close>

datatype needed = AnyRole | Action string | UnknownMethod

definition needed_action :: "string \<Rightarrow> string \<Rightarrow> needed" where
  "needed_action method path =
     (case find_role pathAdminRolesMap path of (role, sfx) \<Rightarrow>
        if sfx = [] \<and> methodSuffixMap method = [] then UnknownMethod
        else if role = ALLOW_ANY then AnyRole
        else Action ((if role = [] then ''SYSTEM'' else role) @
               (if method = ''POST'' \<and> strings_HasSuffix path ''/search'' then ''_READ''
                else if sfx = [] then methodSuffixMap method else sfx)))"

lemma fst_AdminActions:
  "fst (isAuthorizedAdminActions method path roles) \<longleftrightarrow>
   (case needed_action method path of AnyRole \<Rightarrow> True | Action a \<Rightarrow> gm_has roles a | UnknownMethod \<Rightarrow> False)"
  by (auto simp: isAuthorizedAdminActions_def needed_action_def Let_def ALLOW_ANY_def split: prod.splits)


lemma header_Get_Set [simp]:
  "header_Get (header_Set k v r) k' = (if k' = k then v else header_Get r k')"
  "rq_Path (header_Set k v r) = rq_Path r" "rq_Method (header_Set k v r) = rq_Method r"
  by (auto simp: header_Get_def header_Set_def gm_get_def)

lemma headers_distinct [simp]:
  "tenant_header \<noteq> roles_header" "tenant_header \<noteq> username_header" "roles_header \<noteq> username_header"
  "roles_header \<noteq> tenant_header" "username_header \<noteq> tenant_header" "username_header \<noteq> roles_header"
  by (simp_all add: tenant_header_def roles_header_def username_header_def)

lemma request_tenant_cases:
  assumes "request_tenant r ti = Inr (tid, r1)"
  shows "rq_Path r1 = rq_Path r \<and> rq_Method r1 = rq_Method r \<and>
    (ten_Id (ti_Tenant ti) = AccessAllTenants \<or> header_Get r1 tenant_header = strconv_Itoa tid \<or>
     strconv_Atoi (header_Get r1 tenant_header) = (tid, None))"
  using assms by (auto simp: request_tenant_def Let_def split: if_splits option.splits prod.splits)

lemma Authz_accept:
  assumes "Authz_BearerRequestIsAuthorized cfg db prio tok g r = ((True, e), g', r')"
  obtains ti tid r1 where "tok (TokenFromBearerRequest r) = Some ti" "request_tenant r ti = Inr (tid, r1)"
    "IsAuthorized cfg (multipleTenants g') (rq_Method r) (rq_Path r) tid (Some ti) = (True, e)"
    "r' = header_Set username_header (ti_Username ti)
       (header_Set roles_header (strings_Join (range_keys prio (ti_AdminRoles ti)) '','') r1)"
proof (cases "tok (TokenFromBearerRequest r)")
  case None
  with assms show ?thesis by (simp add: Authz_BearerRequestIsAuthorized_def Let_def split: if_splits)
next
  case (Some ti)
  with assms obtain tid r1 where t: "request_tenant r ti = Inr (tid, r1)"
    by (auto simp: Authz_BearerRequestIsAuthorized_def Let_def split: sum.splits)
  from request_tenant_cases [OF t] have "rq_Path r1 = rq_Path r" "rq_Method r1 = rq_Method r" by auto
  with t assms Some that show ?thesis by (auto simp: Authz_BearerRequestIsAuthorized_def Let_def)
qed


lemma find_role_current_user: "find_role pathAdminRolesMap ''/api/v1/current_user'' = (ALLOW_ANY, [])"
  unfolding pathAdminRolesMap_def by (simp add: apiPrefix_def go_simps ALLOW_ANY_def)



end
