(* ===== verification/ApiAaa.thy ===== *)
theory ApiAaa
  imports AaaAuthz
begin

text \<open>
  The HTTP middleware in front of the API (\<open>src/go/caddy/api-aaa/api-aaa.go\<close>) with the
  panic handler it defers (\<open>src/go/panichandler\<close>): login, token information, and the gate
  \<open>HandleAAA\<close> every other request passes. JSON bodies are kept as structured values; the
  request router, the next handler, the request decoder and the authentication service are
  parameters.
\<close>

section \<open>The response writer\<close>

text \<open>
  \<open>net/http\<close>: the first \<open>WriteHeader\<close> fixes the status and the headers that are sent; a
  \<open>Write\<close> before it sends 200; later changes of the header map have no effect.
\<close>

record PrettyTokenInfo =
  pti_AdminActions :: "string list"
  pti_AdminRoles :: "string list"
  pti_Tenant :: Tenant
  pti_Username :: string
  pti_ExpiresAt :: int

datatype body = BToken string | BMessage string | BItem PrettyTokenInfo | BText string

record response =
  rs_sent :: "(nat \<times> string) option"
  rs_contentType :: string
  rs_body :: "body list"

definition WriteHeader :: "nat \<Rightarrow> response \<Rightarrow> response" where
  "WriteHeader code w = (if rs_sent w = None then w\<lparr>rs_sent := Some (code, rs_contentType w)\<rparr> else w)"

definition Write :: "body \<Rightarrow> response \<Rightarrow> response" where
  "Write b w = (let w' = WriteHeader 200 w in w'\<lparr>rs_body := rs_body w' @ [b]\<rparr>)"

definition http_Error :: "string \<Rightarrow> nat \<Rightarrow> response \<Rightarrow> response" where
  "http_Error msg code w =
     Write (BText msg) (WriteHeader code (w\<lparr>rs_contentType := ''text/plain; charset=utf-8''\<rparr>))"

definition httpErrorMsg :: string where
  "httpErrorMsg = ''An internal error has occured, please check server side logs for details.''"

definition panichandler_Http :: "response \<Rightarrow> response" where
  "panichandler_Http w = http_Error httpErrorMsg 500 w"

section \<open>api-aaa.go\<close>

record 'c aaa_env =
  env_cache :: "'c token_cache"
  env_roles :: admin_roles
  env_tenants :: tenant_db
  env_prio :: "string \<Rightarrow> nat"
  env_pf :: "string \<Rightarrow> string \<Rightarrow> pf_response"
  env_webservices :: "string \<times> string"

record 'c ApiAAAHandler =
  h_systemBackend :: "MemAuthenticationBackend option"
  h_webservicesBackend :: MemAuthenticationBackend
  h_tokenBackend :: "'c MemTokenBackend"
  h_globals :: aaa_globals

definition all_roles :: "(string, bool) gomap" where
  "all_roles = fmupd ''ALL'' True fmempty"

text \<open>
  \<open>buildApiAAAHandler\<close>: \<open>store\<close> is the new cache; the system user and the two expirations
  come from the configuration, in seconds.
\<close>

definition buildApiAAAHandler ::
  "'c \<Rightarrow> string \<times> string \<Rightarrow> string \<times> string \<Rightarrow> int \<Rightarrow> aaa_globals \<Rightarrow> 'c ApiAAAHandler" where
  "buildApiAAAHandler store system_user web_user apiMaxExpiration g =
     (let tokenBackend = NewMemTokenBackend store (apiMaxExpiration * 1000000000);
          system = (if fst system_user \<noteq> []
                    then Some (Mem_SetUser (fst system_user) (snd system_user)
                                 (NewMemAuthenticationBackend fmempty all_roles))
                    else None);
          web = NewMemAuthenticationBackend fmempty all_roles;
          web' = (if fst web_user \<noteq> [] then Mem_SetUser (fst web_user) (snd web_user) web else web)
      in \<lparr>h_systemBackend = system, h_webservicesBackend = web', h_tokenBackend = tokenBackend, h_globals = g\<rparr>)"

text \<open>The authentication backends in the order in which they were added.\<close>

definition authBackends :: "'c aaa_env \<Rightarrow> 'c ApiAAAHandler \<Rightarrow> auth_backend list" where
  "authBackends env h =
     (case h_systemBackend h of Some b \<Rightarrow> [Mem_Authenticate b] | None \<Rightarrow> []) @
     [Mem_Authenticate (h_webservicesBackend h), Pf_Authenticate (env_pf env)]"

definition handleLogin ::
  "'c aaa_env \<Rightarrow> int \<Rightarrow> bytes \<times> nat \<times> go_err \<Rightarrow> string + string \<times> string \<Rightarrow> response \<Rightarrow> 'c ApiAAAHandler \<Rightarrow>
   (response \<times> 'c ApiAAAHandler) outcome" where
  "handleLogin env now read loginParams w h =
     (case loginParams of
        Inl err \<Rightarrow> Ret (http_Error err 400 w, h)
      | Inr (username, password) \<Rightarrow>
          go_bind (Login (env_cache env) now read (authBackends env h) username password (h_tokenBackend h))
            (\<lambda>((auth, token, err), mtb).
               if auth then Ret (Write (BToken token) (WriteHeader 200 w), h\<lparr>h_tokenBackend := mtb\<rparr>)
               else case err of
                 None \<Rightarrow> Panic ''nil pointer dereference''
               | Some e \<Rightarrow> Ret (Write (BMessage e) (WriteHeader 401 w), h\<lparr>h_tokenBackend := mtb\<rparr>)))"

definition Touch :: "'c aaa_env \<Rightarrow> int \<Rightarrow> http_request \<Rightarrow> 'c ApiAAAHandler \<Rightarrow> 'c ApiAAAHandler" where
  "Touch env now r h =
     h\<lparr>h_tokenBackend := TouchTokenInfo (env_cache env) now
         (tokenFromRequest (header_Get r ''Authorization'')) (h_tokenBackend h)\<rparr>"

definition handleTokenInfo ::
  "'c aaa_env \<Rightarrow> int \<Rightarrow> string \<Rightarrow> http_request \<Rightarrow> response \<Rightarrow> 'c ApiAAAHandler \<Rightarrow> response \<times> 'c ApiAAAHandler" where
  "handleTokenInfo env now no_expiration_extension r w h =
     (let h' = (if no_expiration_extension = [] then Touch env now r h else h);
          (info, expiration) = TokenInfoForToken (env_cache env) now (TokenFromBearerRequest r) (h_tokenBackend h')
      in case info of
           Some ti \<Rightarrow>
             let prettyInfo =
                   \<lparr>pti_AdminActions = range_keys (env_prio env)
                      (AdminActions (env_roles env) (multipleTenants (h_globals h')) ti),
                    pti_AdminRoles = range_keys (env_prio env) (ti_AdminRoles ti),
                    pti_Tenant = ti_Tenant ti, pti_Username = ti_Username ti, pti_ExpiresAt = expiration\<rparr>
             in (Write (BItem prettyInfo) (WriteHeader 200 w), h')
         | None \<Rightarrow>
             (Write (BMessage ''Couldn't find any information for the current token. Either it is invalid or it has expired.'')
                (WriteHeader 404 w), h'))"

definition HandleAAA ::
  "'c aaa_env \<Rightarrow> int \<Rightarrow> http_request \<Rightarrow> response \<Rightarrow> 'c ApiAAAHandler \<Rightarrow>
   (bool \<times> http_request \<times> response \<times> 'c ApiAAAHandler) outcome" where
  "HandleAAA env now r w h =
     (if IsPathPublic (rq_Path r) then Ret (True, r, w, h)
      else
        let (auth, err) = IsAuthenticated (env_cache env) now
                            (tokenFromRequest (header_Get r ''Authorization'')) (h_tokenBackend h) in
        if \<not> auth then
          let msg = (case err of None \<Rightarrow> ''Invalid token. Login again using /api/v1/login'' | Some e \<Rightarrow> e)
          in Ret (False, r, Write (BMessage msg) (WriteHeader 401 w), h)
        else
          let h1 = Touch env now r h;
              ((auth, err), g, r1) = Authz_BearerRequestIsAuthorized (env_roles env) (env_tenants env) (env_prio env)
                 (\<lambda>token. fst (TokenInfoForToken (env_cache env) now token (h_tokenBackend h1))) (h_globals h1) r;
              h2 = h1\<lparr>h_globals := g\<rparr>
          in if auth then Ret (True, r1, w, h2)
             else case err of
               None \<Rightarrow> Panic ''nil pointer dereference''
             | Some e \<Rightarrow> Ret (False, r1, Write (BMessage e) (WriteHeader (if e = InvalidTokenInfoErr then 401 else 403) w), h2))"

text \<open>
  \<open>ServeHTTP\<close>. \<open>Lookup\<close> is the router; \<open>nxt\<close> is the next handler, which gets the request
  with the headers set by the gate. The deferred functions run in reverse order: the content
  type first, the panic handler last.
\<close>

datatype route = RouteLogin | RouteTokenInfo

record ('c) api_input =
  in_now :: int
  in_read :: "bytes \<times> nat \<times> go_err"
  in_login :: "string + string \<times> string"
  in_noext :: string

definition default_content_type :: "response \<Rightarrow> response" where
  "default_content_type w = (if rs_contentType w = [] then w\<lparr>rs_contentType := ''application/json''\<rparr> else w)"

definition reload_webservices :: "'c aaa_env \<Rightarrow> 'c ApiAAAHandler \<Rightarrow> 'c ApiAAAHandler" where
  "reload_webservices env h =
     (if fst (env_webservices env) \<noteq> []
      then h\<lparr>h_webservicesBackend := Mem_SetUser (fst (env_webservices env)) (snd (env_webservices env))
               (h_webservicesBackend h)\<rparr>
      else h)"

definition ServeHTTP ::
  "'c aaa_env \<Rightarrow> (string \<Rightarrow> string \<Rightarrow> route option) \<Rightarrow>
   (http_request \<Rightarrow> response \<Rightarrow> (nat \<times> go_err) outcome \<times> response) \<Rightarrow> 'c api_input \<Rightarrow>
   http_request \<Rightarrow> response \<Rightarrow> 'c ApiAAAHandler \<Rightarrow> (nat \<times> go_err) \<times> response \<times> 'c ApiAAAHandler" where
  "ServeHTTP env Lookup nxt inp r w h0 =
     (let h = reload_webservices env h0;
          res =
            (case Lookup (rq_Method r) (rq_Path r) of
               Some RouteLogin \<Rightarrow>
                 (case handleLogin env (in_now inp) (in_read inp) (in_login inp) w h of
                    Ret (w', h') \<Rightarrow> (Ret (0, None), w', h')
                  | Panic m \<Rightarrow> (Panic m, w, h))
             | Some RouteTokenInfo \<Rightarrow>
                 (case handleTokenInfo env (in_now inp) (in_noext inp) r w h of (w', h') \<Rightarrow> (Ret (0, None), w', h'))
             | None \<Rightarrow>
                 (case HandleAAA env (in_now inp) r w h of
                    Ret (pass, r', w', h') \<Rightarrow>
                      if pass then (case nxt r' w' of (out, w'') \<Rightarrow> (out, w'', h'))
                      else (Ret (0, None), w', h')
                  | Panic m \<Rightarrow> (Panic m, w, h)))
      in case res of
           (Ret out, w', h') \<Rightarrow> (out, default_content_type w', h')
         | (Panic _, w', h') \<Rightarrow> ((0, None), panichandler_Http (default_content_type w'), h'))"

section \<open>Properties\<close>

lemma tokenFromRequest_bearer: "tokenFromRequest (header_Get r ''Authorization'') = TokenFromBearerRequest r"
  by (simp add: tokenFromRequest_def TokenFromBearerRequest_def)

lemma IsAuthorized_decided: "IsAuthorized cfg multi m p tid tok = (b, e) \<Longrightarrow> b \<longleftrightarrow> e = None"
  using decided_IsAuthorized [of cfg multi m p tid tok] by simp

lemma Authz_decided:
  assumes "Authz_BearerRequestIsAuthorized cfg db prio tok g r = ((b, e), g', r')"
  shows "b \<longleftrightarrow> e = None"
proof (cases "tok (TokenFromBearerRequest r)")
  case (Some ti)
  show ?thesis
  proof (cases "request_tenant r ti")
    case (Inr x)
    then obtain tid r1 where "request_tenant r ti = Inr (tid, r1)" by (cases x) simp
    with assms Some show ?thesis
      by (auto simp: Authz_BearerRequestIsAuthorized_def Let_def dest!: IsAuthorized_decided)
  qed (use assms Some in \<open>auto simp: Authz_BearerRequestIsAuthorized_def Let_def\<close>)
qed (use assms in \<open>auto simp: Authz_BearerRequestIsAuthorized_def Let_def\<close>)

lemma HandleAAA_unfold:
  assumes "\<not> IsPathPublic (rq_Path r)" and "TokenIsValid (env_cache env) now (TokenFromBearerRequest r) (h_tokenBackend h)"
    and "Authz_BearerRequestIsAuthorized (env_roles env) (env_tenants env) (env_prio env)
      (\<lambda>token. fst (TokenInfoForToken (env_cache env) now token (h_tokenBackend (Touch env now r h)))) (h_globals h) r =
      ((b, e), g, r1)"
  shows "HandleAAA env now r w h =
    (if b then Ret (True, r1, w, (Touch env now r h)\<lparr>h_globals := g\<rparr>)
     else Ret (False, r1, Write (BMessage (the e)) (WriteHeader (if the e = InvalidTokenInfoErr then 401 else 403) w),
            (Touch env now r h)\<lparr>h_globals := g\<rparr>))"
  using assms Authz_decided [OF assms(3)]
  by (auto simp: HandleAAA_def IsAuthenticated_def tokenFromRequest_bearer Let_def Touch_def split: option.splits)

lemma Touch_max [simp]: "mtb_maxExpiration (h_tokenBackend (Touch env now r h)) = mtb_maxExpiration (h_tokenBackend h)"
  by (simp add: Touch_def TouchTokenInfo_def split: option.splits)

lemma TokenInfoForToken_age:
  "TokenInfoForToken C now k mtb = (Some ti, ex) \<Longrightarrow> now \<le> ti_CreatedAt ti + mtb_maxExpiration mtb"
  by (auto simp: TokenInfoForToken_def Let_def split: option.splits if_splits)

lemma HandleAAA_total:
  "\<exists>pass r' w' h'. HandleAAA env now r w h = Ret (pass, r', w', h') \<and>
     (\<not> pass \<longrightarrow> (\<exists>c msg. c \<in> {401, 403} \<and> w' = Write (BMessage msg) (WriteHeader c w)))"
proof (cases "IsPathPublic (rq_Path r) \<or> \<not> TokenIsValid (env_cache env) now (TokenFromBearerRequest r) (h_tokenBackend h)")
  case True
  then show ?thesis by (auto simp: HandleAAA_def IsAuthenticated_def tokenFromRequest_bearer Let_def)
next
  case False
  obtain b e g r1 where A: "Authz_BearerRequestIsAuthorized (env_roles env) (env_tenants env) (env_prio env)
      (\<lambda>token. fst (TokenInfoForToken (env_cache env) now token (h_tokenBackend (Touch env now r h)))) (h_globals h) r =
      ((b, e), g, r1)" by (metis prod.collapse)
  show ?thesis using HandleAAA_unfold [OF _ _ A, of w] False by (cases b) auto
qed

text \<open>
  C11. The gate lets a request to a path that is not public through only with a live token: the
  token is in the store, is not older than the maximal age and is authorized for the
  method and path, and the request handed on carries the user name of the token.
\<close>
theorem HandleAAA_gate:
  assumes "HandleAAA env now r w h = Ret (True, r', w', h')" and "\<not> IsPathPublic (rq_Path r)"
  shows "\<exists>ti tid ex. TokenIsValid (env_cache env) now (TokenFromBearerRequest r) (h_tokenBackend h) \<and>
    TokenInfoForToken (env_cache env) now (TokenFromBearerRequest r) (h_tokenBackend (Touch env now r h)) = (Some ti, ex) \<and>
    now \<le> ti_CreatedAt ti + mtb_maxExpiration (h_tokenBackend h) \<and>
    fst (IsAuthorized (env_roles env) (multipleTenants (h_globals h')) (rq_Method r) (rq_Path r) tid (Some ti)) \<and>
    header_Get r' username_header = ti_Username ti"
proof -
  have valid: "TokenIsValid (env_cache env) now (TokenFromBearerRequest r) (h_tokenBackend h)"
    using assms by (auto simp: HandleAAA_def IsAuthenticated_def tokenFromRequest_bearer Let_def split: if_splits)
  obtain b e g r1 where A: "Authz_BearerRequestIsAuthorized (env_roles env) (env_tenants env) (env_prio env)
      (\<lambda>token. fst (TokenInfoForToken (env_cache env) now token (h_tokenBackend (Touch env now r h)))) (h_globals h) r =
      ((b, e), g, r1)" by (metis prod.collapse)
  from HandleAAA_unfold [OF assms(2) valid A, of w] assms(1) have
    B: "Authz_BearerRequestIsAuthorized (env_roles env) (env_tenants env) (env_prio env)
      (\<lambda>token. fst (TokenInfoForToken (env_cache env) now token (h_tokenBackend (Touch env now r h)))) (h_globals h) r =
      ((True, e), g, r')" and g: "multipleTenants (h_globals h') = multipleTenants g"
    using A by (auto split: if_splits)
  show ?thesis
  proof (rule Authz_accept [OF B])
    fix ti :: TokenInfo and tid r2
    assume t: "fst (TokenInfoForToken (env_cache env) now (TokenFromBearerRequest r) (h_tokenBackend (Touch env now r h))) = Some ti"
      and auth: "IsAuthorized (env_roles env) (multipleTenants g) (rq_Method r) (rq_Path r) tid (Some ti) = (True, e)"
      and r': "r' = header_Set username_header (ti_Username ti)
        (header_Set roles_header (strings_Join (range_keys (env_prio env) (ti_AdminRoles ti)) '','') r2)"
    obtain ex where ex: "TokenInfoForToken (env_cache env) now (TokenFromBearerRequest r)
        (h_tokenBackend (Touch env now r h)) = (Some ti, ex)" using t by (metis prod.collapse)
    have "now \<le> ti_CreatedAt ti + mtb_maxExpiration (h_tokenBackend h)"
      using TokenInfoForToken_age [OF ex] by simp
    with valid ex auth g show ?thesis
      by (intro exI [of _ ti] exI [of _ tid] exI [of _ ex]) (simp add: r')
  qed
qed

text \<open>
  A refused request never reaches the next handler: the gate always answers, and when it
  refuses, the response is 401 or 403 with a message, whatever the next handler is.
\<close>
theorem ServeHTTP_refused:
  assumes "Lookup (rq_Method r) (rq_Path r) = None" and "rs_sent w = None"
    and "HandleAAA env (in_now inp) r w (reload_webservices env h) = Ret (False, r', w', h')"
  shows "ServeHTTP env Lookup nxt inp r w h = ((0, None), default_content_type w', h') \<and>
    (\<exists>c msg. c \<in> {401, 403} \<and> rs_sent w' = Some (c, rs_contentType w) \<and> rs_body w' = rs_body w @ [BMessage msg])"
  using assms HandleAAA_total [of env "in_now inp" r w "reload_webservices env h"]
  by (auto simp: ServeHTTP_def Let_def Write_def WriteHeader_def)

lemma gate_pass:
  assumes "\<not> IsPathPublic (rq_Path r)" and "TokenIsValid (env_cache env) now (TokenFromBearerRequest r) (h_tokenBackend h)"
    and "fst (TokenInfoForToken (env_cache env) now (TokenFromBearerRequest r) (h_tokenBackend (Touch env now r h))) = Some ti"
    and "ten_Id (ti_Tenant ti) = AccessAllTenants" and "header_Get r tenant_header = []"
    and "needed_action (rq_Method r) (rq_Path r) = AnyRole"
  shows "\<exists>r' h'. HandleAAA env now r w h = Ret (True, r', w, h')"
proof -
  obtain b e g r1 where A: "Authz_BearerRequestIsAuthorized (env_roles env) (env_tenants env) (env_prio env)
      (\<lambda>token. fst (TokenInfoForToken (env_cache env) now token (h_tokenBackend (Touch env now r h)))) (h_globals h) r =
      ((b, e), g, r1)" by (metis prod.collapse)
  have "fst (IsAuthorized (env_roles env) multi (rq_Method r) (rq_Path r) 0 (Some ti))" for multi
    using assms(4,6)
    by (simp add: IsAuthorized_checks fst_AdminActions fst_MultiTenant isAuthorizedConfigNamespace_def
        isAuthorizedPathMultiTenant_def isAuthorizedTenantId_def IsTenantMaster_def AccessAllTenants_def AccessNoTenants_def)
  moreover have "request_tenant r ti = Inr (0, r)" using assms(4,5) by (simp add: request_tenant_def)
  ultimately have "fst (fst (Authz_BearerRequestIsAuthorized (env_roles env) (env_tenants env) (env_prio env)
      (\<lambda>token. fst (TokenInfoForToken (env_cache env) now token (h_tokenBackend (Touch env now r h)))) (h_globals h) r))"
    using assms(3) by (simp add: Authz_BearerRequestIsAuthorized_def Let_def)
  with A HandleAAA_unfold [OF assms(1,2) A, of w] show ?thesis by simp
qed


definition demo_env :: "(string, TokenInfo \<times> int) gomap aaa_env" where
  "demo_env = \<lparr>env_cache = map_cache 100, env_roles = fmempty, env_tenants = TenantDbRows [Some 1],
     env_prio = (\<lambda>_. 0), env_pf = (\<lambda>u p. PfFailed ''down''), env_webservices = ([], [])\<rparr>"

definition demo_handler :: "(string, TokenInfo \<times> int) gomap ApiAAAHandler" where
  "demo_handler = buildApiAAAHandler fmempty (''system'', ''secret'') ([], []) 1
     \<lparr>multipleTenants = False, successMultipleTenants = True\<rparr>"

definition demo_request :: "string \<Rightarrow> http_request" where
  "demo_request tok = \<lparr>rq_Method = ''GET'', rq_Path = ''/api/v1/current_user'',
     rq_Header = fmupd ''Authorization'' (''Bearer '' @ tok) fmempty\<rparr>"

definition demo_response :: response where
  "demo_response = \<lparr>rs_sent = None, rs_contentType = [], rs_body = []\<rparr>"

lemma current_user_not_public: "\<not> IsPathPublic ''/api/v1/current_user''"
  by (simp add: IsPathPublic_def publicPaths_def apiPrefix_def go_simps)

lemma current_user_any: "needed_action ''GET'' ''/api/v1/current_user'' = AnyRole"
  by (simp add: needed_action_def find_role_current_user methodSuffixMap_def)


lemma demo_refused:
  "HandleAAA demo_env 5 (demo_request ''nope'') demo_response demo_handler =
     Ret (False, demo_request ''nope'', Write (BMessage ''Invalid token. Login again using /api/v1/login'')
       (WriteHeader 401 demo_response), demo_handler)"
  by (simp add: HandleAAA_def demo_request_def current_user_not_public IsAuthenticated_def TokenIsValid_def
      demo_env_def demo_handler_def buildApiAAAHandler_def NewMemTokenBackend_def map_cache_def Let_def)

lemma ServeHTTP_refused_witness:
  "\<exists>w' h'. ServeHTTP demo_env (\<lambda>_ _. None) (\<lambda>r w. (Ret (200, None), w))
     \<lparr>in_now = 5, in_read = ([], 0, None), in_login = Inl [], in_noext = []\<rparr> (demo_request ''nope'') demo_response demo_handler =
       ((0, None), default_content_type w', h') \<and> rs_body w' \<noteq> []"
  using ServeHTTP_refused [where Lookup = "\<lambda>_ _. None" and env = demo_env and h = demo_handler and w = demo_response
      and inp = "\<lparr>in_now = 5, in_read = ([], 0, None), in_login = Inl [], in_noext = []\<rparr>"
      and r = "demo_request ''nope''" and nxt = "\<lambda>r w. (Ret (200, None), w)"]
    demo_refused
  by (fastforce simp: reload_webservices_def demo_env_def demo_response_def)

definition demo_token_info :: TokenInfo where
  "demo_token_info = \<lparr>ti_AdminRoles = all_roles, ti_Tenant = zero_tenant, ti_Username = ''system'', ti_CreatedAt = 5\<rparr>"

definition demo_logged_in :: "(string, TokenInfo \<times> int) gomap ApiAAAHandler" where
  "demo_logged_in = demo_handler\<lparr>h_tokenBackend :=
     \<lparr>mtb_store = fmupd ''tok'' (demo_token_info, 105) fmempty, mtb_maxExpiration = 1000\<rparr>\<rparr>"

lemma HandleAAA_gate_witness:
  "\<exists>r' h'. HandleAAA demo_env 50 (demo_request ''tok'') demo_response demo_logged_in = Ret (True, r', demo_response, h') \<and>
     header_Get r' username_header = ''system''"
proof -
  let ?r = "demo_request ''tok''"
  have tok: "TokenFromBearerRequest ?r = ''tok''"
    by (simp add: TokenFromBearerRequest_def demo_request_def header_Get_def gm_get_def go_simps)
  have info: "TokenInfoForToken (env_cache demo_env) 50 ''tok'' (h_tokenBackend (Touch demo_env 50 ?r demo_logged_in)) =
      (Some demo_token_info, 150)"
    by (simp add: Touch_def tokenFromRequest_bearer tok TouchTokenInfo_def TokenInfoForToken_def demo_env_def
        demo_logged_in_def demo_token_info_def map_cache_def Let_def)
  have np: "\<not> IsPathPublic (rq_Path ?r)" by (simp add: demo_request_def current_user_not_public)
  have "\<exists>r' h'. HandleAAA demo_env 50 ?r demo_response demo_logged_in = Ret (True, r', demo_response, h')"
  proof (rule gate_pass [OF np])
    show "TokenIsValid (env_cache demo_env) 50 (TokenFromBearerRequest ?r) (h_tokenBackend demo_logged_in)"
      by (simp add: tok TokenIsValid_def demo_env_def demo_logged_in_def map_cache_def Let_def)
    show "fst (TokenInfoForToken (env_cache demo_env) 50 (TokenFromBearerRequest ?r)
        (h_tokenBackend (Touch demo_env 50 ?r demo_logged_in))) = Some demo_token_info"
      by (simp add: tok info)
    show "needed_action (rq_Method ?r) (rq_Path ?r) = AnyRole" by (simp add: demo_request_def current_user_any)
  qed (simp_all add: demo_token_info_def zero_tenant_def AccessAllTenants_def demo_request_def header_Get_def
      gm_get_def tenant_header_def)
  then obtain r' h' where H: "HandleAAA demo_env 50 ?r demo_response demo_logged_in = Ret (True, r', demo_response, h')"
    by blast
  from HandleAAA_gate [OF H np] have "header_Get r' username_header = ''system''"
    by (auto simp: tok info) (simp add: demo_token_info_def)
  with H show ?thesis by blast
qed

end
