(* ===== verification/GoNet.thy ===== *)
theory GoNet
  imports Prelude
begin

text \<open>
  The parts of the Go standard library the network services use: \<open>net.IP\<close> with
  \<open>ParseIP\<close>, \<open>To4\<close>, \<open>Equal\<close>, \<open>String\<close>, \<open>net.IPNet.Contains\<close>, hardware addresses,
  \<open>encoding/binary\<close> in big-endian order and \<open>encoding/hex\<close>. A \<open>net.IP\<close> is a byte list, \<open>nil\<close> the
  empty one. The IPv4 parser is the one of Go 1.16, which accepts leading zeros.
\<close>

section \<open>Big-endian integers\<close>

definition be_Uint16 :: "bytes \<Rightarrow> u16 outcome" where
  "be_Uint16 b = (case b of
     x0 # x1 # _ \<Rightarrow> Ret (of_nat (unat x0 * 256 + unat x1))
   | _ \<Rightarrow> Panic ''index out of range'')"

definition be_Uint32 :: "bytes \<Rightarrow> u32 outcome" where
  "be_Uint32 b = (case b of
     x0 # x1 # x2 # x3 # _ \<Rightarrow>
       Ret (of_nat (((unat x0 * 256 + unat x1) * 256 + unat x2) * 256 + unat x3))
   | _ \<Rightarrow> Panic ''index out of range'')"

definition be_PutUint16 :: "u16 \<Rightarrow> bytes" where
  "be_PutUint16 w = [of_nat (unat w div 256), of_nat (unat w)]"

definition be_PutUint32 :: "u32 \<Rightarrow> bytes" where
  "be_PutUint32 w =
     [of_nat (unat w div 16777216), of_nat (unat w div 65536), of_nat (unat w div 256), of_nat (unat w)]"

lemma unat_u8_less: "unat (x :: u8) < 256"
  using unsigned_less [of x] by simp

lemma unat_u32_less: "unat (x :: u32) < 4294967296"
  using unsigned_less [of x] by simp

lemma unat_u16_less: "unat (x :: u16) < 65536"
  using unsigned_less [of x] by simp

lemma unat_of_nat_u8: "unat (of_nat n :: u8) = n mod 256"
  by (simp add: unsigned_of_nat take_bit_eq_mod)

lemma unat_of_nat_u16: "unat (of_nat n :: u16) = n mod 65536"
  by (simp add: unsigned_of_nat take_bit_eq_mod)

lemma unat_of_nat_u32: "unat (of_nat n :: u32) = n mod 4294967296"
  by (simp add: unsigned_of_nat take_bit_eq_mod)

lemma length_be_PutUint32 [simp]: "length (be_PutUint32 w) = 4"
  by (simp add: be_PutUint32_def)

lemma split_u32: "((n div 16777216 mod 256 * 256 + n div 65536 mod 256) * 256 + n div 256 mod 256) * 256 + n mod 256 = n mod 4294967296"
  for n :: nat
proof -
  have "n mod 65536 = n div 256 mod 256 * 256 + n mod 256"
    using mod_mult2_eq [of n 256 256] by simp
  moreover have "n mod 16777216 = n div 65536 mod 256 * 65536 + n mod 65536"
    using mod_mult2_eq [of n 65536 256] by simp
  moreover have "n mod 4294967296 = n div 16777216 mod 256 * 16777216 + n mod 16777216"
    using mod_mult2_eq [of n 16777216 256] by simp
  ultimately show ?thesis by simp
qed

lemma be_Uint32_Put: "be_Uint32 (be_PutUint32 w) = Ret w"
proof -
  have m: "unat w mod 4294967296 = unat w" using unat_u32_less [of w] by simp
  have "(of_nat (unat w) :: u32) = w" by simp
  then show ?thesis
    by (simp only: be_Uint32_def be_PutUint32_def list.case unat_of_nat_u8 split_u32 m)
qed

lemma radix256: "b < 256 \<Longrightarrow> (a * 256 + b) div 256 = a" "b < 256 \<Longrightarrow> (a * 256 + b) mod 256 = b"
  for a b :: nat
  by simp_all

lemma be_Uint32_four: "length b = 4 \<Longrightarrow> \<exists>w. be_Uint32 b = Ret w \<and> be_PutUint32 w = b"
proof -
  assume "length b = 4"
  then obtain x0 x1 x2 x3 where b: "b = [x0, x1, x2, x3]"
    by (auto simp: length_Suc_conv numeral_eq_Suc)
  let ?n = "((unat x0 * 256 + unat x1) * 256 + unat x2) * 256 + unat x3"
  have lt: "unat x0 < 256" "unat x1 < 256" "unat x2 < 256" "unat x3 < 256" by (rule unat_u8_less)+
  then have "?n < 4294967296" by simp
  then have u: "unat (of_nat ?n :: u32) = ?n" by (simp only: unat_of_nat_u32 mod_less)
  have "?n div 16777216 = ?n div 256 div 256 div 256" "?n div 65536 = ?n div 256 div 256"
    by (simp_all only: div_mult2_eq [symmetric]) simp_all
  then have "?n div 16777216 = unat x0" "?n div 65536 mod 256 = unat x1" "?n div 256 mod 256 = unat x2" "?n mod 256 = unat x3"
    by (simp_all only: radix256 lt)
  then have "be_PutUint32 (of_nat ?n) = b" unfolding be_PutUint32_def u b
    by (simp only: list.inject simp_thms word_unat_eq_iff unat_of_nat_u8 mod_less [OF lt(1)])
  then show ?thesis unfolding b by (simp add: be_Uint32_def)
qed

section \<open>Strings as bytes\<close>

definition bytes_of_string :: "string \<Rightarrow> bytes" where
  "bytes_of_string s = map (\<lambda>c. of_nat (of_char c)) s"

definition string_of_bytes :: "bytes \<Rightarrow> string" where
  "string_of_bytes b = map (\<lambda>x. char_of (unat x)) b"

lemma string_of_bytes_of_string [simp]: "string_of_bytes (bytes_of_string s) = s"
proof -
  have "char_of (unat (of_nat (of_char c) :: u8)) = c" for c :: char
    by (simp only: unat_of_nat_u8) simp
  then show ?thesis by (induction s) (simp_all add: string_of_bytes_def bytes_of_string_def)
qed

section \<open>\<open>net.IP\<close>\<close>

type_synonym ip = bytes

definition v4InV6Prefix :: bytes where
  "v4InV6Prefix = [0, 0, 0, 0, 0, 0, 0, 0, 0, 0, 255, 255]"

definition IPv4 :: "u8 \<Rightarrow> u8 \<Rightarrow> u8 \<Rightarrow> u8 \<Rightarrow> ip" where
  "IPv4 a b c d = v4InV6Prefix @ [a, b, c, d]"

definition IPv4zero :: ip where "IPv4zero = IPv4 0 0 0 0"
definition IPv4bcast :: ip where "IPv4bcast = IPv4 255 255 255 255"

definition To4 :: "ip \<Rightarrow> ip" where
  "To4 x = (if length x = 4 then x
            else if length x = 16 \<and> take 12 x = v4InV6Prefix then drop 12 x else [])"

definition ip_Equal :: "ip \<Rightarrow> ip \<Rightarrow> bool" where
  "ip_Equal x y =
     (if length x = length y then x = y
      else if length x = 4 \<and> length y = 16 then take 12 y = v4InV6Prefix \<and> x = drop 12 y
      else if length x = 16 \<and> length y = 4 then take 12 x = v4InV6Prefix \<and> drop 12 x = y
      else False)"

lemma length_IPv4 [simp]: "length (IPv4 a b c d) = 16" by (simp add: IPv4_def v4InV6Prefix_def)

lemma To4_IPv4 [simp]: "To4 (IPv4 a b c d) = [a, b, c, d]"
  by (simp add: To4_def IPv4_def v4InV6Prefix_def)

lemma To4_four [simp]: "length x = 4 \<Longrightarrow> To4 x = x" by (simp add: To4_def)

lemma length_To4: "To4 x \<noteq> [] \<Longrightarrow> length (To4 x) = 4"
  unfolding To4_def by (simp split: if_splits)

lemma ip_Equal_To4: "To4 x \<noteq> [] \<Longrightarrow> To4 y \<noteq> [] \<Longrightarrow> ip_Equal x y \<longleftrightarrow> To4 x = To4 y"
  by (auto simp: To4_def ip_Equal_def split: if_splits) (metis append_take_drop_id)+

subsection \<open>Parsing\<close>

text \<open>\<open>dtoi\<close> and \<open>xtoi\<close>: the number, how many characters it has, whether there is one below the bound.\<close>

definition dtoi_digits :: "string \<Rightarrow> string" where
  "dtoi_digits s = takeWhile (\<lambda>c. char_digit c \<noteq> None) s"

definition dtoi :: "string \<Rightarrow> (nat \<times> string) option" where
  "dtoi s =
     (let ds = dtoi_digits s; n = foldl (\<lambda>n c. n * 10 + the (char_digit c)) 0 ds
      in if ds = [] \<or> n \<ge> 16777215 then None else Some (n, drop (length ds) s))"

definition hex_value :: "char \<Rightarrow> nat option" where
  "hex_value c =
     (let k = (of_char c :: nat) in
      if 48 \<le> k \<and> k \<le> 57 then Some (k - 48)
      else if 97 \<le> k \<and> k \<le> 102 then Some (k - 87)
      else if 65 \<le> k \<and> k \<le> 70 then Some (k - 55)
      else None)"

definition xtoi :: "string \<Rightarrow> (nat \<times> string) option" where
  "xtoi s =
     (let ds = takeWhile (\<lambda>c. hex_value c \<noteq> None) s; n = foldl (\<lambda>n c. n * 16 + the (hex_value c)) 0 ds
      in if ds = [] \<or> n \<ge> 16777215 then None else Some (n, drop (length ds) s))"

fun parse_quad :: "nat \<Rightarrow> nat \<Rightarrow> string \<Rightarrow> bytes \<Rightarrow> bytes option" where
  "parse_quad i 0 s p = (if s = [] then Some p else None)"
| "parse_quad i (Suc k) s p =
     (if s = [] then None
      else if i > 0 \<and> hd s \<noteq> CHR ''.'' then None
      else case dtoi (if i > 0 then tl s else s) of
        None \<Rightarrow> None
      | Some (n, rest) \<Rightarrow> if n > 255 then None else parse_quad (Suc i) k rest (p @ [of_nat n]))"

definition parseIPv4 :: "string \<Rightarrow> ip" where
  "parseIPv4 s = (case parse_quad 0 4 s [] of
     Some [a, b, c, d] \<Rightarrow> IPv4 a b c d
   | _ \<Rightarrow> [])"

text \<open>
  \<open>parseIPv6\<close>: the loop over the groups; \<open>p\<close> are the bytes so far, \<open>ell\<close> the position of
  the ellipsis. At most eight groups are read, which is the fuel.
\<close>

fun parse_groups :: "nat \<Rightarrow> string \<Rightarrow> bytes \<Rightarrow> nat option \<Rightarrow> (string \<times> bytes \<times> nat option) option" where
  "parse_groups 0 s p ell = Some (s, p, ell)"
| "parse_groups (Suc fuel) s p ell =
     (if length p \<ge> 16 then Some (s, p, ell)
      else case xtoi s of
        None \<Rightarrow> None
      | Some (n, rest) \<Rightarrow>
          if n > 65535 then None
          else if rest \<noteq> [] \<and> hd rest = CHR ''.'' then
            (if ell = None \<and> length p \<noteq> 12 then None
             else if length p + 4 > 16 then None
             else let ip4 = parseIPv4 s in
               if ip4 = [] then None else Some ([], p @ drop 12 ip4, ell))
          else
            let p' = p @ [of_nat (n div 256), of_nat n] in
            if rest = [] then Some ([], p', ell)
            else if hd rest \<noteq> CHR '':'' \<or> length rest = 1 then None
            else
              let s' = tl rest in
              if hd s' = CHR '':'' then
                (if ell \<noteq> None then None
                 else if tl s' = [] then Some ([], p', Some (length p'))
                 else parse_groups fuel (tl s') p' (Some (length p')))
              else parse_groups fuel s' p' ell)"

definition parseIPv6 :: "string \<Rightarrow> ip" where
  "parseIPv6 s =
     (let lead = strings_HasPrefix s ''::''; s' = (if lead then drop 2 s else s) in
      if lead \<and> s' = [] then replicate 16 0
      else case parse_groups 9 s' [] (if lead then Some 0 else None) of
        None \<Rightarrow> []
      | Some (rest, p, ell) \<Rightarrow>
          if rest \<noteq> [] then []
          else if length p < 16 then
            (case ell of
               None \<Rightarrow> []
             | Some e \<Rightarrow> take e p @ replicate (16 - length p) 0 @ drop e p)
          else if ell \<noteq> None then []
          else p)"

fun ParseIP_scan :: "string \<Rightarrow> string \<Rightarrow> ip" where
  "ParseIP_scan s [] = []"
| "ParseIP_scan s (c # cs) =
     (if c = CHR ''.'' then parseIPv4 s else if c = CHR '':'' then parseIPv6 s else ParseIP_scan s cs)"

definition ParseIP :: "string \<Rightarrow> ip" where
  "ParseIP s = ParseIP_scan s s"

subsection \<open>Printing\<close>

definition dotted :: "bytes \<Rightarrow> string" where
  "dotted b = strings_Join (map (\<lambda>x. dec_nat (unat x)) b) ''.''"

definition hex_char :: "nat \<Rightarrow> char" where
  "hex_char n = ''0123456789abcdef'' ! n"

definition hex_EncodeToString :: "bytes \<Rightarrow> string" where
  "hex_EncodeToString b = concat (map (\<lambda>x. [hex_char (unat x div 16), hex_char (unat x mod 16)]) b)"

fun hex_nat :: "nat \<Rightarrow> string" where
  "hex_nat n = (if n < 16 then [hex_char n] else hex_nat (n div 16) @ [hex_char (n mod 16)])"

declare hex_nat.simps [simp del]

fun ip_groups :: "bytes \<Rightarrow> nat list" where
  "ip_groups (x # y # rest) = (unat x * 256 + unat y) # ip_groups rest"
| "ip_groups _ = []"

text \<open>The longest run of zero groups, as a half-open interval \<open>(e0, e1)\<close> of group numbers.\<close>

fun zero_run_scan :: "nat \<Rightarrow> nat list \<Rightarrow> nat \<Rightarrow> nat \<times> nat \<Rightarrow> nat \<times> nat" where
  "zero_run_scan 0 gs i best = best"
| "zero_run_scan (Suc fuel) gs i (e0, e1) =
     (if i \<ge> length gs then (e0, e1)
      else let run = length (takeWhile (\<lambda>g. g = 0) (drop i gs)) in
        if run > 0 \<and> run > e1 - e0 then zero_run_scan fuel gs (Suc (i + run)) (i, i + run)
        else zero_run_scan fuel gs (Suc i) (e0, e1))"

definition colon_join :: "nat list \<Rightarrow> string" where
  "colon_join gs = strings_Join (map hex_nat gs) '':''"

definition ip6_String :: "bytes \<Rightarrow> string" where
  "ip6_String b =
     (let gs = ip_groups b; (e0, e1) = zero_run_scan 8 gs 0 (0, 0) in
      if e1 - e0 \<le> 1 then colon_join gs
      else colon_join (take e0 gs) @ ''::'' @ colon_join (drop e1 gs))"

definition ip_String :: "ip \<Rightarrow> string" where
  "ip_String x =
     (if x = [] then ''<nil>''
      else if length (To4 x) = 4 then dotted (To4 x)
      else if length x \<noteq> 16 then CHR ''?'' # hex_EncodeToString x
      else ip6_String x)"

subsection \<open>A printed address parses back\<close>

text \<open>The parser on literals.\<close>

lemma parseIPv4_Suc: "parseIPv4 s = (case parse_quad 0 (Suc (Suc (Suc (Suc 0)))) s [] of
     Some [a, b, c, d] \<Rightarrow> IPv4 a b c d | _ \<Rightarrow> [])"
  by (simp only: parseIPv4_def numeral_eq_Suc pred_numeral_simps BitM.simps)

lemmas parse_literal = ParseIP_def parseIPv4_Suc dtoi_def dtoi_digits_def char_digit_def

lemma parse_digits_foldl:
  "parse_digits acc s = Some v \<Longrightarrow>
     foldl (\<lambda>n c. n * 10 + the (char_digit c)) acc s = v \<and> (\<forall>c\<in>set s. char_digit c \<noteq> None)"
  by (induction acc s rule: parse_digits.induct) (auto split: option.splits simp: mult.commute)

lemma dtoi_dec_nat:
  assumes "n < 16777215" and "rest = [] \<or> char_digit (hd rest) = None"
  shows "dtoi (dec_nat n @ rest) = Some (n, rest)"
proof -
  note d = parse_digits_foldl [OF parse_dec_nat [of n]]
  have "takeWhile (\<lambda>c. char_digit c \<noteq> None) rest = []" using assms(2) by (cases rest) auto
  with d have "dtoi_digits (dec_nat n @ rest) = dec_nat n"
    unfolding dtoi_digits_def by (simp add: takeWhile_append2)
  with d assms(1) show ?thesis by (simp add: dtoi_def)
qed

lemma dot_no_digit [simp]: "char_digit (CHR ''.'') = None" by (simp add: char_digit_def)

lemma parseIPv4_dotted: "parseIPv4 (dotted [a, b, c, d]) = IPv4 a b c d"
proof -
  have lt: "unat x < 16777215" "\<not> 255 < unat x" for x :: u8
    using unat_u8_less [of x] by simp_all
  have "parse_quad 0 (Suc (Suc (Suc (Suc 0)))) (dotted [a, b, c, d]) [] = Some [a, b, c, d]"
    using dtoi_dec_nat [OF lt(1), of "[]"]
    by (simp add: dotted_def dtoi_dec_nat lt)
  then have "parse_quad 0 4 (dotted [a, b, c, d]) [] = Some [a, b, c, d]"
    by (simp only: numeral_eq_Suc pred_numeral_simps BitM.simps)
  then show ?thesis by (simp add: parseIPv4_def)
qed

lemma ParseIP_scan_dot:
  "\<forall>c\<in>set xs. c \<noteq> CHR ''.'' \<and> c \<noteq> CHR '':'' \<Longrightarrow> ParseIP_scan s (xs @ CHR ''.'' # ys) = parseIPv4 s"
  by (induction xs) auto

lemma dec_nat_chars: "c \<in> set (dec_nat n) \<Longrightarrow> c \<noteq> CHR ''.'' \<and> c \<noteq> CHR '':''"
  using parse_digits_foldl [OF parse_dec_nat [of n]] by (auto simp: char_digit_def)

lemma ParseIP_dotted: "ParseIP (dotted [a, b, c, d]) = IPv4 a b c d"
proof -
  obtain ys where "dotted [a, b, c, d] = dec_nat (unat a) @ CHR ''.'' # ys"
    by (simp add: dotted_def)
  then have "ParseIP (dotted [a, b, c, d]) = parseIPv4 (dotted [a, b, c, d])"
    unfolding ParseIP_def using ParseIP_scan_dot [of "dec_nat (unat a)"] dec_nat_chars by metis
  then show ?thesis by (simp add: parseIPv4_dotted)
qed

lemma ParseIP_String: "length x = 4 \<Longrightarrow> To4 (ParseIP (ip_String x)) = x"
proof -
  assume "length x = 4"
  then obtain a b c d where "x = [a, b, c, d]" by (auto simp: length_Suc_conv numeral_eq_Suc)
  then show ?thesis by (simp add: ip_String_def ParseIP_dotted)
qed

lemma ip_String_inj4: "length x = 4 \<Longrightarrow> length y = 4 \<Longrightarrow> ip_String x = ip_String y \<Longrightarrow> x = y"
  using ParseIP_String by metis

text \<open>\<open>net.HardwareAddr.String\<close>.\<close>

definition mac_String :: "bytes \<Rightarrow> string" where
  "mac_String m = strings_Join (map (\<lambda>x. [hex_char (unat x div 16), hex_char (unat x mod 16)]) m) '':''"

subsection \<open>Networks\<close>

record IPNet =
  net_IP :: ip
  net_Mask :: bytes

definition networkNumberAndMask :: "IPNet \<Rightarrow> bytes \<times> bytes" where
  "networkNumberAndMask n =
     (let x = (if To4 (net_IP n) = [] then net_IP n else To4 (net_IP n)); m = net_Mask n in
      if To4 (net_IP n) = [] \<and> length x \<noteq> 16 then ([], [])
      else if length m = 4 then (if length x \<noteq> 4 then ([], []) else (x, m))
      else if length m = 16 then (x, if length x = 4 then drop 12 m else m)
      else ([], []))"

definition net_Contains :: "IPNet \<Rightarrow> ip \<Rightarrow> bool" where
  "net_Contains n x =
     (let (nn, m) = networkNumberAndMask n; y = (if To4 x = [] then x else To4 x) in
      length y = length nn \<and> map2 and nn m = map2 and y m)"

text \<open>\<open>net.SplitHostPort\<close>: host and port, both empty when the address is malformed.\<close>

fun index_of :: "char \<Rightarrow> string \<Rightarrow> nat option" where
  "index_of c [] = None"
| "index_of c (x # s) = (if x = c then Some 0 else map_option Suc (index_of c s))"

fun last_index_of :: "char \<Rightarrow> string \<Rightarrow> nat option" where
  "last_index_of c [] = None"
| "last_index_of c (x # s) =
     (case last_index_of c s of Some i \<Rightarrow> Some (Suc i) | None \<Rightarrow> if x = c then Some 0 else None)"

definition SplitHostPort :: "string \<Rightarrow> string \<times> string \<times> go_err" where
  "SplitHostPort s =
     (case last_index_of (CHR '':'') s of
        None \<Rightarrow> ([], [], Some ''missing port in address'')
      | Some i \<Rightarrow>
          let parts =
            (if hd s = CHR ''['' then
               (case index_of (CHR '']'') s of
                  None \<Rightarrow> Inl ''missing ']' in address''
                | Some e \<Rightarrow>
                    if e + 1 = length s then Inl ''missing port in address''
                    else if e + 1 = i then Inr (drop 1 (take e s), 1, e + 1)
                    else if s ! (e + 1) = CHR '':'' then Inl ''too many colons in address''
                    else Inl ''missing port in address'')
             else if CHR '':'' \<in> set (take i s) then Inl ''too many colons in address''
             else Inr (take i s, 0, 0))
          in case parts of
               Inl e \<Rightarrow> ([], [], Some e)
             | Inr (host, j, k) \<Rightarrow>
                 if CHR ''['' \<in> set (drop j s) then ([], [], Some ''unexpected '[' in address'')
                 else if CHR '']'' \<in> set (drop k s) then ([], [], Some ''unexpected ']' in address'')
                 else (host, drop (i + 1) s, None))"

text \<open>\<open>net.IPMask\<close>, \<open>net.ParseCIDR\<close> and \<open>net.IPNet.String\<close>.\<close>

fun leading_ones :: "nat \<Rightarrow> nat \<Rightarrow> nat" where
  "leading_ones 0 v = 0"
| "leading_ones (Suc k) v = (if v \<ge> 128 then Suc (leading_ones k ((v * 2) mod 256)) else 0)"

fun simpleMaskLength :: "bytes \<Rightarrow> nat option" where
  "simpleMaskLength [] = Some 0"
| "simpleMaskLength (v # m) =
     (if v = 255 then map_option (\<lambda>n. n + 8) (simpleMaskLength m)
      else let n = leading_ones 8 (unat v) in
        if (unat v * 2 ^ n) mod 256 \<noteq> 0 \<or> (\<exists>x \<in> set m. x \<noteq> 0) then None else Some n)"

definition Mask_Size :: "bytes \<Rightarrow> nat \<times> nat" where
  "Mask_Size m = (case simpleMaskLength m of None \<Rightarrow> (0, 0) | Some n \<Rightarrow> (n, length m * 8))"

definition CIDRMask :: "nat \<Rightarrow> nat \<Rightarrow> bytes" where
  "CIDRMask ones bits =
     map (\<lambda>i. let n = ones - 8 * i in if n \<ge> 8 then 255 else of_nat (256 - 2 ^ (8 - n))) [0..<bits div 8]"

definition ip_Mask :: "ip \<Rightarrow> bytes \<Rightarrow> ip" where
  "ip_Mask x m =
     (let m' = (if length m = 16 \<and> length x = 4 \<and> take 12 m = replicate 12 255 then drop 12 m else m);
          x' = (if length m' = 4 \<and> length x = 16 \<and> take 12 x = v4InV6Prefix then drop 12 x else x)
      in if length x' \<noteq> length m' then [] else map2 and x' m')"

definition ParseCIDR :: "string \<Rightarrow> (ip \<times> IPNet) option" where
  "ParseCIDR s =
     (case index_of (CHR ''/'') s of
        None \<Rightarrow> None
      | Some i \<Rightarrow>
          let addr = take i s; mask = drop (i + 1) s;
              x4 = parseIPv4 addr; iplen = (if x4 = [] then 16 else 4);
              x = (if x4 = [] then parseIPv6 addr else x4)
          in case dtoi mask of
               None \<Rightarrow> None
             | Some (n, rest) \<Rightarrow>
                 if x = [] \<or> rest \<noteq> [] \<or> n > 8 * iplen then None
                 else let m = CIDRMask n (8 * iplen)
                      in Some (x, \<lparr>net_IP = ip_Mask x m, net_Mask = m\<rparr>))"

definition net_String :: "IPNet \<Rightarrow> string" where
  "net_String n =
     (case networkNumberAndMask n of (nn, m) \<Rightarrow>
        if nn = [] \<or> m = [] then ''<nil>''
        else case simpleMaskLength m of
          None \<Rightarrow> ip_String nn @ ''/'' @ hex_EncodeToString m
        | Some l \<Rightarrow> ip_String nn @ ''/'' @ dec_nat l)"

end
