(* ===== verification/PfdhcpNet.thy ===== *)
theory PfdhcpNet
  imports GoNet
begin

text \<open>
  The raw packets of the DHCP server (\<open>src/go/cmd/pfdhcp/rawClient.go\<close>): the UDP and IPv4
  headers, the Internet checksum and the two senders. The headers are serialised field by
  field in big-endian order, as \<open>binary.Write\<close> does. The sockets and the Ethernet
  marshaller are outside: a sender returns what it hands to them, and takes their errors
  as arguments.
\<close>

unbundle bit_operations_syntax

section \<open>rawClient.go\<close>

record udphdr =
  udp_src :: u16
  udp_dst :: u16
  udp_ulen :: u16
  udp_csum :: u16

record pseudohdr =
  ph_ipsrc :: bytes
  ph_ipdst :: bytes
  ph_zero :: u8
  ph_ipproto :: u8
  ph_plen :: u16

record iphdr =
  ip_vhl :: u8
  ip_tos :: u8
  ip_iplen :: u16
  ip_id :: u16
  ip_off :: u16
  ip_ttl :: u8
  ip_proto :: u8
  ip_csum :: u16
  ip_src :: bytes
  ip_dst :: bytes

definition write_udphdr :: "udphdr \<Rightarrow> bytes" where
  "write_udphdr u = be_PutUint16 (udp_src u) @ be_PutUint16 (udp_dst u) @ be_PutUint16 (udp_ulen u) @ be_PutUint16 (udp_csum u)"

definition write_pseudohdr :: "pseudohdr \<Rightarrow> bytes" where
  "write_pseudohdr p = ph_ipsrc p @ ph_ipdst p @ [ph_zero p, ph_ipproto p] @ be_PutUint16 (ph_plen p)"

definition write_iphdr :: "iphdr \<Rightarrow> bytes" where
  "write_iphdr h =
     [ip_vhl h, ip_tos h] @ be_PutUint16 (ip_iplen h) @ be_PutUint16 (ip_id h) @ be_PutUint16 (ip_off h) @
     [ip_ttl h, ip_proto h] @ be_PutUint16 (ip_csum h) @ ip_src h @ ip_dst h"

text \<open>The sum of the 16-bit words, in 32-bit arithmetic, with an odd last byte padded.\<close>

fun checksum_sum :: "u32 \<Rightarrow> bytes \<Rightarrow> u32" where
  "checksum_sum acc (x # y # buf) = checksum_sum (acc + (push_bit 8 (ucast x) OR ucast y)) buf"
| "checksum_sum acc [x] = acc + push_bit 8 (ucast x)"
| "checksum_sum acc [] = acc"

lemma fold_step_nat: "unat (drop_bit 16 acc + (acc AND 0xffff)) = unat acc div 65536 + unat acc mod 65536"
  for acc :: u32
proof -
  have "acc AND 0xffff = take_bit 16 acc" using take_bit_eq_mask [of 16 acc] by (simp add: mask_eq_exp_minus_1)
  moreover have "unat acc < 4294967296" by (rule unat_u32_less)
  ultimately have d: "unat (drop_bit 16 acc) = unat acc div 65536" "unat (acc AND 0xffff) = unat acc mod 65536"
    by (simp_all add: drop_bit_eq_div take_bit_eq_mod unat_div unat_mod)
  have "unat acc div 65536 + unat acc mod 65536 < 4294967296" using unat_u32_less [of acc] by simp
  then show ?thesis using d by (simp add: unat_word_ariths)
qed

function checksum_fold :: "u32 \<Rightarrow> u32" where
  "checksum_fold acc = (if acc > 0xffff then checksum_fold (drop_bit 16 acc + (acc AND 0xffff)) else acc)"
  by pat_completeness auto
termination
proof (relation "measure unat")
  fix acc :: u32
  assume "acc > 0xffff"
  then have "65535 < unat acc" by (simp add: word_less_nat_alt)
  then have "1 \<le> unat acc div 65536" by simp
  then have "unat acc div 65536 + unat acc mod 65536 < unat acc"
    using div_mult_mod_eq [of "unat acc" 65536] by linarith
  then show "(drop_bit 16 acc + (acc AND 0xffff), acc) \<in> measure unat" by (simp add: fold_step_nat)
qed simp

declare checksum_fold.simps [simp del]

definition checksum :: "bytes \<Rightarrow> u16" where
  "checksum buf =
     (let csum = NOT (ucast (checksum_fold (checksum_sum 0 buf)) :: u16)
      in if csum = 0 then 0xffff else csum)"

definition udp_checksum :: "iphdr \<Rightarrow> bytes \<Rightarrow> udphdr \<Rightarrow> udphdr" where
  "udp_checksum h payload u =
     (let u = u\<lparr>udp_csum := 0\<rparr>;
          phdr = \<lparr>ph_ipsrc = ip_src h, ph_ipdst = ip_dst h, ph_zero = 0, ph_ipproto = ip_proto h, ph_plen = udp_ulen u\<rparr>
      in u\<lparr>udp_csum := checksum (write_pseudohdr phdr @ write_udphdr u @ payload)\<rparr>)"

definition ip_checksum :: "iphdr \<Rightarrow> iphdr" where
  "ip_checksum h =
     (let h = h\<lparr>ip_csum := 0\<rparr> in h\<lparr>ip_csum := checksum (write_iphdr h)\<rparr>)"

text \<open>\<open>copy(dst[:], src)\<close> into a zeroed array of four bytes.\<close>

definition copy4 :: "bytes \<Rightarrow> bytes" where
  "copy4 b = take 4 b @ replicate (4 - length b) 0"

text \<open>The packet both senders build.\<close>

definition udp_packet :: "bytes \<Rightarrow> ip \<Rightarrow> ip \<Rightarrow> int \<Rightarrow> int \<Rightarrow> bytes" where
  "udp_packet dhcp srcIP dstIP udpsrc udpdst =
     (let udplen = 8 + int (length dhcp);
          h = \<lparr>ip_vhl = 0x45, ip_tos = 0, ip_iplen = 0, ip_id = 0, ip_off = 0, ip_ttl = 128, ip_proto = 17,
               ip_csum = 0, ip_src = copy4 (To4 srcIP), ip_dst = copy4 (To4 dstIP)\<rparr>;
          u = \<lparr>udp_src = of_int udpsrc, udp_dst = of_int udpdst, udp_ulen = of_int udplen, udp_csum = 0\<rparr>;
          u = udp_checksum h dhcp u;
          h = ip_checksum (h\<lparr>ip_iplen := of_int (20 + udplen)\<rparr>)
      in write_iphdr h @ write_udphdr u @ dhcp)"

record RawClient =
  rc_HardwareAddr :: bytes

record frame =
  fr_Destination :: bytes
  fr_Source :: bytes
  fr_Payload :: bytes

text \<open>\<open>sendDHCP\<close>: a nil client (a socket that could not be opened) panics when its interface is read.\<close>

definition sendDHCP ::
  "(frame \<Rightarrow> bytes + string) \<Rightarrow> (bytes \<Rightarrow> bytes \<Rightarrow> go_err) \<Rightarrow> RawClient option \<Rightarrow> bytes \<Rightarrow> bytes \<Rightarrow> ip \<Rightarrow> ip \<Rightarrow>
   ((bytes \<times> bytes) option \<times> go_err) outcome" where
  "sendDHCP MarshalBinary WriteTo c target dhcp dstIP srcIP =
     (let packet = udp_packet dhcp srcIP dstIP 67 68 in
      case c of
        None \<Rightarrow> Panic ''nil pointer dereference''
      | Some c \<Rightarrow>
          (case MarshalBinary \<lparr>fr_Destination = target, fr_Source = rc_HardwareAddr c, fr_Payload = packet\<rparr> of
             Inr err \<Rightarrow> Ret (None, Some err)
           | Inl fb \<Rightarrow> Ret (Some (target, fb), WriteTo target fb)))"

record datagram =
  dg_packet :: bytes
  dg_Addr :: bytes
  dg_Port :: int

text \<open>
  \<open>sendUnicastDHCP\<close>: a failing \<open>socket\<close> or \<open>close\<close> ends the process (\<open>log.Fatal\<close>,
  here a panic); the error of \<open>sendto\<close> is overwritten by that of \<open>close\<close>.
\<close>

definition sendUnicastDHCP ::
  "go_err \<Rightarrow> (datagram \<Rightarrow> go_err) \<Rightarrow> go_err \<Rightarrow> bytes \<Rightarrow> ip \<Rightarrow> ip \<Rightarrow> int \<Rightarrow> int \<Rightarrow> (datagram \<times> go_err) outcome" where
  "sendUnicastDHCP Socket Sendto Close dhcp srcIP dstIP udpsrc udpdst =
     (case Socket of
        Some err \<Rightarrow> Panic err
      | None \<Rightarrow>
          let packet = udp_packet dhcp srcIP dstIP udpsrc udpdst;
              addr = \<lparr>dg_packet = packet, dg_Addr = copy4 (To4 dstIP), dg_Port = udpdst\<rparr>;
              err = Sendto addr;
              err = Close
          in case err of Some e \<Rightarrow> Panic (''error closing the socket: '' @ e) | None \<Rightarrow> Ret (addr, err))"

section \<open>The checksum is the Internet checksum\<close>

text \<open>
  The reference (RFC 1071): the sum of the big-endian 16-bit words, the last one padded with a
  zero byte. A buffer that carries its checksum is valid when the one's complement sum is
  all ones, that is when the sum is a positive multiple of 65535.
\<close>

fun inet_sum :: "bytes \<Rightarrow> nat" where
  "inet_sum (x # y # buf) = unat x * 256 + unat y + inet_sum buf"
| "inet_sum [x] = unat x * 256"
| "inet_sum [] = 0"

definition inet_valid :: "bytes \<Rightarrow> bool" where
  "inet_valid buf \<longleftrightarrow> 0 < inet_sum buf \<and> 65535 dvd inet_sum buf"

lemma inet_sum_le: "inet_sum buf \<le> 65535 * ((length buf + 1) div 2)"
proof (induction buf rule: inet_sum.induct)
  case (1 x y buf)
  have "unat x * 256 + unat y \<le> 65535" using unat_u8_less [of x] unat_u8_less [of y] by linarith
  with 1 show ?case by simp
next
  case (2 x)
  then show ?case using unat_u8_less [of x] by simp
qed simp

lemma word16_or: "unat (push_bit 8 (ucast x) OR ucast y :: u32) = unat x * 256 + unat y" for x y :: u8
proof -
  have "push_bit 8 (ucast x) AND (ucast y :: u32) = 0"
    by (rule bit_eqI) (use bit_imp_le_length [of y] in \<open>force simp: bit_simps\<close>)
  then have "push_bit 8 (ucast x) OR (ucast y :: u32) = push_bit 8 (ucast x) + ucast y"
    by (simp add: disjunctive_add_eq_or)
  also have "unat (push_bit 8 (ucast x) + ucast y :: u32) = unat x * 256 + unat y"
    using unat_u8_less [of x] unat_u8_less [of y]
    by (simp add: push_bit_eq_mult unat_word_ariths unsigned_ucast_eq take_bit_eq_mod)
  finally show ?thesis .
qed

lemma checksum_sum_nat:
  "unat acc + inet_sum buf < 4294967296 \<Longrightarrow> unat (checksum_sum acc buf) = unat acc + inet_sum buf"
proof (induction acc buf rule: checksum_sum.induct)
  case (1 acc x y buf)
  let ?w = "push_bit 8 (ucast x) OR ucast y :: u32"
  have "unat (acc + ?w) = unat acc + (unat x * 256 + unat y)"
    using 1(2) by (simp add: unat_word_ariths word16_or)
  with 1 show ?case by simp
next
  case (2 acc x)
  have "unat (push_bit 8 (ucast x) :: u32) = unat x * 256"
    using unat_u8_less [of x] by (simp add: push_bit_eq_mult unat_word_ariths unsigned_ucast_eq take_bit_eq_mod)
  with 2 show ?case by (simp add: unat_word_ariths)
qed simp

lemma checksum_fold_mod:
  "unat (checksum_fold acc) < 65536 \<and> unat (checksum_fold acc) mod 65535 = unat acc mod 65535 \<and>
   (unat (checksum_fold acc) = 0 \<longleftrightarrow> unat acc = 0)"
proof (induction acc rule: checksum_fold.induct)
  case (1 acc)
  show ?case
  proof (cases "acc > 0xffff")
    case True
    let ?a = "unat acc div 65536" and ?b = "unat acc mod 65536"
    have "unat acc = ?a * 65536 + ?b" by simp
    also have "\<dots> = ?a * 65535 + (?a + ?b)" by simp
    finally have "unat acc mod 65535 = (?a + ?b) mod 65535" by (metis mod_mult_self3)
    moreover have "?a + ?b = 0 \<longleftrightarrow> unat acc = 0" by auto
    ultimately show ?thesis
      using 1 [OF True] True by (subst (1 2 3) checksum_fold.simps) (simp only: fold_step_nat if_True)
  next
    case False
    then show ?thesis by (subst (1 2 3) checksum_fold.simps) (simp add: word_less_nat_alt)
  qed
qed

lemma unat_not16: "unat (NOT w) = 65535 - unat w" for w :: u16
proof -
  have "w \<le> 65535" using unat_u16_less [of w] by (simp add: word_le_nat_alt)
  then have "unat (65535 - w) = 65535 - unat w" by (simp add: unat_sub)
  moreover have "NOT w = 65535 - w" by (simp add: not_eq_complement)
  ultimately show ?thesis by simp
qed

lemma checksum_complement:
  assumes "length buf < 131071"
  shows "65535 dvd inet_sum buf + unat (checksum buf) \<and> 0 < unat (checksum buf)"
proof -
  have "(length buf + 1) div 2 \<le> 65535" using assms by simp
  then have "inet_sum buf \<le> 65535 * 65535" using inet_sum_le [of buf] by simp
  then have sum: "unat (checksum_sum 0 buf) = inet_sum buf" using checksum_sum_nat [of 0 buf] by simp
  let ?f = "checksum_fold (checksum_sum 0 buf)"
  have f: "unat ?f < 65536" "unat ?f mod 65535 = inet_sum buf mod 65535"
    using checksum_fold_mod [of "checksum_sum 0 buf"] sum by simp_all
  have "unat (ucast ?f :: u16) = unat ?f" using f(1) by (simp add: unsigned_ucast_eq take_bit_eq_mod)
  then have "unat (NOT (ucast ?f :: u16)) = 65535 - unat ?f" by (simp add: unat_not16)
  then have "unat (checksum buf) = (if unat ?f = 65535 then 65535 else 65535 - unat ?f)"
    using f(1) by (auto simp: checksum_def Let_def word_unat_eq_iff)
  then have "unat ?f + unat (checksum buf) \<in> {65535, 131070}" "0 < unat (checksum buf)" using f(1) by auto
  then have "65535 dvd unat ?f + unat (checksum buf)" by auto
  then have "(unat ?f mod 65535 + unat (checksum buf)) mod 65535 = 0" by (simp only: mod_add_left_eq dvd_eq_mod_eq_0)
  then have "65535 dvd inet_sum buf + unat (checksum buf)" by (simp only: f(2) mod_add_left_eq dvd_eq_mod_eq_0)
  then show ?thesis using \<open>0 < unat (checksum buf)\<close> by simp
qed

lemma word16_Put: "unat (of_nat (unat w div 256) :: u8) * 256 + unat (of_nat (unat w) :: u8) = unat w" for w :: u16
  using unat_u16_less [of w] by (simp only: unat_of_nat_u8) simp

lemma inet_sum_Put [simp]: "inet_sum (be_PutUint16 w @ buf) = unat w + inet_sum buf"
  by (simp only: be_PutUint16_def append.simps inet_sum.simps word16_Put)

lemma inet_sum_four: "length x = 4 \<Longrightarrow> inet_sum (x @ buf) = inet_sum x + inet_sum buf"
  by (auto simp: length_Suc_conv numeral_eq_Suc)

lemma length_be_PutUint16 [simp]: "length (be_PutUint16 w) = 2" by (simp add: be_PutUint16_def)

lemma length_copy4 [simp]: "length (copy4 b) = 4" by (simp add: copy4_def)

lemma length_write_iphdr: "length (ip_src h) = 4 \<Longrightarrow> length (ip_dst h) = 4 \<Longrightarrow> length (write_iphdr h) = 20"
  by (simp add: write_iphdr_def)

lemma length_write_udphdr [simp]: "length (write_udphdr u) = 8"
  by (simp add: write_udphdr_def)

lemma ip_checksum_valid:
  assumes "length (ip_src h) = 4" and "length (ip_dst h) = 4"
  shows "inet_valid (write_iphdr (ip_checksum h))"
proof -
  let ?h = "h\<lparr>ip_csum := 0\<rparr>"
  have "inet_sum (write_iphdr (ip_checksum h)) = inet_sum (write_iphdr ?h) + unat (checksum (write_iphdr ?h))"
    using inet_sum_four [OF assms(1)] by (simp add: write_iphdr_def ip_checksum_def Let_def)
  moreover have "length (write_iphdr ?h) < 131071" using assms by (simp add: length_write_iphdr)
  ultimately show ?thesis using checksum_complement [of "write_iphdr ?h"] by (simp add: inet_valid_def)
qed

definition pseudo :: "iphdr \<Rightarrow> u16 \<Rightarrow> bytes" where
  "pseudo h len = ip_src h @ ip_dst h @ [0, ip_proto h] @ be_PutUint16 len"

lemma udp_checksum_valid:
  assumes "length (ip_src h) = 4" and "length (ip_dst h) = 4" and "length payload \<le> 65507"
  shows "inet_valid (pseudo h (udp_ulen u) @ write_udphdr (udp_checksum h payload u) @ payload)"
    and "udp_csum (udp_checksum h payload u) \<noteq> 0"
proof -
  let ?b = "pseudo h (udp_ulen u) @ write_udphdr (u\<lparr>udp_csum := 0\<rparr>) @ payload"
  have u: "udp_checksum h payload u = u\<lparr>udp_csum := checksum ?b\<rparr>"
    by (simp add: udp_checksum_def pseudo_def write_pseudohdr_def Let_def)
  have "inet_sum (pseudo h (udp_ulen u) @ write_udphdr (udp_checksum h payload u) @ payload) = inet_sum ?b + unat (checksum ?b)"
    by (simp add: u pseudo_def write_udphdr_def inet_sum_four [OF assms(1)] inet_sum_four [OF assms(2)])
  moreover have "length ?b < 131071" using assms by (simp add: pseudo_def)
  ultimately show "inet_valid (pseudo h (udp_ulen u) @ write_udphdr (udp_checksum h payload u) @ payload)"
    and "udp_csum (udp_checksum h payload u) \<noteq> 0"
    using checksum_complement [of ?b] by (auto simp: inet_valid_def u)
qed

lemma be_Uint16_Put: "be_Uint16 (be_PutUint16 w @ buf) = Ret w"
  by (simp only: be_Uint16_def be_PutUint16_def append.simps list.case word16_Put) simp

text \<open>
  C19. Every packet the server sends is a correct UDP datagram over IPv4: for a payload that fits in a
  datagram the packet is the 20-byte header, the 8-byte UDP header and the payload; the
  total length and the UDP length are those of the packet; the addresses are the ones
  asked for; the header checksum is valid, the UDP checksum over the pseudo header and the
  segment is valid, and it is never the value zero, which would mean \<open>no checksum\<close>.
\<close>
theorem udp_packet_valid:
  assumes "length dhcp \<le> 65507"
  shows "\<exists>hdr seg. udp_packet dhcp srcIP dstIP sport dport = hdr @ seg \<and> length hdr = 20 \<and> length seg = 8 + length dhcp \<and>
    inet_valid hdr \<and> be_Uint16 (drop 2 hdr) = Ret (of_nat (20 + length seg)) \<and>
    drop 12 hdr = copy4 (To4 srcIP) @ copy4 (To4 dstIP) \<and>
    inet_valid (drop 12 hdr @ [0, 17] @ be_PutUint16 (of_nat (length seg)) @ seg) \<and>
    be_Uint16 seg = Ret (of_int sport) \<and> be_Uint16 (drop 2 seg) = Ret (of_int dport) \<and>
    be_Uint16 (drop 4 seg) = Ret (of_nat (length seg)) \<and> be_Uint16 (drop 6 seg) \<noteq> Ret 0 \<and> drop 8 seg = dhcp"
proof -
  let ?h = "\<lparr>ip_vhl = 0x45, ip_tos = 0, ip_iplen = 0, ip_id = 0, ip_off = 0, ip_ttl = 128, ip_proto = 17,
               ip_csum = 0, ip_src = copy4 (To4 srcIP), ip_dst = copy4 (To4 dstIP)\<rparr>"
  let ?u = "\<lparr>udp_src = of_int sport, udp_dst = of_int dport, udp_ulen = of_int (8 + int (length dhcp)), udp_csum = 0\<rparr>"
  let ?hdr = "write_iphdr (ip_checksum (?h\<lparr>ip_iplen := of_int (20 + (8 + int (length dhcp)))\<rparr>))"
  let ?seg = "write_udphdr (udp_checksum ?h dhcp ?u) @ dhcp"
  have eq: "udp_packet dhcp srcIP dstIP sport dport = ?hdr @ ?seg" by (simp add: udp_packet_def Let_def)
  have l: "length ?hdr = 20" by (subst length_write_iphdr) (simp_all add: ip_checksum_def Let_def)
  have d: "drop 12 ?hdr = copy4 (To4 srcIP) @ copy4 (To4 dstIP)"
    by (simp add: write_iphdr_def ip_checksum_def Let_def be_PutUint16_def)
  have n: "be_Uint16 (drop 2 ?hdr) = Ret (of_nat (20 + length ?seg))"
    by (simp add: write_iphdr_def ip_checksum_def Let_def be_Uint16_Put)
  have v: "inet_valid ?hdr" by (rule ip_checksum_valid) simp_all
  have s: "udp_src (udp_checksum ?h dhcp ?u) = of_int sport" "udp_dst (udp_checksum ?h dhcp ?u) = of_int dport"
    "udp_ulen (udp_checksum ?h dhcp ?u) = of_nat (8 + length dhcp)"
    by (simp_all add: udp_checksum_def Let_def)
  have sl: "length ?seg = 8 + length dhcp" by simp
  have w: "inet_valid (drop 12 ?hdr @ [0, 17] @ be_PutUint16 (of_nat (length ?seg)) @ ?seg)"
    unfolding d using udp_checksum_valid(1) [of ?h dhcp ?u] assms by (simp add: pseudo_def)
  have f: "be_Uint16 ?seg = Ret (of_int sport)" "be_Uint16 (drop 2 ?seg) = Ret (of_int dport)"
    "be_Uint16 (drop 4 ?seg) = Ret (of_nat (length ?seg))" "be_Uint16 (drop 6 ?seg) \<noteq> Ret 0"
    using udp_checksum_valid(2) [of ?h dhcp ?u] assms
    unfolding sl unfolding write_udphdr_def s by (simp_all add: be_Uint16_Put)
  show ?thesis using eq l d n v w f by (intro exI [of _ ?hdr] exI [of _ ?seg]) simp
qed

lemma udp_packet_valid_witness:
  "\<exists>hdr seg. udp_packet [1, 2, 3] (IPv4 10 0 0 1) (IPv4 10 0 0 9) 67 68 = hdr @ seg \<and> inet_valid hdr \<and>
     inet_valid ([10, 0, 0, 1, 10, 0, 0, 9, 0, 17, 0, 11] @ seg) \<and> drop 8 seg = [1, 2, 3]"
  using udp_packet_valid [of "[1, 2, 3]" "IPv4 10 0 0 1" "IPv4 10 0 0 9" 67 68]
  by (fastforce simp: copy4_def be_PutUint16_def)

end
