(* ===== verification/PfdhcpTypes.thy ===== *)
theory PfdhcpTypes
  imports GoNet DhcpPool
begin

text \<open>
  The data of the DHCP server (\<open>src/go/cmd/pfdhcp/config.go\<close>, \<open>server.go\<close>, \<open>main.go\<close>) and
  the interfaces of the libraries it calls: the expiring cache (\<open>go-cache\<close>) and the
  packet library (\<open>dhcp4\<close>), each a record of operations that every definition using it
  takes as an argument. What is assumed of the cache is the predicate \<open>gocache_laws\<close>;
  \<open>list_cache\<close> satisfies it.

  A value of type \<open>interface{}\<close> is an \<open>iface\<close>; a type assertion that fails is a panic. A
  map inside it is the list of its entries in the order in which \<open>range\<close> visits them.
\<close>

section \<open>Dynamically typed values\<close>

datatype iface = INil | IInt int | IStr string | IMap "(string \<times> iface) list"

fun assert_int :: "iface \<Rightarrow> int outcome" where
  "assert_int (IInt n) = Ret n"
| "assert_int _ = Panic ''interface conversion''"

fun assert_string :: "iface \<Rightarrow> string outcome" where
  "assert_string (IStr s) = Ret s"
| "assert_string _ = Panic ''interface conversion''"

fun assert_map :: "iface \<Rightarrow> (string \<times> iface) list outcome" where
  "assert_map (IMap m) = Ret m"
| "assert_map _ = Panic ''interface conversion''"

section \<open>The expiring cache\<close>

text \<open>
  Times are nanoseconds. \<open>gcDelete\<close> also returns the value \<open>OnEvicted\<close> is called with;
  \<open>gcItems\<close> are the live entries with their expiration, in the order of \<open>range\<close>.
\<close>

record 'c gocache =
  gcGet :: "int \<Rightarrow> string \<Rightarrow> 'c \<Rightarrow> iface option"
  gcGetWithExpiration :: "int \<Rightarrow> string \<Rightarrow> 'c \<Rightarrow> (iface \<times> int) option"
  gcSet :: "int \<Rightarrow> string \<Rightarrow> iface \<Rightarrow> int \<Rightarrow> 'c \<Rightarrow> 'c"
  gcReplace :: "int \<Rightarrow> string \<Rightarrow> iface \<Rightarrow> int \<Rightarrow> 'c \<Rightarrow> go_err \<times> 'c"
  gcDelete :: "string \<Rightarrow> 'c \<Rightarrow> iface option \<times> 'c"
  gcItems :: "int \<Rightarrow> 'c \<Rightarrow> (string \<times> iface \<times> int) list"
  gcNew :: "int \<Rightarrow> 'c"

definition gocache_laws :: "'c gocache \<Rightarrow> bool" where
  "gocache_laws C \<longleftrightarrow>
     (\<forall>now now' k v d c. 0 < d \<and> now \<le> now' \<and> now' \<le> now + d \<longrightarrow>
        gcGetWithExpiration C now' k (gcSet C now k v d c) = Some (v, now + d)) \<and>
     (\<forall>now now' k k' v d c. k \<noteq> k' \<longrightarrow>
        gcGetWithExpiration C now' k' (gcSet C now k v d c) = gcGetWithExpiration C now' k' c) \<and>
     (\<forall>now k c. gcGet C now k c = map_option fst (gcGetWithExpiration C now k c)) \<and>
     (\<forall>now k v d c. gcGet C now k c = None \<longrightarrow> (\<exists>e. gcReplace C now k v d c = (Some e, c))) \<and>
     (\<forall>now k v d c. gcGet C now k c \<noteq> None \<longrightarrow> gcReplace C now k v d c = (None, gcSet C now k v d c)) \<and>
     (\<forall>now k k' c. gcGetWithExpiration C now k' (snd (gcDelete C k c)) =
        (if k' = k then None else gcGetWithExpiration C now k' c)) \<and>
     (\<forall>now k v c. gcGet C now k c = Some v \<longrightarrow> fst (gcDelete C k c) = Some v) \<and>
     (\<forall>now k d. gcGetWithExpiration C now k (gcNew C d) = None)"

lemma gocache_lawsD:
  assumes "gocache_laws C"
  shows "0 < d \<Longrightarrow> now \<le> now' \<Longrightarrow> now' \<le> now + d \<Longrightarrow>
      gcGetWithExpiration C now' k (gcSet C now k v d c) = Some (v, now + d)"
    and "k \<noteq> k' \<Longrightarrow> gcGetWithExpiration C now' k' (gcSet C now k v d c) = gcGetWithExpiration C now' k' c"
    and "gcGet C now k c = map_option fst (gcGetWithExpiration C now k c)"
    and "gcGet C now k c = None \<Longrightarrow> \<exists>e. gcReplace C now k v d c = (Some e, c)"
    and "gcGet C now k c \<noteq> None \<Longrightarrow> gcReplace C now k v d c = (None, gcSet C now k v d c)"
    and "gcGetWithExpiration C now k' (snd (gcDelete C k c)) =
        (if k' = k then None else gcGetWithExpiration C now k' c)"
    and "gcGet C now k c = Some w \<Longrightarrow> fst (gcDelete C k c) = Some w"
    and "gcGetWithExpiration C now k (gcNew C d) = None"
  using assms unfolding gocache_laws_def by (simp | blast)+

lemma gcGet_Set:
  assumes "gocache_laws C"
  shows "0 < d \<Longrightarrow> now \<le> now' \<Longrightarrow> now' \<le> now + d \<Longrightarrow> gcGet C now' k (gcSet C now k v d c) = Some v"
    and "k \<noteq> k' \<Longrightarrow> gcGet C now' k' (gcSet C now k v d c) = gcGet C now' k' c"
  using gocache_lawsD(1,2,3) [OF assms] by simp_all

lemma gcGet_Delete:
  assumes "gocache_laws C"
  shows "gcGet C now k' (snd (gcDelete C k c)) = (if k' = k then None else gcGet C now k' c)"
  using gocache_lawsD(3,6) [OF assms] by simp

text \<open>A cache that satisfies the laws: an association list of values and expirations.\<close>

type_synonym list_store = "(string \<times> iface \<times> int) list"

definition lc_get :: "int \<Rightarrow> string \<Rightarrow> list_store \<Rightarrow> (iface \<times> int) option" where
  "lc_get now k c = (case map_of c k of Some (v, e) \<Rightarrow> if now \<le> e then Some (v, e) else None | None \<Rightarrow> None)"

definition lc_del :: "string \<Rightarrow> list_store \<Rightarrow> list_store" where
  "lc_del k c = filter (\<lambda>(k', _). k' \<noteq> k) c"

definition lc_set :: "int \<Rightarrow> string \<Rightarrow> iface \<Rightarrow> int \<Rightarrow> list_store \<Rightarrow> list_store" where
  "lc_set now k v d c = (k, v, now + d) # lc_del k c"

definition list_cache :: "list_store gocache" where
  "list_cache =
     \<lparr>gcGet = (\<lambda>now k c. map_option fst (lc_get now k c)),
      gcGetWithExpiration = lc_get,
      gcSet = lc_set,
      gcReplace = (\<lambda>now k v d c. if lc_get now k c = None then (Some (''Item '' @ k @ '' doesn't exist''), c)
                                 else (None, lc_set now k v d c)),
      gcDelete = (\<lambda>k c. (map_option fst (map_of c k), lc_del k c)),
      gcItems = (\<lambda>now c. filter (\<lambda>(_, _, e). now \<le> e) c),
      gcNew = (\<lambda>d. [])\<rparr>"

lemma map_of_lc_del: "map_of (lc_del k c) k' = (if k' = k then None else map_of c k')"
  by (induction c) (auto simp: lc_del_def)

lemma list_cache_laws: "gocache_laws list_cache"
  unfolding gocache_laws_def list_cache_def
  by (auto simp: lc_get_def lc_set_def map_of_lc_del split: option.splits if_splits)

section \<open>The packet library\<close>

type_synonym dhcp_options = "(u8, bytes) gomap"

text \<open>
  What \<open>ReplyPacket\<close> is called with; the bytes of the reply are the business of the library.
\<close>

datatype dhcp_reply =
  Reply (reply_type: nat) (reply_server: ip) (reply_yiaddr: ip) (reply_lease: int) (reply_options: "(u8 \<times> bytes) list")

record dhcp4 =
  pkHLen :: "bytes \<Rightarrow> u8"
  pkParseOptions :: "bytes \<Rightarrow> dhcp_options"
  pkCHAddr :: "bytes \<Rightarrow> bytes"
  pkCIAddr :: "bytes \<Rightarrow> ip"
  pkGIAddr :: "bytes \<Rightarrow> ip"
  pkXId :: "bytes \<Rightarrow> bytes"
  pkIPAdd :: "ip \<Rightarrow> int \<Rightarrow> ip"
  pkIPRange :: "ip \<Rightarrow> ip \<Rightarrow> int"
  pkSelectOrderOrAll :: "dhcp_options \<Rightarrow> bytes \<Rightarrow> (u8 \<times> bytes) list"
  pkOptionString :: "u8 \<Rightarrow> string"
  pkMessageString :: "nat \<Rightarrow> string"

text \<open>The message types and the option codes the server names (RFC 2132).\<close>

definition Discover :: nat where "Discover = 1"
definition Offer :: nat where "Offer = 2"
definition DhcpRequest :: nat where "DhcpRequest = 3"
definition Decline :: nat where "Decline = 4"
definition ACK :: nat where "ACK = 5"
definition NAK :: nat where "NAK = 6"
definition Release :: nat where "Release = 7"
definition Inform :: nat where "Inform = 8"

definition OptionSubnetMask :: u8 where "OptionSubnetMask = 1"
definition OptionRouter :: u8 where "OptionRouter = 3"
definition OptionDomainNameServer :: u8 where "OptionDomainNameServer = 6"
definition OptionDomainName :: u8 where "OptionDomainName = 15"
definition OptionRequestedIPAddress :: u8 where "OptionRequestedIPAddress = 50"
definition OptionIPAddressLeaseTime :: u8 where "OptionIPAddressLeaseTime = 51"
definition OptionDHCPMessageType :: u8 where "OptionDHCPMessageType = 53"
definition OptionServerIdentifier :: u8 where "OptionServerIdentifier = 54"
definition OptionParameterRequestList :: u8 where "OptionParameterRequestList = 55"
definition OptionCaptivePortal :: u8 where "OptionCaptivePortal = 114"

section \<open>config.go and server.go: the state of the server\<close>

text \<open>
  \<open>dh_pending\<close> lists the pool indexes that goroutines already started (the eviction hook of
  \<open>hwcache\<close> and the delayed releases) will hand to \<open>FreeIPIndex\<close>.
\<close>

record ('p, 'c) DHCPHandler =
  dh_ip :: ip
  dh_vip :: ip
  dh_options :: dhcp_options
  dh_start :: ip
  dh_leaseRange :: int
  dh_leaseDuration :: int
  dh_hwcache :: 'c
  dh_xid :: 'c
  dh_available :: 'p
  dh_layer2 :: bool
  dh_role :: string
  dh_ipReserved :: string
  dh_ipAssigned :: "(string, u32) gomap"
  dh_pending :: "u64 list"

record ('p, 'c) Network =
  nw_network :: IPNet
  nw_dhcpHandler :: "('p, 'c) DHCPHandler"
  nw_splittednet :: bool

record ('p, 'c) Interface =
  if_Name :: string
  if_HardwareAddr :: bytes
  if_network :: "('p, 'c) Network list"
  if_layer2 :: "IPNet list"
  if_Ipv4 :: ip
  if_Ipv6 :: ip
  if_InterfaceType :: string
  if_relayIP :: ip
  if_listenPort :: int

record ('p, 'c) Interfaces =
  intsNet :: "('p, 'c) Interface list"

definition bootpClient :: int where "bootpClient = 68"
definition bootpServer :: int where "bootpServer = 67"

definition newDHCPConfig :: "('p, 'c) Interfaces" where
  "newDHCPConfig = \<lparr>intsNet = []\<rparr>"

record Answer =
  an_D :: "dhcp_reply option"
  an_IP :: ip
  an_MAC :: bytes
  an_SrcIP :: ip

text \<open>The caches of \<open>main.go\<close> and the table of virtual addresses.\<close>

record 'c Globals =
  GlobalIPCache :: 'c
  GlobalMacCache :: 'c
  GlobalFilterCache :: 'c
  GlobalTransactionCache :: 'c
  RequestGlobalTransactionCache :: 'c
  VIP :: "(string, bool) gomap"
  VIPIp :: "(string, ip) gomap"

definition seconds :: "int \<Rightarrow> int" where
  "seconds n = n * 1000000000"

end
