(* ===== verification/PfdhcpOptions.thy ===== *)
theory PfdhcpOptions
  imports PfdhcpTypes
begin

text \<open>
  DHCP options as text (\<open>src/go/cmd/pfdhcp/dictionary.go\<close>), the option overrides in the
  database (\<open>keysoption.go\<close>, \<open>decodeOptions\<close> of \<open>api.go\<close>) and the functions of \<open>utils.go\<close>
  that add options to a reply. The database driver, the JSON decoder and the filter service
  are parameters.
\<close>

section \<open>dictionary.go\<close>

datatype DataType = tlvIPAddr | tlvNstring | tlvBlob | tlvSTime | tlvZeroSize | tlvShort | tlvBool
  | tlvRangeShort | tlvOverload | tlvMessage | tlvInt8 | TlvTypeCn | tlvRangeByte | extractFingerPrint

definition tlvIPAddr_step :: "u8 \<Rightarrow> bytes \<times> string \<times> nat \<Rightarrow> bytes \<times> string \<times> nat" where
  "tlvIPAddr_step x st =
     (case st of (temp, IPS, j) \<Rightarrow>
        let temp = temp @ [x] in
        if length temp = 4 then
          ([], if j = 0 then ip_String temp else IPS @ '','' @ ip_String temp, if j = 0 then j + 1 else j)
        else (temp, IPS, j))"

definition tlvIPAddr_String :: "bytes \<Rightarrow> string" where
  "tlvIPAddr_String a = (case fold tlvIPAddr_step a ([], [], 0) of (_, IPS, _) \<Rightarrow> IPS)"

definition tlvIPAddr_Encode :: "string \<Rightarrow> bytes" where
  "tlvIPAddr_Encode a = fold (\<lambda>adresse slice. slice @ To4 (ParseIP adresse)) (strings_Split a (CHR '','')) []"

definition tlvNstring_String :: "bytes \<Rightarrow> string" where
  "tlvNstring_String a = string_of_bytes a"

definition tlvNstring_Encode :: "string \<Rightarrow> bytes" where
  "tlvNstring_Encode a = bytes_of_string a"

definition tlvBlob_String :: "bytes \<Rightarrow> string" where
  "tlvBlob_String a = hex_EncodeToString a"

definition tlvBlob_Encode :: "string \<Rightarrow> bytes" where
  "tlvBlob_Encode a = bytes_of_string a"

definition tlvSTime_String :: "bytes \<Rightarrow> string" where
  "tlvSTime_String a = string_of_bytes a"

definition tlvSTime_Encode :: "string \<Rightarrow> bytes" where
  "tlvSTime_Encode a = be_PutUint32 (of_int (fst (strconv_Atoi a)))"

definition tlvZeroSize_String :: "bytes \<Rightarrow> string" where
  "tlvZeroSize_String a = ''string''"

definition tlvShort_String :: "bytes \<Rightarrow> string outcome" where
  "tlvShort_String a = go_bind (be_Uint16 a) (\<lambda>n. Ret (strconv_Itoa (uint n)))"

text \<open>\<open>tlvBoolt\<close>: the three methods switch on the first byte, of a slice or of a string.\<close>

definition tlvBool_Value :: "bytes \<Rightarrow> bool outcome" where
  "tlvBool_Value a = go_bind (slice_get a 0) (\<lambda>x. Ret (x = 1))"

definition tlvBool_String :: "bytes \<Rightarrow> string outcome" where
  "tlvBool_String a = go_bind (slice_get a 0) (\<lambda>x. Ret (if x = 1 then ''1'' else ''0''))"

definition tlvBool_Encode :: "string \<Rightarrow> bytes outcome" where
  "tlvBool_Encode a = go_bind (slice_get (bytes_of_string a) 0) (\<lambda>x. Ret (if x = 1 then [1] else [0]))"

definition tlvMessage_String :: "bytes \<Rightarrow> string outcome" where
  "tlvMessage_String a = go_bind (slice_get a 0) (\<lambda>x. Ret (strconv_Itoa (uint x)))"

definition tlvInt8_String :: "bytes \<Rightarrow> string" where
  "tlvInt8_String a = hex_EncodeToString a"

definition extractFingerPrint_String :: "bytes \<Rightarrow> string" where
  "extractFingerPrint_String a = strings_Join (map (\<lambda>b. dec_nat (unat b)) a) '',''"

definition Transform_String :: "DataType \<Rightarrow> bytes \<Rightarrow> string outcome" where
  "Transform_String t a =
     (case t of
        tlvIPAddr \<Rightarrow> Ret (tlvIPAddr_String a)
      | tlvNstring \<Rightarrow> Ret (tlvNstring_String a)
      | tlvBlob \<Rightarrow> Ret (tlvBlob_String a)
      | tlvSTime \<Rightarrow> Ret (tlvSTime_String a)
      | tlvZeroSize \<Rightarrow> Ret (tlvZeroSize_String a)
      | tlvShort \<Rightarrow> tlvShort_String a
      | tlvBool \<Rightarrow> tlvBool_String a
      | tlvRangeShort \<Rightarrow> Ret ''string''
      | tlvOverload \<Rightarrow> Ret ''string''
      | tlvMessage \<Rightarrow> tlvMessage_String a
      | tlvInt8 \<Rightarrow> Ret (tlvInt8_String a)
      | TlvTypeCn \<Rightarrow> Ret ''string''
      | tlvRangeByte \<Rightarrow> Ret ''string''
      | extractFingerPrint \<Rightarrow> Ret (extractFingerPrint_String a))"

definition Transform_Encode :: "DataType \<Rightarrow> string \<Rightarrow> bytes outcome" where
  "Transform_Encode t a =
     (case t of
        tlvIPAddr \<Rightarrow> Ret (tlvIPAddr_Encode a)
      | tlvSTime \<Rightarrow> Ret (tlvSTime_Encode a)
      | tlvBool \<Rightarrow> tlvBool_Encode a
      | tlvNstring \<Rightarrow> Ret (tlvNstring_Encode a)
      | tlvBlob \<Rightarrow> Ret (tlvBlob_Encode a)
      | _ \<Rightarrow> Ret (bytes_of_string a))"

definition Tlvlist :: "(nat \<times> string \<times> DataType) list" where
  "Tlvlist =
     [
      (0, ''Pad'', tlvIPAddr),
      (1, ''OptionSubnetMask'', tlvIPAddr),
      (2, ''OptionTimeOffset'', tlvSTime),
      (3, ''OptionRouter'', tlvIPAddr),
      (4, ''OptionTimeServer'', tlvIPAddr),
      (5, ''OptionNameServer'', tlvIPAddr),
      (6, ''OptionDomainNameServer'', tlvIPAddr),
      (7, ''OptionLogServer'', tlvIPAddr),
      (8, ''OptionCookieServer'', tlvIPAddr),
      (9, ''OptionLPRServer'', tlvIPAddr),
      (10, ''OptionImpressServer'', tlvIPAddr),
      (11, ''OptionResourceLocationServer'', tlvIPAddr),
      (12, ''OptionHostName'', tlvNstring),
      (13, ''OptionBootFileSize'', tlvShort),
      (14, ''OptionMeritDumpFile'', tlvNstring),
      (15, ''OptionDomainName'', tlvNstring),
      (16, ''OptionSwapServer'', tlvIPAddr),
      (17, ''OptionRootPath'', tlvNstring),
      (18, ''OptionExtensionsPath'', tlvNstring),
      (19, ''OptionIPForwardingEnableDisable'', tlvBool),
      (20, ''OptionNonLocalSourceRoutingEnableDisable'', tlvBool),
      (21, ''OptionPolicyFilter'', tlvIPAddr),
      (22, ''OptionMaximumDatagramReassemblySize'', tlvShort),
      (23, ''OptionDefaultIPTimeToLive'', tlvRangeByte),
      (24, ''OptionPathMTUAgingTimeout'', tlvSTime),
      (25, ''OptionPathMTUPlateauTable'', tlvRangeShort),
      (26, ''OptionInterfaceMTU'', tlvRangeShort),
      (27, ''OptionAllSubnetsAreLocal'', tlvBool),
      (28, ''OptionBroadcastAddress'', tlvIPAddr),
      (29, ''OptionPerformMaskDiscovery'', tlvBool),
      (30, ''OptionMaskSupplier'', tlvBool),
      (31, ''OptionPerformRouterDiscovery'', tlvBool),
      (32, ''OptionRouterSolicitationAddress'', tlvIPAddr),
      (33, ''OptionStaticRoute'', tlvIPAddr),
      (34, ''OptionTrailerEncapsulation'', tlvBool),
      (35, ''OptionARPCacheTimeout'', tlvSTime),
      (36, ''OptionEthernetEncapsulation'', tlvBool),
      (37, ''OptionTCPDefaultTTL'', tlvRangeByte),
      (38, ''OptionTCPKeepaliveInterval'', tlvSTime),
      (39, ''OptionTCPKeepaliveGarbage'', tlvBool),
      (40, ''OptionNetworkInformationServiceDomain'', tlvNstring),
      (41, ''OptionNetworkInformationServers'', tlvIPAddr),
      (42, ''OptionNetworkTimeProtocolServers'', tlvIPAddr),
      (43, ''OptionVendorSpecificInformation'', tlvBlob),
      (44, ''OptionNetBIOSOverTCPIPNameServer'', tlvIPAddr),
      (45, ''OptionNetBIOSOverTCPIPDatagramDistributionServer'', tlvIPAddr),
      (46, ''OptionNetBIOSOverTCPIPNodeType'', tlvRangeByte),
      (47, ''OptionNetBIOSOverTCPIPScope'', tlvNstring),
      (48, ''OptionXWindowSystemFontServer'', tlvIPAddr),
      (49, ''OptionXWindowSystemDisplayManager'', tlvIPAddr),
      (50, ''OptionRequestedIPAddress'', tlvIPAddr),
      (51, ''OptionIPAddressLeaseTime'', tlvSTime),
      (52, ''OptionOverload'', tlvOverload),
      (53, ''OptionDHCPMessageType'', tlvMessage),
      (54, ''OptionServerIdentifier'', tlvIPAddr),
      (55, ''OptionParameterRequestList'', extractFingerPrint),
      (56, ''OptionMessage'', tlvNstring),
      (57, ''OptionMaximumDHCPMessageSize'', tlvShort),
      (58, ''OptionRenewalTimeValue'', tlvSTime),
      (59, ''OptionRebindingTimeValue'', tlvSTime),
      (60, ''OptionVendorClassIdentifier'', tlvSTime),
      (61, ''OptionClientIdentifier'', tlvBlob),
      (62, ''OptionNetwareIPDomain'', tlvNstring),
      (63, ''OptionNetwareIPInformation'', tlvBlob),
      (64, ''OptionNetworkInformationServicePlusDomain'', tlvNstring),
      (65, ''OptionNetworkInformationServicePlusServers'', tlvIPAddr),
      (66, ''OptionTFTPServerName'', tlvNstring),
      (67, ''OptionBootFileName'', tlvNstring),
      (68, ''OptionMobileIPHomeAgent'', tlvIPAddr),
      (69, ''OptionSimpleMailTransportProtocol'', tlvIPAddr),
      (70, ''OptionPostOfficeProtocolServer'', tlvIPAddr),
      (71, ''OptionNetworkNewsTransportProtocol'', tlvIPAddr),
      (72, ''OptionDefaultWorldWideWebServer'', tlvIPAddr),
      (73, ''OptionDefaultFingerServer'', tlvIPAddr),
      (74, ''OptionDefaultInternetRelayChatServer'', tlvIPAddr),
      (75, ''OptionStreetTalkServer'', tlvIPAddr),
      (76, ''OptionStreetTalkDirectoryAssistance'', tlvIPAddr),
      (77, ''OptionUserClass'', TlvTypeCn),
      (81, ''OptionFQDN'', tlvNstring),
      (82, ''OptionRelayAgentInformation'', tlvBlob),
      (93, ''OptionClientArchitecture'', tlvShort),
      (100, ''OptionTZPOSIXString'', tlvNstring),
      (101, ''OptionTZDatabaseString'', tlvNstring),
      (114, ''OptionCaptivePortal'', tlvNstring),
      (121, ''OptionClasslessRouteFormat'', tlvBlob),
      (255, ''end'', tlvZeroSize)
     ]"

text \<open>\<open>Tlv.Tlvlist[code].Transform\<close>: of a code that is not listed it is a nil interface.\<close>

definition Tlv_Transform :: "u8 \<Rightarrow> DataType option" where
  "Tlv_Transform code = map_option snd (map_of Tlvlist (unat code))"

definition Tlv_String :: "u8 \<Rightarrow> bytes \<Rightarrow> string outcome" where
  "Tlv_String code a =
     (case Tlv_Transform code of None \<Rightarrow> Panic ''nil pointer dereference'' | Some t \<Rightarrow> Transform_String t a)"

definition Tlv_Encode :: "u8 \<Rightarrow> string \<Rightarrow> bytes outcome" where
  "Tlv_Encode code a =
     (case Tlv_Transform code of None \<Rightarrow> Panic ''nil pointer dereference'' | Some t \<Rightarrow> Transform_Encode t a)"

section \<open>keysoption.go\<close>

text \<open>
  A query gives rows or an error; a row that cannot be scanned is \<open>None\<close>. With an error the
  rows are nil, and the deferred \<open>rows.Close()\<close> panics when the function returns.
\<close>

datatype query_result = QErr string | QRows "string list option list"

definition sql_replace :: string where
  "sql_replace = ''replace into key_value_storage values(?,?)''"

definition sql_select :: string where
  "sql_select = ''select id, value from key_value_storage where id = ?''"

definition sql_delete :: string where
  "sql_delete = ''delete from key_value_storage where id = ?''"

lemma sql_distinct [simp]: "sql_replace \<noteq> sql_select" "sql_replace \<noteq> sql_delete" "sql_select \<noteq> sql_delete"
  "sql_select \<noteq> sql_replace" "sql_delete \<noteq> sql_replace" "sql_delete \<noteq> sql_select"
  by (simp_all add: sql_replace_def sql_select_def sql_delete_def)

record 'd sql_db =
  sqlQuery :: "string \<Rightarrow> string list \<Rightarrow> 'd \<Rightarrow> query_result \<times> 'd"

definition closing :: "query_result \<Rightarrow> 'a \<Rightarrow> 'a outcome" where
  "closing q result = (case q of QErr e \<Rightarrow> Panic ''nil pointer dereference'' | QRows _ \<Rightarrow> Ret result)"

definition MysqlInsert :: "'d sql_db \<Rightarrow> string \<Rightarrow> string \<Rightarrow> 'd \<Rightarrow> bool outcome \<times> 'd" where
  "MysqlInsert db key val d =
     (case sqlQuery db sql_replace [''/dhcpd/'' @ key, val] d of
        (rows, d') \<Rightarrow> (closing rows (case rows of QErr e \<Rightarrow> False | QRows _ \<Rightarrow> True), d'))"

definition MysqlGet :: "'d sql_db \<Rightarrow> string \<Rightarrow> 'd \<Rightarrow> (string \<times> string) outcome \<times> 'd" where
  "MysqlGet db key d =
     (case sqlQuery db sql_select [''/dhcpd/'' @ key] d of
        (rows, d') \<Rightarrow>
          (closing rows (case rows of
             QErr e \<Rightarrow> ([], [])
           | QRows rs \<Rightarrow> fold (\<lambda>r iv. case r of Some [i, v] \<Rightarrow> (i, v) | _ \<Rightarrow> iv) rs ([], [])), d'))"

definition MysqlDel :: "'d sql_db \<Rightarrow> string \<Rightarrow> 'd \<Rightarrow> bool outcome \<times> 'd" where
  "MysqlDel db key d =
     (case sqlQuery db sql_delete [''/dhcpd/'' @ key] d of
        (rows, d') \<Rightarrow> (closing rows (case rows of QErr e \<Rightarrow> False | QRows _ \<Rightarrow> True), d'))"

section \<open>Options from the database and from the filters\<close>

record Options =
  op_Option :: u8
  op_Value :: string
  op_Type :: string

definition decode_option :: "Options \<Rightarrow> dhcp_options \<Rightarrow> dhcp_options" where
  "decode_option opt m =
     (if op_Type opt = ''ipaddr'' then fmupd (op_Option opt) (To4 (ParseIP (op_Value opt))) m
      else if op_Type opt = ''string'' then fmupd (op_Option opt) (bytes_of_string (op_Value opt)) m
      else if op_Type opt = ''int'' then fmupd (op_Option opt) (bytes_of_string (op_Value opt)) m
      else m)"

definition decodeOptions ::
  "'d sql_db \<Rightarrow> (string \<Rightarrow> Options list option) \<Rightarrow> string \<Rightarrow> 'd \<Rightarrow> (dhcp_options \<times> go_err) outcome \<times> 'd" where
  "decodeOptions db Unmarshal b d =
     (case MysqlGet db b d of (r, d') \<Rightarrow>
        (go_bind r (\<lambda>(_, val).
           case Unmarshal val of
             None \<Rightarrow> Ret (fmempty, Some ''Unable to decode the option'')
           | Some options \<Rightarrow> Ret (fold decode_option options fmempty, None)), d'))"

text \<open>The loop of \<open>AddDevicesOptions\<close>, which \<open>ServeDHCP\<close> also has inline.\<close>

definition add_option :: "dhcp_options \<Rightarrow> u8 \<Rightarrow> int \<times> dhcp_options \<Rightarrow> int \<times> dhcp_options" where
  "add_option x key st =
     (case st of (leaseDuration, g) \<Rightarrow>
        let val = gm_get [] x key in
        if key = OptionIPAddressLeaseTime
        then (seconds (fst (strconv_Atoi (string_of_bytes val))), g)
        else (leaseDuration, fmupd key val g))"

definition add_options :: "(u8 \<Rightarrow> nat) \<Rightarrow> dhcp_options \<Rightarrow> int \<times> dhcp_options \<Rightarrow> int \<times> dhcp_options" where
  "add_options prio x st = fold (add_option x) (range_keys prio x) st"

definition AddDevicesOptions ::
  "'d sql_db \<Rightarrow> (string \<Rightarrow> Options list option) \<Rightarrow> (u8 \<Rightarrow> nat) \<Rightarrow> string \<Rightarrow> int \<times> dhcp_options \<Rightarrow> 'd \<Rightarrow>
   (int \<times> dhcp_options) outcome \<times> 'd" where
  "AddDevicesOptions db Unmarshal prio object st d =
     (case decodeOptions db Unmarshal object d of (r, d') \<Rightarrow>
        (go_bind r (\<lambda>(x, err). Ret (if err = None then add_options prio x st else st)), d'))"

fun pffilter_loop :: "(string \<times> iface) list \<Rightarrow> dhcp_options \<Rightarrow> (go_err \<times> dhcp_options) outcome" where
  "pffilter_loop [] g = Ret (None, g)"
| "pffilter_loop ((key, val) # rest) g =
     (if key = ''reject'' then Ret (Some ''Rejected from pffilter'', g)
      else if key = ''continue'' then pffilter_loop rest g
      else case val of
        IStr s \<Rightarrow>
          let opcode = of_int (fst (strconv_Atoi key)) in
          go_bind (Tlv_Encode opcode s) (\<lambda>e. pffilter_loop rest (fmupd opcode e g))
      | _ \<Rightarrow> pffilter_loop rest g)"

definition AddPffilterDevicesOptions :: "iface \<Rightarrow> dhcp_options \<Rightarrow> (go_err \<times> dhcp_options) outcome" where
  "AddPffilterDevicesOptions info g = go_bind (assert_map info) (\<lambda>m. pffilter_loop m g)"

definition GetFromGlobalFilterCache ::
  "'c gocache \<Rightarrow> int \<Rightarrow> (string \<Rightarrow> string \<Rightarrow> (string, string) gomap \<Rightarrow> string + iface) \<Rightarrow>
   string \<Rightarrow> string \<Rightarrow> (string, string) gomap \<Rightarrow> 'c Globals \<Rightarrow> iface \<times> 'c Globals" where
  "GetFromGlobalFilterCache C now FilterDhcp msgType mac Options g =
     (let contact =
            (case FilterDhcp msgType mac Options of
               Inl err \<Rightarrow> (IMap [(''continue'', IStr ''Not able to contact pffilter'')],
                  g\<lparr>GlobalFilterCache := gcSet C now (mac @ msgType) (IStr ''null'') 0 (GlobalFilterCache g)\<rparr>)
             | Inr info \<Rightarrow> (info,
                  g\<lparr>GlobalFilterCache := gcSet C now (mac @ msgType) info 0 (GlobalFilterCache g)\<rparr>))
      in case gcGet C now (mac @ msgType) (GlobalFilterCache g) of
           Some Filter \<Rightarrow> if Filter \<noteq> IStr ''null'' then (Filter, g) else contact
         | None \<Rightarrow> contact)"

section \<open>Address lists survive printing and encoding\<close>

fun quads :: "bytes \<Rightarrow> bytes list" where
  "quads (a # b # c # d # rest) = [a, b, c, d] # quads rest"
| "quads _ = []"

lemma tlvIPAddr_quad:
  "fold tlvIPAddr_step (a # b # c # d # rest) ([], s, j) =
   fold tlvIPAddr_step rest
     ([], if j = 0 then ip_String [a, b, c, d] else s @ '','' @ ip_String [a, b, c, d], if j = 0 then 1 else j)"
  by (simp add: tlvIPAddr_step_def)

lemma tlvIPAddr_rest:
  "fst (snd (fold tlvIPAddr_step a ([], s, Suc j))) = s @ concat (map (\<lambda>q. '','' @ ip_String q) (quads a))"
proof (induction a arbitrary: s rule: quads.induct)
  case (1 a b c d rest)
  then show ?case unfolding tlvIPAddr_quad by simp
qed (simp_all add: tlvIPAddr_step_def)

lemma Join_concat: "strings_Join (w # ws) sep = w @ concat (map (\<lambda>v. sep @ v) ws)"
proof (induction ws arbitrary: w)
  case (Cons v ws)
  then show ?case by (simp only: strings_Join.simps list.map concat.simps append_assoc)
qed simp

lemma tlvIPAddr_String_quads: "tlvIPAddr_String a = strings_Join (map ip_String (quads a)) '',''"
proof (cases a rule: quads.cases)
  case (1 x0 x1 x2 x3 rest)
  show ?thesis
    unfolding 1 tlvIPAddr_String_def tlvIPAddr_quad
    using tlvIPAddr_rest [of rest "ip_String [x0, x1, x2, x3]" 0]
    by (simp add: split_beta Join_concat comp_def)
qed (simp_all add: tlvIPAddr_String_def tlvIPAddr_step_def)

lemma quad_length: "q \<in> set (quads a) \<Longrightarrow> length q = 4"
  by (induction a rule: quads.induct) auto

lemma concat_quads: "length a mod 4 = 0 \<Longrightarrow> concat (quads a) = a"
proof (induction a rule: quads.induct)
  case (1 a b c d rest)
  then show ?case by simp
qed simp_all

lemma quads_Nil: "length a mod 4 = 0 \<Longrightarrow> quads a = [] \<longleftrightarrow> a = []"
  by (cases a rule: quads.cases) auto

lemma Encode_concat: "tlvIPAddr_Encode a = concat (map (\<lambda>w. To4 (ParseIP w)) (strings_Split a (CHR '','')))"
proof -
  have "fold (\<lambda>adresse slice. slice @ To4 (ParseIP adresse)) ws acc = acc @ concat (map (\<lambda>w. To4 (ParseIP w)) ws)" for ws acc
    by (induction ws arbitrary: acc) simp_all
  then show ?thesis by (simp add: tlvIPAddr_Encode_def)
qed

lemma dotted_no_comma: "length q = 4 \<Longrightarrow> CHR '','' \<notin> set (ip_String q)"
proof -
  assume "length q = 4"
  then obtain a b c d where q: "q = [a, b, c, d]" by (auto simp: length_Suc_conv numeral_eq_Suc)
  have "CHR '','' \<notin> set (dec_nat n)" for n
    using parse_digits_foldl [OF parse_dec_nat [of n]] by (auto simp: char_digit_def)
  then show ?thesis by (simp add: q ip_String_def dotted_def)
qed

lemma tlvIPAddr_roundtrip: "length a mod 4 = 0 \<Longrightarrow> tlvIPAddr_Encode (tlvIPAddr_String a) = a"
proof (cases "a = []")
  case True
  then show ?thesis by (simp add: tlvIPAddr_String_def Encode_concat ParseIP_def To4_def)
next
  case False
  assume len: "length a mod 4 = 0"
  with False have "map ip_String (quads a) \<noteq> []" by (simp add: quads_Nil)
  then have "strings_Split (strings_Join (map ip_String (quads a)) '','') (CHR '','') = map ip_String (quads a)"
    by (rule Split_Join) (auto dest: dotted_no_comma [OF quad_length])
  moreover have "map (\<lambda>w. To4 (ParseIP w)) (map ip_String (quads a)) = quads a"
    by (simp add: map_idI ParseIP_String quad_length)
  ultimately show ?thesis using concat_quads [OF len] by (simp only: Encode_concat tlvIPAddr_String_quads)
qed

lemma bytes_of_string_of_bytes [simp]: "bytes_of_string (string_of_bytes b) = b"
proof -
  have "(of_nat (of_char (char_of (unat x) :: char)) :: u8) = x" for x :: u8
    using unat_u8_less [of x] by (simp only: of_char_of mod_less) simp
  then show ?thesis by (induction b) (simp_all add: string_of_bytes_def bytes_of_string_def)
qed



text \<open>
  Boolean options cannot be switched on from text: whatever Boolean option the dictionary
  lists and whatever digit or word is given for it, \<open>Encode\<close> yields the byte 0, because it
  compares the first character with the code 1 and not with the digit 1. In particular a
  value 1 that is printed and read back becomes 0.
\<close>
theorem bool_option_lost:
  assumes "Tlv_Transform code = Some tlvBool" and "word \<noteq> []" and "hd word \<noteq> char_of (1 :: nat)"
  shows "Tlv_Encode code word = Ret [0] \<and> go_bind (Tlv_String code [1]) (Tlv_Encode code) = Ret [0]"
proof -
  obtain c cs where t: "word = c # cs" "c \<noteq> char_of (1 :: nat)" using assms(2,3) by (cases word) auto
  have "(of_nat (of_char c) :: u8) \<noteq> 1"
  proof
    assume "(of_nat (of_char c) :: u8) = 1"
    then have "unat (of_nat (of_char c) :: u8) = 1" by simp
    then have "of_char c = (1 :: nat)" by (simp only: unat_of_nat_u8) simp
    with t(2) show False by (metis char_of_char)
  qed
  then show ?thesis
    using assms(1)
    by (simp add: t(1) Tlv_Encode_def Tlv_String_def Transform_String_def Transform_Encode_def tlvBool_Encode_def
        tlvBool_String_def slice_get_def bytes_of_string_def)
qed

lemma bool_option_lost_witness: "Tlv_Encode 19 ''1'' = Ret [0]"
proof -
  have "Tlv_Transform 19 = Some tlvBool" by (simp add: Tlv_Transform_def Tlvlist_def)
  moreover have "hd ''1'' \<noteq> char_of (1 :: nat)" by (simp add: char_of_def)
  ultimately show ?thesis using bool_option_lost [of 19 "''1''"] by blast
qed

section \<open>The store of overrides\<close>

text \<open>
  What the statements on the table \<open>key_value_storage\<close> do, seen through the map from keys to
  values that the database holds.
\<close>

definition kv_laws :: "'d sql_db \<Rightarrow> ('d \<Rightarrow> string \<Rightarrow> string option) \<Rightarrow> bool" where
  "kv_laws db view \<longleftrightarrow>
     (\<forall>k v d. \<exists>d'. sqlQuery db sql_replace [k, v] d = (QRows [], d') \<and>
        view d' = (view d)(k \<mapsto> v)) \<and>
     (\<forall>k d. sqlQuery db sql_select [k] d =
        (QRows (case view d k of None \<Rightarrow> [] | Some v \<Rightarrow> [Some [k, v]]), d)) \<and>
     (\<forall>k d. \<exists>d'. sqlQuery db sql_delete [k] d = (QRows [], d') \<and>
        view d' = (view d)(k := None))"

definition list_db :: "(string \<times> string) list sql_db" where
  "list_db = \<lparr>sqlQuery = (\<lambda>sql args d.
     if sql = sql_replace then (QRows [], (args ! 0, args ! 1) # d)
     else if sql = sql_select then
       (QRows (case map_of d (args ! 0) of None \<Rightarrow> [] | Some v \<Rightarrow> [Some [args ! 0, v]]), d)
     else if sql = sql_delete then
       (QRows [], filter (\<lambda>(k, _). k \<noteq> args ! 0) d)
     else (QErr ''unknown statement'', d))\<rparr>"

lemma map_of_filter_key: "map_of (filter (\<lambda>(k', _). k' \<noteq> k) d) = (map_of d)(k := None)"
  by (induction d) auto

lemma list_db_laws: "kv_laws list_db map_of"
  by (simp add: kv_laws_def list_db_def map_of_filter_key split: option.splits)

lemma kv_insert:
  assumes "kv_laws db view"
  obtains d' where "MysqlInsert db k v d = (Ret True, d')" and "view d' = (view d)(''/dhcpd/'' @ k \<mapsto> v)"
proof -
  from assms obtain d' where "sqlQuery db sql_replace [''/dhcpd/'' @ k, v] d = (QRows [], d')"
    "view d' = (view d)(''/dhcpd/'' @ k \<mapsto> v)" unfolding kv_laws_def by meson
  with that show ?thesis by (simp add: MysqlInsert_def closing_def)
qed

lemma kv_delete:
  assumes "kv_laws db view"
  obtains d' where "MysqlDel db k d = (Ret True, d')" and "view d' = (view d)(''/dhcpd/'' @ k := None)"
proof -
  from assms obtain d' where "sqlQuery db sql_delete [''/dhcpd/'' @ k] d = (QRows [], d')"
    "view d' = (view d)(''/dhcpd/'' @ k := None)" unfolding kv_laws_def by meson
  with that show ?thesis by (simp add: MysqlDel_def closing_def)
qed

lemma kv_get:
  assumes "kv_laws db view"
  shows "MysqlGet db k d = (Ret (case view d (''/dhcpd/'' @ k) of None \<Rightarrow> ([], []) | Some v \<Rightarrow> (''/dhcpd/'' @ k, v)), d)"
  using assms unfolding kv_laws_def MysqlGet_def by (simp add: closing_def split: option.splits)

end
