(* ===== verification/PfdhcpUtils.thy ===== *)
theory PfdhcpUtils
  imports PfdhcpOptions "HOL-Library.Multiset"
begin

text \<open>
  The helpers of the DHCP server (\<open>src/go/cmd/pfdhcp/utils.go\<close>): shuffling of address lists,
  address ranges, static and excluded addresses, the leases loaded at the start, the
  virtual addresses. Database rows, the clock, the random source, the cluster configuration,
  \<open>sharedutils.Inc\<close> and \<open>sharedutils.IsEnabled\<close> are parameters.
\<close>

section \<open>Small helpers\<close>

record NodeInfo =
  ni_Mac :: string
  ni_Status :: string
  ni_Category :: string

text \<open>The result of the query is a parameter; with an error the rows are nil and \<open>rows.Next\<close> panics.\<close>

definition NodeInformation :: "query_result \<Rightarrow> NodeInfo outcome" where
  "NodeInformation q =
     (case q of
        QErr e \<Rightarrow> Panic ''nil pointer dereference''
      | QRows rs \<Rightarrow>
          Ret (fold (\<lambda>r n. case r of
                 Some [m, s, c] \<Rightarrow> \<lparr>ni_Mac = m, ni_Status = s, ni_Category = c\<rparr>
               | _ \<Rightarrow> n) rs \<lparr>ni_Mac = [], ni_Status = [], ni_Category = []\<rparr>))"

definition strings_Count :: "string \<Rightarrow> char \<Rightarrow> nat" where
  "strings_Count s c = length (filter (\<lambda>x. x = c) s)"

definition IsIPv4 :: "ip \<Rightarrow> bool" where
  "IsIPv4 address \<longleftrightarrow> strings_Count (ip_String address) (CHR '':'') < 2"

definition IsIPv6 :: "ip \<Rightarrow> bool" where
  "IsIPv6 address \<longleftrightarrow> strings_Count (ip_String address) (CHR '':'') \<ge> 2"

fun stringInSlice :: "string \<Rightarrow> string list \<Rightarrow> bool" where
  "stringInSlice a [] = False"
| "stringInSlice a (b # list) = (if b = a then True else stringInSlice a list)"

definition setOptionServerIdentifier :: "ip \<Rightarrow> ip \<Rightarrow> ip" where
  "setOptionServerIdentifier srvIP handlerIP =
     (if ip_Equal srvIP handlerIP \<or> ip_Equal srvIP IPv4zero \<or> ip_Equal srvIP IPv4bcast then handlerIP else srvIP)"

text \<open>\<open>os.Stat\<close> is a parameter.\<close>

definition IsDisabled :: "(string \<Rightarrow> go_err) \<Rightarrow> string \<Rightarrow> bool" where
  "IsDisabled Stat hostname \<longleftrightarrow> Stat (''/usr/local/pf/var/run/'' @ hostname @ ''-cluster-disabled'') = None"

fun disabled_ips :: "string \<Rightarrow> (string \<times> iface) list \<Rightarrow> string list \<Rightarrow> string list outcome" where
  "disabled_ips netint [] ips = Ret ips"
| "disabled_ips netint ((k, v) # rest) ips =
     (if k = ''interface '' @ netint then
        go_bind (assert_map v) (\<lambda>m.
          go_bind (fold (\<lambda>(w, x) acc. go_bind acc (\<lambda>l. if w = ''ip'' then go_bind (assert_string x) (\<lambda>i. Ret (l @ [i])) else Ret l))
                   m (Ret ips))
            (disabled_ips netint rest))
      else disabled_ips netint rest ips)"

fun detect_servers :: "(string \<Rightarrow> go_err) \<Rightarrow> string \<Rightarrow> iface list \<Rightarrow> string list \<Rightarrow> string list outcome" where
  "detect_servers Stat netint [] ips = Ret ips"
| "detect_servers Stat netint (key # rest) ips =
     go_bind (assert_map key) (\<lambda>m.
       go_bind (assert_string (case map_of m ''host'' of None \<Rightarrow> INil | Some h \<Rightarrow> h)) (\<lambda>host.
         if \<not> IsDisabled Stat host then detect_servers Stat netint rest ips
         else go_bind (disabled_ips netint m ips) (detect_servers Stat netint rest)))"

definition DetectDisabledServer :: "(string \<Rightarrow> go_err) \<Rightarrow> iface list \<Rightarrow> string \<Rightarrow> string \<Rightarrow> string list outcome" where
  "DetectDisabledServer Stat servers addresses netint = detect_servers Stat netint servers []"

section \<open>Shuffling\<close>

text \<open>
  The loop of the three shuffles. The number drawn at index \<open>i\<close> is \<open>rand_Intn (draw i) (i + 1)\<close>.
\<close>

fun shuffle_loop :: "(nat \<Rightarrow> nat) \<Rightarrow> nat \<Rightarrow> 'a list \<Rightarrow> 'a list" where
  "shuffle_loop draw 0 array = array"
| "shuffle_loop draw (Suc i) array =
     (let j = rand_Intn (draw (Suc i)) (Suc i + 1)
      in shuffle_loop draw i (array[Suc i := array ! j, j := array ! Suc i]))"

definition Shuffle :: "(nat \<Rightarrow> nat) \<Rightarrow> string \<Rightarrow> string list \<Rightarrow> bytes" where
  "Shuffle draw addresses excluded =
     (let array = map (\<lambda>adresse. To4 (ParseIP adresse))
                    (filter (\<lambda>adresse. \<not> stringInSlice adresse excluded) (strings_Split addresses (CHR '','')))
      in concat (shuffle_loop draw (length array - 1) array))"

text \<open>\<open>source s\<close> is the stream of numbers of \<open>rand.NewSource(s)\<close>.\<close>

definition ShuffleNetIP :: "(int \<Rightarrow> nat \<Rightarrow> nat) \<Rightarrow> int \<Rightarrow> ip list \<Rightarrow> int \<Rightarrow> bytes" where
  "ShuffleNetIP source now array randSrc =
     (let randSrc = (if randSrc = 0 then now else randSrc)
      in concat (shuffle_loop (source randSrc) (length array - 1) array))"

fun split_ips :: "bytes \<Rightarrow> ip list outcome" where
  "split_ips [] = Ret []"
| "split_ips (a # b # c # d # rest) = go_bind (split_ips rest) (\<lambda>ips. Ret (To4 (IPv4 a b c d) # ips))"
| "split_ips _ = Panic ''index out of range''"

definition ShuffleIP :: "(int \<Rightarrow> nat \<Rightarrow> nat) \<Rightarrow> int \<Rightarrow> bytes \<Rightarrow> int \<Rightarrow> bytes outcome" where
  "ShuffleIP source now a randSrc = go_bind (split_ips a) (\<lambda>array. Ret (ShuffleNetIP source now array randSrc))"

record RessourseNetworkConf =
  cn_Dns :: string
  cn_DhcpStart :: string
  cn_Gateway :: string
  cn_DomainName :: string
  cn_NatEnabled :: string
  cn_Dhcpd :: string
  cn_DhcpEnd :: string
  cn_Type :: string
  cn_Netmask :: string
  cn_DhcpDefaultLeaseTime :: string
  cn_NextHop :: string
  cn_SplitNetwork :: string
  cn_RegNetwork :: string
  cn_Dnsvip :: string
  cn_ClusterIPs :: string
  cn_IpReserved :: string
  cn_IpAssigned :: string
  cn_InterfaceName :: string
  cn_PortalFQDN :: string
  cn_PoolBackend :: string
  cn_Algorithm :: string
  cn_NatDNS :: string
  cn_ForceGatewayVIP :: string

text \<open>\<open>disabled\<close> is what \<open>DetectDisabledServer\<close> returns for the cluster and the interface.\<close>

definition ShuffleDNS ::
  "(string \<Rightarrow> bool) \<Rightarrow> (nat \<Rightarrow> nat) \<Rightarrow> (string \<Rightarrow> string \<Rightarrow> string list outcome) \<Rightarrow> RessourseNetworkConf \<Rightarrow> bytes outcome" where
  "ShuffleDNS IsEnabled draw disabled ConfNet =
     (if \<not> IsEnabled (cn_NatDNS ConfNet) then Ret (Shuffle draw (cn_Dns ConfNet) [])
      else if cn_ClusterIPs ConfNet \<noteq> [] then
        (if cn_Dnsvip ConfNet \<noteq> [] then Ret (To4 (ParseIP (cn_Dnsvip ConfNet)))
         else go_bind (disabled (cn_ClusterIPs ConfNet) (cn_InterfaceName ConfNet))
                (\<lambda>excluded. Ret (Shuffle draw (cn_ClusterIPs ConfNet) excluded)))
      else if cn_Dnsvip ConfNet \<noteq> [] then Ret (To4 (ParseIP (cn_Dnsvip ConfNet)))
      else go_bind (disabled (cn_ClusterIPs ConfNet) (cn_InterfaceName ConfNet))
             (\<lambda>excluded. Ret (Shuffle draw (cn_Dns ConfNet) excluded)))"

definition ShuffleGateway ::
  "(nat \<Rightarrow> nat) \<Rightarrow> (string \<Rightarrow> string \<Rightarrow> string list outcome) \<Rightarrow> RessourseNetworkConf \<Rightarrow> bytes outcome" where
  "ShuffleGateway draw disabled ConfNet =
     (if cn_NextHop ConfNet \<noteq> [] then Ret (To4 (ParseIP (cn_Gateway ConfNet)))
      else if cn_ClusterIPs ConfNet \<noteq> [] then
        (if cn_Type ConfNet = ''inlinel2'' \<and> cn_NatEnabled ConfNet = ''disabled'' then Ret (To4 (ParseIP (cn_Gateway ConfNet)))
         else if cn_ForceGatewayVIP ConfNet \<noteq> [] then Ret (To4 (ParseIP (cn_ForceGatewayVIP ConfNet)))
         else go_bind (disabled (cn_ClusterIPs ConfNet) (cn_InterfaceName ConfNet))
                (\<lambda>excluded. Ret (Shuffle draw (cn_ClusterIPs ConfNet) excluded)))
      else Ret (To4 (ParseIP (cn_Gateway ConfNet))))"

section \<open>Address ranges\<close>

text \<open>The inner loop of \<open>IPsFromRange\<close>, which need not end.\<close>

partial_function (option) range_loop :: "(ip \<Rightarrow> ip) \<Rightarrow> ip \<Rightarrow> ip \<Rightarrow> ip list \<Rightarrow> ip list option" where
  "range_loop Inc start fin iplist =
     (let iplist = iplist @ [ParseIP (ip_String start)] in
      if ip_Equal start fin then Some iplist else range_loop Inc (Inc start) fin iplist)"

fun ranges_loop :: "(ip \<Rightarrow> ip) \<Rightarrow> string list \<Rightarrow> ip list \<Rightarrow> ip list option" where
  "ranges_loop Inc [] iplist = Some iplist"
| "ranges_loop Inc (rangeip # rest) iplist =
     (case strings_Split rangeip (CHR ''-'') of
        [] \<Rightarrow> None
      | [x] \<Rightarrow> ranges_loop Inc rest (iplist @ [ParseIP x])
      | x # y # _ \<Rightarrow> Option.bind (range_loop Inc (ParseIP x) (ParseIP y) iplist) (ranges_loop Inc rest))"

definition IPsFromRange :: "(ip \<Rightarrow> ip) \<Rightarrow> string \<Rightarrow> (ip list \<times> int) option" where
  "IPsFromRange Inc iPrange =
     Option.bind (ranges_loop Inc (strings_Split iPrange (CHR '','')) []) (\<lambda>iplist. Some (iplist, int (length iplist)))"

text \<open>The position of an address in the pool, in 32-bit arithmetic; a value that is no IPv4 address panics.\<close>

definition pool_position :: "ip \<Rightarrow> ip \<Rightarrow> u32 outcome" where
  "pool_position x start = go_bind (be_Uint32 (To4 x)) (\<lambda>a. go_bind (be_Uint32 (To4 start)) (\<lambda>b. Ret (a - b)))"

fun exclude_loop :: "'p Backend \<Rightarrow> ip list \<Rightarrow> ('p, 'c) DHCPHandler \<Rightarrow> ('p, 'c) DHCPHandler outcome" where
  "exclude_loop B [] h = Ret h"
| "exclude_loop B (excludeIP # rest) h =
     (if excludeIP = [] then exclude_loop B rest h
      else go_bind (pool_position excludeIP (dh_start h)) (\<lambda>position.
        exclude_loop B rest (h\<lparr>dh_available := snd (bReserveIPIndex B (ucast position) FakeMac (dh_available h))\<rparr>)))"

definition ExcludeIP ::
  "'p Backend \<Rightarrow> (ip \<Rightarrow> ip) \<Rightarrow> ('p, 'c) DHCPHandler \<Rightarrow> string \<Rightarrow> (ip list \<times> ('p, 'c) DHCPHandler) outcome option" where
  "ExcludeIP B Inc h ipRange =
     Option.bind (IPsFromRange Inc ipRange) (\<lambda>(excludeIPs, _).
       Some (go_bind (exclude_loop B excludeIPs h) (\<lambda>h'. Ret (excludeIPs, h'))))"

section \<open>Static addresses\<close>

text \<open>
  The regular expression of \<open>AssignIP\<close>: six pairs of hexadecimal digits, a colon, and four
  groups of one to three digits, greedy with backtracking, separated by any character but a
  newline. \<open>find_mac_ip\<close> is the leftmost match with its two groups.
\<close>

definition is_digit :: "char \<Rightarrow> bool" where
  "is_digit c \<longleftrightarrow> char_digit c \<noteq> None"

definition match_mac :: "string \<Rightarrow> bool" where
  "match_mac s \<longleftrightarrow> length s \<ge> 18 \<and>
     (\<forall>i \<in> set [0..<17]. if i mod 3 = 2 then s ! i = CHR '':'' else hex_value (s ! i) \<noteq> None) \<and> s ! 17 = CHR '':''"

fun match_quad :: "nat \<Rightarrow> string \<Rightarrow> nat option" where
  "match_quad 0 s = (let n = length (takeWhile is_digit (take 3 s)) in if n = 0 then None else Some n)"
| "match_quad (Suc k) s =
     (let attempt = (\<lambda>n otherwise.
            if n < length s \<and> list_all is_digit (take n s) \<and> s ! n \<noteq> CHR 0x0A
            then (case match_quad k (drop (n + 1) s) of Some m \<Rightarrow> Some (n + 1 + m) | None \<Rightarrow> otherwise)
            else otherwise)
      in attempt 3 (attempt 2 (attempt 1 None)))"

fun find_mac_ip :: "string \<Rightarrow> (string \<times> string) option" where
  "find_mac_ip [] = None"
| "find_mac_ip (c # s) =
     (case (if match_mac (c # s) then match_quad 3 (drop 18 (c # s)) else None) of
        Some m \<Rightarrow> Some (take 17 (c # s), take m (drop 18 (c # s)))
      | None \<Rightarrow> find_mac_ip s)"

fun assign_loop ::
  "'p Backend \<Rightarrow> string list \<Rightarrow> (string, u32) gomap \<times> ip list \<Rightarrow> ('p, 'c) DHCPHandler \<Rightarrow>
   (((string, u32) gomap \<times> ip list) \<times> ('p, 'c) DHCPHandler) outcome" where
  "assign_loop B [] st h = Ret (st, h)"
| "assign_loop B (rangeip # rest) (couple, iplist) h =
     (case find_mac_ip rangeip of
        None \<Rightarrow> Panic ''index out of range''
      | Some (mac, x) \<Rightarrow>
          go_bind (pool_position (ParseIP x) (dh_start h)) (\<lambda>position.
            assign_loop B rest (fmupd mac position couple, iplist @ [ParseIP x])
              (h\<lparr>dh_available := snd (bReserveIPIndex B (ucast position) mac (dh_available h))\<rparr>)))"

definition AssignIP ::
  "'p Backend \<Rightarrow> ('p, 'c) DHCPHandler \<Rightarrow> string \<Rightarrow>
   (((string, u32) gomap \<times> ip list) \<times> ('p, 'c) DHCPHandler) outcome" where
  "AssignIP B h ipRange =
     (if ipRange \<noteq> [] then assign_loop B (strings_Split ipRange (CHR '','')) (fmempty, []) h
      else Ret ((fmempty, []), h))"

section \<open>Leases loaded at the start\<close>

text \<open>A row of \<open>ip4log\<close>; the end time is \<open>None\<close> when it is zero. A row that cannot be scanned is \<open>None\<close>.\<close>

record ip4log =
  il_ip :: string
  il_mac :: string
  il_end :: "int option"

definition initia_row ::
  "'p Backend \<Rightarrow> 'c gocache \<Rightarrow> int \<Rightarrow> ip4log \<Rightarrow> ('p, 'c) DHCPHandler \<times> 'c Globals \<Rightarrow>
   (('p, 'c) DHCPHandler \<times> 'c Globals) outcome" where
  "initia_row B C now row st =
     (case st of (h, g) \<Rightarrow>
        let leaseDuration = (case il_end row of None \<Rightarrow> dh_leaseDuration h | Some e \<Rightarrow> e - now) in
        go_bind (pool_position (ParseIP (il_ip row)) (dh_start h)) (\<lambda>position.
          Ret (h\<lparr>dh_available := snd (bReserveIPIndex B (ucast position) (il_mac row) (dh_available h)),
                 dh_hwcache := gcSet C now (il_mac row) (IInt (uint position)) leaseDuration (dh_hwcache h)\<rparr>,
               g\<lparr>GlobalIPCache := gcSet C now (il_ip row) (IStr (il_mac row)) leaseDuration (GlobalIPCache g),
                 GlobalMacCache := gcSet C now (il_mac row) (IStr (il_ip row)) leaseDuration (GlobalMacCache g)\<rparr>)))"

text \<open>The loop over the rows; \<open>found\<close> is declared before it and never reset, as in the source.\<close>

fun initia_loop ::
  "'p Backend \<Rightarrow> 'c gocache \<Rightarrow> int \<Rightarrow> ip list \<Rightarrow> ip4log option list \<Rightarrow> bool \<Rightarrow> ('p, 'c) DHCPHandler \<times> 'c Globals \<Rightarrow>
   (('p, 'c) DHCPHandler \<times> 'c Globals) outcome" where
  "initia_loop B C now skip [] found st = Ret st"
| "initia_loop B C now skip (None # rows) found st = Ret st"
| "initia_loop B C now skip (Some row # rows) found st =
     (let found = (found \<or> list_ex (\<lambda>ans. ip_Equal (ParseIP (il_ip row)) ans) skip) in
      if found then initia_loop B C now skip rows found st
      else go_bind (initia_row B C now row st) (initia_loop B C now skip rows found))"

definition initiaLease ::
  "'p Backend \<Rightarrow> 'c gocache \<Rightarrow> (ip \<Rightarrow> ip) \<Rightarrow> int \<Rightarrow> (string \<Rightarrow> string \<Rightarrow> string + ip4log option list) \<Rightarrow>
   RessourseNetworkConf \<Rightarrow> ('p, 'c) DHCPHandler \<times> 'c Globals \<Rightarrow> (('p, 'c) DHCPHandler \<times> 'c Globals) outcome option" where
  "initiaLease B C Inc now query ConfNet st =
     (case st of (h, g) \<Rightarrow>
        case be_Uint32 (To4 (dh_start h)) of
          Panic m \<Rightarrow> Some (Panic m)
        | Ret s \<Rightarrow>
            let endip = s + of_int (dh_leaseRange h) - 1;
                ipend = (case be_PutUint32 endip of [a, b, c, d] \<Rightarrow> IPv4 a b c d | _ \<Rightarrow> [])
            in case query (ip_String (dh_start h)) (ip_String ipend) of
                 Inl err \<Rightarrow> Some (Ret st)
               | Inr rows \<Rightarrow>
                   Option.bind (ExcludeIP B Inc h (cn_IpReserved ConfNet)) (\<lambda>r1.
                     Some (go_bind r1 (\<lambda>(excludeIP, h1).
                       go_bind (AssignIP B h1 (cn_IpAssigned ConfNet)) (\<lambda>((assigned, reservedIP), h2).
                         initia_loop B C now (excludeIP @ reservedIP) rows False
                           (h2\<lparr>dh_ipAssigned := assigned, dh_ipReserved := cn_IpReserved ConfNet\<rparr>, g))))))"

section \<open>Scopes and virtual addresses\<close>

definition scope_step ::
  "'c gocache \<Rightarrow> int \<Rightarrow> string \<Rightarrow> ip \<Rightarrow> ('p, 'c) Network \<Rightarrow> string \<times> ('p, 'c) Network list \<Rightarrow>
   string \<times> ('p, 'c) Network list" where
  "scope_step C now MAC x n st =
     (case st of (NetWork, done) \<Rightarrow>
        if net_Contains (nw_network n) x then
          let h = nw_dhcpHandler n;
              h' = (case gcGet C now MAC (dh_hwcache h) of
                      Some v \<Rightarrow> h\<lparr>dh_hwcache := snd (gcReplace C now MAC v (seconds 3) (dh_hwcache h))\<rparr>
                    | None \<Rightarrow> h)
          in (net_String (nw_network n), done @ [n\<lparr>nw_dhcpHandler := h'\<rparr>])
        else (NetWork, done @ [n]))"

definition scope_interface ::
  "'c gocache \<Rightarrow> int \<Rightarrow> string \<Rightarrow> ip \<Rightarrow> ('p, 'c) Interface \<Rightarrow> string \<times> ('p, 'c) Interface list \<Rightarrow>
   string \<times> ('p, 'c) Interface list" where
  "scope_interface C now MAC x v st =
     (case st of (NetWork, done) \<Rightarrow>
        case fold (scope_step C now MAC x) (if_network v) (NetWork, []) of
          (NetWork', ns) \<Rightarrow> (NetWork', done @ [v\<lparr>if_network := ns\<rparr>]))"

definition InterfaceScopeFromMac ::
  "'c gocache \<Rightarrow> int \<Rightarrow> string \<Rightarrow> 'c Globals \<Rightarrow> ('p, 'c) Interfaces \<Rightarrow> (string \<times> ('p, 'c) Interfaces) outcome" where
  "InterfaceScopeFromMac C now MAC g cfg =
     (case gcGet C now MAC (GlobalMacCache g) of
        None \<Rightarrow> Ret ([], cfg)
      | Some index \<Rightarrow>
          if intsNet cfg = [] then Ret ([], cfg)
          else go_bind (assert_string index) (\<lambda>s.
            case fold (scope_interface C now MAC (ParseIP s)) (intsNet cfg) ([], []) of
              (NetWork, ints) \<Rightarrow> Ret (NetWork, cfg\<lparr>intsNet := ints\<rparr>)))"

text \<open>
  \<open>detectVIP\<close>: \<open>clusterIp\<close> is the virtual address configured for an interface, empty outside
  a cluster, and \<open>addrs\<close> the addresses the interface has. The third result lists the
  interfaces for which a reload of the leases is requested.
\<close>

definition vip_address :: "string \<Rightarrow> string \<Rightarrow> string \<Rightarrow> bool \<times> string list \<times> 'c Globals \<Rightarrow> bool \<times> string list \<times> 'c Globals" where
  "vip_address v clusterIp adresse st =
     (case st of (found, reload, g) \<Rightarrow>
        let IP = (case ParseCIDR adresse of Some (x, _) \<Rightarrow> x | None \<Rightarrow> []);
            g = g\<lparr>VIPIp := fmupd v (ParseIP clusterIp) (VIPIp g)\<rparr>
        in if ip_Equal IP (gm_get [] (VIPIp g) v) then
             (if gm_get False (VIP g) v = False
              then (True, reload @ [v], g\<lparr>VIP := fmupd v True (VIP g)\<rparr>)
              else (True, reload, g))
           else (found, reload, g))"

definition vip_interface ::
  "(string \<Rightarrow> string) \<Rightarrow> (string \<Rightarrow> string list) \<Rightarrow> string \<Rightarrow> string list \<times> 'c Globals \<Rightarrow> string list \<times> 'c Globals" where
  "vip_interface clusterIp addrs v st =
     (case st of (reload, g) \<Rightarrow>
        if clusterIp v = [] then (reload, g\<lparr>VIP := fmupd v True (VIP g)\<rparr>)
        else
          let g = (if gm_has (VIP g) v then g else g\<lparr>VIP := fmupd v False (VIP g)\<rparr>) in
          case fold (vip_address v (clusterIp v)) (addrs v) (False, reload, g) of
            (found, reload, g) \<Rightarrow> (reload, if found then g else g\<lparr>VIP := fmupd v False (VIP g)\<rparr>))"

definition detectVIP ::
  "(string \<Rightarrow> string) \<Rightarrow> (string \<Rightarrow> string list) \<Rightarrow> string list \<Rightarrow> 'c Globals \<Rightarrow> string list \<times> 'c Globals" where
  "detectVIP clusterIp addrs interfaces g = fold (vip_interface clusterIp addrs) interfaces ([], g)"

text \<open>
  \<open>MysqlUpdateIP4Log\<close>: \<open>QueryRow(...).Scan\<close> needs as many destinations as the row has columns.
  \<open>mac2ip\<close> and \<open>ip2mac\<close> are the rows of the two queries; the last result lists the
  updates in the order in which they are sent.
\<close>

definition row_Scan1 :: "string list option \<Rightarrow> string + string" where
  "row_Scan1 row =
     (case row of
        None \<Rightarrow> Inl ''sql: no rows in result set''
      | Some [x] \<Rightarrow> Inr x
      | Some cols \<Rightarrow> Inl ''sql: unexpected number of destination arguments in Scan'')"

datatype ip4log_update = CloseIp string | InsertLog string string int

definition MysqlUpdateIP4Log ::
  "go_err \<Rightarrow> string list option \<Rightarrow> string list option \<Rightarrow> (string \<Rightarrow> go_err) \<Rightarrow> string \<Rightarrow> string \<Rightarrow> int \<Rightarrow>
   go_err \<times> ip4log_update list" where
  "MysqlUpdateIP4Log prepare mac2ip ip2mac IPClose mac x duration =
     (if prepare \<noteq> None then (prepare, [])
      else case row_Scan1 mac2ip of
        Inl err \<Rightarrow> (Some err, [])
      | Inr oldIP \<Rightarrow>
          (case row_Scan1 ip2mac of
             Inl err \<Rightarrow> (Some err, [])
           | Inr oldMAC \<Rightarrow>
               let (err1, u1) = (if oldMAC \<noteq> mac then (IPClose x, [CloseIp x]) else (None, [])) in
               if err1 \<noteq> None then (err1, u1)
               else let (err2, u2) = (if oldIP \<noteq> x then (IPClose oldIP, [CloseIp oldIP]) else (None, [])) in
                 if err2 \<noteq> None then (err2, u1 @ u2)
                 else (None, u1 @ u2 @ [InsertLog mac x duration])))"

section \<open>Shuffling permutes\<close>

lemma mset_shuffle_loop: "i < length xs \<or> i = 0 \<Longrightarrow> mset (shuffle_loop draw i xs) = mset xs"
proof (induction i arbitrary: xs)
  case (Suc i)
  let ?j = "rand_Intn (draw (Suc i)) (Suc i + 1)"
  have "?j < Suc i + 1" by (rule rand_Intn_less) simp
  with Suc.prems have "?j < length xs" "Suc i < length xs" by linarith+
  then have "mset (xs[Suc i := xs ! ?j, ?j := xs ! Suc i]) = mset xs" by (simp add: mset_swap)
  moreover have "mset (shuffle_loop draw i (xs[Suc i := xs ! ?j, ?j := xs ! Suc i])) =
      mset (xs[Suc i := xs ! ?j, ?j := xs ! Suc i])"
    by (rule Suc.IH) (use Suc.prems in simp)
  ultimately show ?case by (simp add: Let_def)
qed simp

lemma split_ips_quads: "length a mod 4 = 0 \<Longrightarrow> split_ips a = Ret (quads a)"
proof (induction a rule: split_ips.induct)
  case (2 a b c d rest)
  then show ?case by simp
qed simp_all

lemma split_ips_panics: "length a mod 4 \<noteq> 0 \<Longrightarrow> \<exists>m. split_ips a = Panic m"
proof (induction a rule: split_ips.induct)
  case (2 a b c d rest)
  then obtain m where "split_ips rest = Panic m" by auto
  then show ?case by simp
qed simp_all

text \<open>
  \<open>ShuffleIP\<close> only reorders: for a list of whole addresses it returns the same addresses in
  some order, and with a source that is not 0 (the last byte of the client's address) the
  order does not depend on the time, so a client always sees the same one. A value that is
  not a list of whole addresses makes it panic.
\<close>
theorem ShuffleIP_permutes:
  "if length a mod 4 = 0
   then \<exists>ips. ShuffleIP source now a src = Ret (concat ips) \<and> mset ips = mset (quads a) \<and>
     (src \<noteq> 0 \<longrightarrow> ShuffleIP source now' a src = ShuffleIP source now a src)
   else \<exists>m. ShuffleIP source now a src = Panic m"
proof (cases "length a mod 4 = 0")
  case True
  let ?ips = "shuffle_loop (source (if src = 0 then now else src)) (length (quads a) - 1) (quads a)"
  have "mset ?ips = mset (quads a)" by (rule mset_shuffle_loop) (cases "quads a"; simp)
  moreover have "ShuffleIP source now a src = Ret (concat ?ips)"
    using split_ips_quads [OF True] by (simp add: ShuffleIP_def ShuffleNetIP_def Let_def)
  moreover have "src \<noteq> 0 \<longrightarrow> ShuffleIP source now' a src = ShuffleIP source now a src"
    using split_ips_quads [OF True] by (simp add: ShuffleIP_def ShuffleNetIP_def)
  ultimately show ?thesis using True by auto
next
  case False
  then show ?thesis using split_ips_panics [OF False] by (auto simp: ShuffleIP_def)
qed

lemma ShuffleIP_permutes_witness:
  "\<exists>ips. ShuffleIP (\<lambda>s i. nat s + i) 7 [10, 0, 0, 1, 10, 0, 0, 2] 5 = Ret (concat ips) \<and>
     mset ips = {#[10, 0, 0, 1], [10, 0, 0, 2]#}"
  using ShuffleIP_permutes [of "[10, 0, 0, 1, 10, 0, 0, 2]" "\<lambda>s i. nat s + i" 7 5]
  by auto

section \<open>Ranges\<close>

definition v4 :: "u32 \<Rightarrow> ip" where
  "v4 w = v4InV6Prefix @ be_PutUint32 w"

text \<open>What \<open>sharedutils.Inc\<close> does: the next address, in place.\<close>

definition Inc_laws :: "(ip \<Rightarrow> ip) \<Rightarrow> bool" where
  "Inc_laws Inc \<longleftrightarrow> (\<forall>w. w + 1 \<noteq> 0 \<longrightarrow> Inc (v4 w) = v4 (w + 1)) \<and> (\<forall>x. length (Inc x) = length x)"

definition v4_inc :: "ip \<Rightarrow> ip" where
  "v4_inc x = (if length x = 16 then
     (case be_Uint32 (drop 12 x) of Ret w \<Rightarrow> take 12 x @ be_PutUint32 (w + 1) | Panic _ \<Rightarrow> x) else x)"

lemma v4_inc_laws: "Inc_laws v4_inc"
  by (auto simp: Inc_laws_def v4_inc_def v4_def v4InV6Prefix_def be_Uint32_Put split: outcome.splits)

lemma v4_IPv4: "\<exists>a b c d. v4 w = IPv4 a b c d \<and> be_PutUint32 w = [a, b, c, d]"
proof -
  obtain a b c d where "be_PutUint32 w = [a, b, c, d]" unfolding be_PutUint32_def by blast
  then show ?thesis by (auto simp: v4_def IPv4_def)
qed

lemma To4_v4 [simp]: "To4 (v4 w) = be_PutUint32 w"
  using v4_IPv4 [of w] by auto

lemma v4_not_Nil [simp]: "v4 w \<noteq> []" by (simp add: v4_def v4InV6Prefix_def)

lemma be_PutUint32_inj [simp]: "be_PutUint32 v = be_PutUint32 w \<longleftrightarrow> v = w"
  by (metis be_Uint32_Put outcome.inject(1))

lemma ip_Equal_v4 [simp]: "ip_Equal (v4 v) (v4 w) \<longleftrightarrow> v = w"
  by (simp add: ip_Equal_def v4_def)

lemma ParseIP_v4 [simp]: "ParseIP (ip_String (v4 w)) = v4 w"
proof -
  obtain a b c d where w: "v4 w = IPv4 a b c d" using v4_IPv4 [of w] by auto
  have "IPv4 a b c d \<noteq> []" by (simp add: IPv4_def)
  then show ?thesis by (simp add: w ip_String_def ParseIP_dotted)
qed

lemma range_loop_v4:
  assumes "Inc_laws Inc" and "unat lo + n = unat hi"
  shows "range_loop Inc (v4 lo) (v4 hi) acc = Some (acc @ map (\<lambda>i. v4 (lo + of_nat i)) [0..<Suc n])"
  using assms(2)
proof (induction n arbitrary: lo acc)
  case 0
  then have "lo = hi" by (simp add: word_unat_eq_iff)
  then show ?case by (subst range_loop.simps) simp
next
  case (Suc n)
  have ne: "lo \<noteq> hi" using Suc.prems by auto
  have lt: "unat lo + 1 < 4294967296" using Suc.prems unat_u32_less [of hi] by simp
  then have u: "unat (lo + 1) = unat lo + 1" by (simp add: unat_word_ariths)
  then have "lo + 1 \<noteq> 0" by (metis add_is_0 one_neq_zero unsigned_0)
  with assms(1) have inc: "Inc (v4 lo) = v4 (lo + 1)" by (simp add: Inc_laws_def)
  have "range_loop Inc (v4 (lo + 1)) (v4 hi) (acc @ [v4 lo]) =
      Some ((acc @ [v4 lo]) @ map (\<lambda>i. v4 (lo + 1 + of_nat i)) [0..<Suc n])"
    by (rule Suc.IH) (use u Suc.prems in simp)
  moreover have "map (\<lambda>i. v4 (lo + of_nat i)) [0..<Suc (Suc n)] = v4 lo # map (\<lambda>i. v4 (lo + 1 + of_nat i)) [0..<Suc n]"
    by (simp add: upt_conv_Cons map_Suc_upt [symmetric] comp_def add.assoc del: upt_Suc)
  ultimately show ?case using ne by (subst range_loop.simps) (simp add: inc)
qed

text \<open>A list of ranges as it is written in the configuration, and the addresses it stands for.\<close>

fun range_text :: "u32 \<times> u32 \<Rightarrow> string" where
  "range_text (lo, hi) = (if lo = hi then ip_String (v4 lo) else ip_String (v4 lo) @ ''-'' @ ip_String (v4 hi))"

fun range_ips :: "u32 \<times> u32 \<Rightarrow> ip list" where
  "range_ips (lo, hi) = map (\<lambda>i. v4 (lo + of_nat i)) [0..<Suc (unat hi - unat lo)]"

lemma v4_text_chars: "c \<in> set (ip_String (v4 w)) \<Longrightarrow> char_digit c \<noteq> None \<or> c = CHR ''.''"
proof -
  assume c: "c \<in> set (ip_String (v4 w))"
  obtain x0 x1 x2 x3 where w: "v4 w = IPv4 x0 x1 x2 x3" using v4_IPv4 [of w] by auto
  have "char_digit c \<noteq> None" if "c \<in> set (dec_nat n)" for n
    using parse_digits_foldl [OF parse_dec_nat [of n]] that by auto
  moreover have "IPv4 x0 x1 x2 x3 \<noteq> []" by (simp add: IPv4_def)
  ultimately show ?thesis using c by (auto simp: w ip_String_def dotted_def)
qed

lemma v4_text_sep: "char_digit s = None \<Longrightarrow> s \<noteq> CHR ''.'' \<Longrightarrow> s \<notin> set (ip_String (v4 w))"
  using v4_text_chars by blast

lemma separators [simp]: "char_digit (CHR '','') = None" "char_digit (CHR ''-'') = None"
  by (simp_all add: char_digit_def)

lemma ranges_loop_text:
  assumes "Inc_laws Inc" and "\<forall>(lo, hi) \<in> set rs. lo \<le> hi"
  shows "ranges_loop Inc (map range_text rs) acc = Some (acc @ concat (map range_ips rs))"
  using assms(2)
proof (induction rs arbitrary: acc)
  case (Cons r rs)
  obtain lo hi where r: "r = (lo, hi)" by (cases r)
  have no: "CHR ''-'' \<notin> set (ip_String (v4 w))" for w by (rule v4_text_sep) simp_all
  show ?case
  proof (cases "lo = hi")
    case True
    then show ?thesis using Cons by (simp add: r Split_word [OF no])
  next
    case False
    have "unat lo + (unat hi - unat lo) = unat hi" using Cons.prems by (simp add: r word_le_nat_alt)
    from range_loop_v4 [OF assms(1) this]
    have "range_loop Inc (v4 lo) (v4 hi) acc = Some (acc @ range_ips (lo, hi))" for acc by simp
    moreover have "strings_Split (range_text r) (CHR ''-'') = [ip_String (v4 lo), ip_String (v4 hi)]"
      using False by (simp add: r Split_append [OF no] Split_word [OF no])
    ultimately show ?thesis using Cons by (simp add: r del: range_text.simps range_ips.simps)
  qed
qed simp

lemma IPsFromRange_ranges_list:
  assumes "Inc_laws Inc" and "rs \<noteq> []" and "\<forall>(lo, hi) \<in> set rs. lo \<le> hi"
  shows "IPsFromRange Inc (strings_Join (map range_text rs) '','') =
    Some (concat (map range_ips rs), int (length (concat (map range_ips rs))))"
proof -
  have "CHR '','' \<notin> set w" if "w \<in> set (map range_text rs)" for w
    using that v4_text_sep [of "CHR '',''"] by (auto split: if_splits)
  then have "strings_Split (strings_Join (map range_text rs) '','') (CHR '','') = map range_text rs"
    using assms(2) by (intro Split_Join) simp_all
  then show ?thesis using ranges_loop_text [OF assms(1,3), of "[]"] by (simp add: IPsFromRange_def)
qed

text \<open>
  Ranges of addresses are expanded exactly, and the expansion ends: for a text that lists
  single addresses and ranges with their bounds in order, \<open>IPsFromRange\<close> returns every
  address of every range, in order and without gaps, and their number.
\<close>
theorem IPsFromRange_ranges:
  assumes "Inc_laws Inc" and "rs \<noteq> []" and "\<forall>(lo, hi) \<in> set rs. lo \<le> hi"
  shows "IPsFromRange Inc (strings_Join (map range_text rs) '','') =
    Some (concat (map range_ips rs), int (length (concat (map range_ips rs))))"
  using assms by (rule IPsFromRange_ranges_list)

lemma IPsFromRange_ranges_witness:
  "IPsFromRange v4_inc (strings_Join (map range_text [(0x0A000001, 0x0A000003), (0x0A000009, 0x0A000009)]) '','') =
     Some ([v4 0x0A000001, v4 0x0A000002, v4 0x0A000003, v4 0x0A000009], 4)"
  using IPsFromRange_ranges [OF v4_inc_laws, of "[(0x0A000001, 0x0A000003), (0x0A000009, 0x0A000009)]"]
  by (simp add: upt_rec)

lemma range_loop_no_end:
  assumes "Inc_laws Inc" and "range_loop Inc start [] acc = Some r"
  shows "start = []"
proof -
  have len: "length (Inc x) = length x" for x using assms(1) by (simp add: Inc_laws_def)
  have "I = Inc \<longrightarrow> fin = [] \<longrightarrow> start = []" if "range_loop I start fin acc = Some r" for I fin start acc r
  proof (rule range_loop.raw_induct [OF _ that])
    fix f :: "(ip \<Rightarrow> ip) \<Rightarrow> ip \<Rightarrow> ip \<Rightarrow> ip list \<Rightarrow> ip list option" and I :: "ip \<Rightarrow> ip" and start fin acc r
    assume IH: "\<And>I start fin acc r. f I start fin acc = Some r \<Longrightarrow> I = Inc \<longrightarrow> fin = [] \<longrightarrow> start = []"
      and step: "(let iplist = acc @ [ParseIP (ip_String start)]
        in if ip_Equal start fin then Some iplist else f I (I start) fin iplist) = Some r"
    show "I = Inc \<longrightarrow> fin = [] \<longrightarrow> start = []"
    proof (intro impI, rule ccontr)
      assume eq: "I = Inc" "fin = []" and ne: "start \<noteq> []"
      then have "\<not> ip_Equal start fin" by (simp add: ip_Equal_def)
      with step eq have "f Inc (Inc start) [] (acc @ [ParseIP (ip_String start)]) = Some r" by (simp add: Let_def)
      from IH [OF this] len [of start] ne show False by simp
    qed
  qed
  then show ?thesis using assms(2) by blast
qed

text \<open>
  A typing error in a range hangs the server: when the end of a range is no address at all
  (and its start is one), \<open>IPsFromRange\<close> does not return, because no address is equal to
  the missing one.
\<close>
theorem IPsFromRange_hangs:
  assumes "Inc_laws Inc" and "ParseIP x \<noteq> []" and "ParseIP y = []"
    and "CHR ''-'' \<notin> set x" and "CHR '','' \<notin> set x" and "CHR ''-'' \<notin> set y" and "CHR '','' \<notin> set y"
  shows "IPsFromRange Inc (x @ ''-'' @ y) = None"
proof -
  have "strings_Split (x @ ''-'' @ y) (CHR '','') = [x @ ''-'' @ y]"
    by (rule Split_word) (use assms in simp)
  moreover have "strings_Split (x @ ''-'' @ y) (CHR ''-'') = [x, y]"
    using assms by (simp add: Split_append Split_word)
  moreover have "range_loop Inc (ParseIP x) [] [] = None"
    using range_loop_no_end [OF assms(1), of "ParseIP x" "[]"] assms(2) by (cases "range_loop Inc (ParseIP x) [] []") auto
  ultimately show ?thesis using assms(3) by (simp add: IPsFromRange_def)
qed

lemma IPsFromRange_hangs_witness: "IPsFromRange v4_inc ''10.0.0.1-10.0.0.'' = None"
proof -
  have "ParseIP ''10.0.0.1'' \<noteq> []" by (simp add: parse_literal IPv4_def)
  moreover have "ParseIP ''10.0.0.'' = []" by (simp add: parse_literal)
  ultimately show ?thesis using IPsFromRange_hangs [OF v4_inc_laws, of "''10.0.0.1''" "''10.0.0.''"] by simp
qed

section \<open>Excluded addresses are not handed out\<close>

lemma pool_position_v4: "To4 start = be_PutUint32 s \<Longrightarrow> pool_position (v4 w) start = Ret (w - s)"
  by (simp add: pool_position_def be_Uint32_Put)

context pool_backend
begin

lemma reserve_keeps:
  assumes "inv p"
  shows "inv (snd (bReserveIPIndex B i m p))" and "bCapacity B (snd (bReserveIPIndex B i m p)) = bCapacity B p"
    and "owner p j = Some m' \<Longrightarrow> owner (snd (bReserveIPIndex B i m p)) j = Some m'"
    and "i < bCapacity B p \<Longrightarrow> owner (snd (bReserveIPIndex B i m p)) i \<noteq> None"
proof -
  have "inv (snd (bReserveIPIndex B i m p)) \<and> bCapacity B (snd (bReserveIPIndex B i m p)) = bCapacity B p \<and>
    (owner p j = Some m' \<longrightarrow> owner (snd (bReserveIPIndex B i m p)) j = Some m') \<and>
    (i < bCapacity B p \<longrightarrow> owner (snd (bReserveIPIndex B i m p)) i \<noteq> None)"
  proof (cases "i < bCapacity B p \<and> owner p i = None")
    case True
    then show ?thesis using reserve_ok [OF assms, of i m] by auto
  next
    case False
    then show ?thesis using reserve_err [OF assms False, of m] assms by auto
  qed
  then show "inv (snd (bReserveIPIndex B i m p))" and "bCapacity B (snd (bReserveIPIndex B i m p)) = bCapacity B p"
    and "owner p j = Some m' \<Longrightarrow> owner (snd (bReserveIPIndex B i m p)) j = Some m'"
    and "i < bCapacity B p \<Longrightarrow> owner (snd (bReserveIPIndex B i m p)) i \<noteq> None"
    by blast+
qed

lemma exclude_loop_v4:
  fixes h :: "('p, 'c) DHCPHandler"
  assumes "inv (dh_available h)" and "To4 (dh_start h) = be_PutUint32 s"
  shows "\<exists>h'. exclude_loop B (map v4 ws) h = Ret h' \<and> inv (dh_available h') \<and>
    bCapacity B (dh_available h') = bCapacity B (dh_available h) \<and>
    (\<forall>i m. owner (dh_available h) i = Some m \<longrightarrow> owner (dh_available h') i = Some m) \<and>
    (\<forall>w \<in> set ws. ucast (w - s) < bCapacity B (dh_available h) \<longrightarrow> owner (dh_available h') (ucast (w - s)) \<noteq> None)"
  using assms
proof (induction ws arbitrary: h)
  case (Cons w ws)
  let ?p = "snd (bReserveIPIndex B (ucast (w - s)) FakeMac (dh_available h))"
  note k = reserve_keeps [OF Cons.prems(1), where i = "ucast (w - s)" and m = FakeMac]
  obtain h' where h': "exclude_loop B (map v4 ws) (h\<lparr>dh_available := ?p\<rparr>) = Ret h'" "inv (dh_available h')"
    "bCapacity B (dh_available h') = bCapacity B ?p"
    "\<forall>i m. owner ?p i = Some m \<longrightarrow> owner (dh_available h') i = Some m"
    "\<forall>w \<in> set ws. ucast (w - s) < bCapacity B ?p \<longrightarrow> owner (dh_available h') (ucast (w - s)) \<noteq> None"
    using Cons.IH [of "h\<lparr>dh_available := ?p\<rparr>"] k(1) Cons.prems(2) by auto
  have "exclude_loop B (map v4 (w # ws)) h = Ret h'"
    using h'(1) pool_position_v4 [OF Cons.prems(2), of w] by simp
  moreover have "owner (dh_available h') (ucast (w - s)) \<noteq> None" if "ucast (w - s) < bCapacity B (dh_available h)"
    using k(4) [OF that] h'(4) by fastforce
  ultimately show ?case using h' k by auto
qed simp

end

lemma range_ips_v4: "range_ips (lo, hi) = map v4 (map (\<lambda>i. lo + of_nat i) [0..<Suc (unat hi - unat lo)])"
  by simp

lemma in_range: "lo \<le> w \<Longrightarrow> w \<le> hi \<Longrightarrow> w \<in> set (map (\<lambda>i. lo + of_nat i) [0..<Suc (unat hi - unat lo)])"
  for lo hi w :: u32
proof -
  assume le: "lo \<le> w" "w \<le> hi"
  have "lo + of_nat (unat w - unat lo) = w" using le(1) by (simp add: unat_sub [symmetric])
  moreover have "unat w - unat lo < Suc (unat hi - unat lo)" using le by (simp add: word_le_nat_alt)
  ultimately show ?thesis by (metis (no_types, lifting) atLeastLessThan_iff image_eqI le0 set_map set_upt)
qed

text \<open>
  Reserved addresses are kept out of the pool: for every list of ranges in the configuration
  \<open>ExcludeIP\<close> returns, and afterwards every address of every range that lies in the pool
  has an owner, so that it is not free to be handed out; addresses that had an owner keep it.
\<close>
theorem ExcludeIP_reserves:
  fixes h :: "(Memory, 'c) DHCPHandler"
  assumes "Inc_laws Inc" and "mem_random_inv (dh_available h)" and "To4 (dh_start h) = be_PutUint32 s"
    and "rs \<noteq> []" and "\<forall>(lo, hi) \<in> set rs. lo \<le> hi"
  shows "\<exists>ips h'. ExcludeIP memory_backend Inc h (strings_Join (map range_text rs) '','') = Some (Ret (ips, h')) \<and>
    mem_random_inv (dh_available h') \<and>
    (\<forall>i m. mem_owner (dh_available h) i = Some m \<longrightarrow> mem_owner (dh_available h') i = Some m) \<and>
    (\<forall>(lo, hi) \<in> set rs. \<forall>w. lo \<le> w \<and> w \<le> hi \<and> ucast (w - s) < Memory_Capacity (dh_available h) \<longrightarrow>
       mem_owner (dh_available h') (ucast (w - s)) \<noteq> None \<and> \<not> Memory_IsFreeIPAtIndex (ucast (w - s)) (dh_available h'))"
proof -
  let ?ws = "concat (map (\<lambda>(lo, hi). map (\<lambda>i. lo + of_nat i) [0..<Suc (unat hi - unat lo)]) rs)"
  have ips: "concat (map range_ips rs) = map v4 ?ws"
    by (induction rs) (auto simp del: upt_Suc)
  have B: "bCapacity memory_backend = Memory_Capacity" "bIsFreeIPAtIndex memory_backend = Memory_IsFreeIPAtIndex"
    by (simp_all add: memory_backend_def)
  obtain h' where h': "exclude_loop memory_backend (map v4 ?ws) h = Ret h'" "mem_random_inv (dh_available h')"
    "\<forall>i m. mem_owner (dh_available h) i = Some m \<longrightarrow> mem_owner (dh_available h') i = Some m"
    "\<forall>w \<in> set ?ws. ucast (w - s) < Memory_Capacity (dh_available h) \<longrightarrow> mem_owner (dh_available h') (ucast (w - s)) \<noteq> None"
    using memory.exclude_loop_v4 [OF assms(2,3), of ?ws] unfolding B by auto
  have "ExcludeIP memory_backend Inc h (strings_Join (map range_text rs) '','') = Some (Ret (map v4 ?ws, h'))"
    using IPsFromRange_ranges_list [OF assms(1,4,5)] h'(1) by (simp add: ExcludeIP_def ips)
  moreover have "mem_owner (dh_available h') (ucast (w - s)) \<noteq> None \<and> \<not> Memory_IsFreeIPAtIndex (ucast (w - s)) (dh_available h')"
    if r: "(lo, hi) \<in> set rs" "lo \<le> w" "w \<le> hi" "ucast (w - s) < Memory_Capacity (dh_available h)" for lo hi w
  proof -
    have "w \<in> set ?ws" using r(1) in_range [OF r(2,3)] by (auto simp del: upt_Suc)
    with h'(4) r(4) have "mem_owner (dh_available h') (ucast (w - s)) \<noteq> None" by blast
    then show ?thesis using memory.is_free [OF h'(2), of "ucast (w - s)"] by (simp add: B)
  qed
  ultimately show ?thesis using h' by blast
qed

text \<open>A handler of a small pool, for the examples.\<close>

definition demo_scope :: "(Memory, list_store) DHCPHandler" where
  "demo_scope =
     \<lparr>dh_ip = [10, 0, 0, 1], dh_vip = [], dh_options = fmempty, dh_start = v4 0x0A000002, dh_leaseRange = 4,
      dh_leaseDuration = seconds 3600, dh_hwcache = [], dh_xid = [],
      dh_available = fst (NewMemoryPool (\<lambda>i. 0) 4 ''demo'' Random), dh_layer2 = True, dh_role = ''none'',
      dh_ipReserved = [], dh_ipAssigned = fmempty, dh_pending = []\<rparr>"

lemma demo_scope_inv: "mem_random_inv (dh_available demo_scope)" "Memory_Capacity (dh_available demo_scope) = 4"
  "mem_owner (dh_available demo_scope) = (\<lambda>_. None)"
proof -
  obtain dp e where new: "NewMemoryPool (\<lambda>i. 0) 4 ''demo'' Random = (dp, e)" by (metis prod.collapse)
  then have d: "dh_available demo_scope = dp" by (simp add: demo_scope_def)
  show "mem_random_inv (dh_available demo_scope)" "Memory_Capacity (dh_available demo_scope) = 4"
    "mem_owner (dh_available demo_scope) = (\<lambda>_. None)"
    unfolding d using NewMemoryPool_fields [OF new]
    by (simp_all add: mem_random_inv_def Memory_Capacity_def Random_def OldestReleased_def)
qed

lemma ExcludeIP_reserves_witness:
  "\<exists>ips h'. ExcludeIP memory_backend v4_inc demo_scope (strings_Join (map range_text [(0x0A000003, 0x0A000004)]) '','') =
      Some (Ret (ips, h')) \<and>
    mem_owner (dh_available h') 1 \<noteq> None \<and> mem_owner (dh_available h') 2 \<noteq> None"
proof -
  have start: "To4 (dh_start demo_scope) = be_PutUint32 0x0A000002" by (simp add: demo_scope_def)
  obtain ips h' where x: "ExcludeIP memory_backend v4_inc demo_scope (strings_Join (map range_text [(0x0A000003, 0x0A000004)]) '','') =
      Some (Ret (ips, h'))"
    and f: "\<forall>w :: u32. 0x0A000003 \<le> w \<and> w \<le> 0x0A000004 \<and> ucast (w - 0x0A000002) < Memory_Capacity (dh_available demo_scope) \<longrightarrow>
       mem_owner (dh_available h') (ucast (w - 0x0A000002)) \<noteq> None \<and>
       \<not> Memory_IsFreeIPAtIndex (ucast (w - 0x0A000002)) (dh_available h')"
    using ExcludeIP_reserves [OF v4_inc_laws demo_scope_inv(1) start, of "[(0x0A000003, 0x0A000004)]"] by auto
  have "mem_owner (dh_available h') 1 \<noteq> None" "mem_owner (dh_available h') 2 \<noteq> None"
    using f [rule_format, of "0x0A000003"] f [rule_format, of "0x0A000004"] by (simp_all add: demo_scope_inv)
  with x show ?thesis by blast
qed

section \<open>Leases behind an excluded address\<close>

lemma initia_loop_found: "None \<notin> set rows \<Longrightarrow> initia_loop B C now skip rows True st = Ret st"
proof (induction rows)
  case (Cons r rows)
  then show ?case by (cases r) auto
qed simp

text \<open>
  The leases behind an excluded address are lost: when the rows of the database contain one
  whose address is excluded or statically assigned, \<open>initiaLease\<close> loads the rows before it
  and none of those after it, because \<open>found\<close> is not reset.
\<close>
theorem initiaLease_stops_at_excluded:
  assumes "None \<notin> set pre" and "None \<notin> set post"
    and "ans \<in> set skip" and "ip_Equal (ParseIP (il_ip row)) ans"
  shows "initia_loop B C now skip (pre @ Some row # post) False st = initia_loop B C now skip pre False st"
proof -
  have ex: "list_ex (\<lambda>ans. ip_Equal (ParseIP (il_ip row)) ans) skip" using assms(3,4) by (auto simp: list_ex_iff)
  have "initia_loop B C now skip (pre @ Some row # post) found st = initia_loop B C now skip pre found st" for found
    using assms(1)
  proof (induction pre arbitrary: found st)
    case Nil
    then show ?case using ex initia_loop_found [OF assms(2)] by simp
  next
    case (Cons r pre)
    then obtain row' where "r = Some row'" by (cases r) auto
    with Cons show ?case
      by (cases "initia_row B C now row' st") (simp_all add: Let_def)
  qed
  then show ?thesis .
qed

lemma initiaLease_stops_at_excluded_witness:
  "\<forall>g. initia_loop memory_backend list_cache 0 [v4 0x0A000003]
     [Some \<lparr>il_ip = ''10.0.0.3'', il_mac = ''a'', il_end = None\<rparr>, Some \<lparr>il_ip = ''10.0.0.4'', il_mac = ''b'', il_end = None\<rparr>]
     False (demo_scope, g) = Ret (demo_scope, g)"
proof -
  have "ParseIP ''10.0.0.3'' = v4 0x0A000003" by (simp add: parse_literal v4_def IPv4_def be_PutUint32_def)
  then show ?thesis
    using initiaLease_stops_at_excluded [of "[]" "[Some \<lparr>il_ip = ''10.0.0.4'', il_mac = ''b'', il_end = None\<rparr>]"
        "v4 0x0A000003" "[v4 0x0A000003]" "\<lparr>il_ip = ''10.0.0.3'', il_mac = ''a'', il_end = None\<rparr>"]
    by simp
qed

text \<open>The update of \<open>ip4log\<close> never happens: the queries select four columns and scan one.\<close>

lemma MysqlUpdateIP4Log_no_update:
  "length cols = 4 \<Longrightarrow> \<exists>e. MysqlUpdateIP4Log None (Some cols) ip2mac IPClose mac x duration = (Some e, [])"
  by (auto simp: MysqlUpdateIP4Log_def row_Scan1_def split: list.splits)

end
