(* ===== verification/PfdhcpServe.thy ===== *)
theory PfdhcpServe
  imports PfdhcpUtils
begin

text \<open>
  The packet handler of the DHCP server: \<open>ServeDHCP\<close> of \<open>src/go/cmd/pfdhcp/main.go\<close>, split at
  its labels and cases. A packet is handled atomically: the lock of the transaction cache is
  free, and the other workers are not interleaved.

  \<^item> The panics behind \<open>defer recoverName\<close> end the call with the answer as it is, so a
    branch that panics returns the current answer and the current state. A panic before it
    (in \<open>NodeInformation\<close>) takes the process down: the outcome is \<open>Panic\<close>.
  \<^item> The jumps to \<open>retry\<close> are a recursion with fuel; without fuel the result is \<open>None\<close>.
  \<^item> The clock, the random choices of the pool, the ARP table and the pings are read once per
    attempt, so they are functions of the number of the attempt.
\<close>

section \<open>The environment of a call\<close>

record 'd serve_env =
  ev_clock :: "nat \<Rightarrow> int"
  ev_choice :: "nat \<Rightarrow> choice"
  ev_arp :: "nat \<Rightarrow> string \<Rightarrow> string"
  ev_ping :: "nat \<Rightarrow> ip \<Rightarrow> ip \<Rightarrow> bool"
  ev_source :: "int \<Rightarrow> nat \<Rightarrow> nat"
  ev_prio :: "u8 \<Rightarrow> nat"
  ev_db :: "'d sql_db"
  ev_dbstate :: 'd
  ev_unmarshal :: "string \<Rightarrow> Options list option"
  ev_filter :: "string \<Rightarrow> string \<Rightarrow> (string, string) gomap \<Rightarrow> string + iface"
  ev_node :: "string \<Rightarrow> query_result"
  ev_xidString :: "bytes \<Rightarrow> string"
  ev_dhcp4 :: dhcp4

text \<open>\<open>hwcache.Delete\<close>: the eviction hook starts a goroutine that frees the index.\<close>

definition hw_Delete :: "'c gocache \<Rightarrow> string \<Rightarrow> ('p, 'c) DHCPHandler \<Rightarrow> ('p, 'c) DHCPHandler" where
  "hw_Delete C mac h =
     (case gcDelete C mac (dh_hwcache h) of (evicted, c) \<Rightarrow>
        h\<lparr>dh_hwcache := c,
          dh_pending := dh_pending h @ (case evicted of Some (IInt n) \<Rightarrow> [of_int n] | _ \<Rightarrow> [])\<rparr>)"

definition hw_Set :: "'c gocache \<Rightarrow> int \<Rightarrow> string \<Rightarrow> int \<Rightarrow> int \<Rightarrow> ('p, 'c) DHCPHandler \<Rightarrow> ('p, 'c) DHCPHandler" where
  "hw_Set C now mac index d h = h\<lparr>dh_hwcache := gcSet C now mac (IInt index) d (dh_hwcache h)\<rparr>"

definition reserve :: "'p Backend \<Rightarrow> int \<Rightarrow> string \<Rightarrow> ('p, 'c) DHCPHandler \<Rightarrow> (string \<times> go_err) \<times> ('p, 'c) DHCPHandler" where
  "reserve B index mac h =
     (case bReserveIPIndex B (of_int index) mac (dh_available h) of (r, p) \<Rightarrow> (r, h\<lparr>dh_available := p\<rparr>))"

text \<open>One of the started goroutines runs.\<close>

definition run_pending :: "'p Backend \<Rightarrow> int \<Rightarrow> nat \<Rightarrow> ('p, 'c) DHCPHandler \<Rightarrow> ('p, 'c) DHCPHandler" where
  "run_pending B now i h =
     (if i < length (dh_pending h)
      then h\<lparr>dh_available := snd (bFreeIPIndex B now (dh_pending h ! i) (dh_available h)),
             dh_pending := take i (dh_pending h) @ drop (Suc i) (dh_pending h)\<rparr>
      else h)"

section \<open>Which network\<close>

definition node_category :: "NodeInfo \<Rightarrow> string" where
  "node_category n = (if ni_Category n = [] \<or> ni_Status n = ''unreg'' then ''registration'' else ni_Category n)"

text \<open>
  The loop over the networks: the number of the network chosen and whether it is one of a
  split network. \<open>node\<close> is the entry of \<open>NodeCache\<close>.
\<close>

fun select_network ::
  "query_result \<Rightarrow> ip \<Rightarrow> ip \<Rightarrow> nat \<Rightarrow> NodeInfo option \<Rightarrow> ('p, 'c) Network list \<Rightarrow> (nat \<times> bool) option outcome" where
  "select_network q gi ci i node [] = Ret None"
| "select_network q gi ci i node (v # vs) =
     (let next_checks =
            (if ip_Equal gi IPv4zero \<and> net_Contains (nw_network v) ci then Ret (Some (i, False))
             else if \<not> ip_Equal gi IPv4zero \<and> net_Contains (nw_network v) gi \<or> net_Contains (nw_network v) ci
             then Ret (Some (i, False))
             else select_network q gi ci (Suc i) node vs)
      in if dh_layer2 (nw_dhcpHandler v) \<and> (ip_Equal gi IPv4zero \<or> net_Contains (nw_network v) ci) then
           (if nw_splittednet v then
              go_bind (case node of Some n \<Rightarrow> Ret n | None \<Rightarrow> NodeInformation q) (\<lambda>n.
                if dh_role (nw_dhcpHandler v) = node_category n then Ret (Some (i, True))
                else select_network q gi ci (Suc i) (Some n) vs)
            else if \<not> ip_Equal ci IPv4zero \<and> \<not> net_Contains (nw_network v) ci
            then select_network q gi ci (Suc i) node vs
            else Ret (Some (i, False)))
         else next_checks)"

section \<open>The options of a packet as text\<close>

definition lower_first :: "string \<Rightarrow> string outcome" where
  "lower_first s = (case s of
     [] \<Rightarrow> Panic ''index out of range''
   | c # cs \<Rightarrow> Ret (char_of (or (of_char c :: nat) 32) # cs))"

definition option_string :: "dhcp4 \<Rightarrow> dhcp_options \<Rightarrow> u8 \<Rightarrow> (string, string) gomap outcome \<Rightarrow> (string, string) gomap outcome" where
  "option_string D options code acc =
     go_bind acc (\<lambda>m.
       go_bind (lower_first (pkOptionString D code)) (\<lambda>key.
         if Tlv_Transform code = None then Ret m
         else go_bind (Tlv_String code (gm_get [] options code)) (\<lambda>s. Ret (fmupd key s m))))"

definition option_strings :: "dhcp4 \<Rightarrow> (u8 \<Rightarrow> nat) \<Rightarrow> dhcp_options \<Rightarrow> (string, string) gomap outcome" where
  "option_strings D prio options = fold (option_string D options) (range_keys prio options) (Ret fmempty)"

section \<open>DISCOVER\<close>

text \<open>How the search for an address ends: an index to offer, or no reply.\<close>

datatype discovery = Found int | NoReply

text \<open>Before the label \<open>retry\<close>: \<open>None\<close> means that control reaches it.\<close>

definition discover_known ::
  "'p Backend \<Rightarrow> 'c gocache \<Rightarrow> int \<Rightarrow> string \<Rightarrow> ('p, 'c) DHCPHandler \<Rightarrow> discovery option \<times> ('p, 'c) DHCPHandler" where
  "discover_known B C now mac h =
     (case fmlookup (dh_ipAssigned h) mac of
        Some position \<Rightarrow> (Some (Found (uint position)), h)
      | None \<Rightarrow>
          (case gcGet C now mac (dh_hwcache h) of
             None \<Rightarrow> (None, h)
           | Some x \<Rightarrow>
               (case assert_int x of
                  Panic _ \<Rightarrow> (Some NoReply, h)
                | Ret n \<Rightarrow>
                    let (_, returnedMac, err) = bGetMACIndex B (of_int n) (dh_available h);
                        (go_on, h1) =
                          (if returnedMac = mac then (True, h)
                           else if returnedMac = FreeMac then
                             (case reserve B n mac (hw_Delete C mac h) of ((m, e), h2) \<Rightarrow>
                                (e = None \<and> m = mac, h2))
                           else (False, h))
                    in if \<not> go_on then (None, h1)
                       else (case gcReplace C now mac (IInt n) (seconds 5) (dh_hwcache h1) of (e, c) \<Rightarrow>
                               (Some (if e \<noteq> None then NoReply else Found n), h1\<lparr>dh_hwcache := c\<rparr>)))))"

text \<open>
  The address the client asks for (option 50), tried once: \<open>Inl\<close> goes back to \<open>retry\<close>, a
  panic of the conversions is \<open>None\<close>.
\<close>

definition discover_requested ::
  "'p Backend \<Rightarrow> string \<Rightarrow> bytes \<Rightarrow> int \<Rightarrow> ('p, 'c) DHCPHandler \<Rightarrow>
   (('p, 'c) DHCPHandler + int \<times> ('p, 'c) DHCPHandler) option" where
  "discover_requested B mac requested free h =
     (case go_bind (be_Uint32 requested) (\<lambda>a. go_bind (be_Uint32 (To4 (dh_start h))) (\<lambda>b. Ret (a - b))) of
        Panic _ \<Rightarrow> None
      | Ret element \<Rightarrow>
          (let (_, returnedMac, err) = bGetMACIndex B (ucast element) (dh_available h) in
           if err = None \<and> returnedMac = mac then Some (Inr (uint element, h))
           else if err = None \<and> returnedMac = FreeMac then
             (case bReserveIPIndex B (ucast element) mac (dh_available h) of ((m, e), p) \<Rightarrow>
                let h' = h\<lparr>dh_available := p\<rparr> in
                if e \<noteq> None then Some (Inl h')
                else Some (Inr (if m = mac then uint element else free, h')))
           else Some (Inl h)))"

definition in_arp :: "'d serve_env \<Rightarrow> nat \<Rightarrow> string \<Rightarrow> int \<Rightarrow> ('p, 'c) DHCPHandler \<Rightarrow> bool" where
  "in_arp env att mac free h \<longleftrightarrow>
     dh_layer2 h \<and>
     (let m = ev_arp env att (ip_String (pkIPAdd (ev_dhcp4 env) (dh_start h) free))
      in m \<noteq> [] \<and> m \<noteq> FreeMac \<and> mac \<noteq> m)"

text \<open>
  After an index is chosen: it is put in the caches, and the address is probed. \<open>Inl\<close> goes back
  to \<open>retry\<close>.
\<close>

definition discover_probe ::
  "'d serve_env \<Rightarrow> 'p Backend \<Rightarrow> 'c gocache \<Rightarrow> ip \<Rightarrow> string \<Rightarrow> bytes \<Rightarrow> nat \<Rightarrow> int \<Rightarrow> ('p, 'c) DHCPHandler \<Rightarrow>
   ('p, 'c) DHCPHandler + ('p, 'c) DHCPHandler" where
  "discover_probe env B C srvIP mac xid att free h =
     (let now = ev_clock env att;
          D = ev_dhcp4 env;
          h1 = hw_Set C now mac free (seconds 5) h;
          h1 = h1\<lparr>dh_xid := gcSet C now (ev_xidString env xid) (IInt 0) (seconds 5) (dh_xid h1)\<rparr>;
          inarp = in_arp env att mac free h;
          pingreply = ev_ping env att (To4 (setOptionServerIdentifier srvIP (dh_ip h))) (pkIPAdd D (dh_start h) free)
      in if pingreply \<or> inarp then
           let h2 = hw_Delete C mac h1;
               (_, h3) = reserve B free FakeMac h2
           in Inl (h3\<lparr>dh_pending := dh_pending h3 @ [of_int free]\<rparr>)
         else
           let h2 = hw_Set C now mac free (seconds 5) h1
           in Inr (h2\<lparr>dh_xid := snd (gcReplace C now (ev_xidString env xid) (IInt 1) (seconds 5) (dh_xid h2))\<rparr>))"

fun discover_retry ::
  "nat \<Rightarrow> 'd serve_env \<Rightarrow> 'p Backend \<Rightarrow> 'c gocache \<Rightarrow> ip \<Rightarrow> string \<Rightarrow> bytes \<Rightarrow> bytes option \<Rightarrow>
   nat \<Rightarrow> bool \<Rightarrow> int \<Rightarrow> ('p, 'c) DHCPHandler \<Rightarrow> (discovery \<times> ('p, 'c) DHCPHandler) option" where
  "discover_retry 0 env B C srvIP mac xid requested att firstTry free h = None"
| "discover_retry (Suc fuel) env B C srvIP mac xid requested att firstTry free h =
     (if bFreeIPsRemaining B (dh_available h) > 0 then
        (case (if requested \<noteq> None \<and> firstTry then discover_requested B mac (the requested) free h else Some (Inr (free, h))) of
           None \<Rightarrow> Some (NoReply, h)
         | Some (Inl h') \<Rightarrow> discover_retry fuel env B C srvIP mac xid requested (Suc att) False free h'
         | Some (Inr (free, h)) \<Rightarrow>
             (let (chosen, h) =
                    (if free = -1 then
                       (case bGetFreeIPIndex B (ev_choice env att) mac (dh_available h) of ((i, _, err), p) \<Rightarrow>
                          (if err \<noteq> None then None else Some (sint i), h\<lparr>dh_available := p\<rparr>))
                     else (Some free, h))
              in case chosen of
                   None \<Rightarrow> Some (NoReply, h)
                 | Some free \<Rightarrow>
                     (case discover_probe env B C srvIP mac xid att free h of
                        Inr h' \<Rightarrow> Some (Found free, h')
                      | Inl h' \<Rightarrow> discover_retry fuel env B C srvIP mac xid requested (Suc att) False 0 h')))
      else Some (NoReply, h))"

section \<open>The options of a reply\<close>

text \<open>The handler's options, with the name servers and routers shuffled by the last byte of the client's address.\<close>

definition base_option ::
  "'d serve_env \<Rightarrow> int \<Rightarrow> bytes \<Rightarrow> dhcp_options \<Rightarrow> u8 \<Rightarrow> dhcp_options outcome \<Rightarrow> dhcp_options outcome" where
  "base_option env now mac options key acc =
     go_bind acc (\<lambda>m.
       let val = gm_get [] options key in
       if key = OptionDomainNameServer \<or> key = OptionRouter then
         go_bind (slice_get mac 5) (\<lambda>b. go_bind (ShuffleIP (ev_source env) now val (uint b)) (\<lambda>v. Ret (fmupd key v m)))
       else Ret (fmupd key val m))"

definition base_options :: "'d serve_env \<Rightarrow> int \<Rightarrow> bytes \<Rightarrow> ('p, 'c) DHCPHandler \<Rightarrow> dhcp_options outcome" where
  "base_options env now mac h = fold (base_option env now mac (dh_options h)) (range_keys (ev_prio env) (dh_options h)) (Ret fmempty)"

definition decode :: "'d serve_env \<Rightarrow> string \<Rightarrow> (dhcp_options \<times> go_err) outcome" where
  "decode env object = fst (decodeOptions (ev_db env) (ev_unmarshal env) object (ev_dbstate env))"

definition add_devices :: "'d serve_env \<Rightarrow> string \<Rightarrow> int \<times> dhcp_options \<Rightarrow> (int \<times> dhcp_options) outcome" where
  "add_devices env object st = fst (AddDevicesOptions (ev_db env) (ev_unmarshal env) (ev_prio env) object st (ev_dbstate env))"

definition zero_lease :: "int \<times> dhcp_options \<Rightarrow> int \<times> dhcp_options" where
  "zero_lease st = (if gm_has (snd st) OptionIPAddressLeaseTime then (0, snd st) else st)"

text \<open>
  The reply to a request: what \<open>ReplyPacket\<close> is given. The list of parameters comes from the
  map of reply options, because the inner variable \<open>options\<close> hides the client's.
\<close>

definition reply_with :: "'d serve_env \<Rightarrow> nat \<Rightarrow> ip \<Rightarrow> ip \<Rightarrow> int \<times> dhcp_options \<Rightarrow> dhcp_reply" where
  "reply_with env t server yiaddr st =
     Reply t server yiaddr (fst st)
       (pkSelectOrderOrAll (ev_dhcp4 env) (snd st) (gm_get [] (snd st) OptionParameterRequestList))"

definition nak :: "ip \<Rightarrow> dhcp_reply" where
  "nak server = Reply NAK server [] 0 []"

text \<open>From the label \<open>reply\<close>: an offer, a refusal, or nothing when a conversion panics.\<close>

definition discover_reply ::
  "'d serve_env \<Rightarrow> 'c gocache \<Rightarrow> int \<Rightarrow> string \<Rightarrow> bytes \<Rightarrow> ip \<Rightarrow> ip \<Rightarrow> (string, string) gomap \<Rightarrow> IPNet \<Rightarrow> int \<Rightarrow>
   ('p, 'c) DHCPHandler \<Rightarrow> Answer \<Rightarrow> 'c Globals \<Rightarrow> Answer \<times> 'c Globals" where
  "discover_reply env C now msg macb srvIP ifIP Options NetScope free h answer g =
     (let mac = mac_String macb;
          server = To4 (setOptionServerIdentifier srvIP (dh_ip h));
          answer = answer\<lparr>an_IP := pkIPAdd (ev_dhcp4 env) (dh_start h) free, an_SrcIP := ifIP\<rparr>
      in case go_bind (base_options env now macb h) (\<lambda>opts.
                go_bind (decode env (ip_String (net_IP NetScope))) (\<lambda>(x, err).
                  Ret (if err = None then add_options (ev_prio env) x (dh_leaseDuration h, opts)
                       else (dh_leaseDuration h, opts)))) of
           Panic _ \<Rightarrow> (answer, g)
         | Ret st \<Rightarrow>
             let (info, g) = GetFromGlobalFilterCache C now (ev_filter env) msg mac Options g in
             case AddPffilterDevicesOptions info (snd st) of
               Panic _ \<Rightarrow> (answer, g)
             | Ret (Some reject, _) \<Rightarrow> (answer\<lparr>an_D := Some (nak server)\<rparr>, g)
             | Ret (None, opts) \<Rightarrow>
                 (case go_bind (decode env mac) (\<lambda>(x, err).
                         Ret (if err = None then add_options (ev_prio env) x (zero_lease (fst st, opts))
                              else zero_lease (fst st, opts))) of
                    Panic _ \<Rightarrow> (answer, g)
                  | Ret st \<Rightarrow> (answer\<lparr>an_D := Some (reply_with env Offer server (an_IP answer) st)\<rparr>, g)))"

definition serve_discover ::
  "nat \<Rightarrow> 'd serve_env \<Rightarrow> 'p Backend \<Rightarrow> 'c gocache \<Rightarrow> string \<Rightarrow> bytes \<Rightarrow> ip \<Rightarrow> ip \<Rightarrow> bytes \<Rightarrow> dhcp_options \<Rightarrow>
   (string, string) gomap \<Rightarrow> IPNet \<Rightarrow> Answer \<Rightarrow> ('p, 'c) DHCPHandler \<times> 'c Globals \<Rightarrow>
   (Answer \<times> ('p, 'c) DHCPHandler \<times> 'c Globals) option" where
  "serve_discover fuel env B C msg macb srvIP ifIP xid options Options NetScope answer st =
     (case st of (h, g) \<Rightarrow>
        let mac = mac_String macb;
            found = (case discover_known B C (ev_clock env 0) mac h of
                       (Some r, h') \<Rightarrow> Some (r, h')
                     | (None, h') \<Rightarrow>
                         discover_retry fuel env B C srvIP mac xid (fmlookup options OptionRequestedIPAddress) 0 True (-1) h')
        in Option.bind found (\<lambda>(r, h').
             case r of
               NoReply \<Rightarrow> Some (answer, h', g)
             | Found free \<Rightarrow>
                 (case discover_reply env C (ev_clock env 0) msg macb srvIP ifIP Options NetScope free h' answer g of
                    (answer', g') \<Rightarrow> Some (answer', h', g'))))"

section \<open>REQUEST and INFORM\<close>

text \<open>The address asked for: option 50, or the client's address field.\<close>

definition requested_ip :: "dhcp_options \<Rightarrow> ip \<Rightarrow> ip" where
  "requested_ip options ci = (case fmlookup options OptionRequestedIPAddress of Some x \<Rightarrow> x | None \<Rightarrow> ci)"

definition other_server :: "dhcp_options \<Rightarrow> ip \<Rightarrow> ip \<Rightarrow> bool" where
  "other_server options srvIP handlerIP =
     (case gm_get [] options OptionServerIdentifier of
        [a, b, c, d] \<Rightarrow>
          \<not> ip_Equal (IPv4 a b c d) (To4 (setOptionServerIdentifier srvIP handlerIP)) \<and>
          \<not> ip_Equal (IPv4 a b c d) (To4 handlerIP)
      | _ \<Rightarrow> False)"

datatype decision = Ack int | Refuse | Silent | Empty

text \<open>Whether the request is granted, with the changes of the caches on the way.\<close>

definition request_dynamic ::
  "'d serve_env \<Rightarrow> 'c gocache \<Rightarrow> int \<Rightarrow> string \<Rightarrow> string \<Rightarrow> bytes \<Rightarrow> ip \<Rightarrow> ('p, 'c) DHCPHandler \<times> 'c Globals \<Rightarrow>
   decision \<times> ('p, 'c) DHCPHandler \<times> 'c Globals" where
  "request_dynamic env C now mac cacheKey xid reqIP st =
     (case st of (h, g) \<Rightarrow>
        case gcGet C now mac (dh_hwcache h) of
          None \<Rightarrow> (Empty, h, g)
        | Some x \<Rightarrow>
            (case assert_int x of
               Panic _ \<Rightarrow> (Silent, h, g)
             | Ret index \<Rightarrow>
                 if ip_Equal (pkIPAdd (ev_dhcp4 env) (dh_start h) index) reqIP then
                   (if gcGet C now cacheKey (RequestGlobalTransactionCache g) \<noteq> None then (Silent, h, g)
                    else (Ack index, h,
                          g\<lparr>RequestGlobalTransactionCache :=
                              gcSet C now cacheKey (IInt 1) (seconds 1) (RequestGlobalTransactionCache g)\<rparr>))
                 else
                   (case be_Uint32 xid of
                      Panic _ \<Rightarrow> (Silent, h, g)
                    | Ret x \<Rightarrow>
                        (case gcGet C now (dec_nat (unat x)) (dh_xid h) of
                           None \<Rightarrow> (Refuse, h, g)
                         | Some y \<Rightarrow>
                             (case assert_int y of
                                Panic _ \<Rightarrow> (Silent, h, g)
                              | Ret n \<Rightarrow> (Refuse, if n = 1 then hw_Delete C mac h else h, g))))))"

definition request_decide ::
  "'d serve_env \<Rightarrow> 'c gocache \<Rightarrow> int \<Rightarrow> string \<Rightarrow> string \<Rightarrow> bytes \<Rightarrow> ip \<Rightarrow> ('p, 'c) DHCPHandler \<times> 'c Globals \<Rightarrow>
   decision \<times> ('p, 'c) DHCPHandler \<times> 'c Globals" where
  "request_decide env C now mac cacheKey xid reqIP st =
     (let leaseNum = pkIPRange (ev_dhcp4 env) (dh_start (fst st)) reqIP - 1 in
      if 0 \<le> leaseNum \<and> leaseNum < dh_leaseRange (fst st) then
        (case fmlookup (dh_ipAssigned (fst st)) mac of
           Some position \<Rightarrow> (if uint position = leaseNum then Ack (uint position) else Refuse, st)
         | None \<Rightarrow> request_dynamic env C now mac cacheKey xid reqIP st)
      else (Refuse, st))"

definition cache_duration :: "int \<Rightarrow> int" where
  "cache_duration leaseDuration = (if leaseDuration < seconds 60 then seconds 120 else leaseDuration + seconds 60)"

definition request_ack ::
  "'d serve_env \<Rightarrow> 'p Backend \<Rightarrow> 'c gocache \<Rightarrow> int \<Rightarrow> string \<Rightarrow> bytes \<Rightarrow> ip \<Rightarrow> (string, string) gomap \<Rightarrow> IPNet \<Rightarrow>
   ip \<Rightarrow> int \<Rightarrow> Answer \<Rightarrow> ('p, 'c) DHCPHandler \<times> 'c Globals \<Rightarrow> Answer \<times> ('p, 'c) DHCPHandler \<times> 'c Globals" where
  "request_ack env B C now msg macb srvIP Options NetScope reqIP Index answer st =
     (case st of (h, g) \<Rightarrow>
        let mac = mac_String macb; server = To4 (setOptionServerIdentifier srvIP (dh_ip h)) in
        case go_bind (base_options env now macb h) (\<lambda>opts.
               go_bind (add_devices env (ip_String (net_IP NetScope)) (dh_leaseDuration h, opts)) (add_devices env mac)) of
          Panic _ \<Rightarrow> (answer, h, g)
        | Ret lo \<Rightarrow>
            let (info, g) = GetFromGlobalFilterCache C now (ev_filter env) msg mac Options g in
            case AddPffilterDevicesOptions info (snd lo) of
              Panic _ \<Rightarrow> (answer, h, g)
            | Ret (Some reject, _) \<Rightarrow> (answer\<lparr>an_D := Some (nak server)\<rparr>, h, g)
            | Ret (None, opts) \<Rightarrow>
                let lo = zero_lease (fst lo, opts);
                    d = cache_duration (fst lo);
                    g = g\<lparr>GlobalIPCache := gcSet C now (ip_String reqIP) (IStr mac) d (GlobalIPCache g),
                          GlobalMacCache := gcSet C now mac (IStr (ip_String reqIP)) d (GlobalMacCache g)\<rparr>;
                    (_, h) = reserve B Index mac (hw_Set C now mac Index d h)
                in (answer\<lparr>an_D := Some (reply_with env ACK server reqIP lo)\<rparr>, h, g))"

definition empty_answer :: Answer where
  "empty_answer = \<lparr>an_D = None, an_IP = [], an_MAC = [], an_SrcIP = []\<rparr>"

definition serve_request ::
  "'d serve_env \<Rightarrow> 'p Backend \<Rightarrow> 'c gocache \<Rightarrow> string \<Rightarrow> bytes \<Rightarrow> ip \<Rightarrow> bytes \<Rightarrow> ip \<Rightarrow> dhcp_options \<Rightarrow>
   (string, string) gomap \<Rightarrow> IPNet \<Rightarrow> Answer \<Rightarrow> ('p, 'c) DHCPHandler \<times> 'c Globals \<Rightarrow>
   Answer \<times> ('p, 'c) DHCPHandler \<times> 'c Globals" where
  "serve_request env B C msg macb srvIP xid ci options Options NetScope answer st =
     (let now = ev_clock env 0;
          mac = mac_String macb;
          reqIP = requested_ip options ci;
          server = To4 (setOptionServerIdentifier srvIP (dh_ip (fst st)));
          cacheKey = mac @ '' '' @ msg @ '' xID '' @ ev_xidString env xid
      in if other_server options srvIP (dh_ip (fst st)) then (empty_answer, st)
         else
           let answer = answer\<lparr>an_IP := reqIP\<rparr> in
           if length reqIP = 4 \<and> \<not> ip_Equal reqIP IPv4zero then
             (case request_decide env C now mac cacheKey xid reqIP st of
                (Ack Index, st) \<Rightarrow> request_ack env B C now msg macb srvIP Options NetScope reqIP Index answer st
              | (Refuse, st) \<Rightarrow> (answer\<lparr>an_D := Some (nak server)\<rparr>, st)
              | (Silent, st) \<Rightarrow> (answer, st)
              | (Empty, st) \<Rightarrow> (empty_answer, st))
           else (answer\<lparr>an_D := Some (nak server)\<rparr>, st))"

section \<open>RELEASE and DECLINE\<close>

definition give_back ::
  "'p Backend \<Rightarrow> 'c gocache \<Rightarrow> dhcp4 \<Rightarrow> int \<Rightarrow> string \<Rightarrow> ip \<Rightarrow> ('p, 'c) DHCPHandler \<Rightarrow> ('p, 'c) DHCPHandler" where
  "give_back B C D now mac reqIP h =
     (let leaseNum = pkIPRange D (dh_start h) reqIP - 1 in
      if 0 \<le> leaseNum \<and> leaseNum < dh_leaseRange h then
        (if map_option uint (fmlookup (dh_ipAssigned h) mac) = Some leaseNum then h
         else case gcGet C now mac (dh_hwcache h) of
           None \<Rightarrow> h
         | Some x \<Rightarrow>
             (case assert_int x of
                Panic _ \<Rightarrow> h
              | Ret n \<Rightarrow>
                  if leaseNum = n then
                    (let (_, returnedMac, _) = bGetMACIndex B (of_int n) (dh_available h) in
                     if returnedMac = mac then
                       let h1 = hw_Delete C mac h;
                           h2 = h1\<lparr>dh_available := snd (bFreeIPIndex B now (of_int leaseNum) (dh_available h1))\<rparr>;
                           (_, h3) = reserve B leaseNum FakeMac h2
                       in h3\<lparr>dh_pending := dh_pending h3 @ [of_int leaseNum]\<rparr>
                     else h)
                  else h))
      else h)"

definition serve_release ::
  "'d serve_env \<Rightarrow> 'p Backend \<Rightarrow> 'c gocache \<Rightarrow> string \<Rightarrow> ip \<Rightarrow> dhcp_options \<Rightarrow> ('p, 'c) DHCPHandler \<Rightarrow> ('p, 'c) DHCPHandler" where
  "serve_release env B C mac ci options h =
     give_back B C (ev_dhcp4 env) (ev_clock env 0) mac (requested_ip options ci) h"

definition serve_decline ::
  "'d serve_env \<Rightarrow> 'p Backend \<Rightarrow> 'c gocache \<Rightarrow> string \<Rightarrow> ip \<Rightarrow> dhcp_options \<Rightarrow> ('p, 'c) DHCPHandler \<Rightarrow> ('p, 'c) DHCPHandler" where
  "serve_decline env B C mac ci options h =
     give_back B C (ev_dhcp4 env) (ev_clock env 0) mac (requested_ip options ci) h"

section \<open>ServeDHCP\<close>

definition serve_message ::
  "nat \<Rightarrow> 'd serve_env \<Rightarrow> 'p Backend \<Rightarrow> 'c gocache \<Rightarrow> bytes \<Rightarrow> nat \<Rightarrow> ip \<Rightarrow> ip \<Rightarrow> (string, string) gomap \<Rightarrow> IPNet \<Rightarrow>
   Answer \<Rightarrow> ('p, 'c) DHCPHandler \<times> 'c Globals \<Rightarrow> (Answer \<times> ('p, 'c) DHCPHandler \<times> 'c Globals) option" where
  "serve_message fuel env B C p msgType srvIP ifIP Options NetScope answer st =
     (let D = ev_dhcp4 env;
          macb = pkCHAddr D p; mac = mac_String macb;
          options = pkParseOptions D p;
          msg = pkMessageString D msgType
      in if msgType = Discover then
           serve_discover fuel env B C msg macb srvIP ifIP (pkXId D p) options Options NetScope answer st
         else if msgType = DhcpRequest \<or> msgType = Inform then
           Some (serve_request env B C msg macb srvIP (pkXId D p) (pkCIAddr D p) options Options NetScope answer st)
         else if msgType = Release then
           Some (answer, serve_release env B C mac (pkCIAddr D p) options (fst st), snd st)
         else if msgType = Decline then
           Some (answer, serve_decline env B C mac (pkCIAddr D p) options (fst st), snd st)
         else
           Some (answer\<lparr>an_D := Some (nak (To4 (setOptionServerIdentifier srvIP (dh_ip (fst st)))))\<rparr>, st))"

definition set_handler :: "nat \<Rightarrow> ('p, 'c) DHCPHandler \<Rightarrow> ('p, 'c) Interface \<Rightarrow> ('p, 'c) Interface" where
  "set_handler i h I = I\<lparr>if_network := (if_network I)[i := (if_network I ! i)\<lparr>nw_dhcpHandler := h\<rparr>]\<rparr>"

definition ServeDHCP ::
  "nat \<Rightarrow> 'd serve_env \<Rightarrow> 'p Backend \<Rightarrow> 'c gocache \<Rightarrow> bytes \<Rightarrow> nat \<Rightarrow> ip \<Rightarrow> ('p, 'c) Interface \<times> 'c Globals \<Rightarrow>
   (Answer \<times> ('p, 'c) Interface \<times> 'c Globals) outcome option" where
  "ServeDHCP fuel env B C p msgType srvIP st =
     (case st of (I, g) \<Rightarrow>
        let D = ev_dhcp4 env;
            options = pkParseOptions D p;
            mac = mac_String (pkCHAddr D p);
            answer = \<lparr>an_D = None, an_IP = [], an_MAC = pkCHAddr D p, an_SrcIP = if_Ipv4 I\<rparr>
        in case select_network (ev_node env mac) (pkGIAddr D p) (pkCIAddr D p) 0 None (if_network I) of
             Panic m \<Rightarrow> Some (Panic m)
           | Ret None \<Rightarrow> Some (Ret (answer, I, g))
           | Ret (Some (i, split)) \<Rightarrow>
               let n = if_network I ! i;
                   h = nw_dhcpHandler n;
                   answer = (if split then answer\<lparr>an_SrcIP := dh_ip h\<rparr> else answer)
               in if dh_ip h = [] then Some (Ret (answer, I, g))
                  else if gm_get False (VIP g) (if_Name I) \<or> bListen B then
                    (case option_strings D (ev_prio env) options of
                       Panic _ \<Rightarrow> Some (Ret (answer, I, g))
                     | Ret Options \<Rightarrow>
                         let now = ev_clock env 0;
                             cacheKey = mac @ '' '' @ pkMessageString D msgType
                         in if gcGet C now cacheKey (GlobalTransactionCache g) \<noteq> None then Some (Ret (answer, I, g))
                            else
                              let g = g\<lparr>GlobalTransactionCache := gcSet C now cacheKey (IInt 3) (seconds 1) (GlobalTransactionCache g)\<rparr>
                              in map_option (\<lambda>(answer, h, g). Ret (answer, set_handler i h I, g))
                                   (serve_message fuel env B C p msgType srvIP (if_Ipv4 I) Options (nw_network n) answer (h, g)))
                  else Some (Ret (answer, I, g)))"

end
