(* ===== verification/PfdhcpServeSpec.thy ===== *)
theory PfdhcpServeSpec
  imports PfdhcpServe
begin

text \<open>
  What \<open>ServeDHCP\<close> guarantees, and where it does not: offers are reserved for the client, a
  grant follows an offer or a static assignment, repeated packets are ignored, a client that
  leaves gives its address back, and what happens when an address answers the probe. The
  lemmas on the pool are proved once for any backend (the locale \<open>pool_backend\<close>) and
  used for the in-memory one.
\<close>

section \<open>The packet library\<close>

definition dhcp4_laws :: "dhcp4 \<Rightarrow> bool" where
  "dhcp4_laws D \<longleftrightarrow>
     (\<forall>start w n. To4 start = be_PutUint32 w \<longrightarrow> pkIPAdd D start n = be_PutUint32 (w + of_int n)) \<and>
     (\<forall>start stop v w. To4 start = be_PutUint32 v \<and> To4 stop = be_PutUint32 w \<longrightarrow>
        pkIPRange D start stop = uint w - uint v + 1)"

lemma dhcp4_lawsD:
  assumes "dhcp4_laws D"
  shows "To4 start = be_PutUint32 w \<Longrightarrow> pkIPAdd D start n = be_PutUint32 (w + of_int n)"
    and "To4 start = be_PutUint32 v \<Longrightarrow> To4 stop = be_PutUint32 w \<Longrightarrow> pkIPRange D start stop = uint w - uint v + 1"
  using assms unfolding dhcp4_laws_def by blast+

section \<open>Offers\<close>

definition quiet :: "'d serve_env \<Rightarrow> bool" where
  "quiet env \<longleftrightarrow> (\<forall>att s t. \<not> ev_ping env att s t) \<and> (\<forall>att x. ev_arp env att x = [])"

lemma hw_Set_sel [simp]:
  "dh_available (hw_Set C now mac n d h) = dh_available h" "dh_pending (hw_Set C now mac n d h) = dh_pending h"
  "dh_start (hw_Set C now mac n d h) = dh_start h" "dh_ip (hw_Set C now mac n d h) = dh_ip h"
  "dh_hwcache (hw_Set C now mac n d h) = gcSet C now mac (IInt n) d (dh_hwcache h)"
  "dh_options (hw_Set C now mac n d h) = dh_options h" "dh_leaseRange (hw_Set C now mac n d h) = dh_leaseRange h" "dh_ipAssigned (hw_Set C now mac n d h) = dh_ipAssigned h"
  by (simp_all add: hw_Set_def)

lemma hw_Delete_sel [simp]:
  "dh_available (hw_Delete C mac h) = dh_available h" "dh_start (hw_Delete C mac h) = dh_start h"
  "dh_ip (hw_Delete C mac h) = dh_ip h" "dh_hwcache (hw_Delete C mac h) = snd (gcDelete C mac (dh_hwcache h))"
  "dh_leaseRange (hw_Delete C mac h) = dh_leaseRange h" "dh_ipAssigned (hw_Delete C mac h) = dh_ipAssigned h"
  by (simp_all add: hw_Delete_def split_beta)

lemma quiet_probe:
  assumes "quiet env"
  obtains h' where "discover_probe env B C srvIP mac xid att free h = Inr h'"
    and "dh_available h' = dh_available h" and "dh_start h' = dh_start h" and "dh_ip h' = dh_ip h"
    and "dh_leaseRange h' = dh_leaseRange h" and "dh_ipAssigned h' = dh_ipAssigned h" and "dh_options h' = dh_options h"
    and "dh_hwcache h' = gcSet C (ev_clock env att) mac (IInt free) (seconds 5)
           (gcSet C (ev_clock env att) mac (IInt free) (seconds 5) (dh_hwcache h))"
  using assms by (simp add: quiet_def discover_probe_def in_arp_def Let_def)

lemma of_int_sint_u64 [simp]: "(of_int (sint i) :: u64) = i" for i :: u64
  by simp

lemma of_int_uint_u32 [simp]: "(of_int (uint w) :: u64) = ucast w" for w :: u32
  by simp

lemma sint_ucast_u32 [simp]: "sint (ucast w :: u64) = uint w" for w :: u32
proof -
  have "uint w < 2 ^ 32" using uint_lt2p [of w] by simp
  moreover have "uint (ucast w :: u64) = uint w" by (rule uint_up_ucast) (simp add: is_up)
  moreover have "signed_take_bit 63 (uint w) = uint w" if "uint w < 2 ^ 32"
    by (rule signed_take_bit_int_eq_self) (use that uint_ge_0 [of w] in \<open>simp; linarith\<close>)+
  ultimately show ?thesis by (simp add: sint_uint)
qed

lemma be_Uint32_long: "length b \<ge> 4 \<Longrightarrow> \<exists>w. be_Uint32 b = Ret w"
  by (cases b; cases "tl b"; cases "tl (tl b)"; cases "tl (tl (tl b))") (auto simp: be_Uint32_def)

context pool_backend
begin

lemma some_remaining: "inv p \<Longrightarrow> j < bCapacity B p \<Longrightarrow> owner p j = None \<Longrightarrow> bFreeIPsRemaining B p > 0"
  using remaining_pos by blast

text \<open>One pass of the loop with a quiet network: an index is found and belongs to the client.\<close>

definition owned_by :: "string \<Rightarrow> 'p \<Rightarrow> int \<Rightarrow> 'p \<Rightarrow> bool" where
  "owned_by mac p n p' \<longleftrightarrow> inv p' \<and> n = sint (of_int n :: u64) \<and> bCapacity B p' = bCapacity B p \<and> owner p' (of_int n) = Some mac \<and>
     (\<forall>i m. owner p i = Some m \<longrightarrow> owner p' i = Some m)"

lemma get_free_owned:
  assumes "inv p" and "bFreeIPsRemaining B p > 0"
  obtains i p' where "bGetFreeIPIndex B ch mac p = ((i, mac, None), p')" and "owned_by mac p (sint i) p'"
proof -
  have "\<exists>j < bCapacity B p. owner p j = None" using remaining_pos [OF assms(1)] assms(2) by blast
  then obtain j where j: "j < bCapacity B p" "owner p j = None" by blast
  obtain i p' where "bGetFreeIPIndex B ch mac p = ((i, mac, None), p')" "owner p i = None" "inv p'"
    "owner p' = (owner p)(i \<mapsto> mac)" "bCapacity B p' = bCapacity B p"
    using get_free_ok [OF assms(1) j] by blast
  then show ?thesis using that [of i p'] by (auto simp: owned_by_def)
qed

definition offered :: "int \<Rightarrow> 'c gocache \<Rightarrow> string \<Rightarrow> ('p, 'c) DHCPHandler \<Rightarrow> int \<Rightarrow> ('p, 'c) DHCPHandler \<Rightarrow> bool" where
  "offered now C mac h n h' \<longleftrightarrow>
     owned_by mac (dh_available h) n (dh_available h') \<and> dh_start h' = dh_start h \<and> dh_ip h' = dh_ip h \<and>
     dh_leaseRange h' = dh_leaseRange h \<and> dh_ipAssigned h' = dh_ipAssigned h \<and> dh_options h' = dh_options h \<and>
     (\<exists>c. dh_hwcache h' = gcSet C now mac (IInt n) (seconds 5) c)"

lemma retry_chosen:
  assumes "quiet env" and "bFreeIPsRemaining B (dh_available h) > 0"
    and "(if requested \<noteq> None \<and> firstTry then discover_requested B mac (the requested) free h else Some (Inr (free, h))) = Some (Inr (n, h1))"
    and "n \<noteq> -1" and "owned_by mac (dh_available h) n (dh_available h1)"
    and "dh_start h1 = dh_start h" "dh_ip h1 = dh_ip h" "dh_leaseRange h1 = dh_leaseRange h" "dh_ipAssigned h1 = dh_ipAssigned h"
    "dh_options h1 = dh_options h"
  shows "\<exists>h'. discover_retry (Suc fuel) env B C srvIP mac xid requested att firstTry free h = Some (Found n, h') \<and>
    offered (ev_clock env att) C mac h n h'"
proof -
  obtain h' where "discover_probe env B C srvIP mac xid att n h1 = Inr h'" "dh_available h' = dh_available h1"
    "dh_start h' = dh_start h1" "dh_ip h' = dh_ip h1" "dh_leaseRange h' = dh_leaseRange h1" "dh_ipAssigned h' = dh_ipAssigned h1" "dh_options h' = dh_options h1"
    "dh_hwcache h' = gcSet C (ev_clock env att) mac (IInt n) (seconds 5)
           (gcSet C (ev_clock env att) mac (IInt n) (seconds 5) (dh_hwcache h1))"
    using quiet_probe [OF assms(1)] by blast
  then show ?thesis using assms by (auto simp: Let_def offered_def)
qed

lemma retry_next_free:
  assumes "quiet env" and "inv (dh_available h)" and "bFreeIPsRemaining B (dh_available h) > 0"
    and "requested = None \<or> \<not> firstTry"
  shows "\<exists>n h'. discover_retry (Suc fuel) env B C srvIP mac xid requested att firstTry (-1) h = Some (Found n, h') \<and>
    offered (ev_clock env att) C mac h n h'"
proof -
  obtain i p' where g: "bGetFreeIPIndex B (ev_choice env att) mac (dh_available h) = ((i, mac, None), p')"
    and o: "owned_by mac (dh_available h) (sint i) p'" using get_free_owned [OF assms(2,3)] by blast
  obtain h' where p: "discover_probe env B C srvIP mac xid att (sint i) (h\<lparr>dh_available := p'\<rparr>) = Inr h'"
    "dh_available h' = p'" "dh_start h' = dh_start h" "dh_ip h' = dh_ip h"
    "dh_leaseRange h' = dh_leaseRange h" "dh_ipAssigned h' = dh_ipAssigned h" "dh_options h' = dh_options h"
    "dh_hwcache h' = gcSet C (ev_clock env att) mac (IInt (sint i)) (seconds 5)
           (gcSet C (ev_clock env att) mac (IInt (sint i)) (seconds 5) (dh_hwcache h))"
    using quiet_probe [OF assms(1), of B C srvIP mac xid att "sint i" "h\<lparr>dh_available := p'\<rparr>"] by auto
  show ?thesis using assms(3,4) g o p by (auto simp: Let_def offered_def)
qed

text \<open>The address the client asks for is taken when it is the client's or free, and left alone otherwise.\<close>

lemma requested_cases:
  assumes "inv (dh_available h)" and "mac \<noteq> FreeMac" and "To4 (dh_start h) = be_PutUint32 s" and "be_Uint32 r = Ret w"
  obtains (taken) p' where "discover_requested B mac r (-1) h = Some (Inr (uint (w - s), h\<lparr>dh_available := p'\<rparr>))"
      "owned_by mac (dh_available h) (uint (w - s)) p'"
  | (other) "discover_requested B mac r (-1) h = Some (Inl h)"
proof -
  let ?p = "dh_available h" and ?i = "ucast (w - s) :: u64"
  have go: "go_bind (be_Uint32 r) (\<lambda>a. go_bind (be_Uint32 (To4 (dh_start h))) (\<lambda>b. Ret (a - b))) = Ret (w - s)"
    using assms(3,4) by (simp add: be_Uint32_Put)
  consider "\<not> ?i < bCapacity B ?p" | m where "owner ?p ?i = Some m" "?i < bCapacity B ?p"
    | "owner ?p ?i = None" "?i < bCapacity B ?p" by (cases "owner ?p ?i") auto
  then show thesis
  proof cases
    case 1
    then show thesis using get_mac_err [OF assms(1), of ?i] go by (intro other) (auto simp: discover_requested_def)
  next
    case (2 m)
    have "mac = m \<Longrightarrow> discover_requested B mac r (-1) h = Some (Inr (uint (w - s), h\<lparr>dh_available := ?p\<rparr>))"
      using get_mac [OF assms(1) 2(2)] go 2 by (simp add: discover_requested_def)
    moreover have "mac = m \<Longrightarrow> owned_by mac ?p (uint (w - s)) ?p" using 2 assms(1) by (simp add: owned_by_def)
    moreover have "m = FreeMac \<Longrightarrow> discover_requested B mac r (-1) h = Some (Inl h)"
      using get_mac [OF assms(1) 2(2)] reserve_err [OF assms(1), of ?i mac] go 2 assms(2)
      by (auto simp: discover_requested_def)
    moreover have "mac \<noteq> m \<Longrightarrow> m \<noteq> FreeMac \<Longrightarrow> discover_requested B mac r (-1) h = Some (Inl h)"
      using get_mac [OF assms(1) 2(2)] go 2 by (auto simp: discover_requested_def)
    ultimately show thesis using taken other by blast
  next
    case 3
    obtain p' where "bReserveIPIndex B ?i mac ?p = ((mac, None), p')" "inv p'" "owner p' = (owner ?p)(?i \<mapsto> mac)"
      "bCapacity B p' = bCapacity B ?p" using reserve_ok [OF assms(1) 3(2,1)] by blast
    then show thesis using get_mac [OF assms(1) 3(2)] go 3 assms(2)
      by (intro taken [of p']) (auto simp: discover_requested_def owned_by_def)
  qed
qed

lemma discover_finds:
  assumes "quiet env" and "inv (dh_available h)" and "mac \<noteq> FreeMac" and "To4 (dh_start h) = be_PutUint32 s"
    and "j < bCapacity B (dh_available h)" and "owner (dh_available h) j = None"
    and "\<And>r. requested = Some r \<Longrightarrow> \<exists>w. be_Uint32 r = Ret w"
  shows "\<exists>n h' att. att \<le> 1 \<and>
    discover_retry (Suc (Suc fuel)) env B C srvIP mac xid requested 0 True (-1) h = Some (Found n, h') \<and>
    offered (ev_clock env att) C mac h n h'"
proof (cases requested)
  case None
  obtain n h' where "discover_retry (Suc (Suc fuel)) env B C srvIP mac xid None 0 True (-1) h = Some (Found n, h')"
    "offered (ev_clock env 0) C mac h n h'"
    using retry_next_free [OF assms(1,2) some_remaining [OF assms(2,5,6)], where requested = None and att = 0 and firstTry = True] by blast
  with None show ?thesis by (intro exI [of _ n] exI [of _ h'] exI [of _ 0]) simp
next
  case (Some r)
  have rem: "bFreeIPsRemaining B (dh_available h) > 0" by (rule some_remaining [OF assms(2,5,6)])
  obtain w where "be_Uint32 r = Ret w" using assms(7) [OF Some] by blast
  from assms(2-4) this show ?thesis
  proof (cases rule: requested_cases)
    case (taken p')
    have "uint (w - s) \<noteq> -1" using uint_ge_0 [of "w - s"] by linarith
    then have "\<exists>h'. discover_retry (Suc (Suc fuel)) env B C srvIP mac xid requested 0 True (-1) h = Some (Found (uint (w - s)), h') \<and>
        offered (ev_clock env 0) C mac h (uint (w - s)) h'"
      using taken Some by (intro retry_chosen [OF assms(1) rem, where ?h1.0 = "h\<lparr>dh_available := p'\<rparr>"]) auto
    then obtain h' where "discover_retry (Suc (Suc fuel)) env B C srvIP mac xid requested 0 True (-1) h = Some (Found (uint (w - s)), h')"
      "offered (ev_clock env 0) C mac h (uint (w - s)) h'" by blast
    then show ?thesis by (intro exI [of _ "uint (w - s)"] exI [of _ h'] exI [of _ 0]) simp
  next
    case other
    have "discover_retry (Suc (Suc fuel)) env B C srvIP mac xid requested 0 True (-1) h =
        discover_retry (Suc fuel) env B C srvIP mac xid requested 1 False (-1) h"
      using other rem Some by (subst discover_retry.simps(2)) (simp del: discover_retry.simps)
    moreover obtain n h' where "discover_retry (Suc fuel) env B C srvIP mac xid requested 1 False (-1) h = Some (Found n, h')"
      "offered (ev_clock env 1) C mac h n h'"
      using retry_next_free [OF assms(1,2) rem, where requested = requested and att = 1 and firstTry = False] by blast
    ultimately show ?thesis by (intro exI [of _ n] exI [of _ h'] exI [of _ 1]) simp
  qed
qed

end

lemma reply_with_sel [simp]:
  "reply_type (reply_with env t server ip st) = t" "reply_server (reply_with env t server ip st) = server"
  "reply_yiaddr (reply_with env t server ip st) = ip"
  by (simp_all add: reply_with_def)

lemma nak_sel [simp]: "reply_type (nak server) = NAK" "reply_yiaddr (nak server) = []"
  by (simp_all add: nak_def)

lemma GetFromGlobalFilterCache_frame:
  "GlobalTransactionCache (snd (GetFromGlobalFilterCache C now f msg mac Options g)) = GlobalTransactionCache g"
  "RequestGlobalTransactionCache (snd (GetFromGlobalFilterCache C now f msg mac Options g)) = RequestGlobalTransactionCache g"
  "VIP (snd (GetFromGlobalFilterCache C now f msg mac Options g)) = VIP g"
  by (auto simp: GetFromGlobalFilterCache_def Let_def split: option.split sum.split)

definition answer_from :: "Answer \<Rightarrow> nat \<Rightarrow> ip \<Rightarrow> Answer \<Rightarrow> bool" where
  "answer_from a t ip a' \<longleftrightarrow>
     (case an_D a' of None \<Rightarrow> an_D a = None
      | Some r \<Rightarrow> an_D a = Some r \<or> reply_type r = NAK \<or> reply_type r = t \<and> reply_yiaddr r = ip)"

lemma discover_reply_answer:
  assumes "discover_reply env C now msg macb srvIP ifIP Options NetScope free h answer g = (a', g')"
  shows "an_IP a' = pkIPAdd (ev_dhcp4 env) (dh_start h) free"
    and "answer_from answer Offer (pkIPAdd (ev_dhcp4 env) (dh_start h) free) a'"
    and "GlobalTransactionCache g' = GlobalTransactionCache g" and "VIP g' = VIP g"
proof -
  obtain info g1 where f: "GetFromGlobalFilterCache C now (ev_filter env) msg (mac_String macb) Options g = (info, g1)"
    by (metis prod.collapse)
  have g1: "GlobalTransactionCache g1 = GlobalTransactionCache g" "VIP g1 = VIP g"
    using GetFromGlobalFilterCache_frame [of C now "ev_filter env" msg "mac_String macb" Options g] f by simp_all
  show "an_IP a' = pkIPAdd (ev_dhcp4 env) (dh_start h) free"
    and "answer_from answer Offer (pkIPAdd (ev_dhcp4 env) (dh_start h) free) a'"
    and "GlobalTransactionCache g' = GlobalTransactionCache g" and "VIP g' = VIP g"
    using assms g1 unfolding discover_reply_def Let_def f
    by (auto simp: answer_from_def split: outcome.splits option.splits prod.splits)
qed

lemma memory_capacity [simp]: "bCapacity memory_backend = Memory_Capacity"
  by (simp add: memory_backend_def)

lemma unknown_client:
  "fmlookup (dh_ipAssigned h) mac = None \<Longrightarrow> gcGet C now mac (dh_hwcache h) = None \<Longrightarrow> discover_known B C now mac h = (None, h)"
  by (simp add: discover_known_def)

lemma discover_unknown:
  fixes h :: "(Memory, 'c) DHCPHandler"
  assumes "quiet env" and "mem_random_inv (dh_available h)" and "mac_String macb \<noteq> FreeMac"
    and "To4 (dh_start h) = be_PutUint32 s"
    and "j < Memory_Capacity (dh_available h)" and "mem_owner (dh_available h) j = None"
    and "\<forall>r. fmlookup options OptionRequestedIPAddress = Some r \<longrightarrow> length r \<ge> 4"
    and "fmlookup (dh_ipAssigned h) (mac_String macb) = None" and "gcGet C (ev_clock env 0) (mac_String macb) (dh_hwcache h) = None"
    and "fuel \<ge> 2"
  shows "\<exists>n h' a' g' att. att \<le> 1 \<and>
    serve_discover fuel env memory_backend C msg macb srvIP ifIP xid options Options NetScope answer (h, g) = Some (a', h', g') \<and>
    memory.offered (ev_clock env att) C (mac_String macb) h n h' \<and>
    discover_reply env C (ev_clock env 0) msg macb srvIP ifIP Options NetScope n h' answer g = (a', g')"
proof -
  obtain k where fuel: "fuel = Suc (Suc k)" using assms(10) by (metis add_2_eq_Suc le_Suc_ex)
  have req: "\<And>r. fmlookup options OptionRequestedIPAddress = Some r \<Longrightarrow> \<exists>w. be_Uint32 r = Ret w"
    using assms(7) be_Uint32_long by blast
  obtain n h' att where att: "att \<le> 1" and r: "discover_retry fuel env memory_backend C srvIP (mac_String macb) xid
      (fmlookup options OptionRequestedIPAddress) 0 True (-1) h = Some (Found n, h')"
    and o: "memory.offered (ev_clock env att) C (mac_String macb) h n h'"
    using memory.discover_finds [OF assms(1-4), of j "fmlookup options OptionRequestedIPAddress" k C srvIP xid] assms(5,6) req
    unfolding fuel by auto
  obtain a' g' where d: "discover_reply env C (ev_clock env 0) msg macb srvIP ifIP Options NetScope n h' answer g = (a', g')"
    by (metis prod.collapse)
  have "serve_discover fuel env memory_backend C msg macb srvIP ifIP xid options Options NetScope answer (h, g) = Some (a', h', g')"
    using r d unknown_client [OF assms(8,9)] by (simp add: serve_discover_def Let_def)
  with att o d show ?thesis by blast
qed


section \<open>Requests\<close>

text \<open>The address of an index of the scope.\<close>

lemma scope_address:
  assumes "dhcp4_laws D" and "To4 start = be_PutUint32 s" and "0 < s" and "0 \<le> n" and "uint s + n < 2 ^ 32"
  shows "length (pkIPAdd D start n) = 4" and "ip_Equal (pkIPAdd D start n) (pkIPAdd D start n)"
    and "\<not> ip_Equal (pkIPAdd D start n) IPv4zero" and "pkIPRange D start (pkIPAdd D start n) - 1 = n"
proof -
  have add: "pkIPAdd D start n = be_PutUint32 (s + of_int n)" by (rule dhcp4_lawsD(1) [OF assms(1,2)])
  have u: "uint (s + of_int n) = uint s + n"
    using assms(4,5) uint_ge_0 [of s] by (simp add: uint_word_ariths unsigned_of_int take_bit_eq_mod mod_add_right_eq)
  have pos: "uint s > 0" using assms(3) by (simp add: word_less_def)
  show "length (pkIPAdd D start n) = 4" "ip_Equal (pkIPAdd D start n) (pkIPAdd D start n)"
    by (simp_all add: add ip_Equal_def)
  show "pkIPRange D start (pkIPAdd D start n) - 1 = n"
    using dhcp4_lawsD(2) [OF assms(1,2), of "pkIPAdd D start n" "s + of_int n"] by (simp add: add u)
  have "be_Uint32 (be_PutUint32 (s + of_int n)) \<noteq> be_Uint32 [0, 0, 0, 0]"
  proof
    assume "be_Uint32 (be_PutUint32 (s + of_int n)) = be_Uint32 [0, 0, 0, 0]"
    then have "s + of_int n = 0" by (simp add: be_Uint32_Put) (simp add: be_Uint32_def)
    then show False using u pos assms(4) by simp
  qed
  then show "\<not> ip_Equal (pkIPAdd D start n) IPv4zero"
    by (auto simp: add ip_Equal_def IPv4zero_def IPv4_def v4InV6Prefix_def)
qed

definition request_key :: "'d serve_env \<Rightarrow> string \<Rightarrow> string \<Rightarrow> bytes \<Rightarrow> string" where
  "request_key env mac msg xid = mac @ '' '' @ msg @ '' xID '' @ ev_xidString env xid"

text \<open>The options of the grant can be built and the filter does not reject it.\<close>

definition ack_allowed ::
  "'d serve_env \<Rightarrow> 'c gocache \<Rightarrow> string \<Rightarrow> bytes \<Rightarrow> (string, string) gomap \<Rightarrow> IPNet \<Rightarrow> ('p, 'c) DHCPHandler \<Rightarrow> 'c Globals \<Rightarrow> bool" where
  "ack_allowed env C msg macb Options NetScope h g \<longleftrightarrow>
     (\<exists>lo opts.
        go_bind (base_options env (ev_clock env 0) macb h) (\<lambda>opts.
          go_bind (add_devices env (ip_String (net_IP NetScope)) (dh_leaseDuration h, opts)) (add_devices env (mac_String macb))) = Ret lo \<and>
        AddPffilterDevicesOptions (fst (GetFromGlobalFilterCache C (ev_clock env 0) (ev_filter env) msg (mac_String macb) Options g))
          (snd lo) = Ret (None, opts))"

lemma filter_info_frame:
  "GlobalFilterCache g = GlobalFilterCache g' \<Longrightarrow>
   fst (GetFromGlobalFilterCache C now f msg mac Options g) = fst (GetFromGlobalFilterCache C now f msg mac Options g')"
  by (auto simp: GetFromGlobalFilterCache_def Let_def split: option.split sum.split)

lemma request_ack_allowed:
  assumes "ack_allowed env C msg macb Options NetScope h g"
  shows "\<exists>server lo d g'. request_ack env B C (ev_clock env 0) msg macb srvIP Options NetScope reqIP Index answer (h, g) =
    (answer\<lparr>an_D := Some (reply_with env ACK server reqIP lo)\<rparr>,
     snd (reserve B Index (mac_String macb) (hw_Set C (ev_clock env 0) (mac_String macb) Index d h)), g') \<and>
    d \<ge> seconds 120"
proof -
  obtain info g1 where f: "GetFromGlobalFilterCache C (ev_clock env 0) (ev_filter env) msg (mac_String macb) Options g = (info, g1)"
    by (metis prod.collapse)
  from assms obtain lo opts where
    lo: "go_bind (base_options env (ev_clock env 0) macb h) (\<lambda>opts.
          go_bind (add_devices env (ip_String (net_IP NetScope)) (dh_leaseDuration h, opts)) (add_devices env (mac_String macb))) = Ret lo"
    and opts: "AddPffilterDevicesOptions info (snd lo) = Ret (None, opts)"
    by (auto simp: ack_allowed_def f)
  have "cache_duration (fst (zero_lease (fst lo, opts))) \<ge> seconds 120"
    by (simp add: cache_duration_def seconds_def)
  then show ?thesis
    by (intro exI [of _ "To4 (setOptionServerIdentifier srvIP (dh_ip h))"] exI [of _ "zero_lease (fst lo, opts)"]
        exI [of _ "cache_duration (fst (zero_lease (fst lo, opts)))"])
      (simp add: request_ack_def lo opts f split_beta Let_def)
qed

lemma request_offered:
  assumes "ev_clock env 0 = now" and "request_key env (mac_String macb) msg xid = key"
    and "\<not> other_server options srvIP (dh_ip h)" and "requested_ip options ci = ip"
    and "length ip = 4" and "\<not> ip_Equal ip IPv4zero"
    and "pkIPRange (ev_dhcp4 env) (dh_start h) ip - 1 = n" and "0 \<le> n" and "n < dh_leaseRange h"
    and "fmlookup (dh_ipAssigned h) (mac_String macb) = None"
    and "gcGet C now (mac_String macb) (dh_hwcache h) = Some (IInt n)"
    and "ip_Equal (pkIPAdd (ev_dhcp4 env) (dh_start h) n) ip"
    and "gcGet C now key (RequestGlobalTransactionCache g) = None"
  shows "serve_request env B C msg macb srvIP xid ci options Options NetScope answer (h, g) =
    request_ack env B C now msg macb srvIP Options NetScope ip n (answer\<lparr>an_IP := ip\<rparr>)
      (h, g\<lparr>RequestGlobalTransactionCache := gcSet C now key (IInt 1) (seconds 1) (RequestGlobalTransactionCache g)\<rparr>)"
  using assms by (simp add: serve_request_def request_decide_def request_dynamic_def request_key_def Let_def)

lemma sint_small_u64:
  fixes i :: u64
  assumes "i < of_int L" and "0 \<le> L" and "L < 2 ^ 32"
  shows "0 \<le> sint i" and "sint i < L"
proof -
  have "uint (of_int L :: u64) = L" using assms(2,3) by (simp add: unsigned_of_int take_bit_eq_mod)
  then have u: "uint i < L" using assms(1) by (simp add: word_less_def)
  have "signed_take_bit 63 (uint i) = uint i"
    by (rule signed_take_bit_int_eq_self) (use u assms(3) uint_ge_0 [of i] in \<open>simp; linarith\<close>)+
  then have "sint i = uint i" by (simp add: sint_uint)
  then show "0 \<le> sint i" "sint i < L" using u by simp_all
qed

lemma reserve_owned:
  assumes "mem_random_inv (dh_available h)" and "mem_owner (dh_available h) (of_int n) = Some m"
  shows "snd (reserve memory_backend n mac h) = h"
  using memory.reserve_err [OF assms(1), of "of_int n" mac] assms(2) by (auto simp: reserve_def)


text \<open>What the handler never changes while it decides on a request.\<close>

lemma request_ack_reply:
  assumes "request_ack env B C now msg macb srvIP Options NetScope reqIP Index answer (h, g) = (a, h', g')"
  shows "answer_from answer ACK reqIP a"
    and "GlobalTransactionCache g' = GlobalTransactionCache g" and "VIP g' = VIP g"
proof -
  obtain info g1 where f: "GetFromGlobalFilterCache C now (ev_filter env) msg (mac_String macb) Options g = (info, g1)"
    by (metis prod.collapse)
  have g1: "GlobalTransactionCache g1 = GlobalTransactionCache g" "VIP g1 = VIP g"
    using GetFromGlobalFilterCache_frame [of C now "ev_filter env" msg "mac_String macb" Options g] f by simp_all
  show "answer_from answer ACK reqIP a"
    and "GlobalTransactionCache g' = GlobalTransactionCache g" and "VIP g' = VIP g"
    using assms g1 unfolding request_ack_def Let_def
    by (auto simp: answer_from_def f split: outcome.splits option.splits prod.splits)
qed

lemma request_ack_pool:
  assumes "request_ack env B C now msg macb srvIP Options NetScope reqIP Index answer (h, g) = (a, h', g')"
    and "an_D answer = None" and "an_D a = Some r" and "reply_type r \<noteq> NAK"
  shows "dh_available h' = snd (bReserveIPIndex B (of_int Index) (mac_String macb) (dh_available h))"
  using assms unfolding request_ack_def Let_def
  by (auto simp: reserve_def split_beta split: outcome.splits option.splits)

lemma request_decide_cases:
  assumes "request_decide env C now mac key xid reqIP (h, g) = (d, h', g')"
  shows "GlobalTransactionCache g' = GlobalTransactionCache g" and "VIP g' = VIP g"
    and "d = Ack n \<Longrightarrow> h' = h \<and> 0 \<le> pkIPRange (ev_dhcp4 env) (dh_start h) reqIP - 1 \<and>
           pkIPRange (ev_dhcp4 env) (dh_start h) reqIP - 1 < dh_leaseRange h \<and>
           (map_option uint (fmlookup (dh_ipAssigned h) mac) = Some n \<and> n = pkIPRange (ev_dhcp4 env) (dh_start h) reqIP - 1 \<or>
            fmlookup (dh_ipAssigned h) mac = None \<and> gcGet C now mac (dh_hwcache h) = Some (IInt n) \<and>
            ip_Equal (pkIPAdd (ev_dhcp4 env) (dh_start h) n) reqIP)"
  using assms unfolding request_decide_def request_dynamic_def Let_def
  by (auto split: if_splits option.splits outcome.splits elim!: assert_int.elims)

text \<open>
  C12. A grant follows an offer: an ACK is sent only for the address the client asked for, only when it
  is an address of the scope, and only when it is the one assigned to the client in the
  configuration or the one cached for the client; the pool is then asked to reserve that index for the client.
\<close>
theorem ack_only_offered:
  assumes "serve_request env B C msg macb srvIP xid ci options Options NetScope answer (h, g) = (a, h', g')"
    and "an_D answer = None" and "an_D a = Some (Reply ACK server ip lease opts)"
  shows "ip = requested_ip options ci \<and> length ip = 4 \<and> \<not> ip_Equal ip IPv4zero \<and>
    (let leaseNum = pkIPRange (ev_dhcp4 env) (dh_start h) ip - 1 in
     0 \<le> leaseNum \<and> leaseNum < dh_leaseRange h \<and>
     (\<exists>n. dh_available h' = snd (bReserveIPIndex B (of_int n) (mac_String macb) (dh_available h)) \<and>
        (map_option uint (fmlookup (dh_ipAssigned h) (mac_String macb)) = Some n \<and> n = leaseNum \<or>
         gcGet C (ev_clock env 0) (mac_String macb) (dh_hwcache h) = Some (IInt n) \<and>
         ip_Equal (pkIPAdd (ev_dhcp4 env) (dh_start h) n) ip)))"
proof -
  let ?ip = "requested_ip options ci" and ?mac = "mac_String macb"
  obtain d h1 g1 where dec: "request_decide env C (ev_clock env 0) ?mac (?mac @ '' '' @ msg @ '' xID '' @ ev_xidString env xid) xid ?ip (h, g) =
      (d, h1, g1)" by (metis prod.collapse)
  have run: "\<not> other_server options srvIP (dh_ip h)" "length ?ip = 4" "\<not> ip_Equal ?ip IPv4zero"
    "\<exists>n. d = Ack n \<and> request_ack env B C (ev_clock env 0) msg macb srvIP Options NetScope ?ip n (answer\<lparr>an_IP := ?ip\<rparr>) (h1, g1) = (a, h', g')"
    using assms dec by (auto simp: serve_request_def Let_def empty_answer_def nak_def NAK_def ACK_def split: if_splits decision.splits)
  then obtain n where n: "d = Ack n"
    "request_ack env B C (ev_clock env 0) msg macb srvIP Options NetScope ?ip n (answer\<lparr>an_IP := ?ip\<rparr>) (h1, g1) = (a, h', g')" by blast
  have "ip = ?ip" using request_ack_reply(1) [OF n(2)] assms(2,3) by (simp add: answer_from_def ACK_def NAK_def)
  moreover have "dh_available h' = snd (bReserveIPIndex B (of_int n) ?mac (dh_available h1))"
    using request_ack_pool [OF n(2)] assms(2,3) by (simp add: ACK_def NAK_def)
  ultimately show ?thesis using request_decide_cases(3) [OF dec n(1)] run by (auto simp: Let_def)
qed

section \<open>Repeated packets\<close>

lemma serve_request_frame:
  assumes "serve_request env B C msg macb srvIP xid ci options Options NetScope answer (h, g) = (a, h', g')"
  shows "GlobalTransactionCache g' = GlobalTransactionCache g" and "VIP g' = VIP g"
proof -
  let ?ip = "requested_ip options ci" and ?mac = "mac_String macb"
  obtain d h1 g1 where dec: "request_decide env C (ev_clock env 0) ?mac (?mac @ '' '' @ msg @ '' xID '' @ ev_xidString env xid) xid ?ip (h, g) =
      (d, h1, g1)" by (metis prod.collapse)
  note g1 = request_decide_cases(1,2) [OF dec]
  show "GlobalTransactionCache g' = GlobalTransactionCache g" "VIP g' = VIP g"
    using assms dec g1 request_ack_reply(2,3) [of env B C "ev_clock env 0" msg macb srvIP Options NetScope ?ip _ _ h1 g1 a h' g']
    by (auto simp: serve_request_def Let_def split: if_splits decision.splits)
qed

lemma serve_discover_frame:
  assumes "serve_discover fuel env B C msg macb srvIP ifIP xid options Options NetScope answer (h, g) = Some (a, h', g')"
  shows "GlobalTransactionCache g' = GlobalTransactionCache g" and "VIP g' = VIP g"
proof -
  obtain r h1 where "(case r of NoReply \<Rightarrow> Some (answer, h1, g) | Found free \<Rightarrow>
      (case discover_reply env C (ev_clock env 0) msg macb srvIP ifIP Options NetScope free h1 answer g of
         (answer', g') \<Rightarrow> Some (answer', h1, g'))) = Some (a, h', g')"
    using assms by (auto simp: serve_discover_def Let_def Option.bind_eq_Some_conv)
  then show "GlobalTransactionCache g' = GlobalTransactionCache g" and "VIP g' = VIP g"
    using discover_reply_answer(3,4) [of env C "ev_clock env 0" msg macb srvIP ifIP Options NetScope _ h1 answer g]
    by (cases r; auto split: prod.splits)+
qed

lemma serve_message_frame:
  assumes "serve_message fuel env B C p msgType srvIP ifIP Options NetScope answer (h, g) = Some (a, h', g')"
  shows "GlobalTransactionCache g' = GlobalTransactionCache g" and "VIP g' = VIP g"
  using assms serve_discover_frame serve_request_frame unfolding serve_message_def Let_def
  by (auto split: if_splits)

definition transaction_key :: "dhcp4 \<Rightarrow> bytes \<Rightarrow> nat \<Rightarrow> string" where
  "transaction_key D p msgType = mac_String (pkCHAddr D p) @ '' '' @ pkMessageString D msgType"

lemma answered_records:
  assumes "ServeDHCP fuel env B C p msgType srvIP (I, g) = Some (Ret (a, I', g'))" and "an_D a \<noteq> None"
  shows "GlobalTransactionCache g' =
    gcSet C (ev_clock env 0) (transaction_key (ev_dhcp4 env) p msgType) (IInt 3) (seconds 1) (GlobalTransactionCache g)"
  using assms unfolding ServeDHCP_def Let_def transaction_key_def
  by (auto split: outcome.splits option.splits prod.splits if_splits dest: serve_message_frame(1))

lemma select_network_panics: "select_network q gi ci i node vs = Panic m \<Longrightarrow> \<exists>e. q = QErr e"
proof (induction q gi ci i node vs rule: select_network.induct)
  case (2 q gi ci i node v vs)
  then show ?case
    by (cases q) (auto simp: NodeInformation_def Let_def split: if_splits option.splits)
qed simp

lemma in_progress_ignored:
  assumes "gcGet C (ev_clock env 0) (transaction_key (ev_dhcp4 env) p msgType) (GlobalTransactionCache g) \<noteq> None"
  shows "(\<exists>a. ServeDHCP fuel env B C p msgType srvIP (I, g) = Some (Ret (a, I, g)) \<and> an_D a = None) \<or>
    (\<exists>m e. ServeDHCP fuel env B C p msgType srvIP (I, g) = Some (Panic m) \<and> ev_node env (mac_String (pkCHAddr (ev_dhcp4 env) p)) = QErr e)"
  using assms select_network_panics [of "ev_node env (mac_String (pkCHAddr (ev_dhcp4 env) p))"]
  unfolding ServeDHCP_def Let_def transaction_key_def
  by (auto split: outcome.splits option.splits prod.splits)

text \<open>
  A repeated packet is ignored: once a packet has been answered, any packet of the same client and type within
  one second, on whatever interface, changes nothing and gets no answer (the process dies when the
  query of the node fails, which \<open>NodeInformation\<close> does not survive).
\<close>
theorem repeated_packet_ignored:
  assumes "gocache_laws C"
    and "ServeDHCP fuel env B C p msgType srvIP (I, g) = Some (Ret (a1, I1, g1))" and "an_D a1 \<noteq> None"
    and "transaction_key (ev_dhcp4 env') p' msgType = transaction_key (ev_dhcp4 env) p msgType"
    and "ev_clock env 0 \<le> ev_clock env' 0" and "ev_clock env' 0 \<le> ev_clock env 0 + seconds 1"
  shows "(\<exists>a. ServeDHCP fuel' env' B' C p' msgType srvIP' (I', g1) = Some (Ret (a, I', g1)) \<and> an_D a = None) \<or>
    (\<exists>m e. ServeDHCP fuel' env' B' C p' msgType srvIP' (I', g1) = Some (Panic m) \<and>
       ev_node env' (mac_String (pkCHAddr (ev_dhcp4 env') p')) = QErr e)"
proof (rule in_progress_ignored)
  show "gcGet C (ev_clock env' 0) (transaction_key (ev_dhcp4 env') p' msgType) (GlobalTransactionCache g1) \<noteq> None"
    unfolding answered_records [OF assms(2,3)] assms(4)
    using gcGet_Set(1) [OF assms(1) _ assms(5,6)] by (simp add: seconds_def)
qed

section \<open>Clients that leave\<close>

context pool_backend
begin

lemma give_back_owned:
  assumes "gocache_laws C" and "inv (dh_available h)" and "mac \<noteq> FreeMac"
    and "pkIPRange D (dh_start h) reqIP - 1 = n" and "0 \<le> n" and "n < dh_leaseRange h"
    and "map_option uint (fmlookup (dh_ipAssigned h) mac) \<noteq> Some n" and "gcGet C now mac (dh_hwcache h) = Some (IInt n)"
  shows "owner (dh_available h) (of_int n) = Some mac \<Longrightarrow>
      inv (dh_available (give_back B C D now mac reqIP h)) \<and>
      owner (dh_available (give_back B C D now mac reqIP h)) = (owner (dh_available h))(of_int n \<mapsto> FakeMac) \<and>
      bCapacity B (dh_available (give_back B C D now mac reqIP h)) = bCapacity B (dh_available h) \<and>
      dh_pending (give_back B C D now mac reqIP h) = dh_pending h @ [of_int n, of_int n] \<and>
      gcGet C t mac (dh_hwcache (give_back B C D now mac reqIP h)) = None"
    and "owner (dh_available h) (of_int n) \<noteq> Some mac \<Longrightarrow> give_back B C D now mac reqIP h = h"
proof -
  let ?i = "of_int n :: u64" and ?p = "dh_available h"
  have evicted: "fst (gcDelete C mac (dh_hwcache h)) = Some (IInt n)" by (rule gocache_lawsD(7) [OF assms(1,8)])
  then have pend: "dh_pending (hw_Delete C mac h) = dh_pending h @ [?i]" by (simp add: hw_Delete_def split_beta)
  {
    assume o: "owner ?p ?i = Some mac"
    then have cap: "?i < bCapacity B ?p" by (rule owner_bound [OF assms(2)])
    obtain p1 where p1: "bFreeIPIndex B now ?i ?p = (None, p1)" "inv p1" "owner p1 = (owner ?p)(?i := None)"
      "bCapacity B p1 = bCapacity B ?p" using free_ok [OF assms(2) o] by blast
    obtain p2 where p2: "bReserveIPIndex B ?i FakeMac p1 = ((FakeMac, None), p2)" "inv p2"
      "owner p2 = (owner ?p)(?i \<mapsto> FakeMac)" "bCapacity B p2 = bCapacity B ?p"
      using reserve_ok [OF p1(2), of ?i FakeMac] p1(3,4) cap by auto
    have eq: "give_back B C D now mac reqIP h =
        (hw_Delete C mac h)\<lparr>dh_available := p2, dh_pending := dh_pending h @ [?i, ?i]\<rparr>"
      using assms(4-8) o get_mac [OF assms(2) cap] p1(1) p2(1) pend
      by (simp add: give_back_def Let_def reserve_def del: map_option_eq_Some)
    show "inv (dh_available (give_back B C D now mac reqIP h)) \<and>
      owner (dh_available (give_back B C D now mac reqIP h)) = (owner ?p)(?i \<mapsto> FakeMac) \<and>
      bCapacity B (dh_available (give_back B C D now mac reqIP h)) = bCapacity B ?p \<and>
      dh_pending (give_back B C D now mac reqIP h) = dh_pending h @ [?i, ?i] \<and>
      gcGet C t mac (dh_hwcache (give_back B C D now mac reqIP h)) = None"
      unfolding eq using p2 gcGet_Delete [OF assms(1)] by simp
  }
  {
    assume o: "owner ?p ?i \<noteq> Some mac"
    have "fst (snd (bGetMACIndex B ?i ?p)) \<noteq> mac"
      using get_mac [OF assms(2), of ?i] get_mac_err [OF assms(2), of ?i] o assms(3)
      by (cases "?i < bCapacity B ?p") (auto split: option.splits)
    then show "give_back B C D now mac reqIP h = h"
      using assms(4-8) by (simp add: give_back_def Let_def split_beta del: map_option_eq_Some)
  }
qed

lemma run_pending_frees:
  assumes "inv (dh_available h)" and "k < length (dh_pending h)" and "owner (dh_available h) (dh_pending h ! k) = Some m"
  shows "inv (dh_available (run_pending B t k h))"
    and "owner (dh_available (run_pending B t k h)) = (owner (dh_available h))(dh_pending h ! k := None)"
    and "bCapacity B (dh_available (run_pending B t k h)) = bCapacity B (dh_available h)"
    and "dh_pending (run_pending B t k h) = take k (dh_pending h) @ drop (Suc k) (dh_pending h)"
  using assms(2) free_ok [OF assms(1,3), of t] by (auto simp: run_pending_def)

lemma released_twice:
  assumes "inv (dh_available h)" and "dh_pending h = ps @ [of_int n, of_int n]" and "owner (dh_available h) (of_int n) = Some FakeMac"
  shows "\<exists>h3. reserve B n mac' (run_pending B t (length ps) h) = ((mac', None), h3) \<and>
    owner (dh_available h3) (of_int n) = Some mac' \<and>
    owner (dh_available (run_pending B t' (length ps) h3)) (of_int n) = None"
proof -
  let ?i = "of_int n :: u64"
  let ?h = "run_pending B t (length ps) h"
  have k: "length ps < length (dh_pending h)" "dh_pending h ! length ps = ?i" using assms(2) by simp_all
  note r = run_pending_frees [OF assms(1) k(1), unfolded k(2), OF assms(3), of t]
  have cap: "?i < bCapacity B (dh_available ?h)" using owner_bound [OF assms(1,3)] r(3) by simp
  obtain p where p: "bReserveIPIndex B ?i mac' (dh_available ?h) = ((mac', None), p)" "inv p"
    "owner p = (owner (dh_available ?h))(?i \<mapsto> mac')" using reserve_ok [OF r(1) cap, of mac'] r(2) by auto
  let ?h3 = "?h\<lparr>dh_available := p\<rparr>"
  have pend: "dh_pending ?h3 = ps @ [?i]" using r(4) assms(2) by simp
  have "owner (dh_available (run_pending B t' (length ps) ?h3)) = (owner p)(?i := None)"
    using run_pending_frees(2) [of ?h3 "length ps" mac' t'] p pend by simp
  then show ?thesis using p by (intro exI [of _ ?h3]) (simp add: reserve_def)
qed

end

text \<open>
  C22. A client that leaves gives its address back, twice: RELEASE and DECLINE of the address cached for the client
  act only when the client owns the index. They then move the index to the reserved MAC address, forget the client and start two
  goroutines that free the index, the eviction hook of the cache at once and the one of the handler
  30 seconds later. When the first runs after the reservation, the index is free at once;
  a client that gets it in the meantime loses it when the second one runs.
\<close>
theorem release_frees_twice:
  fixes h :: "(Memory, 'c) DHCPHandler"
  assumes "gocache_laws C" and "mem_random_inv (dh_available h)" and "mac \<noteq> FreeMac"
    and "pkIPRange (ev_dhcp4 env) (dh_start h) (requested_ip options ci) - 1 = n" and "0 \<le> n" and "n < dh_leaseRange h"
    and "map_option uint (fmlookup (dh_ipAssigned h) mac) \<noteq> Some n"
    and "gcGet C (ev_clock env 0) mac (dh_hwcache h) = Some (IInt n)"
    and "f = serve_release \<or> f = serve_decline"
  shows "if mem_owner (dh_available h) (of_int n) = Some mac
    then (let h1 = f env memory_backend C mac ci options h; k = length (dh_pending h) in
      mem_random_inv (dh_available h1) \<and> mem_owner (dh_available h1) = (mem_owner (dh_available h))(of_int n \<mapsto> FakeMac) \<and>
      gcGet C t mac (dh_hwcache h1) = None \<and> dh_pending h1 = dh_pending h @ [of_int n, of_int n] \<and>
      mem_owner (dh_available (run_pending memory_backend t k h1)) = (mem_owner (dh_available h))(of_int n := None) \<and>
      (\<exists>h3. reserve memory_backend n mac' (run_pending memory_backend t k h1) = ((mac', None), h3) \<and>
         mem_owner (dh_available h3) (of_int n) = Some mac' \<and>
         mem_owner (dh_available (run_pending memory_backend t' k h3)) (of_int n) = None))
    else f env memory_backend C mac ci options h = h"
proof (cases "mem_owner (dh_available h) (of_int n) = Some mac")
  case True
  let ?h1 = "f env memory_backend C mac ci options h"
  have f: "f env memory_backend C mac ci options h =
      give_back memory_backend C (ev_dhcp4 env) (ev_clock env 0) mac (requested_ip options ci) h"
    using assms(9) by (auto simp: serve_release_def serve_decline_def)
  have g: "mem_random_inv (dh_available ?h1)" "mem_owner (dh_available ?h1) = (mem_owner (dh_available h))(of_int n \<mapsto> FakeMac)"
    "gcGet C t mac (dh_hwcache ?h1) = None" "dh_pending ?h1 = dh_pending h @ [of_int n, of_int n]"
    using memory.give_back_owned(1) [OF assms(1-8) True, of t] unfolding f by blast+
  have "mem_owner (dh_available (run_pending memory_backend t (length (dh_pending h)) ?h1)) =
      (mem_owner (dh_available h))(of_int n := None)"
    using memory.run_pending_frees(2) [OF g(1), of "length (dh_pending h)" FakeMac t] g by simp
  with g memory.released_twice [OF g(1,4)] True show ?thesis by (simp add: Let_def)
next
  case False
  have f: "f env memory_backend C mac ci options h =
      give_back memory_backend C (ev_dhcp4 env) (ev_clock env 0) mac (requested_ip options ci) h"
    using assms(9) by (auto simp: serve_release_def serve_decline_def)
  show ?thesis unfolding f using memory.give_back_owned(2) [OF assms(1-8) False] False by simp
qed

section \<open>Addresses that answer the probe\<close>

context pool_backend
begin

text \<open>A conflict on index \<open>n\<close>: the pool changes at most there, and only if the index was free.\<close>

lemma probe_conflict:
  assumes "inv (dh_available h)" and "\<And>x y. ev_ping env att x y"
  obtains h' where "discover_probe env B C srvIP mac xid att n h = Inl h'" and "inv (dh_available h')"
    and "bCapacity B (dh_available h') = bCapacity B (dh_available h)"
    and "\<And>i. i \<noteq> of_int n \<or> owner (dh_available h) i \<noteq> None \<Longrightarrow> owner (dh_available h') i = owner (dh_available h) i"
proof -
  let ?now = "ev_clock env att"
  let ?h1 = "(hw_Set C ?now mac n (seconds 5) h)\<lparr>dh_xid := gcSet C ?now (ev_xidString env xid) (IInt 0) (seconds 5) (dh_xid h)\<rparr>"
  obtain m e p' where r: "bReserveIPIndex B (of_int n) FakeMac (dh_available h) = ((m, e), p')" by (metis prod.collapse)
  from assms(1) r have p': "inv p'" "bCapacity B p' = bCapacity B (dh_available h)"
    "\<And>i. i \<noteq> of_int n \<or> owner (dh_available h) i \<noteq> None \<Longrightarrow> owner p' i = owner (dh_available h) i"
    by (cases rule: reserve_cases; auto)+
  let ?h' = "(hw_Delete C mac ?h1)\<lparr>dh_available := p',
      dh_pending := dh_pending (hw_Delete C mac ?h1) @ [of_int n]\<rparr>"
  have "discover_probe env B C srvIP mac xid att n h = Inl ?h'"
    using assms(2) r by (simp add: discover_probe_def reserve_def Let_def hw_Set_def)
  then show thesis using that [of ?h'] p' by simp
qed

text \<open>The second pass, with index 0 whoever owns it.\<close>

lemma conflict_then_zero:
  assumes "inv (dh_available h)" and "\<And>x y. ev_ping env att x y" and "\<And>x y. \<not> ev_ping env (Suc att) x y" and "\<And>x. ev_arp env (Suc att) x = []"
    and "j \<noteq> k" and "j < bCapacity B (dh_available h)" and "k < bCapacity B (dh_available h)"
    and "owner (dh_available h) j = None" and "owner (dh_available h) k = None" and "owner (dh_available h) 0 = Some other"
  shows "\<exists>h' c. discover_retry (Suc (Suc fuel)) env B C srvIP mac xid None att True (-1) h = Some (Found 0, h') \<and>
    owner (dh_available h') 0 = Some other \<and> dh_hwcache h' = gcSet C (ev_clock env (Suc att)) mac (IInt 0) (seconds 5) c"
proof -
  let ?p = "dh_available h"
  obtain i p1 where g: "bGetFreeIPIndex B (ev_choice env att) mac ?p = ((i, mac, None), p1)" "owner ?p i = None"
    "inv p1" "owner p1 = (owner ?p)(i \<mapsto> mac)" "bCapacity B p1 = bCapacity B ?p"
    using get_free_ok [OF assms(1,6,8), of "ev_choice env att" mac] by blast
  obtain h1 where h1: "discover_probe env B C srvIP mac xid att (sint i) (h\<lparr>dh_available := p1\<rparr>) = Inl h1" "inv (dh_available h1)"
    "bCapacity B (dh_available h1) = bCapacity B ?p"
    "\<And>l. l \<noteq> i \<or> owner p1 l \<noteq> None \<Longrightarrow> owner (dh_available h1) l = owner p1 l"
    using probe_conflict [of "h\<lparr>dh_available := p1\<rparr>" env att C srvIP mac xid "sint i"] g assms(2) by auto
  have zero: "owner (dh_available h1) 0 = Some other" using h1(4) [of 0] g(2,4) assms(10) by auto
  have "\<exists>l. l < bCapacity B (dh_available h1) \<and> owner (dh_available h1) l = None"
    using h1(3) h1(4) [of j] h1(4) [of k] g(4) assms(5-9) by (cases "i = j") auto
  then have rem: "bFreeIPsRemaining B (dh_available h1) > 0" using some_remaining [OF h1(2)] by blast
  obtain h2 where h2: "discover_probe env B C srvIP mac xid (Suc att) 0 h1 = Inr h2" "dh_available h2 = dh_available h1"
    "\<exists>c. dh_hwcache h2 = gcSet C (ev_clock env (Suc att)) mac (IInt 0) (seconds 5) c"
    using assms(3,4) by (auto simp: discover_probe_def in_arp_def Let_def)
  have "discover_retry (Suc fuel) env B C srvIP mac xid None (Suc att) False 0 h1 = Some (Found 0, h2)"
    using rem h2(1) by simp
  then have "discover_retry (Suc (Suc fuel)) env B C srvIP mac xid None att True (-1) h = Some (Found 0, h2)"
    using some_remaining [OF assms(1,6,8)] g(1) h1(1) by (subst discover_retry.simps(2)) (simp del: discover_retry.simps)
  with h2 zero show ?thesis by auto
qed

lemma conflict_loop:
  assumes "\<And>a x y. ev_ping env a x y" and "j \<noteq> 0"
  shows "inv (dh_available h) \<Longrightarrow> j < bCapacity B (dh_available h) \<Longrightarrow> owner (dh_available h) j = None \<Longrightarrow>
    discover_retry fuel env B C srvIP mac xid requested att False 0 h = None"
proof (induction fuel arbitrary: att h)
  case (Suc fuel)
  obtain h' where "discover_probe env B C srvIP mac xid att 0 h = Inl h'" "inv (dh_available h')"
    "bCapacity B (dh_available h') = bCapacity B (dh_available h)" "owner (dh_available h') j = owner (dh_available h) j"
    using probe_conflict [OF Suc.prems(1), of env att C srvIP mac xid 0] assms by (metis of_int_0)
  then show ?case using Suc some_remaining [OF Suc.prems] by simp
qed simp

lemma conflict_forever:
  assumes "\<And>a x y. ev_ping env a x y" and "inv (dh_available h)" and "j \<noteq> 0" and "k \<noteq> 0" and "j \<noteq> k"
    and "j < bCapacity B (dh_available h)" and "k < bCapacity B (dh_available h)"
    and "owner (dh_available h) j = None" and "owner (dh_available h) k = None"
  shows "discover_retry fuel env B C srvIP mac xid None att True (-1) h = None"
proof (cases fuel)
  case (Suc f)
  let ?p = "dh_available h"
  obtain i p1 where g: "bGetFreeIPIndex B (ev_choice env att) mac ?p = ((i, mac, None), p1)"
    "inv p1" "owner p1 = (owner ?p)(i \<mapsto> mac)" "bCapacity B p1 = bCapacity B ?p"
    using get_free_ok [OF assms(2,6,8), of "ev_choice env att" mac] by blast
  obtain h1 where h1: "discover_probe env B C srvIP mac xid att (sint i) (h\<lparr>dh_available := p1\<rparr>) = Inl h1" "inv (dh_available h1)"
    "bCapacity B (dh_available h1) = bCapacity B ?p"
    "\<And>l. l \<noteq> i \<or> owner p1 l \<noteq> None \<Longrightarrow> owner (dh_available h1) l = owner p1 l"
    using probe_conflict [of "h\<lparr>dh_available := p1\<rparr>" env att C srvIP mac xid "sint i"] g assms(1) by auto
  obtain l where "l \<noteq> 0" "l < bCapacity B (dh_available h1)" "owner (dh_available h1) l = None"
    using h1(3) h1(4) [of j] h1(4) [of k] g(3) assms(3-9) by (cases "i = j") auto
  then have "discover_retry f env B C srvIP mac xid None (Suc att) False 0 h1 = None"
    using conflict_loop [OF assms(1) _ h1(2)] by blast
  then show ?thesis unfolding Suc
    using some_remaining [OF assms(2,6,8)] g(1) h1(1) by (subst discover_retry.simps(2)) (simp del: discover_retry.simps)
qed simp

end


text \<open>
  C24. When every probe is answered the search never ends: with two free indexes besides the first, a DISCOVER
  whose probes are all answered (a router that answers for the whole scope) is
  never answered, however long the handler runs, because index 0 is probed again and again while
  the pool is not empty.
\<close>
theorem answered_probes_never_return:
  fixes h :: "(Memory, 'c) DHCPHandler"
  assumes "mem_random_inv (dh_available h)" and "\<And>att x y. ev_ping env att x y"
    and "j \<noteq> 0" and "k \<noteq> 0" and "j \<noteq> k" and "j < Memory_Capacity (dh_available h)" and "k < Memory_Capacity (dh_available h)"
    and "mem_owner (dh_available h) j = None" and "mem_owner (dh_available h) k = None"
    and "fmlookup options OptionRequestedIPAddress = None"
    and "fmlookup (dh_ipAssigned h) (mac_String macb) = None" and "gcGet C (ev_clock env 0) (mac_String macb) (dh_hwcache h) = None"
  shows "\<forall>fuel. serve_discover fuel env memory_backend C msg macb srvIP ifIP xid options Options NetScope answer (h, g) = None"
proof
  fix fuel
  have "discover_retry fuel env memory_backend C srvIP (mac_String macb) xid None 0 True (-1) h = None"
    by (rule memory.conflict_forever [of env h j k]) (use assms in simp_all)
  then show "serve_discover fuel env memory_backend C msg macb srvIP ifIP xid options Options NetScope answer (h, g) = None"
    using unknown_client [OF assms(11,12)] assms(10) by (simp add: serve_discover_def Let_def)
qed

section \<open>Examples\<close>

definition demo_dhcp4 :: dhcp4 where
  "demo_dhcp4 =
     \<lparr>pkHLen = (\<lambda>p. 6), pkParseOptions = (\<lambda>p. fmempty), pkCHAddr = take 6, pkCIAddr = (\<lambda>p. [0, 0, 0, 0]),
      pkGIAddr = (\<lambda>p. [0, 0, 0, 0]), pkXId = (\<lambda>p. [0, 0, 0, 1]),
      pkIPAdd = (\<lambda>start n. case be_Uint32 (To4 start) of Ret w \<Rightarrow> be_PutUint32 (w + of_int n) | Panic _ \<Rightarrow> []),
      pkIPRange = (\<lambda>start stop. case be_Uint32 (To4 start) of
         Ret v \<Rightarrow> (case be_Uint32 (To4 stop) of Ret w \<Rightarrow> uint w - uint v + 1 | Panic _ \<Rightarrow> 0) | Panic _ \<Rightarrow> 0),
      pkSelectOrderOrAll = (\<lambda>m order. []), pkOptionString = (\<lambda>c. ''Option''), pkMessageString = dec_nat\<rparr>"

lemma demo_dhcp4_laws: "dhcp4_laws demo_dhcp4"
  by (simp add: dhcp4_laws_def demo_dhcp4_def be_Uint32_Put)

definition demo_env :: "(nat \<Rightarrow> bool) \<Rightarrow> (string \<times> string) list serve_env" where
  "demo_env ping =
     \<lparr>ev_clock = (\<lambda>att. 0), ev_choice = (\<lambda>att. (unat, 0)), ev_arp = (\<lambda>att x. []), ev_ping = (\<lambda>att x y. ping att),
      ev_source = (\<lambda>x i. i), ev_prio = unat, ev_db = list_db, ev_dbstate = [], ev_unmarshal = (\<lambda>x. None),
      ev_filter = (\<lambda>t m opts. Inr (IMap [])), ev_node = (\<lambda>mac. QRows []), ev_xidString = string_of_bytes, ev_dhcp4 = demo_dhcp4\<rparr>"

definition demo_globals :: "list_store Globals" where
  "demo_globals =
     \<lparr>GlobalIPCache = [], GlobalMacCache = [], GlobalFilterCache = [], GlobalTransactionCache = [],
      RequestGlobalTransactionCache = [], VIP = fmupd ''eth0'' True fmempty, VIPIp = fmempty\<rparr>"

definition demo_net :: IPNet where
  "demo_net = \<lparr>net_IP = [10, 0, 0, 0], net_Mask = [255, 255, 255, 0]\<rparr>"

definition demo_mac :: bytes where "demo_mac = [2, 0, 0, 0, 0, 7]"

lemma demo_mac_String: "mac_String demo_mac = ''02:00:00:00:00:07''"
  by code_simp

lemma demo_env_sel [simp]:
  "ev_clock (demo_env ping) att = 0" "ev_ping (demo_env ping) att x y = ping att" "ev_arp (demo_env ping) att z = []"
  "ev_dhcp4 (demo_env ping) = demo_dhcp4" "ev_filter (demo_env ping) t m opts = Inr (IMap [])"
  by (simp_all add: demo_env_def)

lemma demo_decode: "decode (demo_env ping) object = Ret (fmempty, Some ''Unable to decode the option'')"
  by (simp add: decode_def decodeOptions_def MysqlGet_def demo_env_def list_db_def sql_select_def sql_replace_def closing_def)

definition demo_used :: "(Memory, list_store) DHCPHandler" where
  "demo_used = demo_scope\<lparr>dh_available := snd (bReserveIPIndex memory_backend 0 ''aa'' (dh_available demo_scope)),
     dh_hwcache := [(''aa'', IInt 0, seconds 60)]\<rparr>"

lemma demo_used_inv:
  "mem_random_inv (dh_available demo_used)" "Memory_Capacity (dh_available demo_used) = 4"
  "mem_owner (dh_available demo_used) = [0 \<mapsto> ''aa'']"
  using memory.reserve_ok [OF demo_scope_inv(1), of 0 "''aa''"] demo_scope_inv(2,3) by (auto simp: demo_used_def)

lemma demo_scope_sel [simp]:
  "dh_start demo_scope = v4 0x0A000002" "dh_ipAssigned demo_scope = fmempty" "dh_hwcache demo_scope = []"
  "dh_leaseRange demo_scope = 4" "dh_ip demo_scope = [10, 0, 0, 1]" "dh_options demo_scope = fmempty" "dh_layer2 demo_scope"
  by (simp_all add: demo_scope_def)

lemma demo_used_sel [simp]:
  "dh_start demo_used = v4 0x0A000002" "dh_ipAssigned demo_used = fmempty" "dh_leaseRange demo_used = 4"
  "dh_hwcache demo_used = [(''aa'', IInt 0, seconds 60)]" "dh_pending demo_used = []"
  by (simp_all add: demo_used_def) (simp add: demo_scope_def)

lemma list_cache_Get: "gcGet list_cache now k c = map_option fst (lc_get now k c)"
  by (simp add: list_cache_def)


lemma demo_reply:
  assumes "dh_options h = fmempty"
  shows "\<exists>a' lease opts g'. discover_reply (demo_env ping) list_cache 0 msg macb srvIP ifIP Options NetScope n h answer demo_globals = (a', g') \<and>
    an_D a' = Some (Reply Offer (To4 (setOptionServerIdentifier srvIP (dh_ip h))) (pkIPAdd demo_dhcp4 (dh_start h) n) lease opts)"
  using assms
  by (simp add: discover_reply_def Let_def base_options_def demo_decode GetFromGlobalFilterCache_def demo_globals_def
      list_cache_Get lc_get_def AddPffilterDevicesOptions_def reply_with_def)

lemma demo_add_devices: "add_devices (demo_env ping) object st = Ret st"
  using demo_decode [of ping object]
  by (auto simp: decode_def add_devices_def AddDevicesOptions_def split: prod.splits)

lemma demo_ack_allowed: "dh_options h = fmempty \<Longrightarrow> ack_allowed (demo_env ping) list_cache msg macb Options NetScope h demo_globals"
  by (simp add: ack_allowed_def base_options_def demo_add_devices GetFromGlobalFilterCache_def demo_globals_def list_cache_Get
      lc_get_def AddPffilterDevicesOptions_def)


definition demo_cached :: "(Memory, list_store) DHCPHandler" where
  "demo_cached = demo_scope\<lparr>dh_hwcache := [(''02:00:00:00:00:07'', IInt 1, seconds 60)]\<rparr>"

lemma demo_address: "pkIPAdd demo_dhcp4 (v4 0x0A000002) 1 = [10, 0, 0, 3]"
  by (simp add: demo_dhcp4_def be_Uint32_Put) (simp add: be_PutUint32_def)

lemma ack_only_offered_witness:
  "\<exists>a h' g' server lease opts.
    serve_request (demo_env (\<lambda>att. False)) memory_backend list_cache ''3'' demo_mac [] [] [0, 0, 0, 0]
      (fmupd OptionRequestedIPAddress [10, 0, 0, 3] fmempty) fmempty demo_net empty_answer (demo_cached, demo_globals) = (a, h', g') \<and>
    an_D a = Some (Reply ACK server [10, 0, 0, 3] lease opts) \<and>
    (\<exists>n. gcGet list_cache 0 ''02:00:00:00:00:07'' (dh_hwcache demo_cached) = Some (IInt n) \<and>
       ip_Equal (pkIPAdd demo_dhcp4 (v4 0x0A000002) n) [10, 0, 0, 3])"
proof -
  let ?env = "demo_env (\<lambda>att. False)" and ?req = "fmupd OptionRequestedIPAddress [10, 0, 0, 3] fmempty"
  have cached: "gcGet list_cache 0 (mac_String demo_mac) (dh_hwcache demo_cached) = Some (IInt 1)"
    by (simp add: demo_cached_def list_cache_Get lc_get_def demo_mac_String seconds_def)
  have range: "pkIPRange demo_dhcp4 (v4 0x0A000002) [10, 0, 0, 3] - 1 = 1"
    using scope_address(4) [OF demo_dhcp4_laws, of "v4 0x0A000002" "0x0A000002" 1] demo_address by simp
  let ?g = "demo_globals\<lparr>RequestGlobalTransactionCache := gcSet list_cache 0 (request_key ?env (mac_String demo_mac) ''3'' []) (IInt 1) (seconds 1) []\<rparr>"
  have "serve_request ?env memory_backend list_cache ''3'' demo_mac [] [] [0, 0, 0, 0] ?req fmempty demo_net empty_answer (demo_cached, demo_globals) =
      request_ack ?env memory_backend list_cache 0 ''3'' demo_mac [] fmempty demo_net [10, 0, 0, 3] 1 (empty_answer\<lparr>an_IP := [10, 0, 0, 3]\<rparr>) (demo_cached, ?g)"
    using request_offered [where env = ?env and macb = demo_mac and msg = "''3''" and xid = "[]" and options = ?req and srvIP = "[]" and
        h = demo_cached and ci = "[0, 0, 0, 0]" and C = list_cache and g = demo_globals and B = memory_backend and n = 1 and
        Options = fmempty and NetScope = demo_net and answer = empty_answer and now = 0, OF _ refl _ refl]
      cached range
    by (simp add: requested_ip_def other_server_def gm_get_def OptionRequestedIPAddress_def OptionServerIdentifier_def demo_cached_def
        demo_globals_def list_cache_Get lc_get_def demo_address ip_Equal_def IPv4zero_def IPv4_def v4InV6Prefix_def)
  moreover have "ack_allowed ?env list_cache ''3'' demo_mac fmempty demo_net demo_cached ?g"
    using demo_ack_allowed [of demo_cached "\<lambda>att. False" "''3''" demo_mac fmempty demo_net] filter_info_frame [of demo_globals ?g]
    by (simp add: ack_allowed_def demo_cached_def)
  ultimately obtain a h' g' server lease opts where
    r: "serve_request ?env memory_backend list_cache ''3'' demo_mac [] [] [0, 0, 0, 0] ?req fmempty demo_net empty_answer (demo_cached, demo_globals) = (a, h', g')"
    "an_D a = Some (Reply ACK server [10, 0, 0, 3] lease opts)"
    using request_ack_allowed [of ?env list_cache "''3''" demo_mac fmempty demo_net demo_cached ?g memory_backend "[]" "[10, 0, 0, 3]" 1
        "empty_answer\<lparr>an_IP := [10, 0, 0, 3]\<rparr>"]
    by (auto simp: reply_with_def)
  have "\<exists>n. gcGet list_cache 0 (mac_String demo_mac) (dh_hwcache demo_cached) = Some (IInt n) \<and>
      ip_Equal (pkIPAdd demo_dhcp4 (v4 0x0A000002) n) [10, 0, 0, 3]"
    using ack_only_offered [OF r(1) _ r(2)] by (auto simp: empty_answer_def Let_def demo_cached_def)
  with r show ?thesis unfolding demo_mac_String by blast
qed

definition demo_interface :: "(Memory, list_store) Interface" where
  "demo_interface =
     \<lparr>if_Name = ''eth0'', if_HardwareAddr = [2, 0, 0, 0, 0, 1],
      if_network = [\<lparr>nw_network = demo_net, nw_dhcpHandler = demo_scope, nw_splittednet = False\<rparr>], if_layer2 = [demo_net],
      if_Ipv4 = [10, 0, 0, 1], if_Ipv6 = [], if_InterfaceType = ''internal'', if_relayIP = [], if_listenPort = 67\<rparr>"

lemma repeated_packet_ignored_witness:
  "\<exists>a1 I1 g1. ServeDHCP 1 (demo_env (\<lambda>att. False)) memory_backend list_cache demo_mac DhcpRequest [] (demo_interface, demo_globals) =
      Some (Ret (a1, I1, g1)) \<and> an_D a1 \<noteq> None \<and>
    (\<exists>a2. ServeDHCP 1 (demo_env (\<lambda>att. False)) memory_backend list_cache demo_mac DhcpRequest [] (I1, g1) = Some (Ret (a2, I1, g1)) \<and>
       an_D a2 = None)"
proof -
  let ?env = "demo_env (\<lambda>att. False)"
  obtain a1 I1 g1 where r: "ServeDHCP 1 ?env memory_backend list_cache demo_mac DhcpRequest [] (demo_interface, demo_globals) = Some (Ret (a1, I1, g1))"
    "an_D a1 \<noteq> None"
    by (simp add: ServeDHCP_def demo_interface_def demo_dhcp4_def Let_def ip_Equal_def IPv4zero_def IPv4_def v4InV6Prefix_def
        demo_globals_def gm_get_def option_strings_def list_cache_Get lc_get_def serve_message_def DhcpRequest_def Discover_def
        serve_request_def requested_ip_def other_server_def OptionServerIdentifier_def)
  have "ev_node ?env m \<noteq> QErr e" for m e by (simp add: demo_env_def)
  then show ?thesis using repeated_packet_ignored [OF list_cache_laws r, of ?env demo_mac] r by (force simp: seconds_def)
qed

lemma release_frees_twice_witness:
  "let h1 = serve_release (demo_env (\<lambda>att. False)) memory_backend list_cache ''aa'' [10, 0, 0, 2] fmempty demo_used in
   mem_owner (dh_available h1) 0 = Some FakeMac \<and>
   (\<exists>h3. reserve memory_backend 0 ''bb'' (run_pending memory_backend 0 0 h1) = ((''bb'', None), h3) \<and>
      mem_owner (dh_available h3) 0 = Some ''bb'' \<and> mem_owner (dh_available (run_pending memory_backend 30 0 h3)) 0 = None)"
proof -
  have a: "pkIPAdd demo_dhcp4 (v4 0x0A000002) 0 = [10, 0, 0, 2]"
    by (simp add: demo_dhcp4_def be_Uint32_Put) (simp add: be_PutUint32_def)
  have r: "pkIPRange demo_dhcp4 (v4 0x0A000002) [10, 0, 0, 2] - 1 = 0"
    using scope_address(4) [OF demo_dhcp4_laws, of "v4 0x0A000002" "0x0A000002" 0] a by simp
  show ?thesis
    using release_frees_twice [OF list_cache_laws demo_used_inv(1), where mac = "''aa''" and env = "demo_env (\<lambda>att. False)" and
        options = fmempty and ci = "[10, 0, 0, 2]" and n = 0 and f = serve_release and t = 0 and t' = 30 and mac' = "''bb''"] r
    by (simp add: demo_used_inv FreeMac_def requested_ip_def list_cache_Get lc_get_def seconds_def Let_def)
qed


lemma answered_probes_never_return_witness:
  "\<forall>fuel. serve_discover fuel (demo_env (\<lambda>att. True)) memory_backend list_cache ''1'' demo_mac [] [10, 0, 0, 1] [] fmempty fmempty
      demo_net empty_answer (demo_scope, demo_globals) = None"
  using answered_probes_never_return [OF demo_scope_inv(1), where env = "demo_env (\<lambda>att. True)" and j = 1 and k = 2 and
      options = fmempty and macb = demo_mac and C = list_cache]
  by (simp add: demo_scope_inv list_cache_Get lc_get_def)

end
