(* ===== verification/PfdhcpServer.thy ===== *)
theory PfdhcpServer
  imports PfdhcpNet PfdhcpServe
begin

text \<open>
  The loop that reads packets (\<open>Serve\<close>, \<open>src/go/cmd/pfdhcp/server.go\<close>) and the worker that has
  them handled and sends the answers (\<open>doWork\<close>, \<open>workers_pool.go\<close>).

  The socket is the list of what its reads return; the sending side is a record of the results
  of the system calls. The goroutine that puts a job in the channel is not ordered with the
  others: the jobs are a list of the jobs sent, in the order of the packets.
\<close>

section \<open>Reading packets\<close>

text \<open>The interface of a job (a pointer) is its number in the list of interfaces; it is also the handler.\<close>

record job =
  jb_DHCPpacket :: bytes
  jb_msgType :: nat
  jb_Int :: nat
  jb_clientAddr :: string
  jb_srvAddr :: ip

datatype read_result = ReadErr string | ReadPacket bytes string ip

definition buffer_size :: nat where "buffer_size = 1500"

text \<open>
  \<open>ReadFromRaw\<close> fills the front of the buffer and returns how many bytes it wrote; what an
  earlier, longer packet left behind stays after them.
\<close>

definition ReadFromRaw :: "bytes \<Rightarrow> bytes \<Rightarrow> nat \<times> bytes" where
  "ReadFromRaw data buffer =
     (let d = take (length buffer) data in (length d, d @ drop (length d) buffer))"

text \<open>The checks on a packet: its type when it is one of a DHCP message.\<close>

definition packet_type :: "dhcp4 \<Rightarrow> bytes \<Rightarrow> nat option" where
  "packet_type D req =
     (if length req < 240 then None
      else if pkHLen D req > 16 then None
      else case gm_get [] (pkParseOptions D req) OptionDHCPMessageType of
        [t] \<Rightarrow> if unat t < Discover \<or> unat t > Inform then None else Some (unat t)
      | _ \<Rightarrow> None)"

fun Serve_loop ::
  "dhcp4 \<Rightarrow> nat \<Rightarrow> read_result list \<Rightarrow> bytes \<Rightarrow> job list \<times> go_err" where
  "Serve_loop D I [] buffer = ([], None)"
| "Serve_loop D I (ReadErr err # reads) buffer = ([], Some err)"
| "Serve_loop D I (ReadPacket data addr dst # reads) buffer =
     (let (n, buffer) = ReadFromRaw data buffer;
          req = take n buffer;
          (jobs, err) = Serve_loop D I reads buffer
      in case packet_type D req of
           None \<Rightarrow> (jobs, err)
         | Some t \<Rightarrow>
             (\<lparr>jb_DHCPpacket = req, jb_msgType = t, jb_Int = I, jb_clientAddr = addr, jb_srvAddr = dst\<rparr> # jobs, err))"

definition Serve :: "dhcp4 \<Rightarrow> nat \<Rightarrow> read_result list \<Rightarrow> job list \<times> go_err" where
  "Serve D I reads = Serve_loop D I reads (replicate buffer_size 0)"

section \<open>Handling a packet and sending the answer\<close>

text \<open>
  What the worker sends with: the bytes of a reply (\<open>ReplyPacket\<close>), the system calls of
  \<open>sendUnicastDHCP\<close>, and the raw socket of \<open>sendDHCP\<close> (\<open>None\<close> when it cannot be opened).
\<close>

record sender =
  sn_Bytes :: "bytes \<Rightarrow> dhcp_reply \<Rightarrow> bytes"
  sn_Socket :: go_err
  sn_Sendto :: "datagram \<Rightarrow> go_err"
  sn_Close :: go_err
  sn_Raw :: "RawClient option"
  sn_Marshal :: "frame \<Rightarrow> bytes + string"
  sn_WriteTo :: "bytes \<Rightarrow> bytes \<Rightarrow> go_err"

datatype sent = SentUnicast datagram | SentRaw bytes bytes

definition unicast :: "sender \<Rightarrow> bytes \<Rightarrow> ip \<Rightarrow> ip \<Rightarrow> int \<Rightarrow> sent list outcome" where
  "unicast S d srcIP dstIP port =
     go_bind (sendUnicastDHCP (sn_Socket S) (sn_Sendto S) (sn_Close S) d srcIP dstIP bootpServer port)
       (\<lambda>(dg, _). Ret [SentUnicast dg])"

definition send_answer :: "sender \<Rightarrow> dhcp4 \<Rightarrow> ip \<Rightarrow> job \<Rightarrow> Answer \<Rightarrow> sent list outcome" where
  "send_answer S D ifIP element ans =
     (case an_D ans of
        None \<Rightarrow> Ret []
      | Some reply \<Rightarrow>
          let d = sn_Bytes S (jb_DHCPpacket element) reply;
              (ipStr, portStr, _) = SplitHostPort (jb_clientAddr element);
              gi = pkGIAddr D (jb_DHCPpacket element)
          in if \<not> (ip_Equal gi IPv4zero \<and> ip_Equal (ParseIP ipStr) IPv4zero) then
               let dstPort = fst (strconv_Atoi portStr) in
               go_bind
                 (if \<not> ip_Equal (ParseIP ipStr) gi \<and> \<not> ip_Equal gi IPv4zero
                  then unicast S d (an_SrcIP ans) gi dstPort else Ret [])
                 (\<lambda>sent1. go_bind (unicast S d (an_SrcIP ans) (ParseIP ipStr) dstPort) (\<lambda>sent2. Ret (sent1 @ sent2)))
             else
               go_bind (sendDHCP (sn_Marshal S) (sn_WriteTo S) (sn_Raw S) (an_MAC ans) d (an_IP ans) ifIP)
                 (\<lambda>(w, _). Ret (case w of Some (target, fb) \<Rightarrow> [SentRaw target fb] | None \<Rightarrow> [])))"

definition doWork ::
  "nat \<Rightarrow> sender \<Rightarrow> 'd serve_env \<Rightarrow> 'p Backend \<Rightarrow> 'c gocache \<Rightarrow> job \<Rightarrow> ('p, 'c) Interfaces \<times> 'c Globals \<Rightarrow>
   (sent list \<times> ('p, 'c) Interfaces \<times> 'c Globals) outcome option" where
  "doWork fuel S env B C element st =
     (case st of (ints, g) \<Rightarrow>
        let I = intsNet ints ! jb_Int element in
        map_option (\<lambda>r.
          go_bind r (\<lambda>(ans, I, g).
            go_bind (send_answer S (ev_dhcp4 env) (if_Ipv4 I) element ans) (\<lambda>sent.
              Ret (sent, ints\<lparr>intsNet := (intsNet ints)[jb_Int element := I]\<rparr>, g))))
          (ServeDHCP fuel env B C (jb_DHCPpacket element) (jb_msgType element) (jb_srvAddr element) (I, g)))"

section \<open>Jobs\<close>

fun is_packet :: "read_result \<Rightarrow> bool" where
  "is_packet (ReadPacket _ _ _) = True"
| "is_packet (ReadErr _) = False"

text \<open>The job of one read, on its own.\<close>

fun read_jobs :: "dhcp4 \<Rightarrow> nat \<Rightarrow> read_result \<Rightarrow> job list" where
  "read_jobs D i (ReadErr _) = []"
| "read_jobs D i (ReadPacket data addr dst) =
     (let req = take 1500 data in
      case packet_type D req of
        None \<Rightarrow> []
      | Some t \<Rightarrow> [\<lparr>jb_DHCPpacket = req, jb_msgType = t, jb_Int = i, jb_clientAddr = addr, jb_srvAddr = dst\<rparr>])"

lemma ReadFromRaw_own_bytes:
  assumes "ReadFromRaw data buffer = (n, buffer')"
  shows "take n buffer' = take (length buffer) data" and "length buffer' = length buffer"
  using assms by (auto simp: ReadFromRaw_def Let_def min_def)

lemma Serve_loop_jobs:
  "length buffer = 1500 \<Longrightarrow>
   Serve_loop D i reads buffer =
     (concat (map (read_jobs D i) (takeWhile is_packet reads)),
      case dropWhile is_packet reads of ReadErr e # _ \<Rightarrow> Some e | _ \<Rightarrow> None)"
proof (induction D i reads buffer rule: Serve_loop.induct)
  case (3 D i data addr dst reads buffer)
  obtain n buffer' where r: "ReadFromRaw data buffer = (n, buffer')" by (metis prod.collapse)
  note own = ReadFromRaw_own_bytes [OF r]
  have "length buffer' = 1500" using own(2) 3(2) by simp
  with 3(1) [OF r [symmetric] refl refl] show ?case
    using own(1) 3(2) by (simp add: r Let_def split: option.split)
qed simp_all

text \<open>
  The loop that reads packets hands on exactly the DHCP messages, each with its own bytes: although
  one buffer of 1500 bytes is used for all reads, the jobs are those of the reads taken one by one,
  up to the first read error, which is what the loop returns; nothing of an earlier packet
  shows in a later job, and every job has a type from DISCOVER to INFORM and at least 240 bytes.
\<close>
theorem Serve_hands_on_messages:
  "Serve D i reads =
     (concat (map (read_jobs D i) (takeWhile is_packet reads)),
      case dropWhile is_packet reads of ReadErr e # _ \<Rightarrow> Some e | _ \<Rightarrow> None) \<and>
   list_all (\<lambda>j. Discover \<le> jb_msgType j \<and> jb_msgType j \<le> Inform \<and> 240 \<le> length (jb_DHCPpacket j) \<and>
     length (jb_DHCPpacket j) \<le> 1500) (fst (Serve D i reads))"
proof -
  have eq: "Serve D i reads =
     (concat (map (read_jobs D i) (takeWhile is_packet reads)),
      case dropWhile is_packet reads of ReadErr e # _ \<Rightarrow> Some e | _ \<Rightarrow> None)"
    unfolding Serve_def by (rule Serve_loop_jobs) (simp add: buffer_size_def)
  have "list_all (\<lambda>j. Discover \<le> jb_msgType j \<and> jb_msgType j \<le> Inform \<and> 240 \<le> length (jb_DHCPpacket j) \<and>
     length (jb_DHCPpacket j) \<le> 1500) (read_jobs D i r)" for r
    by (cases r) (auto simp: packet_type_def Let_def split: list.splits if_splits)
  then show ?thesis unfolding eq by (simp add: list_all_iff)
qed

text \<open>A raw socket that cannot be opened takes the process down as soon as an answer is to be broadcast.\<close>

lemma raw_socket_failure_panics:
  assumes "sn_Raw S = None" and "an_D ans \<noteq> None" and "ip_Equal (pkGIAddr D (jb_DHCPpacket element)) IPv4zero"
    and "SplitHostPort (jb_clientAddr element) = (host, port, e)" and "ip_Equal (ParseIP host) IPv4zero"
  shows "send_answer S D ifIP element ans = Panic ''nil pointer dereference''"
  using assms by (auto simp: send_answer_def sendDHCP_def Let_def)

end
