(* ===== verification/PfdhcpApi.thy ===== *)
theory PfdhcpApi
  imports PfdhcpServeSpec Complex_Main "HOL-Library.Log_Nat"
begin

text \<open>
  The HTTP interface of the DHCP server (\<open>src/go/cmd/pfdhcp/api.go\<close>): one definition per
  handler. A response is the value that is encoded as JSON, or an error with its status; a
  panic aborts the request. The variables of the route are arguments; the configuration
  service and the database are parameters, and \<open>None\<close> is a call of \<open>IPsFromRange\<close> that
  does not return.
\<close>

section \<open>Numbers and durations as Go prints them\<close>

text \<open>
  \<open>float64\<close>: a rational rounded to 53 significant bits, ties to even. The quotients computed here
  are far from the limits of the exponent.
\<close>

definition round_even :: "rat \<Rightarrow> int" where
  "round_even q =
     (let f = \<lfloor>q\<rfloor>; r = q - of_int f in
      if r < 1 / 2 then f else if r > 1 / 2 then f + 1 else if even f then f else f + 1)"

definition pow2 :: "int \<Rightarrow> rat" where
  "pow2 e = (if e \<ge> 0 then 2 ^ nat e else 1 / 2 ^ nat (- e))"

definition f64_exponent :: "rat \<Rightarrow> int" where
  "f64_exponent q =
     (case quotient_of q of (n, d) \<Rightarrow>
        let e = bitlen n - bitlen d in if q < pow2 e then e - 1 else e)"

definition f64_round :: "rat \<Rightarrow> rat" where
  "f64_round q =
     (if q = 0 then 0
      else let e = f64_exponent \<bar>q\<bar> - 52; m = of_int (round_even (\<bar>q\<bar> / pow2 e)) * pow2 e
           in if q < 0 then - m else m)"

text \<open>
  \<open>int((float64(a) / float64(b)) * 100)\<close>; the conversion of an infinite or undefined quotient
  gives the smallest integer.
\<close>

definition percent :: "int \<Rightarrow> int \<Rightarrow> int" where
  "percent a b =
     (if b = 0 then - (2 ^ 63)
      else let x = f64_round (f64_round (of_int a / of_int b) * 100)
           in if x < 0 then \<lceil>x\<rceil> else \<lfloor>x\<rfloor>)"

text \<open>\<open>time.Duration.String\<close>: \<open>fmtFrac\<close> prints the last digits of a number behind a point, without zeros at the end.\<close>

definition fmt_frac :: "nat \<Rightarrow> nat \<Rightarrow> string" where
  "fmt_frac v prec =
     (let ds = dec_nat (v mod 10 ^ prec);
          padded = replicate (prec - length ds) (CHR ''0'') @ ds;
          kept = rev (dropWhile (\<lambda>c. c = CHR ''0'') (rev padded))
      in if kept = [] then [] else CHR ''.'' # kept)"

definition micro_s :: string where
  "micro_s = [char_of (194 :: nat), char_of (181 :: nat), CHR ''s'']"

definition dur_abs :: "nat \<Rightarrow> string" where
  "dur_abs u =
     (if u < 1000000000 then
        (if u = 0 then ''0s''
         else if u < 1000 then dec_nat u @ ''ns''
         else if u < 1000000 then dec_nat (u div 1000) @ fmt_frac u 3 @ micro_s
         else dec_nat (u div 1000000) @ fmt_frac u 6 @ ''ms'')
      else
        let s = u div 1000000000; m = s div 60; h = m div 60 in
        (if m = 0 then [] else (if h = 0 then [] else dec_nat h @ ''h'') @ dec_nat (m mod 60) @ ''m'') @
        dec_nat (s mod 60) @ fmt_frac u 9 @ ''s'')"

definition dur_String :: "int \<Rightarrow> string" where
  "dur_String d = (if d < 0 then CHR ''-'' # dur_abs (nat (- d)) else dur_abs (nat d))"

section \<open>The data of the answers\<close>

record Node =
  nd_Mac :: string
  nd_IP :: string
  nd_Pool :: string
  nd_Error :: string
  nd_EndsAt :: int

record Stats =
  st_EthernetName :: string
  st_Net :: string
  st_Free :: int
  st_PercentFree :: int
  st_Used :: int
  st_PercentUsed :: int
  st_Category :: string
  st_Options :: "(string, string) gomap"
  st_Members :: "Node list"
  st_Status :: string
  st_Size :: int
  st_InPoolNotInCache :: "string list"
  st_DuplicateInPool :: "(string, string) gomap"

definition empty_Stats :: Stats where
  "empty_Stats =
     \<lparr>st_EthernetName = [], st_Net = [], st_Free = 0, st_PercentFree = 0, st_Used = 0, st_PercentUsed = 0, st_Category = [],
      st_Options = fmempty, st_Members = [], st_Status = [], st_Size = 0, st_InPoolNotInCache = [],
      st_DuplicateInPool = fmempty\<rparr>"

record Items =
  it_Items :: "Stats list"
  it_Status :: string

record APIReq =
  rq_Req :: string
  rq_NetInterface :: string
  rq_NetWork :: string
  rq_Mac :: string
  rq_Role :: string

record Info =
  inf_Status :: string
  inf_Mac :: string
  inf_Network :: string

text \<open>An error of \<open>unifiedapierrors.Error\<close> is a message and a status.\<close>

type_synonym 'a reply = "(string \<times> nat) + 'a"

section \<open>Which address has which client\<close>

definition handleIP2Mac :: "'c gocache \<Rightarrow> int \<Rightarrow> string \<Rightarrow> 'c Globals \<Rightarrow> Node reply outcome" where
  "handleIP2Mac C now x g =
     (case gcGetWithExpiration C now x (GlobalIPCache g) of
        Some (index, expiresAt) \<Rightarrow>
          go_bind (assert_string index) (\<lambda>m.
            Ret (Inr \<lparr>nd_Mac = m, nd_IP = x, nd_Pool = [], nd_Error = [], nd_EndsAt = expiresAt\<rparr>))
      | None \<Rightarrow> Ret (Inl (''Cannot find match for this IP address'', 404)))"

definition handleMac2Ip :: "'c gocache \<Rightarrow> int \<Rightarrow> string \<Rightarrow> 'c Globals \<Rightarrow> Node reply outcome" where
  "handleMac2Ip C now mac g =
     (case gcGetWithExpiration C now mac (GlobalMacCache g) of
        Some (index, expiresAt) \<Rightarrow>
          go_bind (assert_string index) (\<lambda>x.
            Ret (Inr \<lparr>nd_Mac = mac, nd_IP = x, nd_Pool = [], nd_Error = [], nd_EndsAt = expiresAt\<rparr>))
      | None \<Rightarrow> Ret (Inl (''Cannot find match for this MAC address'', 404)))"

section \<open>Statistics\<close>

text \<open>The address of a pool index, as text.\<close>

definition index_address :: "('p, 'c) DHCPHandler \<Rightarrow> u32 \<Rightarrow> string outcome" where
  "index_address h i = go_bind (be_Uint32 (To4 (dh_start h))) (\<lambda>s. Ret (ip_String (be_PutUint32 (s + i))))"

definition member :: "'p Backend \<Rightarrow> ('p, 'c) DHCPHandler \<Rightarrow> string \<times> iface \<times> int \<Rightarrow> Node outcome" where
  "member B h item =
     (case item of (i, object, expiration) \<Rightarrow>
        go_bind (assert_int object) (\<lambda>n.
          go_bind (index_address h (of_int n)) (\<lambda>a.
            let (_, mac, _) = bGetMACIndex B (of_int n) (dh_available h) in
            Ret \<lparr>nd_Mac = i, nd_IP = a, nd_Pool = mac, nd_Error = (if i \<noteq> mac then ''1'' else ''0''), nd_EndsAt = expiration\<rparr>)))"

fun members_loop ::
  "'p Backend \<Rightarrow> ('p, 'c) DHCPHandler \<Rightarrow> (string \<times> iface \<times> int) list \<Rightarrow> Node list \<times> string list \<times> int \<Rightarrow>
   (Node list \<times> string list \<times> int) outcome" where
  "members_loop B h [] st = Ret st"
| "members_loop B h (item # items) (Members, Macs, Count) =
     go_bind (member B h item) (\<lambda>n. members_loop B h items (Members @ [n], Macs @ [fst item], Count + 1))"

definition extractMembers ::
  "'p Backend \<Rightarrow> 'c gocache \<Rightarrow> int \<Rightarrow> ('p, 'c) Network \<Rightarrow> (Node list \<times> string list \<times> int) outcome" where
  "extractMembers B C now v =
     (let h = nw_dhcpHandler v in members_loop B h (gcItems C now (dh_hwcache h)) ([], [], 0))"

definition duplicate_address ::
  "('p, 'c) DHCPHandler \<Rightarrow> (u64, string) gomap \<Rightarrow> u64 \<Rightarrow> (string, string) gomap outcome \<Rightarrow> (string, string) gomap outcome" where
  "duplicate_address h dups key acc =
     go_bind acc (\<lambda>m. go_bind (index_address h (ucast key)) (\<lambda>a. Ret (fmupd a (gm_get [] dups key) m)))"

definition duplicates_network ::
  "'p Backend \<Rightarrow> 'c gocache \<Rightarrow> (u64 \<Rightarrow> nat) \<Rightarrow> int \<Rightarrow> string \<Rightarrow> ('p, 'c) Network \<Rightarrow> Stats outcome" where
  "duplicates_network B C prio now netint v =
     (let h = nw_dhcpHandler v in
      go_bind (extractMembers B C now v) (\<lambda>(Members, Macs, _).
        let (inPoolNotInCache, DuplicateInPool) = bGetIssues B Macs (dh_available h) in
        go_bind (fold (duplicate_address h DuplicateInPool) (range_keys prio DuplicateInPool) (Ret fmempty)) (\<lambda>DupInPool.
          Ret (empty_Stats\<lparr>st_EthernetName := netint, st_Net := net_String (nw_network v), st_Category := dh_role h,
                 st_Members := Members, st_Size := dh_leaseRange h, st_InPoolNotInCache := inPoolNotInCache,
                 st_DuplicateInPool := DupInPool\<rparr>))))"

text \<open>The options shown: those of the handler, with the first letter lower, and those stored for the network, as they are.\<close>

definition handler_option ::
  "dhcp4 \<Rightarrow> dhcp_options \<Rightarrow> u8 \<Rightarrow> (string, string) gomap outcome \<Rightarrow> (string, string) gomap outcome" where
  "handler_option D options code acc =
     go_bind acc (\<lambda>m.
       go_bind (lower_first (pkOptionString D code)) (\<lambda>key.
         go_bind (Tlv_String code (gm_get [] options code)) (\<lambda>s. Ret (fmupd key s m))))"

definition network_option ::
  "dhcp4 \<Rightarrow> dhcp_options \<Rightarrow> u8 \<Rightarrow> (string, string) gomap outcome \<Rightarrow> (string, string) gomap outcome" where
  "network_option D x key acc =
     go_bind acc (\<lambda>m. go_bind (Tlv_String key (gm_get [] x key)) (\<lambda>s. Ret (fmupd (pkOptionString D key) s m)))"

definition shown_options :: "'d serve_env \<Rightarrow> ('p, 'c) Network \<Rightarrow> (string, string) gomap outcome" where
  "shown_options env v =
     (let h = nw_dhcpHandler v; D = ev_dhcp4 env in
      go_bind (fold (handler_option D (dh_options h)) (range_keys (ev_prio env) (dh_options h))
                (Ret (fmupd ''optionIPAddressLeaseTime'' (dur_String (dh_leaseDuration h)) fmempty))) (\<lambda>m.
        go_bind (decode env (ip_String (net_IP (nw_network v)))) (\<lambda>(x, err).
          if err = None then fold (network_option D x) (range_keys (ev_prio env) x) (Ret m) else Ret m)))"

definition stats_status :: "int \<Rightarrow> int \<Rightarrow> int \<Rightarrow> string" where
  "stats_status Count leaseRange availableCount =
     (if Count = leaseRange - availableCount then ''Normal''
      else ''Calculated available IP '' @ strconv_Itoa (leaseRange - Count) @
           '' is different than what we have available in the pool '' @ strconv_Itoa availableCount)"

definition stats_network ::
  "'d serve_env \<Rightarrow> 'p Backend \<Rightarrow> 'c gocache \<Rightarrow> (ip \<Rightarrow> ip) \<Rightarrow> string \<Rightarrow> ('p, 'c) Network \<Rightarrow> Stats outcome option" where
  "stats_network env B C Inc netint v =
     (let h = nw_dhcpHandler v in
      case go_bind (shown_options env v) (\<lambda>opts.
             go_bind (extractMembers B C (ev_clock env 0) v) (\<lambda>m. Ret (opts, m))) of
        Panic e \<Rightarrow> Some (Panic e)
      | Ret (opts, Members, _, Count) \<Rightarrow>
          Option.bind (IPsFromRange Inc (dh_ipReserved h)) (\<lambda>(_, reserved).
            let Count = (if reserved \<noteq> 1 then Count + reserved else Count);
                availableCount = sint (bFreeIPsRemaining B (dh_available h));
                usedCount = dh_leaseRange h - availableCount
            in Some (Ret (empty_Stats\<lparr>st_EthernetName := netint, st_Net := net_String (nw_network v), st_Free := availableCount,
                 st_Category := dh_role h, st_Options := opts, st_Members := Members,
                 st_Status := stats_status Count (dh_leaseRange h) availableCount, st_Size := dh_leaseRange h,
                 st_Used := usedCount, st_PercentFree := percent availableCount (dh_leaseRange h),
                 st_PercentUsed := percent usedCount (dh_leaseRange h)\<rparr>))))"

text \<open>The loops over the networks of the interface.\<close>

fun stats_loop ::
  "(('p, 'c) Network \<Rightarrow> Stats outcome option) \<Rightarrow> ('p, 'c) Network list \<Rightarrow> Stats list \<Rightarrow> Stats list outcome option" where
  "stats_loop f [] stats = Some (Ret stats)"
| "stats_loop f (v # vs) stats =
     Option.bind (f v) (\<lambda>r. case r of Panic e \<Rightarrow> Some (Panic e) | Ret s \<Rightarrow> stats_loop f vs (stats @ [s]))"

definition in_request :: "string \<Rightarrow> ('p, 'c) Network \<Rightarrow> bool" where
  "in_request NetWork v \<longleftrightarrow>
     (case ParseCIDR (NetWork @ ''/32'') of None \<Rightarrow> True | Some (x, _) \<Rightarrow> net_Contains (nw_network v) x)"

text \<open>\<open>None\<close> in the answer is the nil interface of an unknown request.\<close>

definition handleAPIReq ::
  "'d serve_env \<Rightarrow> 'p Backend \<Rightarrow> 'c gocache \<Rightarrow> (ip \<Rightarrow> ip) \<Rightarrow> (u64 \<Rightarrow> nat) \<Rightarrow> APIReq \<Rightarrow> ('p, 'c) Interface \<Rightarrow>
   Stats list option outcome option" where
  "handleAPIReq env B C Inc prio Request h =
     (let wrap = map_option (\<lambda>r. go_bind r (\<lambda>stats. Ret (Some stats))) in
      if rq_Req Request = ''duplicates'' then
        wrap (stats_loop (\<lambda>v. Some (duplicates_network B C prio (ev_clock env 0) (rq_NetInterface Request) v)) (if_network h) [])
      else if rq_Req Request = ''stats'' then
        wrap (stats_loop (stats_network env B C Inc (rq_NetInterface Request)) (filter (in_request (rq_NetWork Request)) (if_network h)) [])
      else if rq_Req Request = ''debug'' then
        wrap (stats_loop (\<lambda>v. Some (Ret (empty_Stats\<lparr>st_EthernetName := rq_NetInterface Request, st_Net := net_String (nw_network v),
               st_Free := sint (bFreeIPsRemaining B (dh_available (nw_dhcpHandler v))), st_Category := dh_role (nw_dhcpHandler v),
               st_Status := ''Debug finished''\<rparr>)))
          (filter (\<lambda>v. rq_Role Request = dh_role (nw_dhcpHandler v)) (if_network h)) [])
      else Some (Ret None))"

section \<open>The handlers of the routes\<close>

definition interface_request ::
  "'d serve_env \<Rightarrow> 'p Backend \<Rightarrow> 'c gocache \<Rightarrow> (ip \<Rightarrow> ip) \<Rightarrow> (u64 \<Rightarrow> nat) \<Rightarrow> (string, ('p, 'c) Interface) gomap \<Rightarrow> APIReq \<Rightarrow>
   Stats list option reply outcome option" where
  "interface_request env B C Inc prio ints Request =
     (case fmlookup ints (rq_NetInterface Request) of
        None \<Rightarrow> Some (Ret (Inl (''Interface not found'', 404)))
      | Some h \<Rightarrow> map_option (\<lambda>r. go_bind r (\<lambda>stat. Ret (Inr stat))) (handleAPIReq env B C Inc prio Request h))"

definition handleStats where
  "handleStats env B C Inc prio ints netint network =
     interface_request env B C Inc prio ints
       \<lparr>rq_Req = ''stats'', rq_NetInterface = netint, rq_NetWork = network, rq_Mac = [], rq_Role = []\<rparr>"

definition handleDuplicates where
  "handleDuplicates env B C Inc prio ints netint network =
     interface_request env B C Inc prio ints
       \<lparr>rq_Req = ''duplicates'', rq_NetInterface = netint, rq_NetWork = network, rq_Mac = [], rq_Role = []\<rparr>"

definition handleDebug where
  "handleDebug env B C Inc prio ints netint role =
     interface_request env B C Inc prio ints
       \<lparr>rq_Req = ''debug'', rq_NetInterface = netint, rq_NetWork = [], rq_Mac = [], rq_Role = role\<rparr>"

fun all_stats_loop ::
  "'d serve_env \<Rightarrow> 'p Backend \<Rightarrow> 'c gocache \<Rightarrow> (ip \<Rightarrow> ip) \<Rightarrow> (u64 \<Rightarrow> nat) \<Rightarrow> (string, ('p, 'c) Interface) gomap \<Rightarrow> string list \<Rightarrow>
   Stats list \<Rightarrow> Stats list outcome option" where
  "all_stats_loop env B C Inc prio ints [] items = Some (Ret items)"
| "all_stats_loop env B C Inc prio ints (i # is) items =
     (case fmlookup ints i of
        None \<Rightarrow> all_stats_loop env B C Inc prio ints is items
      | Some h \<Rightarrow>
          Option.bind (handleAPIReq env B C Inc prio
              \<lparr>rq_Req = ''stats'', rq_NetInterface = i, rq_NetWork = [], rq_Mac = [], rq_Role = []\<rparr> h) (\<lambda>r.
            case r of
              Panic e \<Rightarrow> Some (Panic e)
            | Ret None \<Rightarrow> Some (Panic ''interface conversion'')
            | Ret (Some stat) \<Rightarrow> all_stats_loop env B C Inc prio ints is (items @ stat)))"

definition handleAllStats ::
  "'d serve_env \<Rightarrow> 'p Backend \<Rightarrow> 'c gocache \<Rightarrow> (ip \<Rightarrow> ip) \<Rightarrow> (u64 \<Rightarrow> nat) \<Rightarrow> (string, ('p, 'c) Interface) gomap \<Rightarrow> string list \<Rightarrow>
   Items outcome option" where
  "handleAllStats env B C Inc prio ints interfaces =
     map_option (\<lambda>r. go_bind r (\<lambda>items. Ret \<lparr>it_Items = items, it_Status = ''200''\<rparr>))
       (all_stats_loop env B C Inc prio ints interfaces (if interfaces = [] then [empty_Stats] else []))"

definition handleReleaseIP ::
  "'c gocache \<Rightarrow> int \<Rightarrow> string \<Rightarrow> 'c Globals \<Rightarrow> ('p, 'c) Interfaces \<Rightarrow> (Info \<times> ('p, 'c) Interfaces) outcome" where
  "handleReleaseIP C now mac g cfg =
     go_bind (InterfaceScopeFromMac C now mac g cfg) (\<lambda>(_, cfg).
       Ret (\<lparr>inf_Status = ''ACK'', inf_Mac = mac, inf_Network = []\<rparr>, cfg))"

text \<open>
  The body is read up to a limit; an error of reading or of closing it panics. \<open>ConvertToString\<close> is
  a function of the library.
\<close>

definition body_limit :: nat where "body_limit = 1048576"

definition read_body :: "string + bytes \<Rightarrow> go_err \<Rightarrow> bytes outcome" where
  "read_body body close =
     (case body of
        Inl err \<Rightarrow> Panic err
      | Inr b \<Rightarrow> (case close of Some err \<Rightarrow> Panic err | None \<Rightarrow> Ret (take body_limit b)))"

definition override ::
  "'d sql_db \<Rightarrow> (bytes \<Rightarrow> string) \<Rightarrow> string + bytes \<Rightarrow> go_err \<Rightarrow> string \<Rightarrow> Info \<Rightarrow> 'd \<Rightarrow> Info outcome \<times> 'd" where
  "override db ConvertToString body close key result d =
     (case read_body body close of
        Panic e \<Rightarrow> (Panic e, d)
      | Ret b \<Rightarrow> (case MysqlInsert db key (ConvertToString b) d of (r, d') \<Rightarrow> (go_bind r (\<lambda>_. Ret result), d')))"

definition handleOverrideOptions where
  "handleOverrideOptions db ConvertToString body close mac d =
     override db ConvertToString body close mac \<lparr>inf_Status = ''ACK'', inf_Mac = mac, inf_Network = []\<rparr> d"

definition handleOverrideNetworkOptions where
  "handleOverrideNetworkOptions db ConvertToString body close network d =
     override db ConvertToString body close network \<lparr>inf_Status = ''ACK'', inf_Mac = [], inf_Network = network\<rparr> d"

definition handleRemoveOptions :: "'d sql_db \<Rightarrow> string \<Rightarrow> 'd \<Rightarrow> Info outcome \<times> 'd" where
  "handleRemoveOptions db mac d =
     (case MysqlDel db mac d of (r, d') \<Rightarrow>
        (go_bind r (\<lambda>ok. Ret \<lparr>inf_Status = (if ok then ''ACK'' else ''NAK''), inf_Mac = mac, inf_Network = []\<rparr>), d'))"

definition handleRemoveNetworkOptions :: "'d sql_db \<Rightarrow> string \<Rightarrow> 'd \<Rightarrow> Info outcome \<times> 'd" where
  "handleRemoveNetworkOptions db network d =
     (case MysqlDel db network d of (r, d') \<Rightarrow>
        (go_bind r (\<lambda>ok. Ret \<lparr>inf_Status = (if ok then ''ACK'' else ''NAK''), inf_Mac = [], inf_Network = network\<rparr>), d'))"

section \<open>Stored options\<close>

lemma decodeOptions_stored:
  assumes "kv_laws db view"
  shows "fst (decodeOptions db Unmarshal k d) =
    (case Unmarshal (case view d (''/dhcpd/'' @ k) of None \<Rightarrow> [] | Some v \<Rightarrow> v) of
       None \<Rightarrow> Ret (fmempty, Some ''Unable to decode the option'')
     | Some options \<Rightarrow> Ret (fold decode_option options fmempty, None))"
  using kv_get [OF assms, of k d] by (simp add: decodeOptions_def split: option.split)



section \<open>The state of a scope\<close>

lemma members_loop_count:
  "members_loop B h items (ms, macs, n) = Ret (ms', macs', n') \<Longrightarrow>
   n' = n + int (length items) \<and> macs' = macs @ map fst items \<and> length ms' = length ms + length items"
proof (induction items arbitrary: ms macs n)
  case (Cons item items)
  then show ?case by (cases "member B h item") (auto dest!: Cons.IH)
qed simp

lemma percent_examples: "percent 29 100 = 28" "percent 7 10 = 70" "percent 1 3 = 33" "percent 0 5 = 0" "percent 5 5 = 100"
  by code_simp+

lemma used_indexes:
  fixes p :: Memory
  assumes "mem_random_inv p" and "Memory_Capacity p = of_int L" and "0 \<le> L" and "L < 2 ^ 32"
  shows "L - sint (Memory_FreeIPsRemaining p) = int (card {i. mem_owner p i \<noteq> None})"
proof -
  let ?r = "Memory_FreeIPsRemaining p" and ?own = "{i. \<exists>m. mem_owner p i = Some m}"
  have own: "{i. mem_owner p i \<noteq> None} = ?own" by auto
  have "unat ?r + card ?own = unat (of_int L :: u64)"
    using memory.owned_plus_free [OF assms(1)] assms(2) by (simp add: memory_backend_def)
  moreover have "int (unat (of_int L :: u64)) = L"
    using assms(3,4) by (simp add: unsigned_of_int take_bit_eq_mod)
  ultimately have sum: "int (unat ?r) + int (card ?own) = L" by linarith
  then have "uint ?r \<le> L" by simp
  then have "signed_take_bit 63 (uint ?r) = uint ?r"
    by (intro signed_take_bit_int_eq_self) (use assms(4) uint_ge_0 [of ?r] in \<open>simp; linarith\<close>)+
  then have "sint ?r = int (unat ?r)" by (simp add: sint_uint)
  with sum own show ?thesis by simp
qed

text \<open>
  C31. What the statistics say of a scope with reserved addresses: free and used addresses add up to the size, the used ones are
  the indexes owned in the pool, and the status is \<open>Normal\<close> exactly when the number of cached
  clients plus the number of reserved addresses is the number of used ones; except that a
  single reserved address is not counted, so that a correct scope with one reserved
  address is never \<open>Normal\<close>.
\<close>
theorem stats_status_exact:
  assumes "Inc_laws Inc" and "mem_random_inv (dh_available (nw_dhcpHandler v))"
    and "Memory_Capacity (dh_available (nw_dhcpHandler v)) = of_int (dh_leaseRange (nw_dhcpHandler v))"
    and "0 \<le> dh_leaseRange (nw_dhcpHandler v)" and "dh_leaseRange (nw_dhcpHandler v) < 2 ^ 32"
    and "dh_ipReserved (nw_dhcpHandler v) = strings_Join (map range_text rs) '',''"
    and "rs \<noteq> []" and "\<forall>(lo, hi) \<in> set rs. lo \<le> hi"
    and "stats_network env memory_backend C Inc netint v = Some (Ret s)"
  shows "let reserved = int (length (concat (map range_ips rs)));
             cached = int (length (gcItems C (ev_clock env 0) (dh_hwcache (nw_dhcpHandler v))))
         in st_Free s + st_Used s = st_Size s \<and>
            st_Used s = int (card {i. mem_owner (dh_available (nw_dhcpHandler v)) i \<noteq> None}) \<and>
            length (st_Members s) = nat cached \<and>
            (st_Status s = ''Normal'' \<longleftrightarrow> (if reserved = 1 then cached else cached + reserved) = st_Used s)"
proof -
  let ?h = "nw_dhcpHandler v" and ?res = "int (length (concat (map range_ips rs)))"
  let ?items = "gcItems C (ev_clock env 0) (dh_hwcache ?h)"
  have range: "IPsFromRange Inc (dh_ipReserved ?h) = Some (concat (map range_ips rs), ?res)"
    unfolding assms(6) by (rule IPsFromRange_ranges_list [OF assms(1,7,8)])
  have mf: "bFreeIPsRemaining memory_backend = Memory_FreeIPsRemaining" by (simp add: memory_backend_def)
  let ?free = "sint (Memory_FreeIPsRemaining (dh_available ?h))"
  obtain opts Members Macs Count where g: "go_bind (shown_options env v) (\<lambda>opts.
      go_bind (extractMembers memory_backend C (ev_clock env 0) v) (\<lambda>m. Ret (opts, m))) = Ret (opts, Members, Macs, Count)"
    using assms(9) by (auto simp: stats_network_def Let_def split: outcome.splits)
  then have m: "extractMembers memory_backend C (ev_clock env 0) v = Ret (Members, Macs, Count)"
    by (cases "shown_options env v"; cases "extractMembers memory_backend C (ev_clock env 0) v") auto
  have s: "st_Free s = ?free" "st_Used s = dh_leaseRange ?h - ?free" "st_Size s = dh_leaseRange ?h" "st_Members s = Members"
    "st_Status s = stats_status (if ?res \<noteq> 1 then Count + ?res else Count) (dh_leaseRange ?h) ?free"
    using assms(9) range by (auto simp: stats_network_def Let_def g mf)
  have n: "Count = int (length ?items)" "length Members = length ?items"
    using members_loop_count [of memory_backend ?h ?items "[]" "[]" 0 Members Macs Count] m by (simp_all add: extractMembers_def Let_def)
  have "stats_status c L a = ''Normal'' \<longleftrightarrow> c = L - a" for c L a by (simp add: stats_status_def)
  then show ?thesis using s n used_indexes [OF assms(2-5)] by (auto simp: Let_def)
qed

definition demo_reserved :: "(Memory, list_store) DHCPHandler" where
  "demo_reserved = demo_used\<lparr>dh_available := snd (bReserveIPIndex memory_backend 3 FakeMac (dh_available demo_used)),
     dh_ipReserved := strings_Join (map range_text [(0x0A000005, 0x0A000005)]) '',''\<rparr>"

lemma demo_reserved_inv:
  "mem_random_inv (dh_available demo_reserved)" "Memory_Capacity (dh_available demo_reserved) = 4"
  "mem_owner (dh_available demo_reserved) = [0 \<mapsto> ''aa'', 3 \<mapsto> FakeMac]"
  using memory.reserve_ok [OF demo_used_inv(1), of 3 FakeMac] demo_used_inv(2,3) by (auto simp: demo_reserved_def)

lemma demo_reserved_sel [simp]:
  "dh_start demo_reserved = v4 0x0A000002" "dh_leaseRange demo_reserved = 4" "dh_options demo_reserved = fmempty"
  "dh_hwcache demo_reserved = [(''aa'', IInt 0, seconds 60)]"
  by (simp_all add: demo_reserved_def) (simp add: demo_used_def)

lemma stats_status_exact_witness:
  "\<exists>s. stats_network (demo_env (\<lambda>att. False)) memory_backend list_cache v4_inc ''eth0''
      \<lparr>nw_network = demo_net, nw_dhcpHandler = demo_reserved, nw_splittednet = False\<rparr> = Some (Ret s) \<and>
    st_Used s = 2 \<and> st_Status s \<noteq> ''Normal''"
proof -
  let ?v = "\<lparr>nw_network = demo_net, nw_dhcpHandler = demo_reserved, nw_splittednet = False\<rparr> :: (Memory, list_store) Network"
  let ?rs = "[(0x0A000005, 0x0A000005)] :: (u32 \<times> u32) list"
  have items: "gcItems list_cache 0 [(''aa'', IInt 0, seconds 60)] = [(''aa'', IInt 0, seconds 60)]"
    by (simp add: list_cache_def seconds_def)
  have res: "dh_ipReserved demo_reserved = strings_Join (map range_text ?rs) '',''" by (simp add: demo_reserved_def)
  have range: "IPsFromRange v4_inc (dh_ipReserved demo_reserved) = Some (concat (map range_ips ?rs), int (length (concat (map range_ips ?rs))))"
    unfolding res by (rule IPsFromRange_ranges_list [OF v4_inc_laws]) auto
  have "\<exists>m. extractMembers memory_backend list_cache 0 ?v = Ret m"
    by (simp add: extractMembers_def Let_def items member_def index_address_def be_Uint32_Put split_beta)
  moreover have "\<exists>m. shown_options (demo_env (\<lambda>att. False)) ?v = Ret m"
    by (simp add: shown_options_def demo_decode Let_def)
  ultimately obtain s where s: "stats_network (demo_env (\<lambda>att. False)) memory_backend list_cache v4_inc ''eth0'' ?v = Some (Ret s)"
    using range by (auto simp: stats_network_def Let_def)
  have "card {i. mem_owner (dh_available demo_reserved) i \<noteq> None} = card {0 :: u64, 3}"
    by (rule arg_cong [where f = card]) (auto simp: demo_reserved_inv split: if_splits)
  then have two: "card {i. mem_owner (dh_available demo_reserved) i \<noteq> None} = 2" by simp
  show ?thesis
    using stats_status_exact [OF v4_inc_laws _ _ _ _ _ _ _ s, of ?rs] two res s by (simp add: demo_reserved_inv items Let_def)
qed

end
