(* ===== verification/DhcpPoolMysql.thy ===== *)
theory DhcpPoolMysql
  imports DhcpPoolSpec
begin

text \<open>
  The second backend of the address pool (\<open>src/go/dhcp/pool/mysql.go\<close>) and the choice of a
  backend (\<open>Create\<close>, \<open>pool.go\<close>). The database is a record of operations; what the
  backend relies on is the predicate \<open>dhcppool_laws\<close>, one law per SQL statement, and
  \<open>table_db\<close> is a table that satisfies it. The methods that call \<open>rows.Close()\<close> before
  they look at the error panic when the query fails.
\<close>

section \<open>The database\<close>

datatype sql_arg = AStr string | ANum u64

datatype exec_result = ExecErr string | ExecNoCount string | ExecCount nat

datatype rows_result = RowsErr string | Rows "sql_arg list list"

record 'd pool_db =
  dbExec :: "string \<Rightarrow> sql_arg list \<Rightarrow> 'd \<Rightarrow> exec_result \<times> 'd"
  dbQuery :: "string \<Rightarrow> sql_arg list \<Rightarrow> 'd \<Rightarrow> rows_result \<times> 'd"
  dbBegin :: "'d \<Rightarrow> go_err"

definition q_delete :: string where "q_delete = ''DELETE FROM dhcppool WHERE pool_name=?''"

definition q_insert :: string where
  "q_insert = ''INSERT INTO dhcppool (pool_name, idx, released) VALUES (?, ?, NOW()) ON DUPLICATE KEY UPDATE id=id''"

definition q_reserve :: string where
  "q_reserve = ''UPDATE dhcppool SET free = 0, mac = ? WHERE idx = ? AND free = 1 AND pool_name = ?''"

definition q_free :: string where
  "q_free = ''UPDATE dhcppool set free = 1, mac = ?, released = NOW() WHERE idx = ? AND free = 0 AND pool_name = ?''"

definition q_is_free :: string where
  "q_is_free = ''SELECT free FROM dhcppool WHERE free = 1 AND idx = ? AND pool_name = ?''"

definition q_mac :: string where
  "q_mac = ''SELECT idx, mac FROM dhcppool WHERE idx = ? AND pool_name = ?''"

definition q_oldest :: string where
  "q_oldest = ''UPDATE dhcppool D SET D.mac = ?, D.free = 0 WHERE D.pool_name = ? AND D.idx IN ( SELECT temp.tmpidx FROM ( SELECT idx as tmpidx FROM dhcppool P WHERE P.free = 1 AND P.pool_name = ? ORDER BY released LIMIT 1 ) AS temp ) AND @tmp_index := idx''"

definition q_random :: string where
  "q_random = ''UPDATE dhcppool D SET D.mac = ?, D.free = 0 WHERE D.pool_name = ? AND D.idx IN ( SELECT temp.tmpidx FROM ( SELECT idx as tmpidx FROM dhcppool P WHERE P.free = 1 AND P.pool_name = ? ORDER BY RAND() LIMIT 1 ) AS temp ) AND @tmp_index := idx''"

definition q_tmp :: string where "q_tmp = ''SELECT @tmp_index''"

definition q_count :: string where "q_count = ''SELECT COUNT(*) FROM dhcppool WHERE free = 1 AND pool_name = ?''"

section \<open>mysql.go\<close>

record 'd Mysql =
  my_PoolName :: string
  my_DHCPPool :: DHCPPool
  my_SQL :: 'd

fun insert_rows :: "'d pool_db \<Rightarrow> string \<Rightarrow> u64 list \<Rightarrow> 'd \<Rightarrow> 'd outcome" where
  "insert_rows db name [] d = Ret d"
| "insert_rows db name (i # is) d =
     (case dbQuery db q_insert [AStr name, ANum i] d of
        (RowsErr e, d') \<Rightarrow> Panic ''nil pointer dereference''
      | (Rows _, d') \<Rightarrow> insert_rows db name is d')"

definition Mysql_NewDHCPPool :: "'d pool_db \<Rightarrow> u64 \<Rightarrow> int \<Rightarrow> 'd Mysql \<Rightarrow> 'd Mysql outcome" where
  "Mysql_NewDHCPPool db capacity algorithm dp =
     (let d = \<lparr>pool_free = fmempty, pool_mac = fmempty, pool_capacity = capacity,
               pool_released = fmempty, pool_algorithm = algorithm\<rparr>
      in case dbQuery db q_delete [AStr (my_PoolName dp)] (my_SQL dp) of
           (RowsErr e, d') \<Rightarrow> Panic ''nil pointer dereference''
         | (Rows _, d') \<Rightarrow>
             go_bind (insert_rows db (my_PoolName dp) (u64_upto capacity) d') (\<lambda>d''.
               Ret (dp\<lparr>my_SQL := d'', my_DHCPPool := d\<rparr>)))"

definition NewMysqlPool :: "'d pool_db \<Rightarrow> u64 \<Rightarrow> string \<Rightarrow> int \<Rightarrow> 'd \<Rightarrow> ('d Mysql \<times> go_err) outcome" where
  "NewMysqlPool db capacity name algorithm sql =
     (let dp = \<lparr>my_PoolName = name,
                my_DHCPPool = \<lparr>pool_free = fmempty, pool_mac = fmempty, pool_capacity = 0, pool_released = fmempty, pool_algorithm = 0\<rparr>,
                my_SQL = sql\<rparr>
      in go_bind (Mysql_NewDHCPPool db capacity algorithm dp) (\<lambda>dp. Ret (dp, None)))"

definition Mysql_GetDHCPPool :: "'d Mysql \<Rightarrow> DHCPPool" where
  "Mysql_GetDHCPPool dp = my_DHCPPool dp"

definition Mysql_IndexInPool :: "u64 \<Rightarrow> 'd Mysql \<Rightarrow> bool" where
  "Mysql_IndexInPool index dp \<longleftrightarrow> index < pool_capacity (my_DHCPPool dp)"

definition Mysql_Capacity :: "'d Mysql \<Rightarrow> u64" where
  "Mysql_Capacity dp = pool_capacity (my_DHCPPool dp)"

definition Mysql_ReserveIPIndex :: "'d pool_db \<Rightarrow> u64 \<Rightarrow> string \<Rightarrow> 'd Mysql \<Rightarrow> (string \<times> go_err) \<times> 'd Mysql" where
  "Mysql_ReserveIPIndex db index mac dp =
     (if index \<ge> pool_capacity (my_DHCPPool dp) then
        ((FreeMac, Some ''Trying to reserve an IP that is outside the capacity of this pool''), dp)
      else
        case dbExec db q_reserve [AStr mac, ANum index, AStr (my_PoolName dp)] (my_SQL dp) of (res, d') \<Rightarrow>
          (case res of
             ExecErr err \<Rightarrow> (FreeMac, Some ''IP is already reserved'')
           | ExecNoCount err2 \<Rightarrow> (FreeMac, Some ''IP is already reserved'')
           | ExecCount count \<Rightarrow> if count = 1 then (mac, None) else (FreeMac, Some ''IP is already reserved''),
           dp\<lparr>my_SQL := d'\<rparr>))"

definition Mysql_FreeIPIndex :: "'d pool_db \<Rightarrow> u64 \<Rightarrow> 'd Mysql \<Rightarrow> go_err \<times> 'd Mysql" where
  "Mysql_FreeIPIndex db index dp =
     (if \<not> Mysql_IndexInPool index dp then (Some ''Trying to free an IP that is outside the capacity of this pool'', dp)
      else
        case dbExec db q_free [AStr FreeMac, ANum index, AStr (my_PoolName dp)] (my_SQL dp) of (res, d') \<Rightarrow>
          (case res of
             ExecErr err \<Rightarrow> Some ''IP is already free''
           | ExecNoCount err2 \<Rightarrow> Some ''IP is already free''
           | ExecCount count \<Rightarrow> if count = 1 then None else Some ''IP is already free'',
           dp\<lparr>my_SQL := d'\<rparr>))"

text \<open>The query of \<open>IsFreeIPAtIndex\<close> is run with \<open>Exec\<close>, and the answer is the number of affected rows.\<close>

definition Mysql_IsFreeIPAtIndex :: "'d pool_db \<Rightarrow> u64 \<Rightarrow> 'd Mysql \<Rightarrow> bool" where
  "Mysql_IsFreeIPAtIndex db index dp \<longleftrightarrow>
     Mysql_IndexInPool index dp \<and>
     fst (dbExec db q_is_free [ANum index, AStr (my_PoolName dp)] (my_SQL dp)) = ExecCount 1"

text \<open>\<open>rows.Scan\<close> into a number and a string, and into a number.\<close>

fun scan_idx_mac :: "sql_arg list list \<Rightarrow> u64 \<times> string \<Rightarrow> (u64 \<times> string) option" where
  "scan_idx_mac [] st = Some st"
| "scan_idx_mac ([ANum i, AStr m] # rows) st = scan_idx_mac rows (i, m)"
| "scan_idx_mac (_ # rows) st = None"

definition scan_num :: "sql_arg list \<Rightarrow> u64 option" where
  "scan_num row = (case row of [ANum n] \<Rightarrow> Some n | _ \<Rightarrow> None)"

definition Mysql_GetMACIndex :: "'d pool_db \<Rightarrow> u64 \<Rightarrow> 'd Mysql \<Rightarrow> (u64 \<times> string \<times> go_err) outcome" where
  "Mysql_GetMACIndex db index dp =
     (if \<not> Mysql_IndexInPool index dp then Ret (index, FreeMac, Some ''The index is not part of the pool'')
      else case fst (dbQuery db q_mac [ANum index, AStr (my_PoolName dp)] (my_SQL dp)) of
        RowsErr err \<Rightarrow> Panic ''nil pointer dereference''
      | Rows rows \<Rightarrow>
          (case scan_idx_mac rows (0, []) of
             None \<Rightarrow> Ret (index, FreeMac, None)
           | Some (Index, mac) \<Rightarrow> Ret (Index, mac, None)))"

definition Mysql_FreeIPsRemaining :: "'d pool_db \<Rightarrow> 'd Mysql \<Rightarrow> u64 outcome" where
  "Mysql_FreeIPsRemaining db dp =
     (case fst (dbQuery db q_count [AStr (my_PoolName dp)] (my_SQL dp)) of
        RowsErr err \<Rightarrow> Panic ''nil pointer dereference''
      | Rows [] \<Rightarrow> Ret 0
      | Rows (row # _) \<Rightarrow> Ret (case scan_num row of None \<Rightarrow> 0 | Some Count \<Rightarrow> Count))"

definition Mysql_GetFreeIPIndex :: "'d pool_db \<Rightarrow> string \<Rightarrow> 'd Mysql \<Rightarrow> ((u64 \<times> string \<times> go_err) \<times> 'd Mysql) outcome" where
  "Mysql_GetFreeIPIndex db mac dp =
     go_bind (Mysql_FreeIPsRemaining db dp) (\<lambda>Count.
       if Count = 0 then Ret ((0, FreeMac, Some ''DHCP pool is full''), dp)
       else case dbBegin db (my_SQL dp) of
         Some err \<Rightarrow> Ret ((0, FreeMac, Some err), dp)
       | None \<Rightarrow>
           let query = (if pool_algorithm (my_DHCPPool dp) = OldestReleased then q_oldest else q_random) in
           case dbExec db query [AStr mac, AStr (my_PoolName dp), AStr (my_PoolName dp)] (my_SQL dp) of (res, d') \<Rightarrow>
             let dp' = dp\<lparr>my_SQL := d'\<rparr> in
             case res of
               ExecErr err \<Rightarrow> Ret ((0, FreeMac, Some err), dp')
             | ExecNoCount err2 \<Rightarrow> Ret ((0, FreeMac, Some err2), dp')
             | ExecCount count \<Rightarrow>
                 if count = 1 then
                   (case dbQuery db q_tmp [] d' of
                      (RowsErr err, d'') \<Rightarrow> Panic ''nil pointer dereference''
                    | (Rows [], d'') \<Rightarrow>
                        Ret ((0, FreeMac, Some ''Not able to fetch the index from the db''), dp\<lparr>my_SQL := d''\<rparr>)
                    | (Rows (row # _), d'') \<Rightarrow>
                        (case scan_num row of
                           None \<Rightarrow> Ret ((0, FreeMac, Some ''sql: Scan error''), dp\<lparr>my_SQL := d''\<rparr>)
                         | Some Index \<Rightarrow> Ret ((Index, mac, None), dp\<lparr>my_SQL := d''\<rparr>)))
                 else Ret ((0, FreeMac, Some ''Doesn't suppose to reach here''), dp'))"

text \<open>\<open>GetIssues\<close> has the same code as that of the in-memory pool and reads the maps of the struct.\<close>

definition Mysql_GetIssues :: "string list \<Rightarrow> 'd Mysql \<Rightarrow> string list \<times> (u64, string) gomap" where
  "Mysql_GetIssues macs dp = pool_GetIssues (my_DHCPPool dp) macs"

definition Mysql_Listen :: bool where "Mysql_Listen = True"

text \<open>
  The backend as a value of the interface, for a database that answers: \<open>ret_of\<close> is the value
  of a call that does not panic.
\<close>

fun ret_of :: "'a outcome \<Rightarrow> 'a" where
  "ret_of (Ret x) = x"

definition mysql_backend :: "'d pool_db \<Rightarrow> 'd Mysql Backend" where
  "mysql_backend db =
     \<lparr>bReserveIPIndex = Mysql_ReserveIPIndex db, bIsFreeIPAtIndex = Mysql_IsFreeIPAtIndex db,
      bGetMACIndex = (\<lambda>i p. ret_of (Mysql_GetMACIndex db i p)),
      bGetFreeIPIndex = (\<lambda>ch m p. ret_of (Mysql_GetFreeIPIndex db m p)),
      bIndexInPool = Mysql_IndexInPool, bFreeIPsRemaining = (\<lambda>p. ret_of (Mysql_FreeIPsRemaining db p)),
      bFreeIPIndex = (\<lambda>now. Mysql_FreeIPIndex db), bCapacity = Mysql_Capacity,
      bGetIssues = Mysql_GetIssues, bListen = Mysql_Listen\<rparr>"

section \<open>pool.go: the choice of a backend\<close>

text \<open>The pools of the two backends as one type: the dynamic type behind the interface.\<close>

datatype 'd pool = MemoryPool Memory | MysqlPool "'d Mysql"

definition pool_Create ::
  "(u64 \<Rightarrow> int) \<Rightarrow> 'd pool_db \<Rightarrow> string \<Rightarrow> u64 \<Rightarrow> string \<Rightarrow> int \<Rightarrow> 'd \<Rightarrow> ('d pool option \<times> go_err) outcome" where
  "pool_Create now db poolType capacity name algorithm sql =
     (if poolType = ''memory'' then
        (case NewMemoryPool now capacity name algorithm of (p, e) \<Rightarrow> Ret (Some (MemoryPool p), e))
      else if poolType = ''mysql'' then
        go_bind (NewMysqlPool db capacity name algorithm sql) (\<lambda>(p, e). Ret (Some (MysqlPool p), e))
      else Ret (None, Some (''Pool of '' @ poolType @ '' not found'')))"

section \<open>What is relied on of the database\<close>

text \<open>
  \<open>view d name i\<close> is the row of index \<open>i\<close> of a pool: its MAC address and whether it is free; \<open>tmp d\<close>
  is the session variable. An \<open>UPDATE\<close> that matches no row changes nothing. The allocating
  statements pick a free index \<open>k\<close> and assign it to the variable inside the condition,
  so that the row of \<open>k\<close> is updated only when the value of the assignment, \<open>k\<close>, is not zero.
\<close>

type_synonym table_view = "string \<Rightarrow> u64 \<Rightarrow> (string \<times> bool) option"

definition set_row :: "table_view \<Rightarrow> string \<Rightarrow> u64 \<Rightarrow> string \<times> bool \<Rightarrow> table_view" where
  "set_row t name i r = t(name := (t name)(i \<mapsto> r))"

definition free_rows :: "table_view \<Rightarrow> string \<Rightarrow> u64 set" where
  "free_rows t name = {i. \<exists>m. t name i = Some (m, True)}"

definition allocates ::
  "('d \<Rightarrow> table_view) \<Rightarrow> ('d \<Rightarrow> u64) \<Rightarrow> string \<Rightarrow> string \<Rightarrow> exec_result \<Rightarrow> 'd \<Rightarrow> 'd \<Rightarrow> bool" where
  "allocates view tmp mac name res d d' \<longleftrightarrow>
     (if free_rows (view d) name = {} then res = ExecCount 0 \<and> view d' = view d
      else \<exists>k \<in> free_rows (view d) name. tmp d' = k \<and>
             (if k = 0 then res = ExecCount 0 \<and> view d' = view d
              else res = ExecCount 1 \<and> view d' = set_row (view d) name k (mac, False)))"

definition new_rows_law :: "'d pool_db \<Rightarrow> ('d \<Rightarrow> table_view) \<Rightarrow> bool" where
  "new_rows_law db view \<longleftrightarrow>
     (\<forall>name d. \<exists>rs d'. dbQuery db q_delete [AStr name] d = (Rows rs, d') \<and> view d' = (view d)(name := (\<lambda>_. None))) \<and>
     (\<forall>name i d. view d name i = None \<longrightarrow>
        (\<exists>rs d'. dbQuery db q_insert [AStr name, ANum i] d = (Rows rs, d') \<and> view d' = set_row (view d) name i ([], True)))"

definition reserve_law :: "'d pool_db \<Rightarrow> ('d \<Rightarrow> table_view) \<Rightarrow> bool" where
  "reserve_law db view \<longleftrightarrow>
     (\<forall>mac i name d. if i \<in> free_rows (view d) name
        then \<exists>d'. dbExec db q_reserve [AStr mac, ANum i, AStr name] d = (ExecCount 1, d') \<and> view d' = set_row (view d) name i (mac, False)
        else dbExec db q_reserve [AStr mac, ANum i, AStr name] d = (ExecCount 0, d))"

definition free_law :: "'d pool_db \<Rightarrow> ('d \<Rightarrow> table_view) \<Rightarrow> bool" where
  "free_law db view \<longleftrightarrow>
     (\<forall>mac i name d. if \<exists>m. view d name i = Some (m, False)
        then \<exists>d'. dbExec db q_free [AStr mac, ANum i, AStr name] d = (ExecCount 1, d') \<and> view d' = set_row (view d) name i (mac, True)
        else dbExec db q_free [AStr mac, ANum i, AStr name] d = (ExecCount 0, d))"

definition query_law :: "'d pool_db \<Rightarrow> ('d \<Rightarrow> table_view) \<Rightarrow> bool" where
  "query_law db view \<longleftrightarrow>
     (\<forall>i name d. fst (dbQuery db q_mac [ANum i, AStr name] d) =
        Rows (case view d name i of None \<Rightarrow> [] | Some (m, _) \<Rightarrow> [[ANum i, AStr m]])) \<and>
     (\<forall>name d. card (free_rows (view d) name) < 2 ^ 64 \<longrightarrow>
        (\<exists>c. fst (dbQuery db q_count [AStr name] d) = Rows [[ANum c]] \<and> unat c = card (free_rows (view d) name)))"

definition allocate_law :: "'d pool_db \<Rightarrow> ('d \<Rightarrow> table_view) \<Rightarrow> ('d \<Rightarrow> u64) \<Rightarrow> bool" where
  "allocate_law db view tmp \<longleftrightarrow>
     (\<forall>oldest mac name d res d'. dbExec db (if oldest then q_oldest else q_random) [AStr mac, AStr name, AStr name] d = (res, d') \<longrightarrow>
        allocates view tmp mac name res d d') \<and>
     (\<forall>d. dbQuery db q_tmp [] d = (Rows [[ANum (tmp d)]], d)) \<and> (\<forall>d. dbBegin db d = None)"

definition dhcppool_laws :: "'d pool_db \<Rightarrow> ('d \<Rightarrow> table_view) \<Rightarrow> ('d \<Rightarrow> u64) \<Rightarrow> bool" where
  "dhcppool_laws db view tmp \<longleftrightarrow>
     new_rows_law db view \<and> reserve_law db view \<and> free_law db view \<and> query_law db view \<and> allocate_law db view tmp"

section \<open>The backend keeps the lease table\<close>

text \<open>The rows of the pool are those of its capacity.\<close>

definition mysql_inv :: "('d \<Rightarrow> table_view) \<Rightarrow> 'd Mysql \<Rightarrow> bool" where
  "mysql_inv view dp \<longleftrightarrow> (\<forall>i. view (my_SQL dp) (my_PoolName dp) i \<noteq> None \<longleftrightarrow> i < Mysql_Capacity dp)"

definition mysql_owner :: "('d \<Rightarrow> table_view) \<Rightarrow> 'd Mysql \<Rightarrow> u64 \<Rightarrow> string option" where
  "mysql_owner view dp i = (case view (my_SQL dp) (my_PoolName dp) i of Some (m, False) \<Rightarrow> Some m | _ \<Rightarrow> None)"

lemma mysql_free_rows:
  assumes "mysql_inv view dp"
  shows "i \<in> free_rows (view (my_SQL dp)) (my_PoolName dp) \<longleftrightarrow> i < Mysql_Capacity dp \<and> mysql_owner view dp i = None"
proof -
  have "view (my_SQL dp) (my_PoolName dp) i \<noteq> None \<longleftrightarrow> i < Mysql_Capacity dp" using assms by (simp add: mysql_inv_def)
  then show ?thesis
    by (cases "view (my_SQL dp) (my_PoolName dp) i") (auto simp: mysql_owner_def free_rows_def split: bool.splits)
qed

lemma mysql_set_row:
  assumes "mysql_inv view dp" and "i < Mysql_Capacity dp" and "view d' = set_row (view (my_SQL dp)) (my_PoolName dp) i (m, f)"
  shows "mysql_inv view (dp\<lparr>my_SQL := d'\<rparr>)" and "Mysql_Capacity (dp\<lparr>my_SQL := d'\<rparr>) = Mysql_Capacity dp"
    and "mysql_owner view (dp\<lparr>my_SQL := d'\<rparr>) = (mysql_owner view dp)(i := if f then None else Some m)"
  using assms by (auto simp: mysql_inv_def mysql_owner_def set_row_def Mysql_Capacity_def fun_eq_iff)

lemma mysql_same_view:
  assumes "mysql_inv view dp" and "view d' = view (my_SQL dp)"
  shows "mysql_inv view (dp\<lparr>my_SQL := d'\<rparr>)" and "Mysql_Capacity (dp\<lparr>my_SQL := d'\<rparr>) = Mysql_Capacity dp"
    and "mysql_owner view (dp\<lparr>my_SQL := d'\<rparr>) = mysql_owner view dp"
  using assms by (auto simp: mysql_inv_def mysql_owner_def Mysql_Capacity_def fun_eq_iff)

lemma mysql_reserve:
  assumes "reserve_law db view" and "mysql_inv view dp"
  shows "i < Mysql_Capacity dp \<Longrightarrow> mysql_owner view dp i = None \<Longrightarrow>
      \<exists>dp'. Mysql_ReserveIPIndex db i m dp = ((m, None), dp') \<and> mysql_inv view dp' \<and>
        mysql_owner view dp' = (mysql_owner view dp)(i \<mapsto> m) \<and> Mysql_Capacity dp' = Mysql_Capacity dp"
    and "\<not> (i < Mysql_Capacity dp \<and> mysql_owner view dp i = None) \<Longrightarrow>
      \<exists>e. Mysql_ReserveIPIndex db i m dp = ((FreeMac, Some e), dp)"
proof -
  have law: "if i < Mysql_Capacity dp \<and> mysql_owner view dp i = None
      then \<exists>d'. dbExec db q_reserve [AStr m, ANum i, AStr (my_PoolName dp)] (my_SQL dp) = (ExecCount 1, d') \<and>
             view d' = set_row (view (my_SQL dp)) (my_PoolName dp) i (m, False)
      else dbExec db q_reserve [AStr m, ANum i, AStr (my_PoolName dp)] (my_SQL dp) = (ExecCount 0, my_SQL dp)"
    using assms(1) unfolding reserve_law_def mysql_free_rows [OF assms(2), symmetric] by blast
  {
    assume i: "i < Mysql_Capacity dp" "mysql_owner view dp i = None"
    with law obtain d' where d': "dbExec db q_reserve [AStr m, ANum i, AStr (my_PoolName dp)] (my_SQL dp) = (ExecCount 1, d')"
      "view d' = set_row (view (my_SQL dp)) (my_PoolName dp) i (m, False)" by auto
    have "Mysql_ReserveIPIndex db i m dp = ((m, None), dp\<lparr>my_SQL := d'\<rparr>)"
      using i(1) d'(1) by (simp add: Mysql_ReserveIPIndex_def Mysql_Capacity_def)
    with mysql_set_row [OF assms(2) i(1) d'(2)]
    show "\<exists>dp'. Mysql_ReserveIPIndex db i m dp = ((m, None), dp') \<and> mysql_inv view dp' \<and>
        mysql_owner view dp' = (mysql_owner view dp)(i \<mapsto> m) \<and> Mysql_Capacity dp' = Mysql_Capacity dp" by auto
  }
  assume i: "\<not> (i < Mysql_Capacity dp \<and> mysql_owner view dp i = None)"
  with law have "dbExec db q_reserve [AStr m, ANum i, AStr (my_PoolName dp)] (my_SQL dp) = (ExecCount 0, my_SQL dp)" by auto
  then show "\<exists>e. Mysql_ReserveIPIndex db i m dp = ((FreeMac, Some e), dp)"
    by (auto simp: Mysql_ReserveIPIndex_def)
qed

lemma mysql_free:
  assumes "free_law db view" and "mysql_inv view dp"
  shows "mysql_owner view dp i = Some m \<Longrightarrow>
      \<exists>dp'. Mysql_FreeIPIndex db i dp = (None, dp') \<and> mysql_inv view dp' \<and>
        mysql_owner view dp' = (mysql_owner view dp)(i := None) \<and> Mysql_Capacity dp' = Mysql_Capacity dp"
    and "mysql_owner view dp i = None \<Longrightarrow> \<exists>e. Mysql_FreeIPIndex db i dp = (Some e, dp)"
proof -
  have own: "(\<exists>m. view (my_SQL dp) (my_PoolName dp) i = Some (m, False)) \<longleftrightarrow> mysql_owner view dp i \<noteq> None"
    by (auto simp: mysql_owner_def split: option.splits bool.splits)
  have law: "if mysql_owner view dp i \<noteq> None
      then \<exists>d'. dbExec db q_free [AStr FreeMac, ANum i, AStr (my_PoolName dp)] (my_SQL dp) = (ExecCount 1, d') \<and>
             view d' = set_row (view (my_SQL dp)) (my_PoolName dp) i (FreeMac, True)
      else dbExec db q_free [AStr FreeMac, ANum i, AStr (my_PoolName dp)] (my_SQL dp) = (ExecCount 0, my_SQL dp)"
    using assms(1) unfolding free_law_def own [symmetric] by blast
  {
    assume m: "mysql_owner view dp i = Some m"
    with law obtain d' where d': "dbExec db q_free [AStr FreeMac, ANum i, AStr (my_PoolName dp)] (my_SQL dp) = (ExecCount 1, d')"
      "view d' = set_row (view (my_SQL dp)) (my_PoolName dp) i (FreeMac, True)" by auto
    have i: "i < Mysql_Capacity dp" using m assms(2) by (auto simp: mysql_inv_def mysql_owner_def split: option.splits)
    have "Mysql_FreeIPIndex db i dp = (None, dp\<lparr>my_SQL := d'\<rparr>)"
      using i d'(1) by (simp add: Mysql_FreeIPIndex_def Mysql_IndexInPool_def Mysql_Capacity_def)
    with mysql_set_row [OF assms(2) i d'(2)]
    show "\<exists>dp'. Mysql_FreeIPIndex db i dp = (None, dp') \<and> mysql_inv view dp' \<and>
        mysql_owner view dp' = (mysql_owner view dp)(i := None) \<and> Mysql_Capacity dp' = Mysql_Capacity dp" by auto
  }
  assume "mysql_owner view dp i = None"
  with law have "dbExec db q_free [AStr FreeMac, ANum i, AStr (my_PoolName dp)] (my_SQL dp) = (ExecCount 0, my_SQL dp)" by auto
  then show "\<exists>e. Mysql_FreeIPIndex db i dp = (Some e, dp)"
    by (auto simp: Mysql_FreeIPIndex_def)
qed

lemma mysql_remaining:
  assumes "query_law db view" and "mysql_inv view dp"
  shows "\<exists>c. Mysql_FreeIPsRemaining db dp = Ret c \<and> unat c = card {i. i < Mysql_Capacity dp \<and> mysql_owner view dp i = None}"
proof -
  have fr: "free_rows (view (my_SQL dp)) (my_PoolName dp) = {i. i < Mysql_Capacity dp \<and> mysql_owner view dp i = None}"
    using mysql_free_rows [OF assms(2)] by blast
  then have "card (free_rows (view (my_SQL dp)) (my_PoolName dp)) \<le> card {i. i < Mysql_Capacity dp}"
    by (intro card_mono) auto
  then have "card (free_rows (view (my_SQL dp)) (my_PoolName dp)) < 2 ^ 64"
    using unat_u64_bound [of "Mysql_Capacity dp"] by (simp add: card_below_u64)
  then obtain c where c: "fst (dbQuery db q_count [AStr (my_PoolName dp)] (my_SQL dp)) = Rows [[ANum c]]"
    "unat c = card (free_rows (view (my_SQL dp)) (my_PoolName dp))" using assms(1) unfolding query_law_def by meson
  with c fr show ?thesis by (simp add: Mysql_FreeIPsRemaining_def scan_num_def)
qed

text \<open>How an allocation ends: no free index, index 0 picked, or another one.\<close>

lemma mysql_get_free:
  assumes "query_law db view" and "allocate_law db view tmp" and "mysql_inv view dp"
  obtains (full) "\<forall>j < Mysql_Capacity dp. mysql_owner view dp j \<noteq> None"
      "Mysql_GetFreeIPIndex db m dp = Ret ((0, FreeMac, Some ''DHCP pool is full''), dp)"
  | (zero) d' where "0 < Mysql_Capacity dp" "mysql_owner view dp 0 = None" "view d' = view (my_SQL dp)"
      "Mysql_GetFreeIPIndex db m dp = Ret ((0, FreeMac, Some ''Doesn't suppose to reach here''), dp\<lparr>my_SQL := d'\<rparr>)"
  | (got) k d' where "k \<noteq> 0" "k < Mysql_Capacity dp" "mysql_owner view dp k = None"
      "view d' = set_row (view (my_SQL dp)) (my_PoolName dp) k (m, False)"
      "Mysql_GetFreeIPIndex db m dp = Ret ((k, m, None), dp\<lparr>my_SQL := d'\<rparr>)"
proof -
  let ?free = "{i. i < Mysql_Capacity dp \<and> mysql_owner view dp i = None}"
  have fr: "free_rows (view (my_SQL dp)) (my_PoolName dp) = ?free" using mysql_free_rows [OF assms(3)] by blast
  obtain c where c: "Mysql_FreeIPsRemaining db dp = Ret c" "unat c = card ?free"
    using mysql_remaining [OF assms(1,3)] by blast
  let ?old = "pool_algorithm (my_DHCPPool dp) = OldestReleased"
  obtain res d' where ex: "dbExec db (if ?old then q_oldest else q_random) [AStr m, AStr (my_PoolName dp), AStr (my_PoolName dp)] (my_SQL dp) = (res, d')"
    by (metis prod.collapse)
  have tmp: "dbQuery db q_tmp [] d' = (Rows [[ANum (tmp d')]], d')" "dbBegin db (my_SQL dp) = None"
    using assms(2) by (simp_all add: allocate_law_def)
  have al: "allocates view tmp m (my_PoolName dp) res (my_SQL dp) d'"
    using assms(2) ex unfolding allocate_law_def by blast
  show thesis
  proof (cases "?free = {}")
    case True
    then have "unat c = 0" using c(2) by (simp only: card.empty)
    then have "c = 0" by (simp add: unat_eq_zero)
    with True c(1) show thesis by (intro full) (auto simp: Mysql_GetFreeIPIndex_def)
  next
    case False
    then have c0: "c \<noteq> 0" using c(2) by (metis (no_types, lifting) card_0_eq finite unat_0)
    obtain k where k: "k \<in> ?free" "tmp d' = k"
      "if k = 0 then res = ExecCount 0 \<and> view d' = view (my_SQL dp)
       else res = ExecCount 1 \<and> view d' = set_row (view (my_SQL dp)) (my_PoolName dp) k (m, False)"
      using al unfolding allocates_def fr if_not_P [OF False] by blast
    show thesis
    proof (cases "k = 0")
      case True
      have "Mysql_GetFreeIPIndex db m dp = Ret ((0, FreeMac, Some ''Doesn't suppose to reach here''), dp\<lparr>my_SQL := d'\<rparr>)"
        using c(1) c0 tmp(2) ex k(3) True by (simp add: Mysql_GetFreeIPIndex_def Let_def)
      with k True show thesis by (intro zero [of d']) auto
    next
      case False
      have "Mysql_GetFreeIPIndex db m dp = Ret ((k, m, None), dp\<lparr>my_SQL := d'\<rparr>)"
        using c(1) c0 tmp ex k(2,3) False by (simp add: Mysql_GetFreeIPIndex_def Let_def scan_num_def)
      with k False show thesis by (intro got [of k d']) auto
    qed
  qed
qed

lemma mysql_get_free_safe:
  assumes "query_law db view" and "allocate_law db view tmp" and "mysql_inv view p"
    and "ret_of (Mysql_GetFreeIPIndex db m p) = ((i, m', e), p')"
  shows "mysql_inv view p' \<and> Mysql_Capacity p' = Mysql_Capacity p \<and>
      (e = None \<and> m' = m \<and> i < Mysql_Capacity p \<and> mysql_owner view p i = None \<and> mysql_owner view p' = (mysql_owner view p)(i \<mapsto> m) \<or>
       e \<noteq> None \<and> m' = FreeMac \<and> mysql_owner view p' = mysql_owner view p)"
  using assms(1-3)
proof (cases rule: mysql_get_free [where m = m])
  case full
  then show ?thesis using assms(3,4) by auto
next
  case (zero d')
  then show ?thesis using assms(4) mysql_same_view [OF assms(3) zero(3)] by auto
next
  case (got k d')
  then show ?thesis using assms(4) mysql_set_row [OF assms(3) got(2,4)] by auto
qed

lemma mysql_lease_store:
  assumes "dhcppool_laws db view tmp"
  shows "lease_store (mysql_backend db) (mysql_inv view) (mysql_owner view)"
proof (unfold_locales, unfold mysql_backend_def Backend.simps)
  note laws = assms [unfolded dhcppool_laws_def]
  fix p :: "'a Mysql" and i :: u64 and m m' :: string and now :: int and ch :: choice and e p'
  assume inv: "mysql_inv view p"
  show bound: "mysql_owner view p i = Some m \<Longrightarrow> i < Mysql_Capacity p"
    using inv by (auto simp: mysql_inv_def mysql_owner_def split: option.splits)
  show "Mysql_IndexInPool i p \<longleftrightarrow> i < Mysql_Capacity p" by (simp add: Mysql_IndexInPool_def Mysql_Capacity_def)
  show "i < Mysql_Capacity p \<Longrightarrow> mysql_owner view p i = None \<Longrightarrow>
      \<exists>p'. Mysql_ReserveIPIndex db i m p = ((m, None), p') \<and> mysql_inv view p' \<and>
        mysql_owner view p' = (mysql_owner view p)(i \<mapsto> m) \<and> Mysql_Capacity p' = Mysql_Capacity p"
    using mysql_reserve(1) laws inv by blast
  show "\<not> (i < Mysql_Capacity p \<and> mysql_owner view p i = None) \<Longrightarrow> \<exists>e. Mysql_ReserveIPIndex db i m p = ((FreeMac, Some e), p)"
    using mysql_reserve(2) laws inv by blast
  show "mysql_owner view p i = Some m \<Longrightarrow> \<exists>p'. Mysql_FreeIPIndex db i p = (None, p') \<and> mysql_inv view p' \<and>
        mysql_owner view p' = (mysql_owner view p)(i := None) \<and> Mysql_Capacity p' = Mysql_Capacity p"
    using mysql_free(1) laws inv by blast
  show "mysql_owner view p i = None \<Longrightarrow> \<exists>e. Mysql_FreeIPIndex db i p = (Some e, p)"
    using mysql_free(2) laws inv by blast
  show "mysql_owner view p i = Some m \<Longrightarrow> ret_of (Mysql_GetMACIndex db i p) = (i, m, None)"
    using laws bound by (auto simp: query_law_def Mysql_GetMACIndex_def Mysql_IndexInPool_def Mysql_Capacity_def mysql_owner_def
        split: option.splits bool.splits)
  show "\<not> i < Mysql_Capacity p \<Longrightarrow> \<exists>e. ret_of (Mysql_GetMACIndex db i p) = (i, FreeMac, Some e)"
    by (simp add: Mysql_GetMACIndex_def Mysql_IndexInPool_def Mysql_Capacity_def)
  show "unat (ret_of (Mysql_FreeIPsRemaining db p)) = card {i. i < Mysql_Capacity p \<and> mysql_owner view p i = None}"
    using mysql_remaining [of db view p] laws inv by auto
  show "ret_of (Mysql_GetFreeIPIndex db m p) = ((i, m', e), p') \<Longrightarrow>
      mysql_inv view p' \<and> Mysql_Capacity p' = Mysql_Capacity p \<and>
      (e = None \<and> m' = m \<and> i < Mysql_Capacity p \<and> mysql_owner view p i = None \<and> mysql_owner view p' = (mysql_owner view p)(i \<mapsto> m) \<or>
       e \<noteq> None \<and> m' = FreeMac \<and> mysql_owner view p' = mysql_owner view p)"
    using mysql_get_free_safe [of db view tmp p] laws inv by blast
qed

section \<open>New pools\<close>

lemma insert_rows_view:
  assumes "new_rows_law db view" and "distinct is" and "\<forall>i \<in> set is. view d name i = None"
  shows "\<exists>d'. insert_rows db name is d = Ret d' \<and>
    view d' = (view d)(name := (\<lambda>i. if i \<in> set is then Some ([], True) else view d name i))"
  using assms(2,3)
proof (induction "is" arbitrary: d)
  case (Cons i "is")
  obtain rs d1 where d1: "dbQuery db q_insert [AStr name, ANum i] d = (Rows rs, d1)" "view d1 = set_row (view d) name i ([], True)"
    using assms(1) Cons.prems(2) unfolding new_rows_law_def by (meson list.set_intros(1))
  have "\<forall>j \<in> set is. view d1 name j = None" using Cons.prems d1(2) by (auto simp: set_row_def)
  then obtain d' where "insert_rows db name is d1 = Ret d'"
    "view d' = (view d1)(name := (\<lambda>j. if j \<in> set is then Some ([], True) else view d1 name j))"
    using Cons.IH [of d1] Cons.prems(1) unfolding distinct.simps by blast
  then show ?case using d1 by (auto simp: set_row_def fun_eq_iff)
qed simp

lemma NewMysqlPool_new:
  assumes "new_rows_law db view"
  shows "\<exists>p. NewMysqlPool db capacity name algorithm d = Ret (p, None) \<and> mysql_inv view p \<and> Mysql_Capacity p = capacity \<and>
    mysql_owner view p = (\<lambda>i. None) \<and> pool_free (my_DHCPPool p) = fmempty \<and> pool_mac (my_DHCPPool p) = fmempty \<and>
    (\<forall>i < capacity. view (my_SQL p) (my_PoolName p) i = Some ([], True))"
proof -
  obtain rs d1 where d1: "dbQuery db q_delete [AStr name] d = (Rows rs, d1)" "view d1 = (view d)(name := (\<lambda>_. None))"
    using assms unfolding new_rows_law_def by meson
  have "\<forall>i \<in> set (u64_upto capacity). view d1 name i = None" using d1(2) by simp
  then obtain d2 where d2: "insert_rows db name (u64_upto capacity) d1 = Ret d2"
    "view d2 = (view d1)(name := (\<lambda>i. if i \<in> set (u64_upto capacity) then Some ([], True) else view d1 name i))"
    using insert_rows_view [OF assms distinct_u64_upto, of capacity d1 name] by blast
  have v: "view d2 name i = (if i < capacity then Some ([], True) else None)" for i using d1(2) d2(2) by simp
  let ?p = "\<lparr>my_PoolName = name, my_DHCPPool = \<lparr>pool_free = fmempty, pool_mac = fmempty, pool_capacity = capacity,
      pool_released = fmempty, pool_algorithm = algorithm\<rparr>, my_SQL = d2\<rparr>"
  have "NewMysqlPool db capacity name algorithm d = Ret (?p, None)"
    using d1(1) d2(1) by (simp add: NewMysqlPool_def Mysql_NewDHCPPool_def Let_def)
  moreover have "view d2 name i \<noteq> None \<longleftrightarrow> i < capacity" for i using v [of i] by (cases "i < capacity") simp_all
  then have "mysql_inv view ?p" by (simp add: mysql_inv_def Mysql_Capacity_def del: not_None_eq)
  moreover have "mysql_owner view ?p = (\<lambda>i. None)" by (simp add: mysql_owner_def v fun_eq_iff)
  ultimately show ?thesis using v by (intro exI [of _ ?p]) (simp add: Mysql_Capacity_def)
qed

lemma mysql_backend_sel [simp]:
  "bCapacity (mysql_backend db) = Mysql_Capacity" "bReserveIPIndex (mysql_backend db) = Mysql_ReserveIPIndex db"
  "bGetFreeIPIndex (mysql_backend db) ch m p = ret_of (Mysql_GetFreeIPIndex db m p)"
  "bFreeIPsRemaining (mysql_backend db) p = ret_of (Mysql_FreeIPsRemaining db p)"
  "bFreeIPIndex (mysql_backend db) now = Mysql_FreeIPIndex db"
  by (simp_all add: mysql_backend_def)


text \<open>
  Index 0 of a pool in the database is never allocated: the condition of the allocating statement assigns the index to a
  variable and is false when the index is 0. When 0 is the only free index the pool
  reports one free address, and every allocation fails.
\<close>
theorem mysql_never_allocates_zero:
  assumes "dhcppool_laws db view tmp" and "mysql_inv view p"
  shows "(\<forall>i m' p'. Mysql_GetFreeIPIndex db m p = Ret ((i, m', None), p') \<longrightarrow> i \<noteq> 0) \<and>
    ({i. i < Mysql_Capacity p \<and> mysql_owner view p i = None} = {0} \<longrightarrow>
       Mysql_FreeIPsRemaining db p = Ret 1 \<and>
       (\<exists>p'. Mysql_GetFreeIPIndex db m p = Ret ((0, FreeMac, Some ''Doesn't suppose to reach here''), p')))"
proof -
  have laws: "query_law db view" "allocate_law db view tmp" using assms(1) by (simp_all add: dhcppool_laws_def)
  obtain c where c: "Mysql_FreeIPsRemaining db p = Ret c" "unat c = card {i. i < Mysql_Capacity p \<and> mysql_owner view p i = None}"
    using mysql_remaining [OF laws(1) assms(2)] by blast
  have one: "{i. i < Mysql_Capacity p \<and> mysql_owner view p i = None} = {0} \<Longrightarrow> Mysql_FreeIPsRemaining db p = Ret 1"
    using c by (simp add: word_unat_eq_iff)
  from laws assms(2) show ?thesis
  proof (cases rule: mysql_get_free [where m = m])
    case full
    then have "{i. i < Mysql_Capacity p \<and> mysql_owner view p i = None} \<noteq> {0}" by blast
    with full show ?thesis by auto
  next
    case (zero d')
    then show ?thesis using one by auto
  next
    case (got k d')
    then have "{i. i < Mysql_Capacity p \<and> mysql_owner view p i = None} \<noteq> {0}" by blast
    with got show ?thesis by auto
  qed
qed

text \<open>A new pool reports its free indexes under the empty MAC address, not under \<open>FreeMac\<close>.\<close>

lemma mysql_new_index_mac:
  assumes "dhcppool_laws db view tmp" and "NewMysqlPool db capacity name algorithm sql = Ret (p, e)" and "i < capacity"
  shows "Mysql_GetMACIndex db i p = Ret (i, [], None)"
proof -
  have "new_rows_law db view" "query_law db view" using assms(1) by (simp_all add: dhcppool_laws_def)
  then show ?thesis
    using NewMysqlPool_new [of db view capacity name algorithm sql] assms(2,3)
    by (auto simp: Mysql_GetMACIndex_def Mysql_IndexInPool_def Mysql_Capacity_def query_law_def)
qed

text \<open>\<open>GetIssues\<close> reads the maps of the struct, which are empty: every index is reported, with no MAC address.\<close>

lemma mysql_issues_empty:
  assumes "pool_free d = fmempty" and "pool_mac d = fmempty" and "[] \<notin> set macs"
  shows "fold (issues_step1 d macs) is (False, acc) = (False, acc @ map (\<lambda>i. '', '' @ strconv_Itoa (sint i)) is)"
proof (induction "is" arbitrary: acc)
  case (Cons i "is")
  have "issues_seen [] macs False = False" using assms(3) by (simp add: issues_seen_iff)
  then have "issues_step1 d macs i (False, acc) = (False, acc @ ['', '' @ strconv_Itoa (sint i)])"
    using assms(1,2) by (simp add: issues_step1_def gm_get_def Let_def)
  then show ?case using Cons.IH by simp
qed simp

lemma Mysql_GetIssues_reports_all:
  assumes "dhcppool_laws db view tmp" and "NewMysqlPool db capacity name algorithm sql = Ret (p, e)" and "[] \<notin> set macs"
  shows "fst (Mysql_GetIssues macs p) = map (\<lambda>i. '', '' @ strconv_Itoa (sint i)) (u64_upto capacity)"
proof -
  have "new_rows_law db view" using assms(1) by (simp add: dhcppool_laws_def)
  then have "pool_free (my_DHCPPool p) = fmempty" "pool_mac (my_DHCPPool p) = fmempty" "pool_capacity (my_DHCPPool p) = capacity"
    using NewMysqlPool_new [of db view capacity name algorithm sql] assms(2) by (auto simp: Mysql_Capacity_def)
  then show ?thesis using mysql_issues_empty [of "my_DHCPPool p" macs] assms(3)
    by (simp add: Mysql_GetIssues_def pool_GetIssues_def Let_def)
qed

section \<open>A table that satisfies the laws\<close>

type_synonym table = "((string \<times> u64) \<times> string \<times> bool) list \<times> u64"

definition tb_view :: "table \<Rightarrow> table_view" where
  "tb_view t name i = map_of (fst t) (name, i)"

definition tb_set :: "string \<Rightarrow> u64 \<Rightarrow> string \<times> bool \<Rightarrow> table \<Rightarrow> table" where
  "tb_set name i r t = (((name, i), r) # fst t, snd t)"

definition tb_free :: "table \<Rightarrow> string \<Rightarrow> u64 list" where
  "tb_free t name = remdups (filter (\<lambda>i. map_option snd (tb_view t name i) = Some True) (map (snd \<circ> fst) (fst t)))"

definition tb_exec :: "string \<Rightarrow> sql_arg list \<Rightarrow> table \<Rightarrow> exec_result \<times> table" where
  "tb_exec q args t =
     (case args of
        [AStr mac, ANum i, AStr name] \<Rightarrow>
          (if q = q_reserve \<and> map_option snd (tb_view t name i) = Some True then (ExecCount 1, tb_set name i (mac, False) t)
           else if q = q_free \<and> map_option snd (tb_view t name i) = Some False then (ExecCount 1, tb_set name i (mac, True) t)
           else (ExecCount 0, t))
      | [AStr mac, AStr name, AStr _] \<Rightarrow>
          (case tb_free t name of
             [] \<Rightarrow> (ExecCount 0, t)
           | k # _ \<Rightarrow> if k = 0 then (ExecCount 0, (fst t, k)) else (ExecCount 1, (fst (tb_set name k (mac, False) t), k)))
      | _ \<Rightarrow> (ExecErr ''syntax'', t))"

definition tb_query :: "string \<Rightarrow> sql_arg list \<Rightarrow> table \<Rightarrow> rows_result \<times> table" where
  "tb_query q args t =
     (case args of
        [] \<Rightarrow> (Rows [[ANum (snd t)]], t)
      | [AStr name, ANum i] \<Rightarrow> (Rows [], if tb_view t name i = None then tb_set name i ([], True) t else t)
      | [ANum i, AStr name] \<Rightarrow> (Rows (case tb_view t name i of None \<Rightarrow> [] | Some (m, _) \<Rightarrow> [[ANum i, AStr m]]), t)
      | [AStr name] \<Rightarrow>
          if q = q_count then (Rows [[ANum (of_nat (length (tb_free t name)))]], t)
          else (Rows [], (filter (\<lambda>((n, _), _). n \<noteq> name) (fst t), snd t))
      | _ \<Rightarrow> (RowsErr ''syntax'', t))"

definition table_db :: "table pool_db" where
  "table_db = \<lparr>dbExec = tb_exec, dbQuery = tb_query, dbBegin = (\<lambda>t. None)\<rparr>"

lemma tb_view_set [simp]: "tb_view (tb_set name i r t) = set_row (tb_view t) name i r"
  by (auto simp: tb_view_def tb_set_def set_row_def fun_eq_iff)

lemma tb_view_pair [simp]: "tb_view (fst t, k) = tb_view t" "tb_view (fst (tb_set name i r t), k) = set_row (tb_view t) name i r"
  by (auto simp: tb_view_def tb_set_def set_row_def fun_eq_iff)

lemma set_tb_free: "set (tb_free t name) = free_rows (tb_view t) name"
proof (rule set_eqI)
  fix i
  have "i \<in> snd ` fst ` set (fst t)" if "tb_view t name i = Some r" for r
    using that by (force simp: tb_view_def dest: map_of_SomeD)
  then show "i \<in> set (tb_free t name) \<longleftrightarrow> i \<in> free_rows (tb_view t) name"
    by (force simp: tb_free_def free_rows_def)
qed

lemma q_neq: "q_free \<noteq> q_reserve" "q_delete \<noteq> q_count"
  by (simp_all add: q_free_def q_reserve_def q_delete_def q_count_def)

lemma tb_delete: "tb_view (filter (\<lambda>((n, _), _). n \<noteq> name) rows, k) = (tb_view (rows, k))(name := (\<lambda>_. None))"
proof -
  have "map_of (filter (\<lambda>((n, _), _). n \<noteq> name) rows) (n, i) = (if n = name then None else map_of rows (n, i))" for n i
    by (induction rows) auto
  then show ?thesis by (auto simp: tb_view_def fun_eq_iff)
qed

lemma table_db_laws: "dhcppool_laws table_db tb_view snd"
proof -
  have "new_rows_law table_db tb_view"
    using q_neq by (simp add: new_rows_law_def table_db_def tb_query_def tb_delete)
  moreover have "reserve_law table_db tb_view" using q_neq
    by (auto simp: reserve_law_def table_db_def tb_exec_def free_rows_def simp del: split_paired_All split_paired_Ex)
  moreover have "free_law table_db tb_view" using q_neq
    by (auto simp: free_law_def table_db_def tb_exec_def simp del: split_paired_All split_paired_Ex)
  moreover have "query_law table_db tb_view"
  proof -
    have "length (tb_free t name) = card (free_rows (tb_view t) name)" for t name
      using distinct_card [of "tb_free t name"] by (simp add: set_tb_free) (simp add: tb_free_def)
    then show ?thesis
      by (auto simp: query_law_def table_db_def tb_query_def unat_of_nat_u64 split: option.splits)
  qed
  moreover have "allocate_law table_db tb_view snd"
  proof -
    have "allocates tb_view snd mac name res d d'" if ex: "tb_exec q [AStr mac, AStr name, AStr name] d = (res, d')" for q mac name res d d'
    proof (cases "tb_free d name")
      case Nil
      then have "free_rows (tb_view d) name = {}" using set_tb_free [of d name] by simp
      with Nil ex show ?thesis by (simp add: allocates_def tb_exec_def)
    next
      case (Cons k ks)
      then have k: "k \<in> free_rows (tb_view d) name" using set_tb_free [of d name] by auto
      then have ne: "free_rows (tb_view d) name \<noteq> {}" by blast
      have "snd d' = k \<and> (if k = 0 then res = ExecCount 0 \<and> tb_view d' = tb_view d
          else res = ExecCount 1 \<and> tb_view d' = set_row (tb_view d) name k (mac, False))"
        using Cons ex by (auto simp: tb_exec_def split: if_splits)
      with k show ?thesis unfolding allocates_def if_not_P [OF ne] by (intro bexI [of _ k])
    qed
    then show ?thesis by (simp add: allocate_law_def table_db_def tb_query_def)
  qed
  ultimately show ?thesis by (simp add: dhcppool_laws_def)
qed

definition demo_mysql :: "table Mysql" where
  "demo_mysql = \<lparr>my_PoolName = ''n'', my_DHCPPool = \<lparr>pool_free = fmempty, pool_mac = fmempty, pool_capacity = 2,
     pool_released = fmempty, pool_algorithm = Random\<rparr>, my_SQL = ([((''n'', 1), [], True), ((''n'', 0), [], True)], 0)\<rparr>"

definition demo_mysql1 :: "table Mysql" where
  "demo_mysql1 = demo_mysql\<lparr>my_SQL := ([((''n'', 1), ''m'', False), ((''n'', 1), [], True), ((''n'', 0), [], True)], 1)\<rparr>"

lemma demo_mysql_new: "NewMysqlPool table_db 2 ''n'' Random ([], 0) = Ret (demo_mysql, None)"
proof -
  have upto: "u64_upto 2 = [0, 1]" by (simp add: u64_upto_def upt_rec)
  have del: "tb_query q_delete [AStr ''n''] ([], 0) = (Rows [], ([], 0))" using q_neq by (simp add: tb_query_def)
  have ins0: "tb_query q_insert [AStr ''n'', ANum 0] ([], 0) = (Rows [], ([((''n'', 0), [], True)], 0))"
    by (simp add: tb_query_def tb_view_def tb_set_def)
  have ins1: "tb_query q_insert [AStr ''n'', ANum 1] ([((''n'', 0), [], True)], 0) =
      (Rows [], ([((''n'', 1), [], True), ((''n'', 0), [], True)], 0))"
    by (simp add: tb_query_def tb_view_def tb_set_def)
  have "insert_rows table_db ''n'' (u64_upto 2) ([], 0) = Ret ([((''n'', 1), [], True), ((''n'', 0), [], True)], 0)"
    unfolding upto insert_rows.simps by (simp add: table_db_def ins0 ins1)
  then show ?thesis
    by (simp add: NewMysqlPool_def Mysql_NewDHCPPool_def demo_mysql_def table_db_def del)
qed

lemma demo_mysql_alloc: "Mysql_GetFreeIPIndex table_db ''m'' demo_mysql = Ret ((1, ''m'', None), demo_mysql1)"
proof -
  have free: "tb_free ([((''n'', 1), [], True), ((''n'', 0), [], True)], 0) ''n'' = [1, 0]" by code_simp
  show ?thesis
    by (simp add: Mysql_GetFreeIPIndex_def Mysql_FreeIPsRemaining_def demo_mysql_def demo_mysql1_def table_db_def tb_query_def tb_exec_def
        free tb_set_def scan_num_def)
qed


lemma mysql_never_allocates_zero_witness:
  "Mysql_FreeIPsRemaining table_db demo_mysql1 = Ret 1 \<and>
   (\<exists>p'. Mysql_GetFreeIPIndex table_db ''k'' demo_mysql1 = Ret ((0, FreeMac, Some ''Doesn't suppose to reach here''), p'))"
proof -
  have two: "i < 2 \<longleftrightarrow> i = 0 \<or> i = 1" for i :: u64
    by (auto simp: word_less_nat_alt word_unat_eq_iff)
  have "mysql_inv tb_view demo_mysql1"
    by (auto simp: mysql_inv_def demo_mysql1_def demo_mysql_def tb_view_def Mysql_Capacity_def two)
  moreover have "{i. i < Mysql_Capacity demo_mysql1 \<and> mysql_owner tb_view demo_mysql1 i = None} = {0}"
    by (auto simp: mysql_owner_def demo_mysql1_def demo_mysql_def tb_view_def Mysql_Capacity_def two)
  ultimately show ?thesis using mysql_never_allocates_zero [OF table_db_laws, of demo_mysql1 "''k''"] by blast
qed

end
