(* ===== verification/ZoneName.thy ===== *)
theory ZoneName
  imports Prelude "HOL-Library.List_Lexorder" "HOL-Library.Char_ord"
begin

text \<open>
  The order of the names in a zone of the DNS server (\<open>coredns/plugin/file/tree/less.go\<close>).

  A name is compared label by label from the right. The positions of the labels come from
  \<open>dns.PrevLabel\<close> of the package miekg/dns, which is the parameter \<open>PL\<close>:
  \<open>PrevLabel_laws\<close> states what its documentation promises, and \<open>dots_PrevLabel\<close> is a
  function with these laws. The main lemma is \<open>less_name_key\<close>: the loop returns, and it
  compares the lists of decoded labels (\<open>name_key\<close>) lexicographically, so the names are totally
  preordered.
\<close>

section \<open>Bytes of a label\<close>

text \<open>\<open>bytes.Compare\<close>.\<close>

fun bytes_Compare :: "string \<Rightarrow> string \<Rightarrow> int" where
  "bytes_Compare [] [] = 0"
| "bytes_Compare [] (y # ys) = - 1"
| "bytes_Compare (x # xs) [] = 1"
| "bytes_Compare (x # xs) (y # ys) =
     (if x < y then - 1 else if y < x then 1 else bytes_Compare xs ys)"

text \<open>The arithmetic of \<open>dddToByte\<close> is that of bytes: \<open>char_of\<close> reduces modulo 256.\<close>

definition isDigit :: "char \<Rightarrow> bool" where
  "isDigit b \<longleftrightarrow> CHR ''0'' \<le> b \<and> b \<le> CHR ''9''"

definition dddToByte :: "string \<Rightarrow> char" where
  "dddToByte s =
     char_of ((of_char (s ! 1) - 48) * 100 + (of_char (s ! 2) - 48) * 10 + (of_char (s ! 3) - 48) :: int)"

text \<open>
  The slice keeps its length: \<open>lb\<close> is a local variable, and the bytes from \<open>lb\<close> on stay
  what they were.
\<close>

definition ddd_shift :: "nat \<Rightarrow> nat \<Rightarrow> string \<Rightarrow> string" where
  "ddd_shift i lb b = foldl (\<lambda>b j. b[j := b ! (j + 3)]) (b[i := dddToByte (drop i b)]) [i + 1..<lb - 3]"

definition ddd_at :: "nat \<Rightarrow> nat \<Rightarrow> string \<Rightarrow> bool" where
  "ddd_at i lb b \<longleftrightarrow> i + 3 < lb \<and> b ! i = CHR 92
     \<and> isDigit (b ! (i + 1)) \<and> isDigit (b ! (i + 2)) \<and> isDigit (b ! (i + 3))"

function doDDD_loop :: "nat \<Rightarrow> nat \<Rightarrow> string \<Rightarrow> string" where
  "doDDD_loop i lb b =
     (if i < lb then
        if ddd_at i lb b then doDDD_loop (i + 1) (lb - 3) (ddd_shift i lb b)
        else doDDD_loop (i + 1) lb b
      else b)"
  by pat_completeness auto
termination by (relation "measure (\<lambda>(i, lb, b). lb - i)") auto

declare doDDD_loop.simps [simp del]

definition doDDD :: "string \<Rightarrow> string" where
  "doDDD b = doDDD_loop 0 (length b) b"

section \<open>Comparing two names\<close>

type_synonym prev_label = "string \<Rightarrow> nat \<Rightarrow> nat \<times> bool"

text \<open>A slice \<open>s[i:j]\<close> of a string.\<close>

definition str_slice :: "string \<Rightarrow> nat \<Rightarrow> nat \<Rightarrow> string" where
  "str_slice s i j = take (j - i) (drop i s)"

text \<open>
  The loop of \<open>less\<close>; \<open>None\<close> when the fuel runs out before it returns. A name has at most
  as many labels as bytes, so the fuel given by \<open>less_opt\<close> is enough (\<open>less_name_key\<close>).
\<close>

fun less_loop :: "prev_label \<Rightarrow> nat \<Rightarrow> string \<Rightarrow> string \<Rightarrow> nat \<Rightarrow> nat \<Rightarrow> nat \<Rightarrow> int option" where
  "less_loop PL 0 a b i aj bj = None"
| "less_loop PL (Suc fuel) a b i aj bj =
     (let (ai, oka) = PL a i; (bi, okb) = PL b i in
      if oka \<and> okb then Some 0
      else let res = bytes_Compare (doDDD (str_slice a ai aj)) (doDDD (str_slice b bi bj)) in
           if res \<noteq> 0 then Some res else less_loop PL fuel a b (i + 1) ai bi)"

definition less_opt :: "prev_label \<Rightarrow> string \<Rightarrow> string \<Rightarrow> int option" where
  "less_opt PL a b = less_loop PL (length a + length b + 1) a b 1 (length a) (length b)"

definition less_names :: "prev_label \<Rightarrow> string \<Rightarrow> string \<Rightarrow> int" where
  "less_names PL a b = (case less_opt PL a b of Some c \<Rightarrow> c | None \<Rightarrow> 0)"

section \<open>The labels of a name\<close>

text \<open>
  The positions at which the labels of a name start, from the right, and the laws:
  jumping \<open>n\<close> labels to the left gives the start of the \<open>n\<close>-th label from the right, and
  the flag is set exactly when the start of the name is overshot. The last label starts at
  0.
\<close>

definition label_starts :: "prev_label \<Rightarrow> string \<Rightarrow> nat list" where
  "label_starts PL s = map (fst \<circ> PL s) (takeWhile (\<lambda>n. \<not> snd (PL s n)) [1..<length s + 1])"

definition PrevLabel_laws :: "prev_label \<Rightarrow> bool" where
  "PrevLabel_laws PL \<longleftrightarrow> (\<forall>s. \<exists>os. sorted_wrt (>) os \<and> (\<forall>p \<in> set os. p < length s)
     \<and> (s \<noteq> [] \<longrightarrow> os \<noteq> [] \<and> last os = 0)
     \<and> (\<forall>n \<ge> 1. PL s n = (if n \<le> length os then (os ! (n - 1), False) else (0, True))))"

fun pieces :: "string \<Rightarrow> nat \<Rightarrow> nat list \<Rightarrow> string list" where
  "pieces s e [] = []"
| "pieces s e (p # ps) = doDDD (str_slice s p e) # pieces s p ps"

definition name_key :: "prev_label \<Rightarrow> string \<Rightarrow> string list" where
  "name_key PL s = pieces s (length s) (label_starts PL s)"

text \<open>A function with the laws: a label ends at a dot that is not the last byte of the name.\<close>

definition dot_starts :: "string \<Rightarrow> nat list" where
  "dot_starts s = (if s = [] then [] else
     rev (0 # map Suc (filter (\<lambda>i. s ! i = CHR ''.'') [0..<length s - 1])))"

definition dots_PrevLabel :: prev_label where
  "dots_PrevLabel s n =
     (if n = 0 then (length s, False)
      else let os = dot_starts s in if n \<le> length os then (os ! (n - 1), False) else (0, True))"

section \<open>Lemmas\<close>

lemma bytes_Compare_iff:
  "bytes_Compare x y = (if x < y then - 1 else if x = y then 0 else 1)"
  by (induction x y rule: bytes_Compare.induct) auto

lemma length_ddd_shift [simp]: "length (ddd_shift i lb b) = length b"
proof -
  have "length (foldl (\<lambda>b j. b[j := b ! (j + 3)]) c js) = length c" for c :: string and js
    by (induction js arbitrary: c) auto
  then show ?thesis by (simp add: ddd_shift_def)
qed

lemma length_doDDD_loop: "length (doDDD_loop i lb b) = length b"
  by (induction i lb b rule: doDDD_loop.induct) (subst doDDD_loop.simps, simp)

lemma length_doDDD [simp]: "length (doDDD b) = length b"
  by (simp add: doDDD_def length_doDDD_loop)

lemma doDDD_loop_plain:
  "lb \<le> length b \<Longrightarrow> CHR 92 \<notin> set b \<Longrightarrow> doDDD_loop i lb b = b"
proof (induction i lb b rule: doDDD_loop.induct)
  case (1 i lb b)
  have "\<not> ddd_at i lb b"
  proof
    assume d: "ddd_at i lb b"
    then have "b ! i \<in> set b" using 1(3) by (intro nth_mem) (simp add: ddd_at_def)
    with d 1(4) show False by (simp add: ddd_at_def)
  qed
  with 1 show ?case by (subst doDDD_loop.simps) simp
qed

lemma doDDD_plain: "CHR 92 \<notin> set b \<Longrightarrow> doDDD b = b"
  by (simp add: doDDD_def doDDD_loop_plain)

definition order_sign :: "'a::linorder \<Rightarrow> 'a \<Rightarrow> int" where
  "order_sign x y = (if x < y then - 1 else if x = y then 0 else 1)"

lemma order_sign_iff [simp]:
  "order_sign x y < 0 \<longleftrightarrow> x < y" "order_sign x y = 0 \<longleftrightarrow> x = y" "0 < order_sign x y \<longleftrightarrow> y < x"
  by (auto simp: order_sign_def)

lemma order_sign_same [simp]: "order_sign x x = 0"
  by (simp add: order_sign_def)

lemma str_slice_empty [simp]: "str_slice s i i = []"
  by (simp add: str_slice_def)

lemma str_slice_not_Nil: "i < j \<Longrightarrow> j \<le> length s \<Longrightarrow> str_slice s i j \<noteq> []"
  by (simp add: str_slice_def)

lemma doDDD_Nil [simp]: "doDDD [] = []"
  by (simp add: doDDD_plain)

lemma doDDD_eq_Nil [simp]: "doDDD s = [] \<longleftrightarrow> s = []"
  by (metis length_0_conv length_doDDD)

lemma Nil_less_iff: "[] < (xs :: 'a::order list) \<longleftrightarrow> xs \<noteq> []"
  by (cases xs) auto

lemma bytes_Compare_sign: "bytes_Compare x y = order_sign x y"
  by (simp add: bytes_Compare_iff order_sign_def)

text \<open>What the loop relies on when it has passed some labels of a name.\<close>

definition labels_left :: "prev_label \<Rightarrow> string \<Rightarrow> nat \<Rightarrow> nat \<Rightarrow> nat list \<Rightarrow> bool" where
  "labels_left PL a i aj as \<longleftrightarrow> aj \<le> length a \<and> sorted_wrt (>) (aj # as) \<and> last (aj # as) = 0
     \<and> (\<forall>n. PL a (i + n) = (if n < length as then (as ! n, False) else (0, True)))"

lemma labels_left_Nil: "labels_left PL a i aj [] \<longleftrightarrow> aj = 0 \<and> (\<forall>n. PL a (i + n) = (0, True))"
  by (auto simp: labels_left_def)

lemma labels_left_end: "labels_left PL a i 0 [] \<Longrightarrow> labels_left PL a (i + 1) 0 []"
  unfolding labels_left_Nil by (metis add.assoc)

lemma labels_left_step:
  assumes "labels_left PL a i aj (p # as)"
  shows "PL a i = (p, False)" and "labels_left PL a (i + 1) p as" and "str_slice a p aj \<noteq> []"
proof -
  have pl: "PL a (i + n) = (if n < Suc (length as) then ((p # as) ! n, False) else (0, True))" for n
    using assms by (simp add: labels_left_def)
  show "PL a i = (p, False)" using pl [of 0] by simp
  have "PL a (i + 1 + n) = (if n < length as then (as ! n, False) else (0, True))" for n
    using pl [of "n + 1"] by (simp add: add.commute add.left_commute)
  with assms show "labels_left PL a (i + 1) p as" by (auto simp: labels_left_def)
  from assms show "str_slice a p aj \<noteq> []"
    by (intro str_slice_not_Nil) (auto simp: labels_left_def)
qed

lemma less_loop_pieces:
  assumes "labels_left PL a i aj as" and "labels_left PL b i bj bs"
    and "length as < fuel" and "length bs < fuel"
  shows "less_loop PL fuel a b i aj bj = Some (order_sign (pieces a aj as) (pieces b bj bs))"
  using assms
proof (induction fuel arbitrary: i aj bj as bs)
  case 0
  then show ?case by simp
next
  case (Suc fuel)
  show ?case
  proof (cases as)
    case Nil
    then have a: "aj = 0" "PL a i = (0, True)"
      using Suc.prems(1) by (auto simp: labels_left_Nil dest: spec [of _ 0])
    show ?thesis
    proof (cases bs)
      case Nil
      then have "bj = 0" "PL b i = (0, True)"
        using Suc.prems(2) by (auto simp: labels_left_Nil dest: spec [of _ 0])
      with a Nil \<open>as = []\<close> show ?thesis by simp
    next
      case (Cons q bs')
      note b = labels_left_step [OF Suc.prems(2) [unfolded Cons]]
      then have "[] < doDDD (str_slice b q bj)" by (simp add: Nil_less_iff)
      with a b(1) Cons Nil show ?thesis by (simp add: bytes_Compare_sign order_sign_def)
    qed
  next
    case (Cons p as')
    note a = labels_left_step [OF Suc.prems(1) [unfolded Cons]]
    show ?thesis
    proof (cases bs)
      case Nil
      then have b: "bj = 0" "PL b i = (0, True)"
        using Suc.prems(2) by (auto simp: labels_left_Nil dest: spec [of _ 0])
      with a Cons Nil show ?thesis by (simp add: bytes_Compare_sign order_sign_def)
    next
      case (Cons q bs')
      note b = labels_left_step [OF Suc.prems(2) [unfolded Cons]]
      have "less_loop PL fuel a b (i + 1) p q = Some (order_sign (pieces a p as') (pieces b q bs'))"
        using Suc.prems \<open>as = p # as'\<close> Cons by (intro Suc.IH a(2) b(2)) auto
      with a(1) b(1) Cons \<open>as = p # as'\<close> show ?thesis
        by (simp add: bytes_Compare_sign) (auto simp: order_sign_def)
    qed
  qed
qed

lemma starts_length: "sorted_wrt (>) (os :: nat list) \<Longrightarrow> \<forall>p \<in> set os. p < n \<Longrightarrow> length os \<le> n"
proof -
  assume "sorted_wrt (>) os" and lt: "\<forall>p \<in> set os. p < n"
  then have "distinct os" by (induction os) auto
  then have "length os = card (set os)" by (simp add: distinct_card)
  also have "\<dots> \<le> card {..<n}" using lt by (intro card_mono) auto
  finally show ?thesis by simp
qed

lemma label_starts_eq:
  assumes "sorted_wrt (>) os" and "\<forall>p \<in> set os. p < length s"
    and pl: "\<forall>n \<ge> 1. PL s n = (if n \<le> length os then (os ! (n - 1), False) else (0, True))"
  shows "label_starts PL s = os"
proof -
  let ?n = "length os"
  have le: "?n \<le> length s" using assms(1,2) by (rule starts_length)
  then have "[1..<length s + 1] = [1..<?n + 1] @ [?n + 1..<length s + 1]"
    by (metis add_le_mono1 le_add2 upt_add_eq_append le_Suc_ex)
  moreover have "takeWhile (\<lambda>n. \<not> snd (PL s n)) ([1..<?n + 1] @ [?n + 1..<length s + 1]) = [1..<?n + 1]"
  proof -
    have "takeWhile (\<lambda>n. \<not> snd (PL s n)) [?n + 1..<length s + 1] = []"
      using pl by (cases "?n < length s") (simp_all add: upt_conv_Cons del: upt_Suc)
    moreover have "\<forall>k \<in> set [1..<?n + 1]. \<not> snd (PL s k)" using pl by auto
    ultimately show ?thesis by (subst takeWhile_append2) (simp_all del: upt_Suc)
  qed
  ultimately have "label_starts PL s = map (fst \<circ> PL s) [1..<?n + 1]"
    by (simp only: label_starts_def)
  also have "\<dots> = os" using pl by (intro nth_equalityI) (simp_all del: upt_Suc)
  finally show ?thesis .
qed

lemma labels_left_start:
  assumes "PrevLabel_laws PL"
  shows "labels_left PL s 1 (length s) (label_starts PL s)" and "length (label_starts PL s) \<le> length s"
proof -
  from assms obtain os where os: "sorted_wrt (>) os" "\<forall>p \<in> set os. p < length s"
    "s \<noteq> [] \<longrightarrow> os \<noteq> [] \<and> last os = 0"
    "\<forall>n \<ge> 1. PL s n = (if n \<le> length os then (os ! (n - 1), False) else (0, True))"
    unfolding PrevLabel_laws_def by meson
  have eq: "label_starts PL s = os" using os(1,2,4) by (rule label_starts_eq)
  show "length (label_starts PL s) \<le> length s" using os(1,2) unfolding eq by (rule starts_length)
  show "labels_left PL s 1 (length s) (label_starts PL s)"
    unfolding eq labels_left_def using os by (auto simp: Suc_le_eq)
qed

lemma less_name_key:
  assumes "PrevLabel_laws PL"
  shows "less_opt PL a b = Some (order_sign (name_key PL a) (name_key PL b))"
    and "less_names PL a b = order_sign (name_key PL a) (name_key PL b)"
proof -
  show *: "less_opt PL a b = Some (order_sign (name_key PL a) (name_key PL b))"
    unfolding less_opt_def name_key_def
    using labels_left_start [OF assms, of a] labels_left_start [OF assms, of b]
    by (intro less_loop_pieces) auto
  show "less_names PL a b = order_sign (name_key PL a) (name_key PL b)"
    by (simp add: less_names_def *)
qed

section \<open>Absolute names and the canonical order\<close>

text \<open>
  For names without escapes the labels are the parts between the dots. The canonical order of
  RFC 4034, section 6.1, compares the lists of labels from the right, a label that is a prefix
  of another coming first: it is the lexicographic order on the reversed list of labels.
\<close>

definition PrevLabel_dots :: "prev_label \<Rightarrow> bool" where
  "PrevLabel_dots PL \<longleftrightarrow> (\<forall>s. CHR 92 \<notin> set s \<longrightarrow> label_starts PL s = dot_starts s)"

definition absolute :: "string list \<Rightarrow> string" where
  "absolute ls = concat (map (\<lambda>l. l @ ''.'') ls)"

definition plain_label :: "string \<Rightarrow> bool" where
  "plain_label l \<longleftrightarrow> l \<noteq> [] \<and> CHR ''.'' \<notin> set l \<and> CHR 92 \<notin> set l"

lemma absolute_simps [simp]:
  "absolute [] = []" "absolute (l # ls) = l @ CHR ''.'' # absolute ls"
  by (simp_all add: absolute_def)

lemma dot_starts_less: "p \<in> set (dot_starts s) \<Longrightarrow> p < length s"
  by (auto simp: dot_starts_def split: if_splits)

lemma dot_starts_sorted: "sorted_wrt (>) (dot_starts s)"
  by (auto simp: dot_starts_def sorted_wrt_rev sorted_wrt_append sorted_wrt_map sorted_wrt_filter
      intro!: sorted_wrt_filter sorted_wrt_mono_rel [OF _ sorted_wrt_upt])

lemma dots_PrevLabel_laws: "PrevLabel_laws dots_PrevLabel"
  unfolding PrevLabel_laws_def
proof (intro allI exI conjI ballI impI)
  fix s :: string
  show "sorted_wrt (>) (dot_starts s)" by (rule dot_starts_sorted)
  show "p < length s" if "p \<in> set (dot_starts s)" for p using that by (rule dot_starts_less)
  show "dot_starts s \<noteq> []" "last (dot_starts s) = 0" if "s \<noteq> []"
    using that by (simp_all add: dot_starts_def)
  show "dots_PrevLabel s n = (if n \<le> length (dot_starts s) then (dot_starts s ! (n - 1), False) else (0, True))"
    if "1 \<le> n" for n
    using that by (simp add: dots_PrevLabel_def Let_def)
qed

lemma dots_PrevLabel_dots: "PrevLabel_dots dots_PrevLabel"
  unfolding PrevLabel_dots_def
  by (auto intro!: label_starts_eq dot_starts_sorted simp: dot_starts_less dots_PrevLabel_def Let_def)

lemma dots_in_prefix:
  "CHR ''.'' \<notin> set l \<Longrightarrow> filter (\<lambda>i. (l @ CHR ''.'' # s) ! i = CHR ''.'') [0..<length l + 1 + n]
    = length l # map ((+) (length l + 1)) (filter (\<lambda>i. s ! i = CHR ''.'') [0..<n])"
proof -
  assume l: "CHR ''.'' \<notin> set l"
  let ?P = "\<lambda>i. (l @ CHR ''.'' # s) ! i = CHR ''.''"
  have "[0..<length l + 1 + n] = [0..<length l] @ length l # map ((+) (length l + 1)) [0..<n]"
    by (rule nth_equalityI) (auto simp: nth_append nth_Cons split: nat.splits simp del: upt_Suc)
  moreover have "filter ?P [0..<length l] = []"
    using l by (auto simp: filter_empty_conv nth_append in_set_conv_nth)
  ultimately show ?thesis by (simp add: filter_map comp_def nth_append)
qed

lemma absolute_eq_Nil [simp]: "absolute ls = [] \<longleftrightarrow> ls = []"
  by (cases ls) auto

lemma dot_starts_Cons:
  assumes "CHR ''.'' \<notin> set l" and "s \<noteq> []"
  shows "dot_starts (l @ CHR ''.'' # s) = map ((+) (length l + 1)) (dot_starts s) @ [0]"
proof -
  have "length (l @ CHR ''.'' # s) - 1 = length l + 1 + (length s - 1)" using assms(2) by (cases s) auto
  then show ?thesis
    using dots_in_prefix [OF assms(1), of s "length s - 1"] assms(2)
    by (simp only: dot_starts_def) (simp add: rev_map comp_def)
qed

lemma dot_starts_one:
  assumes "CHR ''.'' \<notin> set l"
  shows "dot_starts (l @ ''.'') = [0]"
  using assms by (auto simp: dot_starts_def filter_empty_conv nth_append in_set_conv_nth)

lemma pieces_shift:
  assumes "\<forall>p \<in> set ps. p \<le> length s" and "e \<le> length s"
  shows "pieces (l @ s) (length l + e) (map ((+) (length l)) ps @ qs)
    = pieces s e ps @ pieces (l @ s) (length l + last (e # ps)) qs"
  using assms by (induction ps arbitrary: e) (auto simp: str_slice_def)

lemma pieces_absolute:
  assumes "\<forall>l \<in> set ls. plain_label l"
  shows "pieces (absolute ls) (length (absolute ls)) (dot_starts (absolute ls)) = rev (map (\<lambda>l. l @ ''.'') ls)"
  using assms
proof (induction ls)
  case Nil
  then show ?case by (simp add: dot_starts_def)
next
  case (Cons l ls)
  then have l: "CHR ''.'' \<notin> set l" "CHR 92 \<notin> set (l @ ''.'')" by (auto simp: plain_label_def)
  show ?case
  proof (cases "ls = []")
    case True
    with l show ?thesis by (simp add: dot_starts_one str_slice_def doDDD_plain)
  next
    case False
    let ?s = "absolute ls" and ?l = "l @ ''.''"
    have "last (length ?s # dot_starts ?s) = 0" using False by (simp add: dot_starts_def)
    moreover have "pieces (?l @ ?s) (length ?l + length ?s) (map ((+) (length ?l)) (dot_starts ?s) @ [0])
        = pieces ?s (length ?s) (dot_starts ?s) @ pieces (?l @ ?s) (length ?l + last (length ?s # dot_starts ?s)) [0]"
      by (rule pieces_shift) (auto dest: dot_starts_less)
    ultimately show ?thesis
      using Cons False l by (simp add: dot_starts_Cons str_slice_def doDDD_plain)
  qed
qed

lemma plain_absolute: "\<forall>l \<in> set ls. plain_label l \<Longrightarrow> CHR 92 \<notin> set (absolute ls)"
  by (induction ls) (auto simp: plain_label_def)

lemma name_key_absolute:
  assumes "PrevLabel_dots PL" and "\<forall>l \<in> set ls. plain_label l"
  shows "name_key PL (absolute ls) = rev (map (\<lambda>l. l @ ''.'') ls)"
  using assms plain_absolute [OF assms(2)]
  by (simp add: name_key_def PrevLabel_dots_def pieces_absolute)

lemma less_dotted_label:
  assumes "\<forall>c \<in> set x \<union> set y. CHR ''.'' < c"
  shows "x @ ''.'' < y @ ''.'' \<longleftrightarrow> x < y"
  using assms by (induction x y rule: bytes_Compare.induct) auto

lemma less_dotted_labels:
  assumes "\<forall>l \<in> set xs \<union> set ys. \<forall>c \<in> set l. CHR ''.'' < c"
  shows "map (\<lambda>l. l @ ''.'') xs < map (\<lambda>l. l @ ''.'') ys \<longleftrightarrow> xs < ys"
  using assms
proof (induction xs ys rule: list_induct2')
  case (4 x xs y ys)
  then have "x @ ''.'' < y @ ''.'' \<longleftrightarrow> x < y" by (intro less_dotted_label) auto
  with 4 show ?case by auto
qed auto

section \<open>Properties\<close>

text \<open>
  The comparison of two names always returns, whatever the names: the loop over the labels
  ends within the fuel it is given and, with any larger fuel, on the same result. Its sign is a total
  preorder: it is antisymmetric and transitive, and two names compare as equal exactly when
  their lists of decoded labels agree.
\<close>

theorem less_total_preorder:
  assumes "PrevLabel_laws PL" and "length a + length b + 1 \<le> fuel"
  shows "less_loop PL fuel a b 1 (length a) (length b) = Some (less_names PL a b)
    \<and> (less_names PL a b < 0 \<longleftrightarrow> 0 < less_names PL b a)
    \<and> (less_names PL a b \<le> 0 \<and> less_names PL b c \<le> 0 \<longrightarrow> less_names PL a c \<le> 0)
    \<and> (less_names PL a b = 0 \<longleftrightarrow> name_key PL a = name_key PL b)"
proof (intro conjI)
  note key = less_name_key(2) [OF assms(1)]
  show "less_loop PL fuel a b 1 (length a) (length b) = Some (less_names PL a b)"
    unfolding key name_key_def
    using labels_left_start [OF assms(1), of a] labels_left_start [OF assms(1), of b] assms(2)
    by (intro less_loop_pieces) auto
  show "less_names PL a b \<le> 0 \<and> less_names PL b c \<le> 0 \<longrightarrow> less_names PL a c \<le> 0"
    by (auto simp: key order_sign_def split: if_splits)
qed (simp_all add: less_name_key(2) [OF assms(1)])

theorem less_total_preorder_witness:
  "less_loop dots_PrevLabel 15 ''a.org.'' ''b.a.org.'' 1 (length ''a.org.'') (length ''b.a.org.'')
      = Some (less_names dots_PrevLabel ''a.org.'' ''b.a.org.'')
   \<and> less_names dots_PrevLabel ''a.org.'' ''b.a.org.'' < 0
   \<and> less_names dots_PrevLabel ''a.org.'' ''c.a.org.'' \<le> 0"
proof -
  have 1: "less_names dots_PrevLabel ''a.org.'' ''b.a.org.'' < 0" by code_simp
  have 2: "less_names dots_PrevLabel ''b.a.org.'' ''c.a.org.'' < 0" by code_simp
  show ?thesis
    using less_total_preorder [OF dots_PrevLabel_laws, of "''a.org.''" "''b.a.org.''" 15 "''c.a.org.''"] 1 2
    by simp
qed



text \<open>
  The restriction is needed. The dot that ends a label takes part in the comparison, and a hyphen is
  below it: \<open>a-b.org.\<close> comes before \<open>a.org.\<close>, in the canonical order it comes
  after it. An escaped byte leaves three stale bytes at the end of the label, so that a name is not
  equal to the same name written without the escape.
\<close>

lemma less_hyphen_before: "less_names dots_PrevLabel ''a-b.org.'' ''a.org.'' < 0"
  by code_simp

lemma less_escape_differs: "doDDD (CHR 92 # ''097b.'') = ''ab.7b.''"
  by code_simp

end
