(* ===== verification/ZoneTree.thy ===== *)
theory ZoneTree
  imports ZoneName
begin

text \<open>
  The tree in which the DNS server keeps the names of a zone, a left-leaning red-black tree
  (\<open>coredns/plugin/file/tree\<close>: \<open>elem.go\<close>, \<open>tree.go\<close>, \<open>walk.go\<close>,
  \<open>all.go\<close>, \<open>glue.go\<close> and \<open>file/rrutil\<close>).

  A node is a value of \<open>tnode\<close>; a method that writes through its receiver returns the new
  node. Following a nil pointer is a \<open>Panic\<close>. An element caches its name when it is first
  asked for it, so every comparison returns the element too. The constant \<open>mode\<close> is
  \<open>bu23\<close>; the statements guarded by \<open>mode == td234\<close> are never run and are left out.
  \<open>dns_lib\<close> holds what the code calls of miekg/dns, and the order in which a \<open>range\<close> over
  the records of an element visits them.
\<close>

section \<open>Resource records\<close>

datatype rdata =
    NS string
  | SOA string string u32
  | RRSIG u16
  | CNAME string
  | DNAME string
  | MX string
  | SRV string
  | Rdata string

record RR =
  rr_Name :: string
  rr_Rrtype :: u16
  rr_Class :: u16
  rr_Ttl :: u32
  rr_data :: rdata

abbreviation (input) "TypeA \<equiv> (1 :: u16)"
abbreviation (input) "TypeNS \<equiv> (2 :: u16)"
abbreviation (input) "TypeAAAA \<equiv> (28 :: u16)"
abbreviation (input) "TypeRRSIG \<equiv> (46 :: u16)"

type_synonym rrmap = "(u16, RR list) gomap"

record dns_lib =
  dPrevLabel :: prev_label
  dNextLabel :: "string \<Rightarrow> nat \<Rightarrow> nat \<times> bool"
  dIsSubDomain :: "string \<Rightarrow> string \<Rightarrow> bool"
  dRange :: "rrmap \<Rightarrow> u16 \<Rightarrow> nat"

text \<open>\<open>rrutil.SubTypeSignature\<close>.\<close>

definition SubTypeSignature :: "RR list \<Rightarrow> u16 \<Rightarrow> RR list" where
  "SubTypeSignature rrs subtype =
     filter (\<lambda>rr. case rr_data rr of RRSIG covered \<Rightarrow> covered = subtype | _ \<Rightarrow> False) rrs"

section \<open>Elements\<close>

text \<open>A nil map reads as an empty one, and the first write makes it: both are \<open>fmempty\<close>.\<close>

record Elem =
  e_m :: rrmap
  e_name :: string

definition newElem :: "RR \<Rightarrow> Elem" where
  "newElem rr = \<lparr>e_m = fmupd (rr_Rrtype rr) [rr] fmempty, e_name = ''''\<rparr>"

definition Elem_Types :: "dns_lib \<Rightarrow> Elem \<Rightarrow> u16 list" where
  "Elem_Types D e = range_keys (dRange D (e_m e)) (e_m e)"

definition Elem_Type :: "Elem \<Rightarrow> u16 \<Rightarrow> RR list" where
  "Elem_Type e qtype = gm_get [] (e_m e) qtype"

definition TypeForWildcard :: "Elem \<Rightarrow> u16 \<Rightarrow> string \<Rightarrow> RR list" where
  "TypeForWildcard e qtype qname = map (\<lambda>rr. rr\<lparr>rr_Name := qname\<rparr>) (Elem_Type e qtype)"

definition Elem_All :: "dns_lib \<Rightarrow> Elem \<Rightarrow> RR list" where
  "Elem_All D e = concat (map (gm_get [] (e_m e)) (range_keys (dRange D (e_m e)) (e_m e)))"

definition Elem_Name :: "dns_lib \<Rightarrow> Elem \<Rightarrow> (string \<times> Elem) outcome" where
  "Elem_Name D e =
     (if e_name e \<noteq> '''' then Ret (e_name e, e)
      else case range_keys (dRange D (e_m e)) (e_m e) of
             [] \<Rightarrow> Ret ('''', e)
           | ty # _ \<Rightarrow>
               (case gm_get [] (e_m e) ty of
                  [] \<Rightarrow> Panic ''index out of range''
                | rr # _ \<Rightarrow> Ret (rr_Name rr, e\<lparr>e_name := rr_Name rr\<rparr>)))"

definition Elem_Empty :: "Elem \<Rightarrow> bool" where
  "Elem_Empty e \<longleftrightarrow> gm_len (e_m e) = 0"

definition Elem_Insert :: "Elem \<Rightarrow> RR \<Rightarrow> Elem" where
  "Elem_Insert e rr =
     (let t = rr_Rrtype rr in
      case fmlookup (e_m e) t of
        None \<Rightarrow> e\<lparr>e_m := fmupd t [rr] (e_m e)\<rparr>
      | Some rrs \<Rightarrow> e\<lparr>e_m := fmupd t (rrs @ [rr]) (e_m e)\<rparr>)"

definition Elem_Delete :: "Elem \<Rightarrow> RR \<Rightarrow> Elem" where
  "Elem_Delete e rr = e\<lparr>e_m := fmdrop (rr_Rrtype rr) (e_m e)\<rparr>"

text \<open>\<open>Less\<close>, on a pointer that may be nil.\<close>

fun Less :: "dns_lib \<Rightarrow> Elem option \<Rightarrow> string \<Rightarrow> (int \<times> Elem) outcome" where
  "Less D None qname = Panic ''nil pointer dereference''"
| "Less D (Some e) qname =
     go_bind (Elem_Name D e) (\<lambda>(n, e). Ret (less_names (dPrevLabel D) qname n, e))"

section \<open>Nodes\<close>

text \<open>The zero value of a colour is red.\<close>

type_synonym Color = bool

abbreviation (input) red :: Color where "red \<equiv> False"
abbreviation (input) black :: Color where "black \<equiv> True"

datatype tnode =
    NilNode
  | Node (n_Elem: "Elem option") (n_Left: tnode) (n_Right: tnode) (n_Color: Color)
where
  "n_Left NilNode = NilNode"
| "n_Right NilNode = NilNode"
| "n_Elem NilNode = None"

record Tree =
  Root :: tnode
  Count :: int

text \<open>
  The selectors are applied to nodes that are not nil: after a test of the pointer, after its
  colour was found red, or after an operation that panics on nil.
\<close>

fun color :: "tnode \<Rightarrow> Color" where
  "color NilNode = black"
| "color (Node e l r c) = c"

fun rotateLeft :: "tnode \<Rightarrow> tnode outcome" where
  "rotateLeft (Node e l (Node re rl rr rc) c) = Ret (Node re (Node e l rl red) rr c)"
| "rotateLeft n = Panic ''nil pointer dereference''"

fun rotateRight :: "tnode \<Rightarrow> tnode outcome" where
  "rotateRight (Node e (Node le ll lr lc) r c) = Ret (Node le ll (Node e lr r red) c)"
| "rotateRight n = Panic ''nil pointer dereference''"

fun flipColors :: "tnode \<Rightarrow> tnode outcome" where
  "flipColors (Node e (Node le ll lr lc) (Node re rl rr rc) c) =
     Ret (Node e (Node le ll lr (\<not> lc)) (Node re rl rr (\<not> rc)) (\<not> c))"
| "flipColors n = Panic ''nil pointer dereference''"

fun set_Left :: "tnode \<Rightarrow> tnode \<Rightarrow> tnode outcome" where
  "set_Left (Node e l r c) l' = Ret (Node e l' r c)"
| "set_Left NilNode l' = Panic ''nil pointer dereference''"

fun set_Right :: "tnode \<Rightarrow> tnode \<Rightarrow> tnode outcome" where
  "set_Right (Node e l r c) r' = Ret (Node e l r' c)"
| "set_Right NilNode r' = Panic ''nil pointer dereference''"

fun set_Elem :: "tnode \<Rightarrow> Elem option \<Rightarrow> tnode outcome" where
  "set_Elem (Node e l r c) e' = Ret (Node e' l r c)"
| "set_Elem NilNode e' = Panic ''nil pointer dereference''"

fun set_Color :: "tnode \<Rightarrow> Color \<Rightarrow> tnode outcome" where
  "set_Color (Node e l r c) c' = Ret (Node e l r c')"
| "set_Color NilNode c' = Panic ''nil pointer dereference''"

text \<open>The two statements that end both \<open>fixUp\<close> and \<open>insert\<close>.\<close>

definition lean_split :: "tnode \<Rightarrow> tnode outcome" where
  "lean_split n =
     go_bind (if color (n_Left n) = red \<and> color (n_Left (n_Left n)) = red then rotateRight n else Ret n) (\<lambda>n.
     if color (n_Left n) = red \<and> color (n_Right n) = red then flipColors n else Ret n)"

definition fixUp :: "tnode \<Rightarrow> tnode outcome" where
  "fixUp n =
     (if n = NilNode then Panic ''nil pointer dereference''
      else go_bind (if color (n_Right n) = red then rotateLeft n else Ret n) lean_split)"

definition moveRedLeft :: "tnode \<Rightarrow> tnode outcome" where
  "moveRedLeft n =
     go_bind (flipColors n) (\<lambda>n.
     if color (n_Left (n_Right n)) = red
     then go_bind (rotateRight (n_Right n)) (\<lambda>r. go_bind (set_Right n r) (\<lambda>n. go_bind (rotateLeft n) flipColors))
     else Ret n)"

definition moveRedRight :: "tnode \<Rightarrow> tnode outcome" where
  "moveRedRight n =
     go_bind (flipColors n) (\<lambda>n.
     if color (n_Left (n_Left n)) = red then go_bind (rotateRight n) flipColors else Ret n)"

section \<open>Operations on the tree\<close>

text \<open>The number of nodes, which the recursions that rearrange their node get smaller in.\<close>

fun nodes :: "tnode \<Rightarrow> nat" where
  "nodes NilNode = 0"
| "nodes (Node e l r c) = Suc (nodes l + nodes r)"

text \<open>
  \<open>search\<close>; \<open>f\<close> is applied to the element found, for callers that write through the
  pointer they are given.
\<close>

fun node_search :: "dns_lib \<Rightarrow> string \<Rightarrow> (Elem \<Rightarrow> Elem) \<Rightarrow> tnode \<Rightarrow> (tnode \<times> Elem option \<times> bool) outcome" where
  "node_search D qname f NilNode = Ret (NilNode, None, False)"
| "node_search D qname f (Node eo l r c) =
     go_bind (Less D eo qname) (\<lambda>(k, e).
     if k = 0 then Ret (Node (Some (f e)) l r c, Some e, True)
     else if k < 0 then go_bind (node_search D qname f l) (\<lambda>(l', res). Ret (Node (Some e) l' r c, res))
     else go_bind (node_search D qname f r) (\<lambda>(r', res). Ret (Node (Some e) l r' c, res)))"

definition Tree_Search :: "dns_lib \<Rightarrow> Tree \<Rightarrow> string \<Rightarrow> (Tree \<times> Elem option \<times> bool) outcome" where
  "Tree_Search D t qname =
     (if Root t = NilNode then Ret (t, None, False)
      else go_bind (node_search D qname id (Root t)) (\<lambda>(n, res). Ret (t\<lparr>Root := n\<rparr>, res)))"

definition insert_fix :: "tnode \<Rightarrow> tnode outcome" where
  "insert_fix n =
     go_bind (if color (n_Right n) = red \<and> color (n_Left n) = black then rotateLeft n else Ret n) lean_split"

fun node_insert :: "dns_lib \<Rightarrow> RR \<Rightarrow> tnode \<Rightarrow> (tnode \<times> int) outcome" where
  "node_insert D rr NilNode = Ret (Node (Some (newElem rr)) NilNode NilNode red, 1)"
| "node_insert D rr (Node None l r c) = Ret (Node (Some (newElem rr)) l r c, 1)"
| "node_insert D rr (Node (Some e0) l r c) =
     go_bind (Less D (Some e0) (rr_Name rr)) (\<lambda>(k, e).
     go_bind
       (if k = 0 then Ret (Node (Some (Elem_Insert e rr)) l r c, 0)
        else if k < 0 then go_bind (node_insert D rr l) (\<lambda>(l', d). Ret (Node (Some e) l' r c, d))
        else go_bind (node_insert D rr r) (\<lambda>(r', d). Ret (Node (Some e) l r' c, d)))
     (\<lambda>(n, d). go_bind (insert_fix n) (\<lambda>n. Ret (n, d))))"

definition Tree_Insert :: "dns_lib \<Rightarrow> Tree \<Rightarrow> RR \<Rightarrow> Tree outcome" where
  "Tree_Insert D t rr =
     go_bind (node_insert D rr (Root t)) (\<lambda>(n, d).
     go_bind (set_Color n black) (\<lambda>n. Ret (t\<lparr>Root := n, Count := Count t + d\<rparr>)))"

text \<open>What \<open>DeleteMin\<close>, \<open>DeleteMax\<close> and \<open>deleteNode\<close> do with the new root.\<close>

definition new_root :: "Tree \<Rightarrow> tnode \<times> int \<Rightarrow> Tree" where
  "new_root t nd =
     (case fst nd of
        NilNode \<Rightarrow> t\<lparr>Root := NilNode, Count := Count t + snd nd\<rparr>
      | Node e l r c \<Rightarrow> t\<lparr>Root := Node e l r black, Count := Count t + snd nd\<rparr>)"

lemma nodes_rotateLeft: "rotateLeft n = Ret m \<Longrightarrow> nodes m = nodes n"
  by (cases n rule: rotateLeft.cases) auto

lemma nodes_rotateRight: "rotateRight n = Ret m \<Longrightarrow> nodes m = nodes n"
  by (cases n rule: rotateRight.cases) auto

lemma nodes_flipColors: "flipColors n = Ret m \<Longrightarrow> nodes m = nodes n"
  by (cases n rule: flipColors.cases) auto

lemma nodes_set_Right: "set_Right n r = Ret m \<Longrightarrow> nodes r = nodes (n_Right n) \<Longrightarrow> nodes m = nodes n"
  by (cases n) auto

lemma nodes_moveRedLeft: "moveRedLeft n = Ret m \<Longrightarrow> nodes m = nodes n"
  by (auto simp: moveRedLeft_def go_bind_Ret split: if_splits
      dest!: nodes_rotateLeft nodes_rotateRight nodes_flipColors dest: nodes_set_Right)

lemma nodes_moveRedRight: "moveRedRight n = Ret m \<Longrightarrow> nodes m = nodes n"
  by (auto simp: moveRedRight_def go_bind_Ret split: if_splits dest!: nodes_rotateRight nodes_flipColors)

lemma nodes_child: "n \<noteq> NilNode \<Longrightarrow> nodes (n_Left n) < nodes n" "n \<noteq> NilNode \<Longrightarrow> nodes (n_Right n) < nodes n"
  by (cases n; simp)+

lemma nodes_pos: "0 < nodes n \<longleftrightarrow> n \<noteq> NilNode"
  by (cases n) auto

text \<open>The node put back by a recursive call is repaired on the way up.\<close>

definition fixed :: "int \<Rightarrow> tnode \<Rightarrow> (tnode \<times> int) outcome" where
  "fixed d n = go_bind (fixUp n) (\<lambda>root. Ret (root, d))"

function deleteMin :: "tnode \<Rightarrow> (tnode \<times> int) outcome" where
  "deleteMin n =
     (if n = NilNode then Panic ''nil pointer dereference''
      else if n_Left n = NilNode then Ret (NilNode, - 1)
      else go_bind (if color (n_Left n) = black \<and> color (n_Left (n_Left n)) = black then moveRedLeft n else Ret n) (\<lambda>n.
           go_bind (deleteMin (n_Left n)) (\<lambda>(l, d). go_bind (set_Left n l) (fixed d))))"
  by pat_completeness auto
termination
proof (relation "measure nodes")
  fix n m
  assume n: "n \<noteq> NilNode"
    and "(if color (n_Left n) = black \<and> color (n_Left (n_Left n)) = black then moveRedLeft n else Ret n) = Ret m"
  then have "nodes m = nodes n" by (auto split: if_splits dest: nodes_moveRedLeft)
  with n show "(n_Left m, n) \<in> measure nodes"
    using nodes_child(1) [of m] nodes_pos [of n] nodes_pos [of m] by auto
qed simp

declare deleteMin.simps [simp del]

definition Tree_DeleteMin :: "Tree \<Rightarrow> Tree outcome" where
  "Tree_DeleteMin t =
     (if Root t = NilNode then Ret t else go_bind (deleteMin (Root t)) (\<lambda>nd. Ret (new_root t nd)))"

function deleteMax :: "tnode \<Rightarrow> (tnode \<times> int) outcome" where
  "deleteMax n =
     (if n = NilNode then Panic ''nil pointer dereference''
      else go_bind (if n_Left n \<noteq> NilNode \<and> color (n_Left n) = red then rotateRight n else Ret n) (\<lambda>n.
           if n_Right n = NilNode then Ret (NilNode, - 1)
           else go_bind (if color (n_Right n) = black \<and> color (n_Left (n_Right n)) = black then moveRedRight n else Ret n) (\<lambda>n.
                go_bind (deleteMax (n_Right n)) (\<lambda>(r, d). go_bind (set_Right n r) (fixed d)))))"
  by pat_completeness auto
termination
proof (relation "measure nodes")
  fix n m k
  assume n: "n \<noteq> NilNode"
    and m: "(if n_Left n \<noteq> NilNode \<and> color (n_Left n) = red then rotateRight n else Ret n) = Ret m"
    and k: "(if color (n_Right m) = black \<and> color (n_Left (n_Right m)) = black then moveRedRight m else Ret m) = Ret k"
  from m have "nodes m = nodes n" by (auto split: if_splits dest: nodes_rotateRight)
  moreover from k have "nodes k = nodes m" by (auto split: if_splits dest: nodes_moveRedRight)
  ultimately show "(n_Right k, n) \<in> measure nodes"
    using n nodes_child(2) [of k] nodes_pos [of n] nodes_pos [of k] by auto
qed simp

declare deleteMax.simps [simp del]

definition Tree_DeleteMax :: "Tree \<Rightarrow> Tree outcome" where
  "Tree_DeleteMax t =
     (if Root t = NilNode then Ret t else go_bind (deleteMax (Root t)) (\<lambda>nd. Ret (new_root t nd)))"

fun node_min :: "tnode \<Rightarrow> tnode outcome" where
  "node_min NilNode = Panic ''nil pointer dereference''"
| "node_min (Node e l r c) = (if l \<noteq> NilNode then node_min l else Ret (Node e l r c))"

fun node_max :: "tnode \<Rightarrow> tnode outcome" where
  "node_max NilNode = Panic ''nil pointer dereference''"
| "node_max (Node e l r c) = (if r \<noteq> NilNode then node_max r else Ret (Node e l r c))"

text \<open>A comparison with the element of a node, which keeps the name it found.\<close>

definition Less_node :: "dns_lib \<Rightarrow> tnode \<Rightarrow> string \<Rightarrow> (int \<times> tnode) outcome" where
  "Less_node D n qname =
     go_bind (Less D (n_Elem n) qname) (\<lambda>(k, e). go_bind (set_Elem n (Some e)) (\<lambda>n. Ret (k, n)))"

lemma nodes_Less_node: "Less_node D n q = Ret (k, m) \<Longrightarrow> nodes m = nodes n"
  by (cases n) (auto simp: Less_node_def go_bind_Ret)

lemma Less_node_not_nil: "Less_node D n q = Ret (k, m) \<Longrightarrow> m \<noteq> NilNode"
  by (cases n) (auto simp: Less_node_def go_bind_Ret)

function node_delete :: "dns_lib \<Rightarrow> RR \<Rightarrow> tnode \<Rightarrow> (tnode \<times> int) outcome" where
  "node_delete D rr n =
     go_bind (Less_node D n (rr_Name rr)) (\<lambda>(k, n).
     if k < 0 then
       if n_Left n \<noteq> NilNode then
         go_bind (if color (n_Left n) = black \<and> color (n_Left (n_Left n)) = black then moveRedLeft n else Ret n) (\<lambda>n.
         go_bind (node_delete D rr (n_Left n)) (\<lambda>(l, d). go_bind (set_Left n l) (fixed d)))
       else fixed 0 n
     else
       go_bind (if color (n_Left n) = red then rotateRight n else Ret n) (\<lambda>n.
       if n_Right n = NilNode then
         go_bind (Less_node D n (rr_Name rr)) (\<lambda>(k, n). if k = 0 then Ret (NilNode, - 1) else fixed 0 n)
       else
         go_bind (if color (n_Right n) = black \<and> color (n_Left (n_Right n)) = black then moveRedRight n else Ret n) (\<lambda>n.
         go_bind (Less_node D n (rr_Name rr)) (\<lambda>(k, n).
         if k = 0 then
           go_bind (node_min (n_Right n)) (\<lambda>m. go_bind (set_Elem n (n_Elem m)) (\<lambda>n.
           go_bind (deleteMin (n_Right n)) (\<lambda>(r, d). go_bind (set_Right n r) (fixed d))))
         else go_bind (node_delete D rr (n_Right n)) (\<lambda>(r, d). go_bind (set_Right n r) (fixed d))))))"
  by pat_completeness auto
termination
proof (relation "measure (\<lambda>(D, rr, n). nodes n)", goal_cases)
  case 1
  then show ?case by simp
next
  case (2 D rr n x k n1 n2)
  then have n1: "n1 \<noteq> NilNode" "nodes n1 = nodes n" by (cases n1, auto dest: nodes_Less_node)
  from 2 have "nodes n2 = nodes n1" by (auto split: if_splits dest: nodes_moveRedLeft)
  then show ?case using n1 nodes_child(1) [of n2] nodes_pos [of n1] nodes_pos [of n2] by auto
next
  case (3 D rr n x k n1 n2 n3 y k4 n4)
  then have "nodes n4 = nodes n"
    by (auto split: if_splits dest!: nodes_Less_node nodes_rotateRight nodes_moveRedRight)
  with 3 show ?case
    using nodes_child(2) [of n4] by (auto dest: Less_node_not_nil)
qed

declare node_delete.simps [simp del]

definition deleteNode :: "dns_lib \<Rightarrow> Tree \<Rightarrow> RR \<Rightarrow> Tree outcome" where
  "deleteNode D t rr =
     (if Root t = NilNode then Ret t
      else go_bind (node_delete D rr (Root t)) (\<lambda>nd. Ret (new_root t nd)))"

text \<open>
  \<open>el\<close> points into the tree: \<open>el.Delete(rr)\<close> changes the element there, which the
  search does on the way.
\<close>

definition Tree_Delete :: "dns_lib \<Rightarrow> Tree \<Rightarrow> RR \<Rightarrow> Tree outcome" where
  "Tree_Delete D t rr =
     (if Root t = NilNode then Ret t
      else go_bind (node_search D (rr_Name rr) (\<lambda>el. Elem_Delete el rr) (Root t)) (\<lambda>(n, el, _).
           case el of
             None \<Rightarrow> Ret (t\<lparr>Root := n\<rparr>)
           | Some e \<Rightarrow>
               if Elem_Empty (Elem_Delete e rr) then deleteNode D (t\<lparr>Root := n\<rparr>) rr
               else Ret (t\<lparr>Root := n\<rparr>)))"

definition Tree_Min :: "Tree \<Rightarrow> Elem option outcome" where
  "Tree_Min t = (if Root t = NilNode then Ret None else go_bind (node_min (Root t)) (\<lambda>n. Ret (n_Elem n)))"

definition Tree_Max :: "Tree \<Rightarrow> Elem option outcome" where
  "Tree_Max t = (if Root t = NilNode then Ret None else go_bind (node_max (Root t)) (\<lambda>n. Ret (n_Elem n)))"

definition Tree_Len :: "Tree \<Rightarrow> int" where
  "Tree_Len t = Count t"

text \<open>\<open>floor\<close> and \<open>ceil\<close>: the element of the node found, \<open>None\<close> for a nil node.\<close>

fun node_floor :: "dns_lib \<Rightarrow> string \<Rightarrow> tnode \<Rightarrow> (tnode \<times> Elem option) outcome" where
  "node_floor D qname NilNode = Ret (NilNode, None)"
| "node_floor D qname (Node eo l r c) =
     go_bind (Less D eo qname) (\<lambda>(k, e).
     if k = 0 then Ret (Node (Some e) l r c, Some e)
     else if k \<le> 0 then go_bind (node_floor D qname l) (\<lambda>(l', res). Ret (Node (Some e) l' r c, res))
     else go_bind (node_floor D qname r) (\<lambda>(r', res).
          Ret (Node (Some e) l r' c, (case res of Some x \<Rightarrow> Some x | None \<Rightarrow> Some e))))"

fun node_ceil :: "dns_lib \<Rightarrow> string \<Rightarrow> tnode \<Rightarrow> (tnode \<times> Elem option) outcome" where
  "node_ceil D qname NilNode = Ret (NilNode, None)"
| "node_ceil D qname (Node eo l r c) =
     go_bind (Less D eo qname) (\<lambda>(k, e).
     if k = 0 then Ret (Node (Some e) l r c, Some e)
     else if k > 0 then go_bind (node_ceil D qname r) (\<lambda>(r', res). Ret (Node (Some e) l r' c, res))
     else go_bind (node_ceil D qname l) (\<lambda>(l', res).
          Ret (Node (Some e) l' r c, (case res of Some x \<Rightarrow> Some x | None \<Rightarrow> Some e))))"

definition Tree_Prev :: "dns_lib \<Rightarrow> Tree \<Rightarrow> string \<Rightarrow> (Tree \<times> Elem option \<times> bool) outcome" where
  "Tree_Prev D t qname =
     (if Root t = NilNode then Ret (t, None, False)
      else go_bind (node_floor D qname (Root t)) (\<lambda>(n, res). Ret (t\<lparr>Root := n\<rparr>, res, res \<noteq> None)))"

definition Tree_Next :: "dns_lib \<Rightarrow> Tree \<Rightarrow> string \<Rightarrow> (Tree \<times> Elem option \<times> bool) outcome" where
  "Tree_Next D t qname =
     (if Root t = NilNode then Ret (t, None, False)
      else go_bind (node_ceil D qname (Root t)) (\<lambda>(n, res). Ret (t\<lparr>Root := n\<rparr>, res, res \<noteq> None)))"

section \<open>Walks over the tree\<close>

fun node_all :: "tnode \<Rightarrow> Elem option list \<Rightarrow> Elem option list" where
  "node_all NilNode found = found"
| "node_all (Node e l r c) found = node_all r (node_all l found @ [e])"

definition Tree_All :: "Tree \<Rightarrow> Elem option list" where
  "Tree_All t = node_all (Root t) []"

text \<open>The function passed to a walk is a closure: it updates a state of its own.\<close>

fun node_walk :: "(Elem \<Rightarrow> rrmap \<Rightarrow> 's \<Rightarrow> go_err \<times> 's) \<Rightarrow> tnode \<Rightarrow> 's \<Rightarrow> (go_err \<times> 's) outcome" where
  "node_walk fn NilNode s = Ret (None, s)"
| "node_walk fn (Node eo l r c) s =
     go_bind (node_walk fn l s) (\<lambda>(err, s).
     if err \<noteq> None then Ret (err, s)
     else case eo of
            None \<Rightarrow> Panic ''nil pointer dereference''
          | Some e \<Rightarrow> (case fn e (e_m e) s of
              (Some err, s) \<Rightarrow> Ret (Some err, s)
            | (None, s) \<Rightarrow> node_walk fn r s))"

definition Tree_Walk :: "(Elem \<Rightarrow> rrmap \<Rightarrow> 's \<Rightarrow> go_err \<times> 's) \<Rightarrow> Tree \<Rightarrow> 's \<Rightarrow> (go_err \<times> 's) outcome" where
  "Tree_Walk fn t s = node_walk fn (Root t) s"

text \<open>Glue records: the addresses of the name servers below their own name.\<close>

definition glue_of :: "dns_lib \<Rightarrow> Tree \<Rightarrow> string \<Rightarrow> bool \<Rightarrow> u16 \<Rightarrow> (Tree \<times> RR list) outcome" where
  "glue_of D t name dnssec ty =
     go_bind (Tree_Search D t name) (\<lambda>(t, elem, found).
     Ret (t, if found then
               (case elem of
                  None \<Rightarrow> []
                | Some e \<Rightarrow> Elem_Type e ty @
                    (if dnssec then SubTypeSignature (Elem_Type e TypeRRSIG) ty else []))
             else []))"

definition searchGlue :: "dns_lib \<Rightarrow> Tree \<Rightarrow> string \<Rightarrow> bool \<Rightarrow> (Tree \<times> RR list) outcome" where
  "searchGlue D t name dnssec =
     go_bind (glue_of D t name dnssec TypeA) (\<lambda>(t, as).
     go_bind (glue_of D t name dnssec TypeAAAA) (\<lambda>(t, aaaas). Ret (t, as @ aaaas)))"

fun Tree_Glue :: "dns_lib \<Rightarrow> Tree \<Rightarrow> RR list \<Rightarrow> bool \<Rightarrow> (Tree \<times> RR list) outcome" where
  "Tree_Glue D t [] dnssec = Ret (t, [])"
| "Tree_Glue D t (rr # nsrrs) dnssec =
     go_bind
       (case rr_data rr of
          NS ns \<Rightarrow> if dIsSubDomain D (rr_Name rr) ns then searchGlue D t ns dnssec else Ret (t, [])
        | _ \<Rightarrow> Ret (t, [])) (\<lambda>(t, glue).
     go_bind (Tree_Glue D t nsrrs dnssec) (\<lambda>(t, more). Ret (t, glue @ more)))"

end
