(* ===== verification/ZoneTreeShape.thy ===== *)
theory ZoneTreeShape
  imports ZoneTree
begin

text \<open>
  The shape of the tree of a zone. \<open>llrb\<close> is the invariant of a left-leaning red-black tree: a
  red node has black children, red nodes are left children, and every path has the same number of
  black nodes. On such a tree no operation follows a nil pointer, and every operation keeps the
  invariant and the order of the elements. The theory \<open>ZoneTreeSpec\<close> adds the contents.
\<close>

section \<open>Shape\<close>

fun elems :: "tnode \<Rightarrow> Elem option list" where
  "elems NilNode = []"
| "elems (Node e l r c) = elems l @ e # elems r"

fun bheight :: "tnode \<Rightarrow> nat" where
  "bheight NilNode = 0"
| "bheight (Node e l r c) = bheight l + (if c = black then 1 else 0)"

fun invh :: "tnode \<Rightarrow> bool" where
  "invh NilNode \<longleftrightarrow> True"
| "invh (Node e l r c) \<longleftrightarrow> bheight l = bheight r \<and> invh l \<and> invh r"

fun invc :: "tnode \<Rightarrow> bool" where
  "invc NilNode \<longleftrightarrow> True"
| "invc (Node e l r c) \<longleftrightarrow> color r = black \<and> (c = red \<longrightarrow> color l = black) \<and> invc l \<and> invc r"

text \<open>As \<open>invc\<close>, but a red node may have a red left child.\<close>

fun invc_weak :: "tnode \<Rightarrow> bool" where
  "invc_weak NilNode \<longleftrightarrow> True"
| "invc_weak (Node e l r c) \<longleftrightarrow> color r = black \<and> invc l \<and> invc r"

definition llrb :: "tnode \<Rightarrow> bool" where
  "llrb n \<longleftrightarrow> invc n \<and> invh n \<and> color n = black"

fun height :: "tnode \<Rightarrow> nat" where
  "height NilNode = 0"
| "height (Node e l r c) = Suc (max (height l) (height r))"

lemma invc_invc_weak: "invc n \<Longrightarrow> invc_weak n"
  by (cases n) auto

lemma red_Node: "\<not> color n \<Longrightarrow> \<exists>e l r. n = Node e l r red"
  by (cases n) auto

lemma bheight_0: "bheight n = 0 \<Longrightarrow> color n = black \<Longrightarrow> n = NilNode"
  by (cases n) auto

lemma length_elems: "length (elems n) = nodes n"
  by (induction n) auto

lemma node_all_elems: "node_all n found = found @ elems n"
  by (induction n arbitrary: found) auto

subsection \<open>Insertion\<close>

lemma insert_fix_left:
  assumes "invc_weak l" "c = red \<longrightarrow> invc l" "invh l" "invc r" "invh r" "color r = black" "bheight l = bheight r"
  shows "\<exists>m. insert_fix (Node e l r c) = Ret m \<and> invh m \<and> bheight m = bheight (Node e l r c)
    \<and> invc_weak m \<and> (c = black \<longrightarrow> invc m) \<and> elems m = elems l @ e # elems r"
proof (cases "color l = red \<and> color (n_Left l) = red")
  case True
  then obtain le ll lr where l: "l = Node le ll lr red" using red_Node by blast
  with True obtain lle lll llr where "ll = Node lle lll llr red" using red_Node by fastforce
  with l assms show ?thesis by (simp add: insert_fix_def lean_split_def)
next
  case False
  with assms show ?thesis by (cases l) (auto simp: insert_fix_def lean_split_def)
qed

lemma insert_fix_right:
  assumes "invc l" "c = red \<longrightarrow> color l = black" "invh l" "invc r" "invh r" "bheight l = bheight r"
  shows "\<exists>m. insert_fix (Node e l r c) = Ret m \<and> invh m \<and> bheight m = bheight (Node e l r c)
    \<and> invc_weak m \<and> (c = black \<longrightarrow> invc m) \<and> elems m = elems l @ e # elems r"
proof (cases "color r")
  case True
  with assms insert_fix_left [of l c r e] show ?thesis by (simp add: invc_invc_weak)
next
  case False
  then obtain re rl rr where r: "r = Node re rl rr red" using red_Node by blast
  show ?thesis
  proof (cases "color l")
    case True
    with r assms show ?thesis by (simp add: insert_fix_def lean_split_def)
  next
    case False
    then obtain le ll lr where "l = Node le ll lr red" using red_Node by blast
    with r assms show ?thesis by (simp add: insert_fix_def lean_split_def)
  qed
qed

subsection \<open>Deletion\<close>

text \<open>
  A node from which an element may be deleted is red or has a red child; it comes back with the
  same black height, and black if it was black. \<open>lred\<close> is the case of a left descent,
  \<open>xred\<close> that of a right descent, where the red child may be the right one.
\<close>

definition lred :: "tnode \<Rightarrow> bool" where
  "lred n \<longleftrightarrow> n \<noteq> NilNode \<and> invc n \<and> invh n \<and> (color n = red \<or> color (n_Left n) = red)"

fun xred :: "tnode \<Rightarrow> bool" where
  "xred NilNode \<longleftrightarrow> False"
| "xred (Node e l r c) \<longleftrightarrow> invc l \<and> invc r \<and> invh l \<and> invh r \<and> bheight l = bheight r
     \<and> (if c = red then color l = black \<and> color r = black else color l \<noteq> color r)"

definition same_shape :: "tnode \<Rightarrow> tnode \<Rightarrow> bool" where
  "same_shape n m \<longleftrightarrow> invc m \<and> invh m \<and> bheight m = bheight n \<and> (color n = black \<longrightarrow> color m = black)"

lemma lred_xred: "lred n \<Longrightarrow> xred n"
  by (cases n) (auto simp: lred_def)

text \<open>One step down to the left, and the repair on the way back.\<close>

definition left_down :: "tnode \<Rightarrow> tnode outcome" where
  "left_down n = (if color (n_Left n) = black \<and> color (n_Left (n_Left n)) = black then moveRedLeft n else Ret n)"

lemma left_step:
  assumes "lred (Node e l r c)" and "l \<noteq> NilNode"
  shows "\<exists>e1 l1 r1 c1. left_down (Node e l r c) = Ret (Node e1 l1 r1 c1) \<and> lred l1
    \<and> elems l1 @ e1 # elems r1 = elems l @ e # elems r \<and> (e1 = e \<or> e \<in> set (elems l1))
    \<and> (\<forall>l'. same_shape l1 l' \<longrightarrow> (\<exists>m. fixUp (Node e1 l' r1 c1) = Ret m
        \<and> same_shape (Node e l r c) m \<and> elems m = elems l' @ e1 # elems r1))"
proof (cases "color l = black \<and> color (n_Left l) = black")
  case False
  then have d: "left_down (Node e l r c) = Ret (Node e l r c)" by (auto simp: left_down_def)
  from assms False have l: "lred l" by (cases l) (auto simp: lred_def)
  have "\<exists>m. fixUp (Node e l' r c) = Ret m \<and> same_shape (Node e l r c) m \<and> elems m = elems l' @ e # elems r"
    if "same_shape l l'" for l'
    using assms that by (cases l') (auto simp: lred_def same_shape_def fixUp_def lean_split_def)
  with d l show ?thesis by fastforce
next
  case True
  with assms have c: "c = red" "color r = black" "bheight r = bheight l" by (auto simp: lred_def)
  from assms(2) obtain le ll lr lc where l: "l = Node le ll lr lc" by (cases l) auto
  with True c have "bheight r \<noteq> 0" by auto
  then obtain re rl rr rc where r: "r = Node re rl rr rc" by (cases r) auto
  show ?thesis
  proof (cases "color rl")
    case black: True
    let ?l1 = "Node le ll lr red" and ?r1 = "Node re rl rr red"
    have d: "left_down (Node e l r c) = Ret (Node e ?l1 ?r1 black)"
      using True c l r black by (auto simp: left_down_def moveRedLeft_def)
    have "lred ?l1" using assms True l by (auto simp: lred_def)
    moreover have "\<exists>m. fixUp (Node e l' ?r1 True) = Ret m \<and> same_shape (Node e l r c) m
        \<and> elems m = elems l' @ e # elems ?r1" if "same_shape ?l1 l'" for l'
      using assms True c l r black that
      by (cases l') (auto simp: lred_def same_shape_def fixUp_def lean_split_def)
    ultimately show ?thesis using d l r by (intro exI [of _ e] exI [of _ ?l1] exI [of _ ?r1] exI [of _ black]) auto
  next
    case False
    then obtain rle rll rlr where rl: "rl = Node rle rll rlr red" using red_Node by blast
    let ?l1 = "Node e (Node le ll lr red) rll black" and ?r1 = "Node re rlr rr black"
    have d: "left_down (Node e l r c) = Ret (Node rle ?l1 ?r1 red)"
      using True c l r rl by (auto simp: left_down_def moveRedLeft_def)
    have "lred ?l1" using assms True c l r rl by (auto simp: lred_def)
    moreover have "\<exists>m. fixUp (Node rle l' ?r1 red) = Ret m \<and> same_shape (Node e l r c) m
        \<and> elems m = elems l' @ rle # elems ?r1" if "same_shape ?l1 l'" for l'
      using assms True c l r rl that
      by (cases l') (auto simp: lred_def same_shape_def fixUp_def lean_split_def)
    ultimately show ?thesis using d l r rl
      by (intro exI [of _ rle] exI [of _ ?l1] exI [of _ ?r1] exI [of _ red]) auto
  qed
qed

text \<open>
  One step down to the right: the node is turned first when its left child is red.
\<close>

definition turned :: "tnode \<Rightarrow> tnode outcome" where
  "turned n = (if color (n_Left n) = red then rotateRight n else Ret n)"

definition right_down :: "tnode \<Rightarrow> tnode outcome" where
  "right_down n = (if color (n_Right n) = black \<and> color (n_Left (n_Right n)) = black then moveRedRight n else Ret n)"

lemma right_step_turned:
  assumes "xred (Node e l r c)" and "\<not> color l"
  shows "\<exists>le ll lr. l = Node le ll lr red \<and> c = black
    \<and> turned (Node e l r c) = Ret (Node le ll (Node e lr r red) black)
    \<and> right_down (Node le ll (Node e lr r red) black) = Ret (Node le ll (Node e lr r red) black)
    \<and> lred (Node e lr r red)
    \<and> (\<forall>x r'. same_shape (Node e lr r red) r' \<longrightarrow> (\<exists>m. fixUp (Node x ll r' black) = Ret m
        \<and> same_shape (Node e l r c) m \<and> elems m = elems ll @ x # elems r'))"
proof -
  from assms(2) obtain le ll lr where l: "l = Node le ll lr red" using red_Node by blast
  from assms l have c: "c = black" by (auto split: if_splits)
  have "\<exists>m. fixUp (Node x ll r' black) = Ret m \<and> same_shape (Node e l r c) m \<and> elems m = elems ll @ x # elems r'"
    if "same_shape (Node e lr r red) r'" for x r'
    using assms l c that by (cases r') (auto simp: same_shape_def fixUp_def lean_split_def)
  moreover have "lred (Node e lr r red)" using assms l c by (auto simp: lred_def)
  ultimately show ?thesis using l c by (simp add: turned_def right_down_def)
qed

lemma right_step_same:
  assumes "xred (Node e l r c)" and "color l = black" and "\<not> (color r = black \<and> color (n_Left r) = black)"
  shows "right_down (Node e l r c) = Ret (Node e l r c)" and "lred r"
    and "same_shape r r' \<Longrightarrow> \<exists>m. fixUp (Node x l r' c) = Ret m
      \<and> same_shape (Node e l r c) m \<and> elems m = elems l @ x # elems r'"
proof -
  show "right_down (Node e l r c) = Ret (Node e l r c)" using assms(3) by (auto simp: right_down_def)
  show "lred r" using assms by (cases r) (auto simp: lred_def)
  show "\<exists>m. fixUp (Node x l r' c) = Ret m \<and> same_shape (Node e l r c) m \<and> elems m = elems l @ x # elems r'"
    if "same_shape r r'"
    using assms that by (cases r') (auto simp: same_shape_def fixUp_def lean_split_def split: if_splits)
qed

lemma right_step_move:
  assumes "xred (Node e l r c)" and "color l = black" and "color r = black" and "color (n_Left r) = black"
    and "r \<noteq> NilNode"
  shows "\<exists>e3 l3 r3 c3. right_down (Node e l r c) = Ret (Node e3 l3 r3 c3) \<and> xred r3
    \<and> elems l3 @ e3 # elems r3 = elems l @ e # elems r
    \<and> (e3 = e \<and> lred r3 \<or> n_Elem r3 = e \<and> e3 \<in> set (elems l))
    \<and> (\<forall>x r'. same_shape r3 r' \<longrightarrow> (\<exists>m. fixUp (Node x l3 r' c3) = Ret m
        \<and> same_shape (Node e l r c) m \<and> elems m = elems l3 @ x # elems r'))"
proof -
  from assms have c: "c = red" "bheight r = bheight l" by (auto split: if_splits)
  from assms(5) obtain re rl rr rc where r: "r = Node re rl rr rc" by (cases r) auto
  with assms c have "bheight l \<noteq> 0" by auto
  then obtain le ll lr lc where l: "l = Node le ll lr lc" by (cases l) auto
  let ?r1 = "Node re rl rr red"
  show ?thesis
  proof (cases "color ll")
    case True
    let ?l1 = "Node le ll lr red"
    have d: "right_down (Node e l r c) = Ret (Node e ?l1 ?r1 black)"
      using assms c l r True by (auto simp: right_down_def moveRedRight_def)
    have "lred ?r1" using assms r by (auto simp: lred_def)
    moreover from this have "xred ?r1" by (rule lred_xred)
    moreover have "\<exists>m. fixUp (Node x ?l1 r' black) = Ret m \<and> same_shape (Node e l r c) m
        \<and> elems m = elems ?l1 @ x # elems r'" if "same_shape ?r1 r'" for x r'
      using assms c l r True that
      by (cases r') (auto simp: same_shape_def fixUp_def lean_split_def)
    ultimately show ?thesis using d l r
      by (intro exI [of _ e] exI [of _ ?l1] exI [of _ ?r1] exI [of _ black]) auto
  next
    case False
    then obtain lle lll llr where ll: "ll = Node lle lll llr red" using red_Node by blast
    let ?l1 = "Node lle lll llr black" and ?r2 = "Node e lr ?r1 black"
    have d: "right_down (Node e l r c) = Ret (Node le ?l1 ?r2 red)"
      using assms c l r ll by (auto simp: right_down_def moveRedRight_def)
    have "xred ?r2" using assms c l r ll by auto
    moreover have "\<exists>m. fixUp (Node x ?l1 r' red) = Ret m \<and> same_shape (Node e l r c) m
        \<and> elems m = elems ?l1 @ x # elems r'" if "same_shape ?r2 r'" for x r'
      using assms c l r ll that
      by (cases r') (auto simp: same_shape_def fixUp_def lean_split_def)
    ultimately show ?thesis using d l r ll
      by (intro exI [of _ le] exI [of _ ?l1] exI [of _ ?r2] exI [of _ red]) auto
  qed
qed

text \<open>
  All in one: the node after the step, whose right subtree holds what is greater than the
  element, and which is repaired whatever comes back from there.
\<close>

definition right_ok :: "tnode \<Rightarrow> tnode \<Rightarrow> bool" where
  "right_ok n n3 \<longleftrightarrow> (\<exists>e3 l3 r3 c3. n3 = Node e3 l3 r3 c3 \<and> xred r3 \<and> elems n3 = elems n
     \<and> (e3 = n_Elem n \<and> lred r3
        \<or> e3 \<in> set (elems (n_Left n)) \<and> (lred r3 \<or> n_Elem r3 = n_Elem n) \<and> n_Elem n \<in> set (elems r3))
     \<and> (\<forall>x r'. same_shape r3 r' \<longrightarrow> (\<exists>m. fixUp (Node x l3 r' c3) = Ret m
         \<and> same_shape n m \<and> elems m = elems l3 @ x # elems r')))"

lemma right_step:
  assumes "xred (Node e l r c)"
  shows "\<exists>n2. turned (Node e l r c) = Ret n2 \<and>
    (if n_Right n2 = NilNode then l = NilNode \<and> r = NilNode \<and> c = red \<and> n2 = Node e l r c
     else \<exists>n3. right_down n2 = Ret n3 \<and> right_ok (Node e l r c) n3)"
proof (cases "color l")
  case False
  then obtain le ll lr where l: "l = Node le ll lr red" "c = black"
    "turned (Node e l r c) = Ret (Node le ll (Node e lr r red) black)"
    "right_down (Node le ll (Node e lr r red) black) = Ret (Node le ll (Node e lr r red) black)"
    "lred (Node e lr r red)"
    "\<forall>x r'. same_shape (Node e lr r red) r' \<longrightarrow> (\<exists>m. fixUp (Node x ll r' black) = Ret m
        \<and> same_shape (Node e l r c) m \<and> elems m = elems ll @ x # elems r')"
    using right_step_turned [OF assms] by auto
  have "right_ok (Node e l r c) (Node le ll (Node e lr r red) black)"
    unfolding right_ok_def
    by (intro exI conjI, rule refl, rule lred_xred [OF l(5)]) (use l in simp_all)
  with l show ?thesis by simp
next
  case True
  then have t: "turned (Node e l r c) = Ret (Node e l r c)" by (simp add: turned_def)
  consider "r = NilNode" | "r \<noteq> NilNode" "color r = black" "color (n_Left r) = black"
    | "r \<noteq> NilNode" "\<not> (color r = black \<and> color (n_Left r) = black)" by blast
  then show ?thesis
  proof cases
    case 1
    with assms True have "c = red" "l = NilNode" using bheight_0 [of l] by (auto split: if_splits)
    with t 1 show ?thesis by simp
  next
    case 2
    obtain e3 l3 r3 c3 where r3: "right_down (Node e l r c) = Ret (Node e3 l3 r3 c3)" "xred r3"
      "elems l3 @ e3 # elems r3 = elems l @ e # elems r"
      "e3 = e \<and> lred r3 \<or> n_Elem r3 = e \<and> e3 \<in> set (elems l)"
      "\<forall>x r'. same_shape r3 r' \<longrightarrow> (\<exists>m. fixUp (Node x l3 r' c3) = Ret m
        \<and> same_shape (Node e l r c) m \<and> elems m = elems l3 @ x # elems r')"
      using right_step_move [OF assms _ 2(2,3,1)] True by auto
    have "n_Elem r3 \<in> set (elems r3)" using r3(2) by (cases r3) auto
    with r3(4) have "e3 = e \<and> lred r3 \<or> e3 \<in> set (elems l) \<and> (lred r3 \<or> n_Elem r3 = e) \<and> e \<in> set (elems r3)"
      by auto
    then have "right_ok (Node e l r c) (Node e3 l3 r3 c3)"
      using r3(2,3,5) by (simp add: right_ok_def)
    with t 2 r3(1) show ?thesis by simp
  next
    case 3
    note same = right_step_same [OF assms _ 3(2)]
    have "right_ok (Node e l r c) (Node e l r c)"
      unfolding right_ok_def
      by (intro exI conjI, rule refl, rule lred_xred, rule same(2)) (use True same in simp_all)
    with t 3 same(1) True show ?thesis by simp
  qed
qed

subsection \<open>The smallest and the greatest element\<close>

lemma deleteMin_unfold:
  "deleteMin (Node e l r c) =
     (if l = NilNode then Ret (NilNode, - 1)
      else go_bind (left_down (Node e l r c)) (\<lambda>n.
           go_bind (deleteMin (n_Left n)) (\<lambda>(l, d). go_bind (set_Left n l) (fixed d))))"
  by (subst deleteMin.simps) (simp add: left_down_def)

lemma deleteMax_unfold:
  "deleteMax (Node e l r c) =
     go_bind (turned (Node e l r c)) (\<lambda>n.
     if n_Right n = NilNode then Ret (NilNode, - 1)
     else go_bind (right_down n) (\<lambda>n.
          go_bind (deleteMax (n_Right n)) (\<lambda>(r, d). go_bind (set_Right n r) (fixed d))))"
proof -
  have "(n_Left (Node e l r c) \<noteq> NilNode \<and> color (n_Left (Node e l r c)) = red) = (color l = red)" by (cases l) auto
  then show ?thesis by (subst deleteMax.simps) (simp add: turned_def right_down_def cong: if_cong)
qed

lemma same_shape_nil: "same_shape (Node e NilNode NilNode red) NilNode"
  by (simp add: same_shape_def)

lemma lred_leaf: "lred (Node e NilNode r c) \<Longrightarrow> r = NilNode \<and> c = red"
  using bheight_0 [of r] by (auto simp: lred_def)

lemma deleteMin_ok:
  "lred n \<Longrightarrow> \<exists>m. deleteMin n = Ret (m, - 1) \<and> same_shape n m \<and> elems m = tl (elems n)"
proof (induction n rule: measure_induct_rule [of nodes])
  case (less n)
  then obtain e l r c where n: "n = Node e l r c" by (cases n) (auto simp: lred_def)
  show ?case
  proof (cases "l = NilNode")
    case True
    with less.prems n have "r = NilNode \<and> c = red" using lred_leaf by blast
    with n True show ?thesis by (simp add: deleteMin_unfold same_shape_nil)
  next
    case False
    then obtain e1 l1 r1 c1 where s: "left_down n = Ret (Node e1 l1 r1 c1)" "lred l1"
      "elems l1 @ e1 # elems r1 = elems n"
      "\<forall>l'. same_shape l1 l' \<longrightarrow> (\<exists>m. fixUp (Node e1 l' r1 c1) = Ret m
        \<and> same_shape n m \<and> elems m = elems l' @ e1 # elems r1)"
      using left_step [of e l r c] less.prems unfolding n by auto
    have "length (elems l1) < length (elems n)" unfolding s(3) [symmetric] by simp
    then obtain l' where l': "deleteMin l1 = Ret (l', - 1)" "same_shape l1 l'" "elems l' = tl (elems l1)"
      using less.IH [OF _ s(2)] by (auto simp: length_elems)
    from s(4) l'(2) obtain m where "fixUp (Node e1 l' r1 c1) = Ret m" "same_shape n m"
      "elems m = elems l' @ e1 # elems r1" by auto
    moreover have "elems l1 \<noteq> []" using s(2) by (cases l1) (auto simp: lred_def)
    then have "elems l' @ e1 # elems r1 = tl (elems n)" unfolding s(3) [symmetric] l'(3) by simp
    ultimately show ?thesis using s(1) l'(1) False n by (simp add: deleteMin_unfold fixed_def)
  qed
qed

lemma node_min_ok: "n \<noteq> NilNode \<Longrightarrow> \<exists>m. node_min n = Ret m \<and> n_Elem m = hd (elems n)"
proof (induction n)
  case (Node e l r c)
  then show ?case by (cases l) (auto simp: hd_append)
qed simp

lemma node_max_ok: "n \<noteq> NilNode \<Longrightarrow> \<exists>m. node_max n = Ret m \<and> n_Elem m = last (elems n)"
proof (induction n)
  case (Node e l r c)
  then show ?case by (cases r) auto
qed simp

lemma deleteMax_ok:
  "xred n \<Longrightarrow> \<exists>m. deleteMax n = Ret (m, - 1) \<and> same_shape n m \<and> elems m = butlast (elems n)"
proof (induction n rule: measure_induct_rule [of nodes])
  case (less n)
  then obtain e l r c where n: "n = Node e l r c" by (cases n) auto
  obtain n2 where n2: "turned n = Ret n2"
    "if n_Right n2 = NilNode then l = NilNode \<and> r = NilNode \<and> c = red \<and> n2 = Node e l r c
     else \<exists>n3. right_down n2 = Ret n3 \<and> right_ok n n3"
    using right_step [of e l r c] less.prems unfolding n by auto
  show ?case
  proof (cases "n_Right n2 = NilNode")
    case True
    with n2 n show ?thesis by (simp add: deleteMax_unfold same_shape_nil)
  next
    case False
    with n2 obtain e3 l3 r3 c3 where s: "right_down n2 = Ret (Node e3 l3 r3 c3)" "xred r3"
      "elems l3 @ e3 # elems r3 = elems n"
      "\<forall>x r'. same_shape r3 r' \<longrightarrow> (\<exists>m. fixUp (Node x l3 r' c3) = Ret m
         \<and> same_shape n m \<and> elems m = elems l3 @ x # elems r')"
      unfolding right_ok_def by auto
    have "length (elems r3) < length (elems n)" unfolding s(3) [symmetric] by simp
    then obtain r' where r': "deleteMax r3 = Ret (r', - 1)" "same_shape r3 r'" "elems r' = butlast (elems r3)"
      using less.IH [OF _ s(2)] by (auto simp: length_elems)
    from s(4) r'(2) obtain m where m: "fixUp (Node e3 l3 r' c3) = Ret m" "same_shape n m"
      "elems m = elems l3 @ e3 # elems r'" by auto
    have "elems r3 \<noteq> []" using s(2) by (cases r3) auto
    then have "elems m = butlast (elems n)" using m(3) r'(3) unfolding s(3) [symmetric] by (simp add: butlast_append)
    with m(1,2) n n2(1) s(1) r'(1) False show ?thesis by (auto simp: deleteMax_unfold fixed_def)
  qed
qed

subsection \<open>The colour of the root\<close>

text \<open>
  The root is black, and may have two black children, so it is neither red nor has a red child.
  But no operation looks at the colour of the node it is called on: a node of the other colour
  gives the same tree with a root of the other colour.
\<close>

fun recolour :: "tnode \<Rightarrow> tnode" where
  "recolour NilNode = NilNode"
| "recolour (Node e l r c) = Node e l r (\<not> c)"

lemma recolour_recolour [simp]: "recolour (recolour n) = n"
  by (cases n) auto

lemma recolour_simps [simp]:
  "n_Left (recolour n) = n_Left n" "n_Right (recolour n) = n_Right n" "n_Elem (recolour n) = n_Elem n"
  "recolour n = NilNode \<longleftrightarrow> n = NilNode" "elems (recolour n) = elems n" "nodes (recolour n) = nodes n"
  by (cases n; simp)+

lemma recolour_ops:
  "rotateLeft (recolour n) = map_outcome recolour (rotateLeft n)"
  "rotateRight (recolour n) = map_outcome recolour (rotateRight n)"
  "flipColors (recolour n) = map_outcome recolour (flipColors n)"
  "set_Left (recolour n) x = map_outcome recolour (set_Left n x)"
  "set_Right (recolour n) x = map_outcome recolour (set_Right n x)"
  "set_Elem (recolour n) eo = map_outcome recolour (set_Elem n eo)"
proof -
  show "rotateLeft (recolour n) = map_outcome recolour (rotateLeft n)" by (cases n rule: rotateLeft.cases) simp_all
  show "rotateRight (recolour n) = map_outcome recolour (rotateRight n)" by (cases n rule: rotateRight.cases) simp_all
  show "flipColors (recolour n) = map_outcome recolour (flipColors n)" by (cases n rule: flipColors.cases) simp_all
qed (cases n; simp)+

lemma go_bind_map [simp]: "go_bind (map_outcome f x) g = go_bind x (g \<circ> f)"
  by (cases x) simp_all

lemma map_go_bind [simp]: "map_outcome f (go_bind x h) = go_bind x (\<lambda>y. map_outcome f (h y))"
  by (cases x) simp_all

lemma recolour_lean_split: "lean_split (recolour n) = map_outcome recolour (lean_split n)"
  by (simp add: lean_split_def recolour_ops if_distrib [of "map_outcome recolour"] comp_def
      if_distrib [of "\<lambda>x. go_bind x _"] cong: if_cong)

lemma recolour_fixUp: "fixUp (recolour n) = map_outcome recolour (fixUp n)"
  by (simp add: fixUp_def recolour_ops recolour_lean_split comp_def)

lemma recolour_fixed: "fixed d (recolour n) = map_outcome (apfst recolour) (fixed d n)"
  by (simp add: fixed_def recolour_fixUp comp_def)

lemma recolour_left_down: "left_down (recolour n) = map_outcome recolour (left_down n)"
  by (simp add: left_down_def moveRedLeft_def recolour_ops comp_def
      if_distrib [of "map_outcome recolour"] cong: if_cong)

lemma recolour_right_down: "right_down (recolour n) = map_outcome recolour (right_down n)"
  by (simp add: right_down_def moveRedRight_def recolour_ops comp_def
      if_distrib [of "map_outcome recolour"] cong: if_cong)

lemma recolour_turned: "turned (recolour n) = map_outcome recolour (turned n)"
  by (simp add: turned_def recolour_ops)

lemmas recolour_all = recolour_ops recolour_fixUp recolour_fixed recolour_left_down recolour_right_down
  recolour_turned

lemma recolour_deleteMin: "deleteMin (recolour n) = map_outcome (apfst recolour) (deleteMin n)"
proof (cases n)
  case (Node e l r c)
  have "go_bind (left_down (recolour n)) (\<lambda>n. go_bind (deleteMin (n_Left n)) (\<lambda>(l, d). go_bind (set_Left n l) (fixed d)))
    = map_outcome (apfst recolour) (go_bind (left_down n) (\<lambda>n.
        go_bind (deleteMin (n_Left n)) (\<lambda>(l, d). go_bind (set_Left n l) (fixed d))))"
    by (simp add: recolour_all comp_def case_prod_unfold)
  with Node show ?thesis by (simp add: deleteMin_unfold)
qed (simp add: deleteMin.simps)

lemma recolour_deleteMax: "deleteMax (recolour n) = map_outcome (apfst recolour) (deleteMax n)"
proof (cases n)
  case (Node e l r c)
  let ?rest = "\<lambda>n. if n_Right n = NilNode then Ret (NilNode, - 1) else go_bind (right_down n) (\<lambda>n.
    go_bind (deleteMax (n_Right n)) (\<lambda>(r, d). go_bind (set_Right n r) (fixed d)))"
  have "go_bind (turned (recolour n)) ?rest = map_outcome (apfst recolour) (go_bind (turned n) ?rest)"
    by (simp add: recolour_all comp_def case_prod_unfold if_distrib [of "map_outcome (apfst recolour)"] cong: if_cong)
  with Node show ?thesis by (simp add: deleteMax_unfold)
qed (simp add: deleteMax.simps)

text \<open>So a deletion that works below the root works at the root.\<close>

lemma new_root_recolour: "new_root t (apfst recolour nd) = new_root t nd"
  by (cases nd) (auto simp: new_root_def split: tnode.splits)

lemma llrb_cases:
  assumes "llrb n" and "n \<noteq> NilNode"
  shows "lred n \<or> lred (recolour n)"
  using assms by (cases n) (auto simp: llrb_def lred_def)

lemma llrb_new_root: "invc m \<Longrightarrow> invh m \<Longrightarrow> llrb (Root (new_root t (m, d)))"
  by (cases m) (auto simp: llrb_def new_root_def)

lemma elems_new_root [simp]: "elems (Root (new_root t nd)) = elems (fst nd)"
  "Count (new_root t nd) = Count t + snd nd"
  by (simp_all add: new_root_def split: tnode.splits)

definition at_root :: "(tnode \<Rightarrow> (tnode \<times> int) outcome) \<Rightarrow> bool" where
  "at_root f \<longleftrightarrow> (\<forall>n. f (recolour n) = map_outcome (apfst recolour) (f n))"

lemma root_deletion:
  assumes "at_root f" and "llrb n" and "n \<noteq> NilNode"
    and f: "\<And>k. lred k \<Longrightarrow> elems k = elems n \<Longrightarrow> \<exists>m. f k = Ret (m, d) \<and> same_shape k m \<and> P (elems m)"
  shows "\<exists>m. f n = Ret m \<and> snd m = d \<and> llrb (Root (new_root t m)) \<and> P (elems (fst m))"
proof -
  from llrb_cases [OF assms(2,3)] show ?thesis
  proof
    assume "lred n"
    from f [OF this] show ?thesis by (auto simp: same_shape_def llrb_new_root)
  next
    assume "lred (recolour n)"
    from f [OF this] obtain m where "f (recolour n) = Ret (m, d)" "same_shape (recolour n) m" "P (elems m)" by auto
    moreover from this(1) have "f n = Ret (recolour m, d)"
      using assms(1) unfolding at_root_def by (metis recolour_recolour outcome.map(1) apfst_conv)
    ultimately show ?thesis
      using new_root_recolour [of t "(m, d)"] by (simp add: same_shape_def llrb_new_root)
  qed
qed

end
