(* ===== verification/ZoneTreeSpec.thy ===== *)
theory ZoneTreeSpec
  imports ZoneTreeShape
begin

text \<open>
  The contents of the tree of a zone. In order the elements are sorted by the key of their name, and
  every operation does to this list what an abstract zone prescribes: a finite map from keys to
  the resource records of the name (\<open>zone_of\<close>). The lemmas are proved in the locale
  \<open>zone_names\<close> for any \<open>dns.PrevLabel\<close> with the documented behaviour.
\<close>

section \<open>Sorted association lists\<close>

definition zput :: "'k::linorder \<Rightarrow> ('v option \<Rightarrow> 'v) \<Rightarrow> ('k \<times> 'v) list \<Rightarrow> ('k \<times> 'v) list" where
  "zput k f ps = filter (\<lambda>p. fst p < k) ps @ (k, f (map_of ps k)) # filter (\<lambda>p. k < fst p) ps"

definition zdel :: "'k::linorder \<Rightarrow> ('k \<times> 'v) list \<Rightarrow> ('k \<times> 'v) list" where
  "zdel k ps = filter (\<lambda>p. fst p \<noteq> k) ps"

abbreviation sorted_keys :: "('k::linorder \<times> 'v) list \<Rightarrow> bool" where
  "sorted_keys ps \<equiv> sorted_wrt (<) (map fst ps)"

lemma sorted_keys_append:
  "sorted_keys (xs @ (a, v) # ys) \<longleftrightarrow> sorted_keys xs \<and> sorted_keys ys
    \<and> (\<forall>p \<in> set xs. fst p < a) \<and> (\<forall>p \<in> set ys. a < fst p)"
  by (fastforce simp: sorted_wrt_append)

lemma sorted_keysD:
  assumes "sorted_keys (xs @ (a, v) # ys)"
  shows "sorted_keys xs" "sorted_keys ys" "\<forall>p \<in> set xs. fst p < a" "\<forall>p \<in> set ys. a < fst p"
  using assms unfolding sorted_keys_append by auto

lemma map_of_None_if: "\<forall>p \<in> set ps. fst p \<noteq> k \<Longrightarrow> map_of ps k = None"
  by (auto simp: map_of_eq_None_iff)

lemma zput_append:
  assumes "sorted_keys (xs @ (a, v) # ys)"
  shows "k < a \<Longrightarrow> zput k f (xs @ (a, v) # ys) = zput k f xs @ (a, v) # ys"
    and "k = a \<Longrightarrow> zput k f (xs @ (a, v) # ys) = xs @ (a, f (Some v)) # ys"
    and "a < k \<Longrightarrow> zput k f (xs @ (a, v) # ys) = xs @ (a, v) # zput k f ys"
proof -
  note s = assms [unfolded sorted_keys_append]
  show "zput k f (xs @ (a, v) # ys) = zput k f xs @ (a, v) # ys" if "k < a"
  proof -
    from s that have "filter (\<lambda>p. fst p < k) ys = []" "filter (\<lambda>p. k < fst p) ys = ys" "map_of ys k = None"
      by (auto simp: filter_empty_conv filter_id_conv intro!: map_of_None_if)
    with that show ?thesis by (simp add: zput_def map_add_def split: option.splits)
  qed
  show "zput k f (xs @ (a, v) # ys) = xs @ (a, f (Some v)) # ys" if "k = a"
  proof -
    from s that have "filter (\<lambda>p. fst p < k) ys = []" "filter (\<lambda>p. k < fst p) ys = ys"
      "filter (\<lambda>p. fst p < k) xs = xs" "filter (\<lambda>p. k < fst p) xs = []" "map_of xs k = None"
      by (auto simp: filter_empty_conv filter_id_conv intro!: map_of_None_if)
    with that show ?thesis by (simp add: zput_def map_add_def)
  qed
  show "zput k f (xs @ (a, v) # ys) = xs @ (a, v) # zput k f ys" if "a < k"
  proof -
    from s that have "filter (\<lambda>p. fst p < k) xs = xs" "filter (\<lambda>p. k < fst p) xs = []" "map_of xs k = None"
      by (auto simp: filter_empty_conv filter_id_conv intro!: map_of_None_if)
    with that show ?thesis by (auto simp: zput_def map_add_def split: option.splits)
  qed
qed

lemma zdel_id: "\<forall>p \<in> set ps. fst p \<noteq> k \<Longrightarrow> zdel k ps = ps"
  by (simp add: zdel_def filter_id_conv)

lemma zdel_append: "zdel k (xs @ (a, v) # ys) = zdel k xs @ (if a = k then [] else [(a, v)]) @ zdel k ys"
  by (simp add: zdel_def)

lemma sorted_zdel: "sorted_keys ps \<Longrightarrow> sorted_keys (zdel k ps)"
  by (simp add: zdel_def sorted_wrt_map sorted_wrt_filter)

lemma sorted_zput: "sorted_keys ps \<Longrightarrow> sorted_keys (zput k f ps)"
  by (auto simp: zput_def sorted_wrt_append sorted_wrt_map sorted_wrt_filter intro: less_trans)

lemma map_of_zdel: "map_of (zdel k ps) = (map_of ps)(k := None)"
  by (rule ext) (induction ps, auto simp: zdel_def)

lemma map_of_zput: "map_of (zput k f ps) = (map_of ps)(k \<mapsto> f (map_of ps k))"
proof -
  have "map_of (filter (\<lambda>p. P (fst p)) ps) x = (if P x then map_of ps x else None)" for P x
    by (induction ps) auto
  note this [of "\<lambda>a. a < k"] this [of "\<lambda>a. k < a"]
  then show ?thesis
    by (intro ext) (auto simp: zput_def map_add_def split: option.splits dest: not_less_iff_gr_or_eq [THEN iffD1])
qed

section \<open>Elements and their keys\<close>

definition dkey :: "dns_lib \<Rightarrow> string \<Rightarrow> string list" where
  "dkey D q = name_key (dPrevLabel D) q"

definition elem_nm :: "dns_lib \<Rightarrow> Elem \<Rightarrow> string" where
  "elem_nm D e =
     (if e_name e \<noteq> '''' then e_name e
      else case range_keys (dRange D (e_m e)) (e_m e) of [] \<Rightarrow> '''' | ty # _ \<Rightarrow> rr_Name (hd (gm_get [] (e_m e) ty)))"

definition ekey :: "dns_lib \<Rightarrow> Elem \<Rightarrow> string list" where
  "ekey D e = dkey D (elem_nm D e)"

definition cached :: "dns_lib \<Rightarrow> Elem \<Rightarrow> Elem" where
  "cached D e = e\<lparr>e_name := elem_nm D e\<rparr>"

text \<open>All records of an element are records of its name.\<close>

definition elem_ok :: "dns_lib \<Rightarrow> Elem \<Rightarrow> bool" where
  "elem_ok D e \<longleftrightarrow> (\<forall>t rrs. fmlookup (e_m e) t = Some rrs \<longrightarrow>
     rrs \<noteq> [] \<and> (\<forall>rr \<in> set rrs. rr_Rrtype rr = t \<and> dkey D (rr_Name rr) = ekey D e))"

fun entry :: "dns_lib \<Rightarrow> Elem option \<Rightarrow> string list \<times> rrmap" where
  "entry D None = ([], fmempty)"
| "entry D (Some e) = (ekey D e, e_m e)"

definition contents :: "dns_lib \<Rightarrow> tnode \<Rightarrow> (string list \<times> rrmap) list" where
  "contents D n = map (entry D) (elems n)"

definition elems_ok :: "dns_lib \<Rightarrow> tnode \<Rightarrow> bool" where
  "elems_ok D n \<longleftrightarrow> (\<forall>eo \<in> set (elems n). \<exists>e. eo = Some e \<and> elem_ok D e)"

fun add_rr :: "RR \<Rightarrow> rrmap option \<Rightarrow> rrmap" where
  "add_rr rr None = fmupd (rr_Rrtype rr) [rr] fmempty"
| "add_rr rr (Some m) = fmupd (rr_Rrtype rr) (gm_get [] m (rr_Rrtype rr) @ [rr]) m"

lemma contents_simps [simp]:
  "contents D NilNode = []"
  "contents D (Node e l r c) = contents D l @ entry D e # contents D r"
  by (simp_all add: contents_def)

lemma elems_ok_simps [simp]:
  "elems_ok D NilNode"
  "elems_ok D (Node eo l r c) \<longleftrightarrow> elems_ok D l \<and> elems_ok D r \<and> (\<exists>e. eo = Some e \<and> elem_ok D e)"
  by (auto simp: elems_ok_def)

lemma range_first:
  "range_keys p m = [] \<Longrightarrow> fmlookup m t = None"
  "range_keys p m = t # ts \<Longrightarrow> \<exists>rrs. fmlookup m t = Some rrs"
proof -
  assume "range_keys p m = []"
  then have "\<not> gm_has m t" using set_range_keys [of t p m] by simp
  then show "fmlookup m t = None" by (simp add: gm_has_def)
next
  assume "range_keys p m = t # ts"
  then have "gm_has m t" using set_range_keys [of t p m] by simp
  then show "\<exists>rrs. fmlookup m t = Some rrs" by (simp add: gm_has_iff)
qed

lemma Elem_Name_ok:
  assumes "elem_ok D e"
  shows "Elem_Name D e = Ret (elem_nm D e, cached D e)"
proof (cases "e_name e = ''''")
  case True
  show ?thesis
  proof (cases "range_keys (dRange D (e_m e)) (e_m e)")
    case Nil
    with True show ?thesis by (simp add: Elem_Name_def elem_nm_def cached_def)
  next
    case (Cons t ts)
    with range_first(2) obtain rrs where "fmlookup (e_m e) t = Some rrs" by blast
    moreover from this assms have "rrs \<noteq> []" by (auto simp: elem_ok_def)
    ultimately show ?thesis
      using True Cons by (auto simp: Elem_Name_def elem_nm_def cached_def gm_get_def neq_Nil_conv)
  qed
next
  case False
  then show ?thesis by (simp add: Elem_Name_def elem_nm_def cached_def)
qed

lemma cached_simps [simp]:
  "e_m (cached D e) = e_m e" "elem_nm D (cached D e) = elem_nm D e" "ekey D (cached D e) = ekey D e"
  "entry D (Some (cached D e)) = entry D (Some e)" "elem_ok D (cached D e) \<longleftrightarrow> elem_ok D e"
proof -
  show [simp]: "e_m (cached D e) = e_m e" by (simp add: cached_def)
  show [simp]: "elem_nm D (cached D e) = elem_nm D e"
  proof (cases "elem_nm D e = ''''")
    case True
    then have "e_name e = ''''" by (auto simp: elem_nm_def split: if_splits)
    with True have "cached D e = e" by (simp add: cached_def)
    then show ?thesis by simp
  next
    case False
    then show ?thesis by (simp add: elem_nm_def [of D "cached D e"]) (simp add: cached_def)
  qed
  show [simp]: "ekey D (cached D e) = ekey D e" by (simp add: ekey_def)
  show "entry D (Some (cached D e)) = entry D (Some e)" "elem_ok D (cached D e) \<longleftrightarrow> elem_ok D e"
    by (simp_all add: elem_ok_def)
qed

lemma ekey_record:
  assumes "elem_ok D e" and "fmlookup (e_m e) t = Some rrs" and "rr \<in> set rrs"
  shows "dkey D (rr_Name rr) = ekey D e"
  using assms by (auto simp: elem_ok_def)

text \<open>Once the name is known the key stays when records of the name come and go.\<close>

lemma ekey_stays:
  assumes "e_name e' = elem_nm D e"
    and "\<And>t rrs. fmlookup (e_m e') t = Some rrs \<Longrightarrow> rrs \<noteq> [] \<and> (\<forall>rr \<in> set rrs. dkey D (rr_Name rr) = ekey D e)"
  shows "ekey D e' = ekey D e"
proof (cases "elem_nm D e = ''''")
  case False
  with assms(1) have "elem_nm D e' = elem_nm D e" by (simp add: elem_nm_def [of D e'])
  then show ?thesis by (simp add: ekey_def)
next
  case True
  with assms(1) have nm: "e_name e' = ''''" by simp
  show ?thesis
  proof (cases "range_keys (dRange D (e_m e')) (e_m e')")
    case Nil
    with nm True show ?thesis by (simp add: ekey_def elem_nm_def [of D e'])
  next
    case (Cons t ts)
    then obtain rrs where rrs: "fmlookup (e_m e') t = Some rrs" using range_first(2) by blast
    with nm Cons have "elem_nm D e' = rr_Name (hd rrs)" by (simp add: elem_nm_def [of D e'] gm_get_def)
    moreover from assms(2) [OF rrs] have "dkey D (rr_Name (hd rrs)) = ekey D e" by simp
    ultimately show ?thesis by (simp add: ekey_def)
  qed
qed

lemma newElem_ok: "elem_ok D (newElem rr)" "entry D (Some (newElem rr)) = (dkey D (rr_Name rr), add_rr rr None)"
proof -
  have "range_keys p (fmupd (rr_Rrtype rr) [rr] fmempty) = [rr_Rrtype rr]" for p
  proof -
    let ?ks = "range_keys p (fmupd (rr_Rrtype rr) [rr] fmempty)"
    have "length ?ks = 1" and mem: "x \<in> set ?ks \<longleftrightarrow> x = rr_Rrtype rr" for x by simp_all
    then obtain y where y: "?ks = [y]" by (auto simp: length_Suc_conv simp del: length_range_keys)
    with mem [of y] show ?thesis by simp
  qed
  then have "elem_nm D (newElem rr) = rr_Name rr" by (simp add: elem_nm_def newElem_def)
  then show "elem_ok D (newElem rr)" "entry D (Some (newElem rr)) = (dkey D (rr_Name rr), add_rr rr None)"
    by (auto simp: elem_ok_def ekey_def newElem_def split: if_splits)
qed

lemma Elem_Insert_ok:
  assumes "elem_ok D e" and "dkey D (rr_Name rr) = ekey D e"
  shows "elem_ok D (Elem_Insert (cached D e) rr)"
    and "entry D (Some (Elem_Insert (cached D e) rr)) = (ekey D e, add_rr rr (Some (e_m e)))"
proof -
  let ?e' = "Elem_Insert (cached D e) rr"
  have m: "e_m ?e' = add_rr rr (Some (e_m e))"
    by (simp add: Elem_Insert_def Let_def gm_get_def split: option.splits)
  have nm: "e_name ?e' = elem_nm D e"
    by (simp add: Elem_Insert_def Let_def cached_def split: option.splits)
  have recs: "rrs \<noteq> [] \<and> (\<forall>x \<in> set rrs. rr_Rrtype x = t \<and> dkey D (rr_Name x) = ekey D e)"
    if "fmlookup (e_m ?e') t = Some rrs" for t rrs
    using assms that unfolding m by (auto simp: elem_ok_def gm_get_def split: if_splits option.splits)
  then have k: "ekey D ?e' = ekey D e" by (intro ekey_stays [OF nm]) blast
  show "elem_ok D ?e'" unfolding elem_ok_def k using recs by blast
  show "entry D (Some ?e') = (ekey D e, add_rr rr (Some (e_m e)))" by (simp only: entry.simps k m)
qed

lemma Elem_Delete_ok:
  assumes "elem_ok D e"
  shows "elem_ok D (Elem_Delete (cached D e) rr)"
    and "entry D (Some (Elem_Delete (cached D e) rr)) = (ekey D e, fmdrop (rr_Rrtype rr) (e_m e))"
proof -
  let ?e' = "Elem_Delete (cached D e) rr"
  have m: "e_m ?e' = fmdrop (rr_Rrtype rr) (e_m e)" and nm: "e_name ?e' = elem_nm D e"
    by (simp_all add: Elem_Delete_def cached_def)
  have recs: "rrs \<noteq> [] \<and> (\<forall>x \<in> set rrs. rr_Rrtype x = t \<and> dkey D (rr_Name x) = ekey D e)"
    if "fmlookup (e_m ?e') t = Some rrs" for t rrs
    using assms that unfolding m by (auto simp: elem_ok_def split: if_splits)
  then have k: "ekey D ?e' = ekey D e" by (intro ekey_stays [OF nm]) blast
  show "elem_ok D ?e'" unfolding elem_ok_def k using recs by blast
  show "entry D (Some ?e') = (ekey D e, fmdrop (rr_Rrtype rr) (e_m e))" by (simp only: entry.simps k m)
qed

section \<open>Search, insertion and deletion\<close>

lemma contents_elems: "elems m = elems l @ e # elems r \<Longrightarrow> contents D m = contents D l @ entry D e # contents D r"
  by (simp add: contents_def)

lemma elems_ok_elems: "elems m = elems l @ e # elems r \<Longrightarrow> elems_ok D m \<longleftrightarrow> elems_ok D (Node e l r c)"
  by (auto simp: elems_ok_def)

lemma zget_append:
  assumes "sorted_keys (xs @ (a, v) # ys)"
  shows "k < a \<Longrightarrow> map_of (xs @ (a, v) # ys) k = map_of xs k"
    and "k = a \<Longrightarrow> map_of (xs @ (a, v) # ys) k = Some v"
    and "a < k \<Longrightarrow> map_of (xs @ (a, v) # ys) k = map_of ys k"
proof -
  note s = assms [unfolded sorted_keys_append]
  from s have "k \<le> a \<Longrightarrow> map_of ys k = None" and "a \<le> k \<Longrightarrow> map_of xs k = None"
    by (auto intro!: map_of_None_if)
  then show "k < a \<Longrightarrow> map_of (xs @ (a, v) # ys) k = map_of xs k"
    and "k = a \<Longrightarrow> map_of (xs @ (a, v) # ys) k = Some v"
    and "a < k \<Longrightarrow> map_of (xs @ (a, v) # ys) k = map_of ys k"
    by (auto simp: map_add_def split: option.splits)
qed

lemma search_shape:
  "node_search D q f n = Ret (m, res) \<Longrightarrow> invc m = invc n \<and> invh m = invh n \<and> color m = color n
    \<and> bheight m = bheight n \<and> nodes m = nodes n \<and> (m = NilNode \<longleftrightarrow> n = NilNode)"
proof (induction n arbitrary: m res)
  case (Node eo l r c)
  then show ?case by (fastforce simp: go_bind_Ret simp del: Less.simps split: if_splits)
qed simp

locale zone_names =
  fixes D :: dns_lib
  assumes laws: "PrevLabel_laws (dPrevLabel D)"
begin

lemma Less_ok: "elem_ok D e \<Longrightarrow> Less D (Some e) q = Ret (order_sign (dkey D q) (ekey D e), cached D e)"
  by (simp add: Elem_Name_ok less_name_key [OF laws] dkey_def ekey_def)

lemma Less_node_ok:
  "elem_ok D e \<Longrightarrow> Less_node D (Node (Some e) l r c) q
    = Ret (order_sign (dkey D q) (ekey D e), Node (Some (cached D e)) l r c)"
  by (simp add: Less_node_def Less_ok del: Less.simps)

text \<open>The search finds the element of the key, and changes only that element.\<close>

definition found_ok :: "string list \<Rightarrow> (rrmap \<Rightarrow> rrmap) \<Rightarrow> tnode \<Rightarrow> tnode \<times> Elem option \<times> bool \<Rightarrow> bool" where
  "found_ok k g n = (\<lambda>(m, res, found). elems_ok D m \<and> (found \<longleftrightarrow> res \<noteq> None)
     \<and> (case res of
          None \<Rightarrow> map_of (contents D n) k = None \<and> contents D m = contents D n
        | Some e \<Rightarrow> map_of (contents D n) k = Some (e_m e) \<and> elem_ok D e \<and> ekey D e = k
            \<and> contents D m = zput k (g \<circ> the) (contents D n)))"

lemma search_ok:
  assumes "elems_ok D n" and "sorted_keys (contents D n)"
    and f: "\<And>e. elem_ok D e \<Longrightarrow> ekey D e = dkey D q \<Longrightarrow>
      elem_ok D (f (cached D e)) \<and> entry D (Some (f (cached D e))) = (dkey D q, g (e_m e))"
  shows "\<exists>res. node_search D q f n = Ret res \<and> found_ok (dkey D q) g n res"
  using assms(1,2)
proof (induction n)
  case NilNode
  then show ?case by (simp add: found_ok_def)
next
  case (Node eo l r c)
  then obtain e where e: "eo = Some e" "elem_ok D e" by auto
  have s: "sorted_keys (contents D l @ (ekey D e, e_m e) # contents D r)" using Node.prems e by simp
  note less = Less_ok [OF e(2), of q]
  consider "dkey D q < ekey D e" | "dkey D q = ekey D e" | "ekey D e < dkey D q" by fastforce
  then show ?case
  proof cases
    case 1
    from s Node.prems have "sorted_keys (contents D l)" "elems_ok D l" by (simp_all only: sorted_keys_append elems_ok_simps)
    from Node.IH(1) [OF this(2,1)] obtain l' res found where
      l': "node_search D q f l = Ret (l', res, found)" "found_ok (dkey D q) g l (l', res, found)" by auto
    from 1 have "dkey D q \<noteq> ekey D e" by simp
    with 1 e l'(1) have "node_search D q f (Node eo l r c) = Ret (Node (Some (cached D e)) l' r c, res, found)"
      by (simp add: less del: Less.simps)
    moreover have "found_ok (dkey D q) g (Node eo l r c) (Node (Some (cached D e)) l' r c, res, found)"
      using l'(2) e Node.prems(1) 1 zget_append(1) [OF s 1] zput_append(1) [OF s 1]
      by (auto simp: found_ok_def split: option.splits)
    ultimately show ?thesis by blast
  next
    case 2
    with f [OF e(2)] e less zget_append(2) [OF s] zput_append(2) [OF s] Node.prems show ?thesis
      by (simp add: found_ok_def del: Less.simps)
  next
    case 3
    from s Node.prems have "sorted_keys (contents D r)" "elems_ok D r" by (simp_all only: sorted_keys_append elems_ok_simps)
    from Node.IH(2) [OF this(2,1)] obtain r' res found where
      r': "node_search D q f r = Ret (r', res, found)" "found_ok (dkey D q) g r (r', res, found)" by auto
    from 3 have "\<not> order_sign (dkey D q) (ekey D e) < 0" "order_sign (dkey D q) (ekey D e) \<noteq> 0" by auto
    with e r'(1) have "node_search D q f (Node eo l r c) = Ret (Node (Some (cached D e)) l r' c, res, found)"
      by (simp add: less del: Less.simps order_sign_iff)
    moreover have "found_ok (dkey D q) g (Node eo l r c) (Node (Some (cached D e)) l r' c, res, found)"
      using r'(2) e Node.prems(1) 3 zget_append(3) [OF s 3] zput_append(3) [OF s 3]
      by (auto simp: found_ok_def split: option.splits)
    ultimately show ?thesis by blast
  qed
qed

text \<open>Insertion.\<close>

definition insert_ok :: "RR \<Rightarrow> tnode \<Rightarrow> tnode \<times> int \<Rightarrow> bool" where
  "insert_ok rr n = (\<lambda>(m, d). m \<noteq> NilNode \<and> elems_ok D m
     \<and> contents D m = zput (dkey D (rr_Name rr)) (add_rr rr) (contents D n)
     \<and> d = (if map_of (contents D n) (dkey D (rr_Name rr)) = None then 1 else 0)
     \<and> invh m \<and> bheight m = bheight n \<and> invc_weak m \<and> (color n = black \<longrightarrow> invc m))"

lemma insert_ok_Node:
  assumes "\<exists>m. insert_fix (Node (Some e) l r c) = Ret m \<and> invh m \<and> bheight m = bheight (Node (Some e) l r c)
      \<and> invc_weak m \<and> (c = black \<longrightarrow> invc m) \<and> elems m = elems l @ Some e # elems r"
    and "bheight (Node (Some e) l r c) = bheight n" "color n = c" "elem_ok D e" "elems_ok D l" "elems_ok D r"
    and "contents D l @ entry D (Some e) # contents D r = zput (dkey D (rr_Name rr)) (add_rr rr) (contents D n)"
    and "d = (if map_of (contents D n) (dkey D (rr_Name rr)) = None then 1 else 0)"
  shows "\<exists>res. go_bind (insert_fix (Node (Some e) l r c)) (\<lambda>n. Ret (n, d)) = Ret res \<and> insert_ok rr n res"
proof -
  from assms(1) obtain m where m: "insert_fix (Node (Some e) l r c) = Ret m" "invh m"
    "bheight m = bheight (Node (Some e) l r c)" "invc_weak m" "c = black \<longrightarrow> invc m"
    "elems m = elems l @ Some e # elems r" by auto
  have "elems_ok D m" using assms elems_ok_elems [OF m(6), of D c] by simp
  moreover have "m \<noteq> NilNode" using m(6) by auto
  ultimately show ?thesis using assms(2-) m contents_elems [OF m(6), of D] by (simp add: insert_ok_def)
qed

lemma node_insert_ok:
  assumes "elems_ok D n" and "sorted_keys (contents D n)" and "invc n" and "invh n"
  shows "\<exists>res. node_insert D rr n = Ret res \<and> insert_ok rr n res"
  using assms
proof (induction n)
  case NilNode
  then show ?case using newElem_ok [of D rr] by (simp add: insert_ok_def zput_def)
next
  case (Node eo l r c)
  then obtain e where e: "eo = Some e" "elem_ok D e" by auto
  let ?k = "dkey D (rr_Name rr)"
  have s: "sorted_keys (contents D l @ (ekey D e, e_m e) # contents D r)" using Node.prems e by simp
  note less = Less_ok [OF e(2), of "rr_Name rr"]
  consider "?k < ekey D e" | "?k = ekey D e" | "ekey D e < ?k" by fastforce
  then show ?case
  proof cases
    case 1
    have "elems_ok D l" "sorted_keys (contents D l)" "invc l" "invh l"
      using sorted_keysD(1) [OF s] Node.prems by simp_all
    from Node.IH(1) [OF this] obtain l' d where l': "node_insert D rr l = Ret (l', d)" "insert_ok rr l (l', d)" by auto
    have "\<exists>res. go_bind (insert_fix (Node (Some (cached D e)) l' r c)) (\<lambda>n. Ret (n, d)) = Ret res
        \<and> insert_ok rr (Node eo l r c) res"
      using e l'(2) Node.prems 1 zget_append(1) [OF s 1] zput_append(1) [OF s 1]
      by (intro insert_ok_Node insert_fix_left) (auto simp: insert_ok_def)
    moreover from 1 have "?k \<noteq> ekey D e" by simp
    ultimately show ?thesis using 1 e l'(1) by (simp add: less del: Less.simps)
  next
    case 2
    have "\<exists>res. go_bind (insert_fix (Node (Some (Elem_Insert (cached D e) rr)) l r c)) (\<lambda>n. Ret (n, 0)) = Ret res
        \<and> insert_ok rr (Node eo l r c) res"
      using e Elem_Insert_ok [OF e(2) 2] Node.prems zget_append(2) [OF s 2] zput_append(2) [OF s 2] 2
      by (intro insert_ok_Node insert_fix_right) auto
    with 2 e show ?thesis by (simp add: less del: Less.simps)
  next
    case 3
    have "elems_ok D r" "sorted_keys (contents D r)" "invc r" "invh r"
      using sorted_keysD(2) [OF s] Node.prems by simp_all
    from Node.IH(2) [OF this] obtain r' d where r': "node_insert D rr r = Ret (r', d)" "insert_ok rr r (r', d)" by auto
    have "\<exists>res. go_bind (insert_fix (Node (Some (cached D e)) l r' c)) (\<lambda>n. Ret (n, d)) = Ret res
        \<and> insert_ok rr (Node eo l r c) res"
      using e r'(2) Node.prems 3 zget_append(3) [OF s 3] zput_append(3) [OF s 3]
      by (intro insert_ok_Node insert_fix_right) (auto simp: insert_ok_def)
    moreover from 3 have "?k \<noteq> ekey D e" "\<not> ?k < ekey D e" by simp_all
    ultimately show ?thesis using e r'(1) by (simp add: less del: Less.simps)
  qed
qed

text \<open>Deletion of a node.\<close>

definition delete_pre :: "string list \<Rightarrow> tnode \<Rightarrow> bool" where
  "delete_pre k n \<longleftrightarrow> elems_ok D n \<and> sorted_keys (contents D n)
     \<and> (lred n \<or> xred n \<and> fst (entry D (n_Elem n)) \<le> k)"

definition delete_ok :: "string list \<Rightarrow> tnode \<Rightarrow> tnode \<times> int \<Rightarrow> bool" where
  "delete_ok k n = (\<lambda>(m, d). same_shape n m \<and> elems_ok D m \<and> contents D m = zdel k (contents D n)
     \<and> d = (if map_of (contents D n) k = None then 0 else - 1))"

lemma delete_unfold_left:
  assumes "elem_ok D e" and "dkey D (rr_Name rr) < ekey D e"
  shows "node_delete D rr (Node (Some e) l r c) =
    (if l = NilNode then fixed 0 (Node (Some (cached D e)) l r c)
     else go_bind (left_down (Node (Some (cached D e)) l r c)) (\<lambda>n.
          go_bind (node_delete D rr (n_Left n)) (\<lambda>(l, d). go_bind (set_Left n l) (fixed d))))"
  using assms by (subst node_delete.simps) (simp add: Less_node_ok left_down_def)

lemma delete_unfold_right:
  assumes "elem_ok D e" and "\<not> dkey D (rr_Name rr) < ekey D e"
  shows "node_delete D rr (Node (Some e) l r c) =
    go_bind (turned (Node (Some (cached D e)) l r c)) (\<lambda>n.
    if n_Right n = NilNode then
      go_bind (Less_node D n (rr_Name rr)) (\<lambda>(k, n). if k = 0 then Ret (NilNode, - 1) else fixed 0 n)
    else go_bind (right_down n) (\<lambda>n.
         go_bind (Less_node D n (rr_Name rr)) (\<lambda>(k, n).
         if k = 0 then
           go_bind (node_min (n_Right n)) (\<lambda>m. go_bind (set_Elem n (n_Elem m)) (\<lambda>n.
           go_bind (deleteMin (n_Right n)) (\<lambda>(r, d). go_bind (set_Right n r) (fixed d))))
         else go_bind (node_delete D rr (n_Right n)) (\<lambda>(r, d). go_bind (set_Right n r) (fixed d)))))"
  using assms by (subst node_delete.simps) (simp add: Less_node_ok turned_def right_down_def cong: if_cong)

lemma fixed_leaf: "fixed 0 (Node eo NilNode NilNode red) = Ret (Node eo NilNode NilNode red, 0)"
  by (simp add: fixed_def fixUp_def lean_split_def)

lemma lred_elem: "lred (Node x l r c) \<longleftrightarrow> lred (Node y l r c)"
  by (simp add: lred_def)

lemma same_shape_elem: "same_shape (Node x l r c) m \<longleftrightarrow> same_shape (Node y l r c) m"
  by (simp add: same_shape_def)

lemma delete_left_ok:
  assumes IH: "\<And>m. nodes m < nodes (Node (Some e) l r c) \<Longrightarrow> delete_pre (dkey D (rr_Name rr)) m \<Longrightarrow>
      \<exists>res. node_delete D rr m = Ret res \<and> delete_ok (dkey D (rr_Name rr)) m res"
    and pre: "delete_pre (dkey D (rr_Name rr)) (Node (Some e) l r c)" and k: "dkey D (rr_Name rr) < ekey D e"
  shows "\<exists>res. node_delete D rr (Node (Some e) l r c) = Ret res
    \<and> delete_ok (dkey D (rr_Name rr)) (Node (Some e) l r c) res"
proof -
  let ?k = "dkey D (rr_Name rr)" and ?n = "Node (Some (cached D e)) l r c"
  from pre k have e: "elem_ok D e" "lred ?n" "elems_ok D l" "elems_ok D r"
    and s: "sorted_keys (contents D l @ (ekey D e, e_m e) # contents D r)"
    by (auto simp: delete_pre_def lred_def)
  show ?thesis
  proof (cases "l = NilNode")
    case True
    with e(2) have "r = NilNode \<and> c = red" using lred_leaf by blast
    with True e k show ?thesis
      by (auto simp: delete_unfold_left fixed_leaf delete_ok_def same_shape_def zdel_def)
  next
    case False
    from left_step [OF e(2) False] obtain e1 l1 r1 c1 where st: "left_down ?n = Ret (Node e1 l1 r1 c1)" "lred l1"
      "elems l1 @ e1 # elems r1 = elems ?n" "e1 = Some (cached D e) \<or> Some (cached D e) \<in> set (elems l1)"
      "\<forall>l'. same_shape l1 l' \<longrightarrow> (\<exists>m. fixUp (Node e1 l' r1 c1) = Ret m
        \<and> same_shape ?n m \<and> elems m = elems l' @ e1 # elems r1)" by auto
    have ok: "elems_ok D (Node e1 l1 r1 c1)" using elems_ok_elems [OF st(3) [symmetric], of D c1] e by simp
    then obtain x where x: "e1 = Some x" by auto
    have con: "contents D l @ (ekey D e, e_m e) # contents D r = contents D l1 @ (ekey D x, e_m x) # contents D r1"
      using contents_elems [OF st(3) [symmetric], of D] x by simp
    note s1 = s [unfolded con]
    have kx: "?k < ekey D x"
    proof (cases "e1 = Some (cached D e)")
      case False
      with st(4) have "entry D (Some e) \<in> set (contents D l1)" by (force simp: contents_def)
      with sorted_keysD(3) [OF s1] k show ?thesis by fastforce
    qed (use k x in auto)
    have "length (elems l1) < length (elems ?n)" unfolding st(3) [symmetric] by simp
    then obtain l' d where l': "node_delete D rr l1 = Ret (l', d)" "delete_ok ?k l1 (l', d)"
      using IH [of l1] ok st(2) sorted_keysD(1) [OF s1] by (auto simp: length_elems delete_pre_def)
    then obtain m where m: "fixUp (Node e1 l' r1 c1) = Ret m" "same_shape ?n m" "elems m = elems l' @ e1 # elems r1"
      using st(5) by (auto simp: delete_ok_def)
    have "zdel ?k (contents D r1) = contents D r1"
      using sorted_keysD(4) [OF s1] kx by (intro zdel_id) fastforce
    then have "contents D m = zdel ?k (contents D (Node (Some e) l r c))"
      using l'(2) kx contents_elems [OF m(3), of D] x by (simp add: con zdel_append delete_ok_def)
    moreover have "elems_ok D m" using elems_ok_elems [OF m(3), of D c1] l'(2) ok by (simp add: delete_ok_def)
    moreover have "map_of (contents D (Node (Some e) l r c)) ?k = map_of (contents D l1) ?k"
      using zget_append(1) [OF s1 kx] by (simp add: con)
    ultimately show ?thesis
      using st(1) l' m(1,2) False by (simp add: delete_unfold_left [OF e(1) k] fixed_def delete_ok_def same_shape_def)
  qed
qed

text \<open>
  The part of the right descent after the node has been turned: \<open>x\<close> is the element at the top,
  which is the one to delete or smaller.
\<close>

lemma delete_top:
  assumes "xred r3" "lred r3" and ok: "elems_ok D (Node (Some x) l3 r3 c3)"
    and s: "sorted_keys (contents D l3 @ (ekey D x, e_m x) # contents D r3)" and k: "k = ekey D x"
    and up: "\<forall>y r'. same_shape r3 r' \<longrightarrow> (\<exists>m. fixUp (Node y l3 r' c3) = Ret m
         \<and> same_shape n m \<and> elems m = elems l3 @ y # elems r')"
    and con: "contents D n = contents D l3 @ (ekey D x, e_m x) # contents D r3"
  shows "\<exists>res. go_bind (node_min r3) (\<lambda>m. go_bind (set_Elem (Node (Some (cached D x)) l3 r3 c3) (n_Elem m)) (\<lambda>n.
      go_bind (deleteMin (n_Right n)) (\<lambda>(r, d). go_bind (set_Right n r) (fixed d)))) = Ret res \<and> delete_ok k n res"
proof -
  from assms(1) have ne: "r3 \<noteq> NilNode" "elems r3 \<noteq> []" by (cases r3; simp)+
  obtain mn where mn: "node_min r3 = Ret mn" "n_Elem mn = hd (elems r3)" using node_min_ok [OF ne(1)] by auto
  obtain r' where r': "deleteMin r3 = Ret (r', - 1)" "same_shape r3 r'" "elems r' = tl (elems r3)"
    using deleteMin_ok [OF assms(2)] by auto
  obtain m where m: "fixUp (Node (hd (elems r3)) l3 r' c3) = Ret m" "same_shape n m" "elems m = elems l3 @ elems r3"
    using up r' ne(2) by (metis hd_Cons_tl)
  have "zdel k (contents D l3) = contents D l3" "zdel k (contents D r3) = contents D r3"
    using sorted_keysD(3,4) [OF s] k by (fastforce intro!: zdel_id)+
  then have "contents D m = zdel k (contents D n)" using m(3) k by (simp add: con zdel_append) (simp add: contents_def)
  moreover have "elems_ok D m" using ok m(3) by (auto simp: elems_ok_def)
  moreover have "map_of (contents D n) k \<noteq> None" using zget_append(2) [OF s k] by (simp add: con)
  ultimately show ?thesis using mn r'(1) m by (simp add: fixed_def delete_ok_def)
qed

lemma delete_below:
  assumes IH: "\<exists>res. node_delete D rr r3 = Ret res \<and> delete_ok k r3 res"
    and ok: "elems_ok D (Node (Some x) l3 r3 c3)"
    and s: "sorted_keys (contents D l3 @ (ekey D x, e_m x) # contents D r3)" and k: "ekey D x < k"
    and up: "\<forall>y r'. same_shape r3 r' \<longrightarrow> (\<exists>m. fixUp (Node y l3 r' c3) = Ret m
         \<and> same_shape n m \<and> elems m = elems l3 @ y # elems r')"
    and con: "contents D n = contents D l3 @ (ekey D x, e_m x) # contents D r3"
  shows "\<exists>res. go_bind (node_delete D rr r3) (\<lambda>(r, d).
      go_bind (set_Right (Node (Some (cached D x)) l3 r3 c3) r) (fixed d)) = Ret res \<and> delete_ok k n res"
proof -
  obtain r' d where r': "node_delete D rr r3 = Ret (r', d)" "delete_ok k r3 (r', d)" using IH by auto
  then obtain m where m: "fixUp (Node (Some (cached D x)) l3 r' c3) = Ret m" "same_shape n m"
    "elems m = elems l3 @ Some (cached D x) # elems r'" using up by (auto simp: delete_ok_def)
  have "zdel k (contents D l3) = contents D l3"
    using sorted_keysD(3) [OF s] k by (fastforce intro!: zdel_id)
  then have "contents D m = zdel k (contents D n)"
    using contents_elems [OF m(3), of D] k r'(2) by (auto simp: con zdel_append delete_ok_def)
  moreover have "elems_ok D m" using elems_ok_elems [OF m(3), of D c3] ok r'(2) by (simp add: delete_ok_def)
  moreover have "map_of (contents D n) k = map_of (contents D r3) k"
    using zget_append(3) [OF s k] by (simp add: con)
  ultimately show ?thesis using r' m by (simp add: fixed_def delete_ok_def)
qed

lemma delete_ok_elem:
  "elem_ok D e \<Longrightarrow> delete_ok k (Node (Some (cached D e)) l r c) res \<longleftrightarrow> delete_ok k (Node (Some e) l r c) res"
  by (simp add: delete_ok_def same_shape_def)

lemma delete_right_ok:
  assumes IH: "\<And>m. nodes m < nodes (Node (Some e) l r c) \<Longrightarrow> delete_pre (dkey D (rr_Name rr)) m \<Longrightarrow>
      \<exists>res. node_delete D rr m = Ret res \<and> delete_ok (dkey D (rr_Name rr)) m res"
    and pre: "delete_pre (dkey D (rr_Name rr)) (Node (Some e) l r c)" and k: "\<not> dkey D (rr_Name rr) < ekey D e"
  shows "\<exists>res. node_delete D rr (Node (Some e) l r c) = Ret res
    \<and> delete_ok (dkey D (rr_Name rr)) (Node (Some e) l r c) res"
proof -
  let ?k = "dkey D (rr_Name rr)" and ?n = "Node (Some (cached D e)) l r c"
  from pre have e: "elem_ok D e" "xred ?n" "elems_ok D ?n" and s: "sorted_keys (contents D l @ (ekey D e, e_m e) # contents D r)"
    using lred_xred [of "Node (Some e) l r c"] by (auto simp: delete_pre_def)
  from right_step [OF e(2)] obtain n2 where n2: "turned ?n = Ret n2"
    "if n_Right n2 = NilNode then l = NilNode \<and> r = NilNode \<and> c = red \<and> n2 = ?n
     else \<exists>n3. right_down n2 = Ret n3 \<and> right_ok ?n n3" by auto
  show ?thesis
  proof (cases "n_Right n2 = NilNode")
    case True
    with n2 e k show ?thesis
      by (auto simp: delete_unfold_right Less_node_ok fixed_leaf delete_ok_def same_shape_def zdel_def)
  next
    case False
    with n2(2) obtain e3 l3 r3 c3 where st: "right_down n2 = Ret (Node e3 l3 r3 c3)" "xred r3"
      "elems l3 @ e3 # elems r3 = elems ?n"
      "e3 = Some (cached D e) \<and> lred r3 \<or> e3 \<in> set (elems l)
        \<and> (lred r3 \<or> n_Elem r3 = Some (cached D e)) \<and> Some (cached D e) \<in> set (elems r3)"
      "\<forall>y r'. same_shape r3 r' \<longrightarrow> (\<exists>m. fixUp (Node y l3 r' c3) = Ret m
         \<and> same_shape ?n m \<and> elems m = elems l3 @ y # elems r')"
      unfolding right_ok_def by auto
    have ok: "elems_ok D (Node e3 l3 r3 c3)" using elems_ok_elems [OF st(3) [symmetric], of D c3] e(3) by simp
    then obtain x where x: "e3 = Some x" "elem_ok D x" by auto
    have con: "contents D ?n = contents D l3 @ (ekey D x, e_m x) # contents D r3"
      using contents_elems [OF st(3) [symmetric], of D] x by simp
    then have s3: "sorted_keys (contents D l3 @ (ekey D x, e_m x) # contents D r3)" using s by simp
    have x_cases: "x = cached D e \<and> lred r3 \<or> ekey D x < ekey D e"
      using st(4) x sorted_keysD(3) [OF s] by (force simp: contents_def)
    have "length (elems r3) < length (elems ?n)" unfolding st(3) [symmetric] by simp
    then have below: "\<exists>res. node_delete D rr r3 = Ret res \<and> delete_ok ?k r3 res"
      using ok st(2,4) k sorted_keysD(2) [OF s3] by (intro IH) (auto simp: delete_pre_def length_elems)
    show ?thesis
    proof (cases "?k = ekey D x")
      case True
      with x_cases k have "lred r3" by auto
      from delete_top [OF st(2) this ok [unfolded x(1)] s3 True st(5) con] st(1) n2(1) x True False show ?thesis
        by (auto simp: delete_unfold_right [OF e(1) k] Less_node_ok delete_ok_elem [OF e(1)])
    next
      case neq: False
      with x_cases k have "ekey D x < ?k" by auto
      from delete_below [OF below ok [unfolded x(1)] s3 this st(5) con] st(1) n2(1) x neq False show ?thesis
        by (auto simp: delete_unfold_right [OF e(1) k] Less_node_ok delete_ok_elem [OF e(1)])
    qed
  qed
qed

lemma node_delete_ok:
  "delete_pre (dkey D (rr_Name rr)) n \<Longrightarrow>
    \<exists>res. node_delete D rr n = Ret res \<and> delete_ok (dkey D (rr_Name rr)) n res"
proof (induction n rule: measure_induct_rule [of nodes])
  case (less n)
  then obtain eo l r c where n: "n = Node eo l r c" by (cases n) (auto simp: delete_pre_def lred_def)
  with less.prems obtain e where "eo = Some e" by (auto simp: delete_pre_def)
  with n have n: "n = Node (Some e) l r c" by simp
  note IH = less.IH [unfolded n] and pre = less.prems [unfolded n]
  show ?case unfolding n
    by (cases "dkey D (rr_Name rr) < ekey D e") (rule delete_left_ok [OF IH pre] delete_right_ok [OF IH pre]; assumption)+
qed

lemma recolour_node_delete: "at_root (node_delete D rr)"
proof -
  let ?right = "\<lambda>n. if n_Right n = NilNode then
      go_bind (Less_node D n (rr_Name rr)) (\<lambda>(k, n). if k = 0 then Ret (NilNode, - 1) else fixed 0 n)
    else go_bind (right_down n) (\<lambda>n.
         go_bind (Less_node D n (rr_Name rr)) (\<lambda>(k, n).
         if k = 0 then
           go_bind (node_min (n_Right n)) (\<lambda>m. go_bind (set_Elem n (n_Elem m)) (\<lambda>n.
           go_bind (deleteMin (n_Right n)) (\<lambda>(r, d). go_bind (set_Right n r) (fixed d))))
         else go_bind (node_delete D rr (n_Right n)) (\<lambda>(r, d). go_bind (set_Right n r) (fixed d))))"
  let ?left = "\<lambda>n. if n_Left n \<noteq> NilNode then
      go_bind (left_down n) (\<lambda>n. go_bind (node_delete D rr (n_Left n)) (\<lambda>(l, d). go_bind (set_Left n l) (fixed d)))
    else fixed 0 n"
  have unfold: "node_delete D rr n = go_bind (Less_node D n (rr_Name rr)) (\<lambda>(k, n).
      if k < 0 then ?left n else go_bind (turned n) ?right)" for n
    by (subst node_delete.simps) (simp add: left_down_def turned_def right_down_def cong: if_cong)
  have less: "Less_node D (recolour n) q = map_outcome (apsnd recolour) (Less_node D n q)" for n q
    by (simp add: Less_node_def recolour_ops comp_def case_prod_unfold)
  define R where "R = ?right"
  have R: "R (recolour n) = map_outcome (apfst recolour) (R n)" for n
    by (simp add: R_def recolour_all less comp_def case_prod_unfold if_distrib [of "map_outcome (apfst recolour)"] cong: if_cong)
  have "node_delete D rr (recolour n) = map_outcome (apfst recolour) (node_delete D rr n)" for n
    unfolding unfold [of "recolour n", folded R_def] unfold [of n, folded R_def]
    by (simp add: less R recolour_all comp_def case_prod_unfold if_distrib [of "map_outcome (apfst recolour)"]
        cong: if_cong)
  then show ?thesis by (simp add: at_root_def)
qed

end

end
