(* ===== verification/ZoneSpec.thy ===== *)
theory ZoneSpec
  imports ZoneTreeSpec
begin

text \<open>
  The tree of a zone as an implementation of an abstract zone: a finite map from the key of a name
  to the resource records of the name, by type. \<open>zone_ok\<close> is the invariant of the data
  structure, \<open>zone_of\<close> the abstraction; the operations of the tree never panic, keep the
  invariant, and answer as the map does.
\<close>

type_synonym zone = "string list \<Rightarrow> rrmap option"

definition zone_of :: "dns_lib \<Rightarrow> Tree \<Rightarrow> zone" where
  "zone_of D t = map_of (contents D (Root t))"

definition zone_ok :: "dns_lib \<Rightarrow> Tree \<Rightarrow> bool" where
  "zone_ok D t \<longleftrightarrow> llrb (Root t) \<and> elems_ok D (Root t) \<and> sorted_keys (contents D (Root t))
     \<and> Count t = int (length (elems (Root t))) \<and> (\<forall>(k, m) \<in> set (contents D (Root t)). m \<noteq> fmempty)"

definition empty_tree :: Tree where
  "empty_tree = \<lparr>Root = NilNode, Count = 0\<rparr>"

definition zone_insert :: "dns_lib \<Rightarrow> RR \<Rightarrow> zone \<Rightarrow> zone" where
  "zone_insert D rr z = (let k = dkey D (rr_Name rr) in z(k \<mapsto> add_rr rr (z k)))"

definition zone_delete :: "dns_lib \<Rightarrow> RR \<Rightarrow> zone \<Rightarrow> zone" where
  "zone_delete D rr z =
     (let k = dkey D (rr_Name rr) in
      case z k of
        None \<Rightarrow> z
      | Some m \<Rightarrow> (let m' = fmdrop (rr_Rrtype rr) m in z(k := (if m' = fmempty then None else Some m'))))"

section \<open>The operations\<close>

lemma gm_len_eq_0: "gm_len m = 0 \<longleftrightarrow> m = fmempty"
  by (auto simp: gm_len_0_iff gm_has_def fmap_ext)

lemma zone_ok_empty: "zone_ok D empty_tree" "zone_of D empty_tree = (\<lambda>k. None)"
  by (simp_all add: zone_ok_def zone_of_def empty_tree_def llrb_def fun_eq_iff)

lemma length_contents: "length (contents D n) = length (elems n)"
  by (simp add: contents_def)

lemma length_zput: "length (zput k f ps) = length (zdel k ps) + 1"
proof -
  have "length (filter (\<lambda>p. fst p < k) ps) + length (filter (\<lambda>p. k < fst p) ps) = length (zdel k ps)"
    by (induction ps) (auto simp: zdel_def)
  then show ?thesis by (simp add: zput_def)
qed

lemma length_zdel:
  assumes "sorted_keys ps"
  shows "length ps = length (zdel k ps) + (if map_of ps k = None then 0 else 1)"
proof (cases "map_of ps k")
  case None
  then have "zdel k ps = ps" by (intro zdel_id) (auto simp: map_of_eq_None_iff)
  with None show ?thesis by simp
next
  case (Some v)
  then obtain xs ys where ps: "ps = xs @ (k, v) # ys" using split_list map_of_SomeD by metis
  have "zdel k xs = xs" "zdel k ys = ys"
    using sorted_keysD(3,4) [OF assms [unfolded ps]] by (fastforce intro!: zdel_id)+
  with Some ps show ?thesis by (simp add: zdel_append)
qed

lemma zdel_zput:
  assumes "sorted_keys ps"
  shows "zdel k (zput k f ps) = zdel k ps"
proof -
  have "filter (\<lambda>p. fst p < k) ps @ filter (\<lambda>p. k < fst p) ps = filter (\<lambda>p. fst p \<noteq> k) ps"
    using assms
  proof (induction ps)
    case (Cons p ps)
    show ?case
    proof (cases "fst p < k")
      case False
      with Cons.prems have "filter (\<lambda>q. fst q < k) ps = []" "filter (\<lambda>q. k < fst q) ps = ps" "filter (\<lambda>q. fst q \<noteq> k) ps = ps"
        by (fastforce simp: filter_empty_conv filter_id_conv)+
      with False show ?thesis by (auto simp: not_less)
    qed (use Cons in auto)
  qed simp
  moreover have "filter (\<lambda>p. fst p \<noteq> k) (filter (\<lambda>p. fst p < k) ps) = filter (\<lambda>p. fst p < k) ps"
    "filter (\<lambda>p. fst p \<noteq> k) (filter (\<lambda>p. k < fst p) ps) = filter (\<lambda>p. k < fst p) ps"
    by (auto intro!: filter_cong)
  ultimately show ?thesis by (simp add: zdel_def zput_def)
qed

lemma set_zput: "p \<in> set (zput k f ps) \<Longrightarrow> p = (k, f (map_of ps k)) \<or> p \<in> set ps"
  by (auto simp: zput_def)

lemma set_zdel: "p \<in> set (zdel k ps) \<Longrightarrow> p \<in> set ps"
  by (auto simp: zdel_def)

lemma add_rr_not_empty: "add_rr rr m \<noteq> fmempty"
proof
  assume "add_rr rr m = fmempty"
  then have "fmlookup (add_rr rr m) (rr_Rrtype rr) = None" by simp
  then show False by (cases m) simp_all
qed

definition last_entry :: "'a list \<Rightarrow> 'a option" where
  "last_entry ps = (if ps = [] then None else Some (last ps))"

definition first_entry :: "'a list \<Rightarrow> 'a option" where
  "first_entry ps = (if ps = [] then None else Some (hd ps))"

lemma last_entry_simps [simp]:
  "last_entry [] = None" "last_entry (xs @ [x]) = Some x"
  "last_entry (xs @ x # ys) = (case last_entry ys of None \<Rightarrow> Some x | Some y \<Rightarrow> Some y)"
  by (simp_all add: last_entry_def)

lemma first_entry_simps [simp]:
  "first_entry [] = None" "first_entry (x # xs) = Some x"
  "first_entry (xs @ ys) = (case first_entry xs of None \<Rightarrow> first_entry ys | Some y \<Rightarrow> Some y)"
  by (simp_all add: first_entry_def hd_append)

context zone_names
begin

lemma Tree_Insert_ok:
  assumes "zone_ok D t"
  shows "\<exists>t'. Tree_Insert D t rr = Ret t' \<and> zone_ok D t' \<and> zone_of D t' = zone_insert D rr (zone_of D t)"
proof -
  let ?k = "dkey D (rr_Name rr)"
  from assms have t: "elems_ok D (Root t)" "sorted_keys (contents D (Root t))" "invc (Root t)" "invh (Root t)"
    "color (Root t) = black" "Count t = int (length (elems (Root t)))"
    "\<forall>(k, m) \<in> set (contents D (Root t)). m \<noteq> fmempty"
    by (simp_all add: zone_ok_def llrb_def)
  obtain m d where m: "node_insert D rr (Root t) = Ret (m, d)" "insert_ok rr (Root t) (m, d)"
    using node_insert_ok [OF t(1-4), of rr] by auto
  then obtain e l r c where n: "m = Node e l r c" by (cases m) (auto simp: insert_ok_def)
  let ?t = "t\<lparr>Root := Node e l r black, Count := Count t + d\<rparr>"
  have con: "contents D (Node e l r black) = zput ?k (add_rr rr) (contents D (Root t))"
    using m(2) n by (simp add: insert_ok_def)
  have ins: "Tree_Insert D t rr = Ret ?t" using m(1) n by (simp add: Tree_Insert_def)
  have "length (elems (Node e l r black)) = length (zdel ?k (contents D (Root t))) + 1"
    using arg_cong [OF con, of length] by (simp only: length_contents length_zput)
  then have "Count ?t = int (length (elems (Node e l r black)))"
    using t(6) length_zdel [OF t(2), of ?k] m(2) by (simp add: insert_ok_def length_contents split: if_splits)
  moreover have "llrb (Node e l r black)" using m(2) n t(5) by (simp add: llrb_def insert_ok_def)
  moreover have "\<forall>(k, v) \<in> set (contents D (Node e l r black)). v \<noteq> fmempty"
    using t(7) unfolding con by (auto dest!: set_zput simp: add_rr_not_empty add_rr_not_empty [symmetric])
  moreover have "elems_ok D (Node e l r black)" using m(2) n by (simp add: insert_ok_def)
  moreover have "sorted_keys (contents D (Node e l r black))" unfolding con using t(2) by (rule sorted_zput)
  ultimately have "zone_ok D ?t" by (simp add: zone_ok_def del: contents_simps elems.simps)
  moreover have "zone_of D ?t = zone_insert D rr (zone_of D t)"
    using con by (simp add: zone_of_def zone_insert_def Let_def map_of_zput del: contents_simps)
  ultimately show ?thesis using ins by blast
qed

lemma deleteNode_ok:
  assumes "llrb (Root t)" "elems_ok D (Root t)" "sorted_keys (contents D (Root t))"
    and "Count t = int (length (elems (Root t)))" and "map_of (contents D (Root t)) (dkey D (rr_Name rr)) \<noteq> None"
  shows "\<exists>t'. deleteNode D t rr = Ret t' \<and> llrb (Root t') \<and> elems_ok D (Root t')
    \<and> contents D (Root t') = zdel (dkey D (rr_Name rr)) (contents D (Root t)) \<and> Count t' = int (length (elems (Root t')))"
proof -
  let ?k = "dkey D (rr_Name rr)"
  let ?P = "\<lambda>es. map (entry D) es = zdel ?k (contents D (Root t)) \<and> (\<forall>eo \<in> set es. \<exists>e. eo = Some e \<and> elem_ok D e)"
  from assms(5) have n: "Root t \<noteq> NilNode" by auto
  have "\<exists>m. node_delete D rr (Root t) = Ret m \<and> snd m = - 1 \<and> llrb (Root (new_root t m)) \<and> ?P (elems (fst m))"
  proof (rule root_deletion [OF recolour_node_delete assms(1) n])
    fix k assume k: "lred k" "elems k = elems (Root t)"
    then have con: "contents D k = contents D (Root t)" by (simp add: contents_def)
    have "delete_pre ?k k" using k assms(2,3) con by (simp add: delete_pre_def elems_ok_def)
    from node_delete_ok [OF this] assms(5) con show "\<exists>m. node_delete D rr k = Ret (m, - 1) \<and> same_shape k m \<and> ?P (elems m)"
      by (auto simp: delete_ok_def elems_ok_def) (auto simp: contents_def)
  qed
  then obtain m where m: "node_delete D rr (Root t) = Ret m" "snd m = - 1" "llrb (Root (new_root t m))" "?P (elems (fst m))"
    by auto
  let ?t = "new_root t m"
  have con: "contents D (Root ?t) = zdel ?k (contents D (Root t))" using m(4) by (simp add: contents_def)
  have "Count ?t = int (length (elems (Root ?t)))"
    using assms(4,5) length_zdel [OF assms(3), of ?k] arg_cong [OF con, of length] m(2)
    by (simp add: length_contents split: if_splits)
  then show ?thesis using m n con by (auto simp: deleteNode_def elems_ok_def)
qed

lemma Tree_Search_ok:
  assumes "zone_ok D t"
  shows "\<exists>t' res. Tree_Search D t q = Ret (t', res, res \<noteq> None) \<and> zone_ok D t' \<and> zone_of D t' = zone_of D t
    \<and> map_option e_m res = zone_of D t (dkey D q) \<and> pred_option (\<lambda>e. elem_ok D e \<and> ekey D e = dkey D q) res"
proof (cases "Root t = NilNode")
  case True
  with assms show ?thesis by (simp add: Tree_Search_def zone_of_def)
next
  case False
  from assms have t: "elems_ok D (Root t)" "sorted_keys (contents D (Root t))" by (simp_all add: zone_ok_def)
  have "elem_ok D (id (cached D e)) \<and> entry D (Some (id (cached D e))) = (dkey D q, id (e_m e))"
    if "elem_ok D e" "ekey D e = dkey D q" for e
    using that by simp
  from search_ok [where f = id and g = id, OF t this] obtain m res found where
    m: "node_search D q id (Root t) = Ret (m, res, found)" "found_ok (dkey D q) id (Root t) (m, res, found)" by auto
  have con: "contents D m = contents D (Root t)"
  proof (cases res)
    case (Some e)
    with m(2) have "map_of (contents D (Root t)) (dkey D q) = Some (e_m e)" by (simp add: found_ok_def)
    then obtain xs ys where "contents D (Root t) = xs @ (dkey D q, e_m e) # ys" using split_list map_of_SomeD by metis
    with zput_append(2) [OF t(2) [unfolded this] refl, of "id \<circ> the"] Some m(2) show ?thesis
      by (simp add: found_ok_def)
  qed (use m(2) in \<open>simp add: found_ok_def\<close>)
  then have "length (elems m) = length (elems (Root t))" by (metis length_contents)
  with con m(2) assms search_shape [OF m(1)] have "zone_ok D (t\<lparr>Root := m\<rparr>)"
    by (simp add: zone_ok_def llrb_def found_ok_def)
  moreover have "map_option e_m res = zone_of D t (dkey D q)" and "found = (res \<noteq> None)"
    and "pred_option (\<lambda>e. elem_ok D e \<and> ekey D e = dkey D q) res"
    using m(2) by (auto simp: found_ok_def zone_of_def split: option.splits)
  ultimately show ?thesis using m(1) con False by (auto simp: Tree_Search_def zone_of_def)
qed

lemma Tree_Delete_ok:
  assumes "zone_ok D t"
  shows "\<exists>t'. Tree_Delete D t rr = Ret t' \<and> zone_ok D t' \<and> zone_of D t' = zone_delete D rr (zone_of D t)"
proof (cases "Root t = NilNode")
  case True
  with assms show ?thesis by (simp add: Tree_Delete_def zone_of_def zone_delete_def)
next
  case False
  let ?k = "dkey D (rr_Name rr)" and ?g = "fmdrop (rr_Rrtype rr) :: rrmap \<Rightarrow> rrmap"
  from assms have t: "elems_ok D (Root t)" "sorted_keys (contents D (Root t))" "llrb (Root t)"
    "Count t = int (length (elems (Root t)))" "\<forall>(k, m) \<in> set (contents D (Root t)). m \<noteq> fmempty"
    by (simp_all add: zone_ok_def)
  have "elem_ok D (Elem_Delete (cached D e) rr) \<and> entry D (Some (Elem_Delete (cached D e) rr)) = (?k, ?g (e_m e))"
    if "elem_ok D e" "ekey D e = ?k" for e
    using Elem_Delete_ok [OF that(1), of rr] that(2) by simp
  from search_ok [where f = "\<lambda>e. Elem_Delete e rr" and g = ?g, OF t(1,2) this] obtain n res found where
    n: "node_search D (rr_Name rr) (\<lambda>e. Elem_Delete e rr) (Root t) = Ret (n, res, found)"
       "found_ok ?k ?g (Root t) (n, res, found)" by auto
  let ?t = "t\<lparr>Root := n\<rparr>"
  have llrb: "llrb n" using t(3) search_shape [OF n(1)] by (simp add: llrb_def)
  show ?thesis
  proof (cases res)
    case None
    with n have con: "contents D n = contents D (Root t)" "elems_ok D n" and z: "zone_of D t ?k = None"
      by (simp_all add: found_ok_def zone_of_def)
    moreover have "length (elems n) = length (elems (Root t))" using con(1) by (metis length_contents)
    ultimately have "zone_ok D ?t" "zone_of D ?t = zone_delete D rr (zone_of D t)"
      using t llrb by (simp_all add: zone_ok_def) (simp add: zone_of_def zone_delete_def)
    with None n(1) False show ?thesis by (simp add: Tree_Delete_def)
  next
    case (Some e)
    with n(2) have e: "zone_of D t ?k = Some (e_m e)" "elems_ok D n"
      and con: "contents D n = zput ?k (?g \<circ> the) (contents D (Root t))"
      by (simp_all add: found_ok_def zone_of_def)
    have z: "map_of (contents D n) = (zone_of D t)(?k \<mapsto> ?g (e_m e))"
      using e(1) by (simp add: con map_of_zput zone_of_def)
    have s: "sorted_keys (contents D n)" unfolding con using t(2) by (rule sorted_zput)
    have len: "length (elems n) = length (elems (Root t))"
      using arg_cong [OF con, of length] length_zdel [OF t(2), of ?k] e(1)
      by (simp add: length_contents length_zput zone_of_def)
    show ?thesis
    proof (cases "?g (e_m e) = fmempty")
      case True
      obtain t' where t': "deleteNode D ?t rr = Ret t'" "llrb (Root t')" "elems_ok D (Root t')"
        "contents D (Root t') = zdel ?k (contents D n)" "Count t' = int (length (elems (Root t')))"
        using deleteNode_ok [of ?t rr] llrb e(2) s len t(4) z by auto
      have "zdel ?k (contents D n) = zdel ?k (contents D (Root t))"
        unfolding con by (rule zdel_zput [OF t(2)])
      then have "zone_ok D t'"
        using t' sorted_zdel [OF t(2)] t(5) by (auto simp: zone_ok_def dest!: set_zdel)
      moreover have "zone_of D t' = zone_delete D rr (zone_of D t)"
        using t'(4) z e(1) True by (simp add: zone_of_def [of D t'] map_of_zdel zone_delete_def Let_def)
      moreover have "Tree_Delete D t rr = Ret t'"
        using n(1) Some t'(1) True False by (simp add: Tree_Delete_def Elem_Empty_def Elem_Delete_def gm_len_eq_0 del: gm_len_drop)
      ultimately show ?thesis by blast
    next
      case ne: False
      have "zone_ok D ?t"
        using llrb e s len t(4,5) ne unfolding con zone_of_def
        by (auto simp: zone_ok_def con dest!: set_zput)
      moreover have "zone_of D ?t = zone_delete D rr (zone_of D t)"
        using z e(1) ne by (simp add: zone_of_def [of D ?t] zone_delete_def Let_def)
      moreover have "Tree_Delete D t rr = Ret ?t"
        using n(1) Some ne False by (simp add: Tree_Delete_def Elem_Empty_def Elem_Delete_def gm_len_eq_0 del: gm_len_drop)
      ultimately show ?thesis by blast
    qed
  qed
qed

text \<open>\<open>Prev\<close> and \<open>Next\<close>: the nearest name on either side.\<close>

lemma floor_ok:
  assumes "elems_ok D n" and "sorted_keys (contents D n)"
  shows "\<exists>m res. node_floor D q n = Ret (m, res) \<and> contents D m = contents D n \<and> elems_ok D m
    \<and> (invc m = invc n \<and> invh m = invh n \<and> color m = color n \<and> bheight m = bheight n)
    \<and> pred_option (elem_ok D) res
    \<and> map_option (\<lambda>e. entry D (Some e)) res
       = last_entry (filter (\<lambda>p. fst p \<le> dkey D q) (contents D n))"
  using assms
proof (induction n)
  case NilNode
  then show ?case by simp
next
  case (Node eo l r c)
  then obtain e where e: "eo = Some e" "elem_ok D e" by auto
  have s: "sorted_keys (contents D l @ (ekey D e, e_m e) # contents D r)" using Node.prems e by simp
  note less = Less_ok [OF e(2), of q] and b = sorted_keysD [OF s]
  consider "dkey D q < ekey D e" | "dkey D q = ekey D e" | "ekey D e < dkey D q" by fastforce
  then show ?case
  proof cases
    case 1
    from 1 b(4) have "filter (\<lambda>p. fst p \<le> dkey D q) (contents D r) = []" by (fastforce simp: filter_empty_conv)
    moreover from 1 have "dkey D q \<noteq> ekey D e" "\<not> ekey D e \<le> dkey D q" by auto
    ultimately show ?thesis
      using 1 Node.IH(1) [OF _ b(1)] Node.prems(1) e by (auto simp: less order_sign_def simp del: Less.simps)
  next
    case 2
    from 2 b(4) have "filter (\<lambda>p. fst p \<le> dkey D q) (contents D r) = []" by (fastforce simp: filter_empty_conv)
    with 2 Node.prems e show ?thesis by (auto simp: less simp del: Less.simps)
  next
    case 3
    then have "dkey D q \<noteq> ekey D e" "ekey D e \<le> dkey D q" "\<not> dkey D q < ekey D e" by auto
    then show ?thesis
      using 3 Node.IH(2) [OF _ b(2)] Node.prems(1) e
      by (auto simp: less order_sign_def simp del: Less.simps split: option.splits)
  qed
qed

lemma ceil_ok:
  assumes "elems_ok D n" and "sorted_keys (contents D n)"
  shows "\<exists>m res. node_ceil D q n = Ret (m, res) \<and> contents D m = contents D n \<and> elems_ok D m
    \<and> (invc m = invc n \<and> invh m = invh n \<and> color m = color n \<and> bheight m = bheight n)
    \<and> pred_option (elem_ok D) res
    \<and> map_option (\<lambda>e. entry D (Some e)) res = first_entry (filter (\<lambda>p. dkey D q \<le> fst p) (contents D n))"
  using assms
proof (induction n)
  case NilNode
  then show ?case by simp
next
  case (Node eo l r c)
  then obtain e where e: "eo = Some e" "elem_ok D e" by auto
  have s: "sorted_keys (contents D l @ (ekey D e, e_m e) # contents D r)" using Node.prems e by simp
  note less = Less_ok [OF e(2), of q] and b = sorted_keysD [OF s]
  consider "dkey D q < ekey D e" | "dkey D q = ekey D e" | "ekey D e < dkey D q" by fastforce
  then show ?case
  proof cases
    case 1
    then have "dkey D q \<noteq> ekey D e" "dkey D q \<le> ekey D e" "\<not> ekey D e < dkey D q" by auto
    then show ?thesis
      using 1 Node.IH(1) [OF _ b(1)] Node.prems(1) e
      by (auto simp: less order_sign_def simp del: Less.simps split: option.splits)
  next
    case 2
    from 2 b(3) have "filter (\<lambda>p. dkey D q \<le> fst p) (contents D l) = []" by (fastforce simp: filter_empty_conv)
    with 2 Node.prems e show ?thesis by (auto simp: less simp del: Less.simps)
  next
    case 3
    from 3 b(3) have "filter (\<lambda>p. dkey D q \<le> fst p) (contents D l) = []" by (fastforce simp: filter_empty_conv)
    moreover from 3 have "dkey D q \<noteq> ekey D e" "\<not> dkey D q \<le> ekey D e" "\<not> dkey D q < ekey D e" by auto
    ultimately show ?thesis
      using 3 Node.IH(2) [OF _ b(2)] Node.prems(1) e by (auto simp: less order_sign_def simp del: Less.simps)
  qed
qed

text \<open>Deletion of the smallest and of the greatest name.\<close>

lemma tree_deletion:
  assumes "zone_ok D t" and "Root t \<noteq> NilNode" and "at_root f"
    and "\<And>k. lred k \<Longrightarrow> \<exists>m. f k = Ret (m, - 1) \<and> same_shape k m \<and> elems m = g (elems k)"
    and g: "\<And>es. es \<noteq> [] \<Longrightarrow> \<exists>e. es = g es @ [e] \<or> es = e # g es"
  shows "\<exists>nd. f (Root t) = Ret nd \<and> zone_ok D (new_root t nd) \<and> elems (Root (new_root t nd)) = g (elems (Root t))"
proof -
  from assms(1) have t: "elems_ok D (Root t)" "sorted_keys (contents D (Root t))" "llrb (Root t)"
    "Count t = int (length (elems (Root t)))" "\<forall>(k, m) \<in> set (contents D (Root t)). m \<noteq> fmempty"
    by (simp_all add: zone_ok_def)
  have "\<exists>m. f (Root t) = Ret m \<and> snd m = - 1 \<and> llrb (Root (new_root t m)) \<and> elems (fst m) = g (elems (Root t))"
    by (rule root_deletion [OF assms(3) t(3) assms(2)]) (use assms(4) in fastforce)
  then obtain nd where nd: "f (Root t) = Ret nd" "snd nd = - 1" "llrb (Root (new_root t nd))"
    "elems (fst nd) = g (elems (Root t))" by auto
  have "elems (Root t) \<noteq> []" using assms(2) by (cases "Root t") auto
  from g [OF this] obtain e where "elems (Root t) = g (elems (Root t)) @ [e] \<or> elems (Root t) = e # g (elems (Root t))" ..
  then have "set (g (elems (Root t))) \<subseteq> set (elems (Root t))" "length (elems (Root t)) = length (g (elems (Root t))) + 1"
    "sorted_keys (map (entry D) (g (elems (Root t))))"
    using t(2) by (auto simp: contents_def sorted_wrt_append dest: arg_cong [of _ _ set] arg_cong [of _ _ length]
        arg_cong [of _ _ "\<lambda>es. sorted_keys (map (entry D) es)"])
  note sub = this
  have "\<forall>(k, m) \<in> set (contents D (Root (new_root t nd))). m \<noteq> fmempty"
    using t(5) sub(1) by (simp add: nd(4) contents_def) (meson subsetD)
  moreover have "elems_ok D (Root (new_root t nd))" using t(1) sub(1) nd(4) by (auto simp: elems_ok_def)
  ultimately have "zone_ok D (new_root t nd)"
    using t(4) sub(2,3) nd by (simp add: zone_ok_def contents_def)
  with nd show ?thesis by auto
qed

lemma zone_ends:
  assumes "zone_ok D t" and "Root t \<noteq> NilNode"
  shows "map_of (tl (contents D (Root t))) = (zone_of D t)(Min (dom (zone_of D t)) := None)"
    and "map_of (butlast (contents D (Root t))) = (zone_of D t)(Max (dom (zone_of D t)) := None)"
proof -
  let ?ps = "contents D (Root t)"
  from assms have s: "sorted_keys ?ps" and ne: "?ps \<noteq> []" by (cases "Root t"; auto simp: zone_ok_def)+
  have dom: "dom (zone_of D t) = fst ` set ?ps" by (simp add: zone_of_def dom_map_of_conv_image_fst)
  from ne obtain p ps where p: "?ps = p # ps" by (cases ?ps) auto
  have "Min (dom (zone_of D t)) = fst p" using s unfolding dom p by (intro Min_eqI) (auto intro: less_imp_le)
  moreover have "zdel (fst p) ?ps = tl ?ps" using s p by (auto simp: zdel_def filter_id_conv)
  ultimately show "map_of (tl ?ps) = (zone_of D t)(Min (dom (zone_of D t)) := None)"
    by (metis map_of_zdel zone_of_def)
  from ne obtain q qs where q: "?ps = qs @ [q]" using rev_exhaust by blast
  have "Max (dom (zone_of D t)) = fst q"
    using s unfolding dom q by (intro Max_eqI) (auto simp: sorted_wrt_append intro: less_imp_le)
  moreover have "zdel (fst q) ?ps = butlast ?ps" using s q by (auto simp: zdel_def filter_id_conv sorted_wrt_append)
  ultimately show "map_of (butlast ?ps) = (zone_of D t)(Max (dom (zone_of D t)) := None)"
    by (metis map_of_zdel zone_of_def)
qed

lemma contents_tl: "elems m = tl (elems n) \<Longrightarrow> contents D m = tl (contents D n)"
  "elems m = butlast (elems n) \<Longrightarrow> contents D m = butlast (contents D n)"
  by (simp_all add: contents_def map_tl map_butlast)

lemma Tree_DeleteMin_ok:
  assumes "zone_ok D t" and "Root t \<noteq> NilNode"
  shows "\<exists>t'. Tree_DeleteMin t = Ret t' \<and> zone_ok D t' \<and> zone_of D t' = (zone_of D t)(Min (dom (zone_of D t)) := None)"
proof -
  have "\<exists>nd. deleteMin (Root t) = Ret nd \<and> zone_ok D (new_root t nd) \<and> elems (Root (new_root t nd)) = tl (elems (Root t))"
    by (rule tree_deletion [OF assms]) (auto simp: at_root_def recolour_deleteMin deleteMin_ok intro: hd_Cons_tl [symmetric])
  then show ?thesis
    using assms(2) zone_ends(1) [OF assms] contents_tl(1) by (auto simp: Tree_DeleteMin_def zone_of_def)
qed

lemma Tree_DeleteMax_ok:
  assumes "zone_ok D t" and "Root t \<noteq> NilNode"
  shows "\<exists>t'. Tree_DeleteMax t = Ret t' \<and> zone_ok D t' \<and> zone_of D t' = (zone_of D t)(Max (dom (zone_of D t)) := None)"
proof -
  have "\<exists>nd. deleteMax (Root t) = Ret nd \<and> zone_ok D (new_root t nd) \<and> elems (Root (new_root t nd)) = butlast (elems (Root t))"
    by (rule tree_deletion [OF assms])
      (auto simp: at_root_def recolour_deleteMax deleteMax_ok lred_xred intro: append_butlast_last_id [symmetric])
  then show ?thesis
    using assms(2) zone_ends(2) [OF assms] contents_tl(2) by (auto simp: Tree_DeleteMax_def zone_of_def)
qed

end

section \<open>Sequences of operations\<close>

datatype zone_op = Ins RR | Del RR | Find string | DelMin | DelMax

text \<open>The answer of a search are the records found; the other operations answer nothing.\<close>

fun tree_step :: "dns_lib \<Rightarrow> zone_op \<Rightarrow> Tree \<Rightarrow> (Tree \<times> rrmap option) outcome" where
  "tree_step D (Ins rr) t = go_bind (Tree_Insert D t rr) (\<lambda>t. Ret (t, None))"
| "tree_step D (Del rr) t = go_bind (Tree_Delete D t rr) (\<lambda>t. Ret (t, None))"
| "tree_step D (Find q) t = go_bind (Tree_Search D t q) (\<lambda>(t, el, found). Ret (t, map_option e_m el))"
| "tree_step D DelMin t = go_bind (Tree_DeleteMin t) (\<lambda>t. Ret (t, None))"
| "tree_step D DelMax t = go_bind (Tree_DeleteMax t) (\<lambda>t. Ret (t, None))"

fun run_tree :: "dns_lib \<Rightarrow> zone_op list \<Rightarrow> Tree \<Rightarrow> (Tree \<times> rrmap option list) outcome" where
  "run_tree D [] t = Ret (t, [])"
| "run_tree D (op # ops) t =
     go_bind (tree_step D op t) (\<lambda>(t, a). go_bind (run_tree D ops t) (\<lambda>(t, as). Ret (t, a # as)))"

fun zone_step :: "dns_lib \<Rightarrow> zone_op \<Rightarrow> zone \<Rightarrow> zone \<times> rrmap option" where
  "zone_step D (Ins rr) z = (zone_insert D rr z, None)"
| "zone_step D (Del rr) z = (zone_delete D rr z, None)"
| "zone_step D (Find q) z = (z, z (dkey D q))"
| "zone_step D DelMin z = (if dom z = {} then z else z(Min (dom z) := None), None)"
| "zone_step D DelMax z = (if dom z = {} then z else z(Max (dom z) := None), None)"

fun run_zone :: "dns_lib \<Rightarrow> zone_op list \<Rightarrow> zone \<Rightarrow> zone \<times> rrmap option list" where
  "run_zone D [] z = (z, [])"
| "run_zone D (op # ops) z =
     (let (z, a) = zone_step D op z; (z, as) = run_zone D ops z in (z, a # as))"

lemma zone_of_empty: "Root t = NilNode \<Longrightarrow> dom (zone_of D t) = {}"
  by (simp add: zone_of_def)

lemma zone_of_not_empty: "Root t \<noteq> NilNode \<Longrightarrow> dom (zone_of D t) \<noteq> {}"
  by (cases "Root t") (auto simp: zone_of_def dom_map_of_conv_image_fst simp del: dom_eq_empty_conv)

context zone_names
begin

lemma step_refines:
  assumes "zone_ok D t"
  shows "\<exists>t'. tree_step D op t = Ret (t', snd (zone_step D op (zone_of D t))) \<and> zone_ok D t'
    \<and> zone_of D t' = fst (zone_step D op (zone_of D t))"
proof (cases op)
  case (Ins rr)
  with Tree_Insert_ok [OF assms, of rr] show ?thesis by auto
next
  case (Del rr)
  with Tree_Delete_ok [OF assms, of rr] show ?thesis by auto
next
  case (Find q)
  with Tree_Search_ok [OF assms, of q] show ?thesis by auto
next
  case DelMin
  show ?thesis
  proof (cases "Root t = NilNode")
    case True
    with DelMin assms zone_of_empty [OF True] show ?thesis by (simp add: Tree_DeleteMin_def)
  next
    case False
    with DelMin Tree_DeleteMin_ok [OF assms False] zone_of_not_empty [OF False, of D] show ?thesis
      by (auto simp del: dom_eq_empty_conv)
  qed
next
  case DelMax
  show ?thesis
  proof (cases "Root t = NilNode")
    case True
    with DelMax assms zone_of_empty [OF True] show ?thesis by (simp add: Tree_DeleteMax_def)
  next
    case False
    with DelMax Tree_DeleteMax_ok [OF assms False] zone_of_not_empty [OF False, of D] show ?thesis
      by (auto simp del: dom_eq_empty_conv)
  qed
qed

lemma run_refines:
  "zone_ok D t \<Longrightarrow> \<exists>t'. run_tree D ops t = Ret (t', snd (run_zone D ops (zone_of D t))) \<and> zone_ok D t'
    \<and> zone_of D t' = fst (run_zone D ops (zone_of D t))"
proof (induction ops arbitrary: t)
  case (Cons op ops)
  from step_refines [OF Cons.prems, of op] obtain t' where
    t': "tree_step D op t = Ret (t', snd (zone_step D op (zone_of D t)))" "zone_ok D t'"
      "zone_of D t' = fst (zone_step D op (zone_of D t))" by auto
  from Cons.IH [OF t'(2)] t'(1,3) show ?case by (auto simp: Let_def case_prod_unfold)
qed simp

end

section \<open>The height of the tree\<close>

text \<open>The nodes a search visits, counted along \<open>node_search\<close>.\<close>

fun search_visits :: "dns_lib \<Rightarrow> string \<Rightarrow> tnode \<Rightarrow> nat" where
  "search_visits D q NilNode = 0"
| "search_visits D q (Node eo l r c) = Suc
     (case Less D eo q of
        Panic msg \<Rightarrow> 0
      | Ret (k, e) \<Rightarrow> if k = 0 then 0 else if k < 0 then search_visits D q l else search_visits D q r)"

lemma visits_height: "search_visits D q n \<le> height n"
  by (induction n) (auto simp del: Less.simps split: outcome.splits)

lemma height_bheight: "invc n \<Longrightarrow> invh n \<Longrightarrow> height n \<le> 2 * bheight n + (if color n = red then 1 else 0)"
  by (induction n) (auto split: if_splits)

lemma bheight_nodes: "invh n \<Longrightarrow> 2 ^ bheight n \<le> nodes n + 1"
proof (induction n)
  case (Node eo l r c)
  then have "2 ^ bheight l \<le> nodes l + 1" "2 ^ bheight l \<le> nodes r + 1" by auto
  then show ?case by auto
qed simp

lemma llrb_height: "llrb n \<Longrightarrow> 2 ^ height n \<le> (nodes n + 1)\<^sup>2"
proof -
  assume n: "llrb n"
  then have "height n \<le> 2 * bheight n" using height_bheight [of n] by (auto simp: llrb_def)
  then have "(2::nat) ^ height n \<le> 2 ^ (2 * bheight n)" by (rule power_increasing) simp
  also have "\<dots> = (2 ^ bheight n)\<^sup>2" by (simp add: power_mult mult.commute)
  also have "\<dots> \<le> (nodes n + 1)\<^sup>2" using n bheight_nodes [of n] by (intro power_mono) (auto simp: llrb_def)
  finally show ?thesis .
qed

section \<open>Walks\<close>

text \<open>A walk applies the function to the elements in order and stops at the first error.\<close>

fun walk_list :: "(Elem \<Rightarrow> rrmap \<Rightarrow> 's \<Rightarrow> go_err \<times> 's) \<Rightarrow> Elem list \<Rightarrow> 's \<Rightarrow> go_err \<times> 's" where
  "walk_list fn [] s = (None, s)"
| "walk_list fn (e # es) s =
     (case fn e (e_m e) s of (Some err, s) \<Rightarrow> (Some err, s) | (None, s) \<Rightarrow> walk_list fn es s)"

lemma walk_list_append:
  "walk_list fn (xs @ ys) s = (case walk_list fn xs s of (Some err, s) \<Rightarrow> (Some err, s) | (None, s) \<Rightarrow> walk_list fn ys s)"
  by (induction xs arbitrary: s) (auto split: prod.splits option.splits)

lemma node_walk_list:
  "elems n = map Some es \<Longrightarrow> node_walk fn n s = Ret (walk_list fn es s)"
proof (induction n arbitrary: es s)
  case NilNode
  then show ?case by simp
next
  case (Node eo l r c)
  then obtain xs ys e where es: "es = xs @ e # ys" "elems l = map Some xs" "elems r = map Some ys" "eo = Some e"
    by (auto simp: append_eq_map_conv Cons_eq_map_conv dest!: sym [of _ "map Some es"])
  from Node.IH(1) [OF es(2)] Node.IH(2) [OF es(3)] show ?case
    by (auto simp: es walk_list_append split: prod.splits option.splits)
qed

section \<open>Properties\<close>

definition demo_dns :: dns_lib where
  "demo_dns = \<lparr>dPrevLabel = dots_PrevLabel, dNextLabel = (\<lambda>s i. (length s, True)),
     dIsSubDomain = (\<lambda>p c. strings_HasSuffix c p), dRange = (\<lambda>m t. 0)\<rparr>"

lemma demo_dns_laws: "PrevLabel_laws (dPrevLabel demo_dns)"
  by (simp add: demo_dns_def dots_PrevLabel_laws)

interpretation dots: zone_names demo_dns
  by unfold_locales (rule demo_dns_laws)

definition a_record :: "string \<Rightarrow> RR" where
  "a_record name = \<lparr>rr_Name = name, rr_Rrtype = 1, rr_Class = 1, rr_Ttl = 300, rr_data = Rdata ''10.0.0.1''\<rparr>"

lemma fmdrop_single: "fmdrop k (fmupd k v fmempty) = fmempty"
  by (rule fmap_ext) simp

lemma demo_keys:
  "dkey demo_dns ''a.org.'' = [''org.'', ''a.'']" "dkey demo_dns ''b.org.'' = [''org.'', ''b.'']"
  by code_simp+

text \<open>
  C3. The tree implements a finite map from names to resource records: whatever sequence of
  insertions, deletions, searches and deletions of the smallest or greatest name is run from an empty
  tree, no operation panics, every search answers the records the map holds for the name, and the
  tree ends with exactly the contents of the map, in a balanced tree with the right count.
\<close>

theorem zone_tree_refines:
  assumes "PrevLabel_laws (dPrevLabel D)"
  shows "\<exists>t. run_tree D ops empty_tree = Ret (t, snd (run_zone D ops (\<lambda>k. None)))
    \<and> zone_of D t = fst (run_zone D ops (\<lambda>k. None)) \<and> zone_ok D t"
  using zone_names.run_refines [OF zone_names.intro [OF assms] zone_ok_empty(1), of ops] zone_ok_empty(2) by auto

theorem zone_tree_refines_witness:
  "\<exists>t. run_tree demo_dns [Ins (a_record ''a.org.''), Ins (a_record ''b.org.''), Del (a_record ''a.org.''),
      Find ''a.org.'', Find ''b.org.''] empty_tree
    = Ret (t, [None, None, None, None, Some (fmupd 1 [a_record ''b.org.''] fmempty)])"
  using zone_tree_refines [OF demo_dns_laws, of "[Ins (a_record ''a.org.''), Ins (a_record ''b.org.''),
      Del (a_record ''a.org.''), Find ''a.org.'', Find ''b.org.'']"]
  by (auto simp: a_record_def zone_insert_def zone_delete_def Let_def demo_keys fmdrop_single)

text \<open>
  C32. A search visits at most about twice the logarithm of the number of names: in any tree built by
  operations from an empty one, two to the number of nodes visited is at most the square of the
  number of names plus one.
\<close>

theorem zone_search_logarithmic:
  assumes "PrevLabel_laws (dPrevLabel D)" and "run_tree D ops empty_tree = Ret (t, as)"
  shows "2 ^ search_visits D q (Root t) \<le> (nat (Tree_Len t) + 1)\<^sup>2"
proof -
  have t: "zone_ok D t"
    using zone_names.run_refines [OF zone_names.intro [OF assms(1)] zone_ok_empty(1), of ops] assms(2) by auto
  have "(2::nat) ^ search_visits D q (Root t) \<le> 2 ^ height (Root t)"
    by (rule power_increasing [OF visits_height]) simp
  also have "\<dots> \<le> (nodes (Root t) + 1)\<^sup>2" using t by (intro llrb_height) (simp add: zone_ok_def)
  finally show ?thesis using t by (simp add: zone_ok_def Tree_Len_def length_elems)
qed

definition demo_ops :: "zone_op list" where
  "demo_ops = [Ins (a_record ''a.org.''), Ins (a_record ''b.org.'')]"

definition demo_tree :: Tree where
  "demo_tree = (case run_tree demo_dns demo_ops empty_tree of Ret (t, as) \<Rightarrow> t | Panic msg \<Rightarrow> empty_tree)"

lemma demo_tree_run: "run_tree demo_dns demo_ops empty_tree = Ret (demo_tree, [None, None])"
  and demo_tree_zone: "zone_ok demo_dns demo_tree"
    "contents demo_dns (Root demo_tree) = [([''org.'', ''a.''], fmupd 1 [a_record ''a.org.''] fmempty),
       ([''org.'', ''b.''], fmupd 1 [a_record ''b.org.''] fmempty)]"
proof -
  obtain t where t: "run_tree demo_dns demo_ops empty_tree = Ret (t, [None, None])" "zone_ok demo_dns t"
    using dots.run_refines [OF zone_ok_empty(1), of demo_ops]
    by (auto simp: demo_ops_def zone_ok_empty zone_insert_def Let_def demo_keys)
  then have eq: "demo_tree = t" by (simp add: demo_tree_def)
  from t show "run_tree demo_dns demo_ops empty_tree = Ret (demo_tree, [None, None])" "zone_ok demo_dns demo_tree"
    by (simp_all add: eq)
  show "contents demo_dns (Root demo_tree) = [([''org.'', ''a.''], fmupd 1 [a_record ''a.org.''] fmempty),
       ([''org.'', ''b.''], fmupd 1 [a_record ''b.org.''] fmempty)]"
    unfolding demo_tree_def demo_ops_def by code_simp
qed

theorem zone_search_logarithmic_witness:
  "2 ^ search_visits demo_dns ''b.org.'' (Root demo_tree) \<le> (nat (Tree_Len demo_tree) + 1)\<^sup>2"
  using zone_search_logarithmic [OF demo_dns_laws demo_tree_run, of "''b.org.''"] by simp

lemma last_entry_greatest:
  assumes "sorted_keys ps" and "map_option entry' x = last_entry (filter (\<lambda>p. fst p \<le> k) ps)"
  shows "case x of None \<Rightarrow> \<forall>a \<in> fst ` set ps. k < a
    | Some e \<Rightarrow> fst (entry' e) \<in> fst ` set ps \<and> fst (entry' e) \<le> k
        \<and> (\<forall>a \<in> fst ` set ps. a \<le> k \<longrightarrow> a \<le> fst (entry' e))"
proof (cases "filter (\<lambda>p. fst p \<le> k) ps" rule: rev_cases)
  case Nil
  with assms(2) have "x = None" by simp
  with Nil show ?thesis by (auto simp: filter_empty_conv not_le)
next
  case (snoc qs q)
  with assms(2) obtain e where e: "x = Some e" "entry' e = q" by auto
  have "q \<in> set (filter (\<lambda>p. fst p \<le> k) ps)" unfolding snoc by simp
  then have q: "q \<in> set ps" "fst q \<le> k" by simp_all
  have "sorted_keys (qs @ [q])" unfolding snoc [symmetric] using assms(1) by (simp add: sorted_wrt_map sorted_wrt_filter)
  then have "\<forall>p' \<in> set (qs @ [q]). fst p' \<le> fst q" by (auto simp: sorted_wrt_append intro: less_imp_le)
  then have "\<forall>p' \<in> set ps. fst p' \<le> k \<longrightarrow> fst p' \<le> fst q" unfolding snoc [symmetric] by force
  with e q show ?thesis by simp
qed

lemma first_entry_least:
  assumes "sorted_keys ps" and "map_option entry' x = first_entry (filter (\<lambda>p. k \<le> fst p) ps)"
  shows "case x of None \<Rightarrow> \<forall>a \<in> fst ` set ps. a < k
    | Some e \<Rightarrow> fst (entry' e) \<in> fst ` set ps \<and> k \<le> fst (entry' e)
        \<and> (\<forall>a \<in> fst ` set ps. k \<le> a \<longrightarrow> fst (entry' e) \<le> a)"
proof (cases "filter (\<lambda>p. k \<le> fst p) ps")
  case Nil
  with assms(2) have "x = None" by simp
  with Nil show ?thesis by (auto simp: filter_empty_conv not_le)
next
  case (Cons q qs)
  with assms(2) obtain e where e: "x = Some e" "entry' e = q" by auto
  have "q \<in> set (filter (\<lambda>p. k \<le> fst p) ps)" unfolding Cons by simp
  then have q: "q \<in> set ps" "k \<le> fst q" by simp_all
  have "sorted_keys (q # qs)" unfolding Cons [symmetric] using assms(1) by (simp add: sorted_wrt_map sorted_wrt_filter)
  then have "\<forall>p' \<in> set (q # qs). fst q \<le> fst p'" by (auto intro: less_imp_le)
  then have "\<forall>p' \<in> set ps. k \<le> fst p' \<longrightarrow> fst q \<le> fst p'" unfolding Cons [symmetric] by force
  with e q show ?thesis by simp
qed

text \<open>
  \<open>Prev\<close> and \<open>Next\<close> find the nearest names: the greatest name up to the one asked for and
  the smallest from it on, in the order of the zone, and report nothing exactly when there is
  none. Neither changes the contents of the zone.
\<close>

theorem zone_neighbours:
  assumes "PrevLabel_laws (dPrevLabel D)" and "zone_ok D t"
  shows "(\<exists>t' p. Tree_Prev D t q = Ret (t', p, p \<noteq> None) \<and> zone_of D t' = zone_of D t
      \<and> (case p of None \<Rightarrow> \<forall>k \<in> dom (zone_of D t). dkey D q < k
         | Some e \<Rightarrow> ekey D e \<in> dom (zone_of D t) \<and> ekey D e \<le> dkey D q
             \<and> (\<forall>k \<in> dom (zone_of D t). k \<le> dkey D q \<longrightarrow> k \<le> ekey D e)))
    \<and> (\<exists>t' p. Tree_Next D t q = Ret (t', p, p \<noteq> None) \<and> zone_of D t' = zone_of D t
      \<and> (case p of None \<Rightarrow> \<forall>k \<in> dom (zone_of D t). k < dkey D q
         | Some e \<Rightarrow> ekey D e \<in> dom (zone_of D t) \<and> dkey D q \<le> ekey D e
             \<and> (\<forall>k \<in> dom (zone_of D t). dkey D q \<le> k \<longrightarrow> ekey D e \<le> k)))"
proof -
  let ?ps = "contents D (Root t)"
  have ok: "elems_ok D (Root t)" "sorted_keys ?ps" using assms(2) by (simp_all add: zone_ok_def)
  have dom: "dom (zone_of D t) = fst ` set ?ps" by (simp add: zone_of_def dom_map_of_conv_image_fst)
  note zn = zone_names.intro [OF assms(1)]
  obtain m p where m: "node_floor D q (Root t) = Ret (m, p)" "contents D m = ?ps"
    "map_option (\<lambda>e. entry D (Some e)) p = last_entry (filter (\<lambda>p. fst p \<le> dkey D q) ?ps)"
    using zone_names.floor_ok [OF zn ok, of q] by auto
  obtain m' p' where m': "node_ceil D q (Root t) = Ret (m', p')" "contents D m' = ?ps"
    "map_option (\<lambda>e. entry D (Some e)) p' = first_entry (filter (\<lambda>p. dkey D q \<le> fst p) ?ps)"
    using zone_names.ceil_ok [OF zn ok, of q] by auto
  note prev = last_entry_greatest [OF ok(2) m(3)] and nxt = first_entry_least [OF ok(2) m'(3)]
  note prev = prev [unfolded entry.simps fst_conv] and nxt = nxt [unfolded entry.simps fst_conv]
  have "Tree_Prev D t q = Ret (t\<lparr>Root := m\<rparr>, p, p \<noteq> None)" "Tree_Next D t q = Ret (t\<lparr>Root := m'\<rparr>, p', p' \<noteq> None)"
    using m(1) m'(1) by (auto simp: Tree_Prev_def Tree_Next_def)
  moreover have "zone_of D (t\<lparr>Root := m\<rparr>) = zone_of D t" "zone_of D (t\<lparr>Root := m'\<rparr>) = zone_of D t"
    using m(2) m'(2) by (simp_all add: zone_of_def)
  ultimately show ?thesis
    unfolding dom using prev nxt by blast
qed

theorem zone_neighbours_witness:
  "\<exists>t' p. Tree_Prev demo_dns demo_tree ''b.org.'' = Ret (t', p, p \<noteq> None) \<and> zone_of demo_dns t' = zone_of demo_dns demo_tree"
  using zone_neighbours [OF demo_dns_laws demo_tree_zone(1), of "''b.org.''"] by blast

text \<open>
  \<open>All\<close> lists every name of the zone exactly once, in the order of the zone, and
  \<open>Walk\<close> calls its function on these elements in this order, stopping at the first error.
\<close>

theorem zone_walk_sorted:
  assumes "zone_ok D t"
  shows "\<exists>es. Tree_All t = map Some es \<and> sorted_wrt (<) (map (ekey D) es)
    \<and> zone_of D t = map_of (map (\<lambda>e. (ekey D e, e_m e)) es)
    \<and> Tree_Walk fn t s = Ret (walk_list fn es s)"
proof -
  have "\<forall>eo \<in> set (elems (Root t)). eo \<noteq> None" using assms by (auto simp: zone_ok_def elems_ok_def)
  then have es: "elems (Root t) = map Some (map the (elems (Root t)))" by (simp add: map_idI)
  have "contents D (Root t) = map (entry D) (map Some (map the (elems (Root t))))"
    unfolding contents_def using es by (rule arg_cong)
  then have "contents D (Root t) = map (\<lambda>e. (ekey D e, e_m e)) (map the (elems (Root t)))"
    by (simp add: comp_def)
  with assms es node_walk_list [OF es, of fn s] show ?thesis
    by (intro exI [of _ "map the (elems (Root t))"])
      (simp add: Tree_All_def node_all_elems zone_ok_def zone_of_def Tree_Walk_def comp_def)
qed

theorem zone_walk_sorted_witness:
  "\<exists>es. Tree_All demo_tree = map Some es \<and> Tree_Walk (\<lambda>e m n. (None, n + 1)) demo_tree (0::nat) =
     Ret (walk_list (\<lambda>e m n. (None, n + 1)) es 0)"
  using zone_walk_sorted [OF demo_tree_zone(1), of "\<lambda>e m n. (None, n + 1)" "0::nat"] by blast

end
