(* ===== verification/ZoneLookup.thy ===== *)
theory ZoneLookup
  imports ZoneTree
begin

text \<open>
  A zone of the DNS server and the lookup of a name in it (\<open>coredns/plugin/file\<close>: \<open>zone.go\<close>,
  \<open>lookup.go\<close>, \<open>closest.go\<close>, \<open>wildcard.go\<close>, \<open>dname.go\<close>, the query part of \<open>file.go\<close>,
  \<open>rrutil/util.go\<close>, and \<open>plugin/normalize.go\<close>, \<open>plugin/pkg/dnsutil/join.go\<close>).

  Every search may note the name of an element in the tree, so an operation is a function from the
  tree to the new tree and a result (\<open>zop\<close>), composed with \<open>zbind\<close>. The name functions of miekg/dns
  are parameters (\<open>dns_lib\<close>, \<open>name_lib\<close>), and so is the upstream resolver. The locks are held
  around single reads and are left out, as are the file name and the settings of reloading.
\<close>

section \<open>Operations on the tree\<close>

type_synonym 'a zop = "Tree \<Rightarrow> (Tree \<times> 'a) outcome"

definition zret :: "'a \<Rightarrow> 'a zop" where
  "zret a = (\<lambda>t. Ret (t, a))"

definition zpanic :: "string \<Rightarrow> 'a zop" where
  "zpanic msg = (\<lambda>t. Panic msg)"

definition zbind :: "'a zop \<Rightarrow> ('a \<Rightarrow> 'b zop) \<Rightarrow> 'b zop" where
  "zbind f g = (\<lambda>t. go_bind (f t) (\<lambda>(t, a). g a t))"

definition zsearch :: "dns_lib \<Rightarrow> string \<Rightarrow> (Elem option \<times> bool) zop" where
  "zsearch D name = (\<lambda>t. Tree_Search D t name)"

definition zprev :: "dns_lib \<Rightarrow> string \<Rightarrow> (Elem option \<times> bool) zop" where
  "zprev D name = (\<lambda>t. Tree_Prev D t name)"

definition znext :: "dns_lib \<Rightarrow> string \<Rightarrow> (Elem option \<times> bool) zop" where
  "znext D name = (\<lambda>t. Tree_Next D t name)"

definition zglue :: "dns_lib \<Rightarrow> RR list \<Rightarrow> bool \<Rightarrow> RR list zop" where
  "zglue D nsrrs dnssec = (\<lambda>t. Tree_Glue D t nsrrs dnssec)"

text \<open>
  The name of an element that a search returned: the search has asked for it before, so the tree holds
  it already.
\<close>

definition zname :: "dns_lib \<Rightarrow> Elem \<Rightarrow> string zop" where
  "zname D e = (\<lambda>t. go_bind (Elem_Name D e) (\<lambda>(n, e). Ret (t, n)))"

section \<open>Zones\<close>

abbreviation (input) "TypeCNAME \<equiv> (5 :: u16)"
abbreviation (input) "TypeSOA \<equiv> (6 :: u16)"
abbreviation (input) "TypeMX \<equiv> (15 :: u16)"
abbreviation (input) "TypeSRV \<equiv> (33 :: u16)"
abbreviation (input) "TypeDNAME \<equiv> (39 :: u16)"
abbreviation (input) "TypeDS \<equiv> (43 :: u16)"
abbreviation (input) "TypeNSEC \<equiv> (47 :: u16)"
abbreviation (input) "TypeNSEC3 \<equiv> (50 :: u16)"
abbreviation (input) "TypeNSEC3PARAM \<equiv> (51 :: u16)"

record name_lib =
  nl_CountLabel :: "string \<Rightarrow> nat"
  nl_SplitDomainName :: "string \<Rightarrow> string list"
  nl_Fqdn :: "string \<Rightarrow> string"

record Apex =
  ap_SOA :: "RR option"
  ap_NS :: "RR list"
  ap_SIGSOA :: "RR list"
  ap_SIGNS :: "RR list"

definition empty_Apex :: Apex where
  "empty_Apex = \<lparr>ap_SOA = None, ap_NS = [], ap_SIGSOA = [], ap_SIGNS = []\<rparr>"

record Zone =
  z_origin :: string
  z_origLen :: nat
  z_Tree :: Tree
  z_Apex :: Apex
  z_Expired :: bool
  z_TransferFrom :: "string list"

definition NewZone :: "name_lib \<Rightarrow> string \<Rightarrow> Zone" where
  "NewZone N name =
     \<lparr>z_origin = nl_Fqdn N name, z_origLen = nl_CountLabel N (nl_Fqdn N name), z_Tree = \<lparr>Root = NilNode, Count = 0\<rparr>,
      z_Apex = empty_Apex, z_Expired = False, z_TransferFrom = []\<rparr>"

definition Zone_Copy :: "name_lib \<Rightarrow> Zone \<Rightarrow> Zone" where
  "Zone_Copy N z =
     (NewZone N (z_origin z))\<lparr>z_TransferFrom := z_TransferFrom z, z_Expired := z_Expired z, z_Apex := z_Apex z\<rparr>"

definition CopyWithoutApex :: "name_lib \<Rightarrow> Zone \<Rightarrow> Zone" where
  "CopyWithoutApex N z = (NewZone N (z_origin z))\<lparr>z_TransferFrom := z_TransferFrom z, z_Expired := z_Expired z\<rparr>"

text \<open>\<open>strings.ToLower\<close> on ASCII text.\<close>

definition lower_char :: "char \<Rightarrow> char" where
  "lower_char c = (let n = of_char c :: nat in if 65 \<le> n \<and> n \<le> 90 then char_of (n + 32) else c)"

definition strings_ToLower :: "string \<Rightarrow> string" where
  "strings_ToLower s = map lower_char s"

definition conversion :: "'a outcome" where
  "conversion = Panic ''interface conversion''"

definition tree_insert :: "dns_lib \<Rightarrow> RR \<Rightarrow> Zone \<Rightarrow> (go_err \<times> Zone) outcome" where
  "tree_insert D r z = go_bind (Tree_Insert D (z_Tree z) r) (\<lambda>t. Ret (None, z\<lparr>z_Tree := t\<rparr>))"

definition Zone_Insert :: "dns_lib \<Rightarrow> RR \<Rightarrow> Zone \<Rightarrow> (go_err \<times> Zone) outcome" where
  "Zone_Insert D r z =
     (let r = r\<lparr>rr_Name := strings_ToLower (rr_Name r)\<rparr>; ap = z_Apex z; h = rr_Rrtype r in
      if h = TypeNS then
        (case rr_data r of
           NS ns \<Rightarrow>
             (let r = r\<lparr>rr_data := NS (strings_ToLower ns)\<rparr>
              in if rr_Name r = z_origin z then Ret (None, z\<lparr>z_Apex := ap\<lparr>ap_NS := ap_NS ap @ [r]\<rparr>\<rparr>)
                 else tree_insert D r z)
         | _ \<Rightarrow> conversion)
      else if h = TypeSOA then
        (case rr_data r of
           SOA ns mbox serial \<Rightarrow>
             Ret (None, z\<lparr>z_Apex := ap\<lparr>ap_SOA := Some (r\<lparr>rr_data := SOA (strings_ToLower ns) (strings_ToLower mbox) serial\<rparr>)\<rparr>\<rparr>)
         | _ \<Rightarrow> conversion)
      else if h = TypeNSEC3 \<or> h = TypeNSEC3PARAM then
        Ret (Some (''NSEC3 zone is not supported, dropping RR: '' @ rr_Name r @ '' for zone: '' @ z_origin z), z)
      else if h = TypeRRSIG then
        (case rr_data r of
           RRSIG covered \<Rightarrow>
             if covered = TypeSOA then Ret (None, z\<lparr>z_Apex := ap\<lparr>ap_SIGSOA := ap_SIGSOA ap @ [r]\<rparr>\<rparr>)
             else if covered = TypeNS \<and> rr_Name r = z_origin z
                  then Ret (None, z\<lparr>z_Apex := ap\<lparr>ap_SIGNS := ap_SIGNS ap @ [r]\<rparr>\<rparr>)
             else tree_insert D r z
         | _ \<Rightarrow> conversion)
      else if h = TypeCNAME then
        (case rr_data r of CNAME x \<Rightarrow> tree_insert D (r\<lparr>rr_data := CNAME (strings_ToLower x)\<rparr>) z | _ \<Rightarrow> conversion)
      else if h = TypeMX then
        (case rr_data r of MX x \<Rightarrow> tree_insert D (r\<lparr>rr_data := MX (strings_ToLower x)\<rparr>) z | _ \<Rightarrow> conversion)
      else if h = TypeSRV then
        (case rr_data r of SRV x \<Rightarrow> tree_insert D (r\<lparr>rr_data := SRV (strings_ToLower x)\<rparr>) z | _ \<Rightarrow> conversion)
      else tree_insert D r z)"

definition ApexIfDefined :: "Zone \<Rightarrow> string + RR list" where
  "ApexIfDefined z =
     (let ap = z_Apex z in
      case ap_SOA ap of
        None \<Rightarrow> Inl ''no SOA''
      | Some soa \<Rightarrow> Inr (soa # ap_SIGSOA ap @ ap_NS ap @ ap_SIGNS ap))"

definition slice_from :: "string \<Rightarrow> nat \<Rightarrow> string outcome" where
  "slice_from s k = (if length s < k then Panic ''slice bounds out of range'' else Ret (drop k s))"

definition nameFromRight :: "dns_lib \<Rightarrow> Zone \<Rightarrow> string \<Rightarrow> nat \<Rightarrow> (string \<times> bool) outcome" where
  "nameFromRight D z qname i =
     (if i = 0 then Ret (z_origin z, False)
      else if list_ex (\<lambda>j. snd (dPrevLabel D qname j)) [1..<z_origLen z + 1] then Ret (qname, True)
      else if list_ex (\<lambda>j. snd (dPrevLabel D qname (j + z_origLen z))) [1..<i + 1] then Ret (qname, True)
      else go_bind (slice_from qname (fst (dPrevLabel D qname (i + z_origLen z)))) (\<lambda>s. Ret (s, False)))"

definition replaceWithAsteriskLabel :: "dns_lib \<Rightarrow> string \<Rightarrow> string outcome" where
  "replaceWithAsteriskLabel D qname =
     (let (i, shot) = dNextLabel D qname 0 in
      if shot then Ret '''' else go_bind (slice_from qname i) (\<lambda>s. Ret (''*.'' @ s)))"

section \<open>Names that are substituted\<close>

definition dnsutil_Join :: "name_lib \<Rightarrow> string list \<Rightarrow> string outcome" where
  "dnsutil_Join N labels =
     (if labels = [] then Panic ''index out of range''
      else if last labels = ''.'' then Ret (strings_Join (butlast labels) ''.'' @ ''.'')
      else Ret (nl_Fqdn N (strings_Join labels ''.'')))"

definition substituteDNAME :: "dns_lib \<Rightarrow> name_lib \<Rightarrow> string \<Rightarrow> string \<Rightarrow> string \<Rightarrow> string outcome" where
  "substituteDNAME D N qname owner target =
     (if dIsSubDomain D owner qname \<and> qname \<noteq> owner then
        (let labels = nl_SplitDomainName N qname; c = nl_CountLabel N owner in
         if length labels < c then Panic ''slice bounds out of range''
         else dnsutil_Join N (take (length labels - c) labels @ nl_SplitDomainName N target))
      else Ret '''')"

definition synthesizeCNAME :: "dns_lib \<Rightarrow> name_lib \<Rightarrow> string \<Rightarrow> RR \<Rightarrow> RR option outcome" where
  "synthesizeCNAME D N qname d =
     (case rr_data d of
        DNAME t \<Rightarrow>
          go_bind (substituteDNAME D N qname (rr_Name d) t) (\<lambda>target.
          Ret (if target = '''' then None
               else Some \<lparr>rr_Name = qname, rr_Rrtype = TypeCNAME, rr_Class = 1, rr_Ttl = rr_Ttl d, rr_data = CNAME target\<rparr>))
      | _ \<Rightarrow> conversion)"

definition CNAMEForType :: "RR list \<Rightarrow> u16 \<Rightarrow> RR list" where
  "CNAMEForType rrs qtype = filter (\<lambda>rr. rr_Rrtype rr = qtype) rrs"

section \<open>Lookup\<close>

datatype Result = Success | NameError | Delegation | NoData | ServerFailure

type_synonym sections = "RR list \<times> RR list \<times> RR list \<times> Result"

text \<open>
  The question: \<open>q_Name\<close> is \<open>state.Name()\<close>, the name in lower case, \<open>q_Do\<close> the DNSSEC bit. The
  upstream resolver gives the answer section for a name, or \<open>None\<close> for an error or no message.
\<close>

record question =
  q_Name :: string
  q_Type :: u16
  q_Do :: bool

type_synonym upstream = "string \<Rightarrow> u16 \<Rightarrow> RR list option"

definition typeFromElem :: "Elem \<Rightarrow> u16 \<Rightarrow> bool \<Rightarrow> RR list" where
  "typeFromElem elem tp dnssec =
     Elem_Type elem tp @ (if dnssec then SubTypeSignature (Elem_Type elem TypeRRSIG) tp else [])"

text \<open>\<open>soa\<close> is called only when there is a SOA record.\<close>

definition apex_soa :: "Apex \<Rightarrow> bool \<Rightarrow> RR list" where
  "apex_soa a dnssec = (case ap_SOA a of None \<Rightarrow> [] | Some soa \<Rightarrow> [soa]) @ (if dnssec then ap_SIGSOA a else [])"

definition apex_ns :: "Apex \<Rightarrow> bool \<Rightarrow> RR list" where
  "apex_ns a dnssec = ap_NS a @ (if dnssec then ap_SIGNS a else [])"

definition doLookup :: "upstream \<Rightarrow> string \<Rightarrow> u16 \<Rightarrow> RR list" where
  "doLookup up target qtype = (case up target qtype of None \<Rightarrow> [] | Some answer \<Rightarrow> answer)"

definition cname_target :: "RR list \<Rightarrow> string zop" where
  "cname_target rrs =
     (case rrs of
        [] \<Rightarrow> zpanic ''index out of range''
      | rr # _ \<Rightarrow> (case rr_data rr of CNAME x \<Rightarrow> zret x | _ \<Rightarrow> zpanic ''interface conversion''))"

text \<open>
  The label \<open>Redo\<close>: follows the aliases inside of the zone. \<open>left\<close> is \<open>8 - i\<close>.
\<close>

fun externalLookup_redo ::
  "dns_lib \<Rightarrow> upstream \<Rightarrow> Apex \<Rightarrow> question \<Rightarrow> nat \<Rightarrow> Elem \<Rightarrow> RR list \<Rightarrow> sections zop" where
  "externalLookup_redo D up ap q left elem rrs =
     (let cname = Elem_Type elem TypeCNAME in
      if cname \<noteq> [] then
        (let rrs = rrs @ cname @ (if q_Do q then SubTypeSignature (Elem_Type elem TypeRRSIG) TypeCNAME else []) in
         zbind (cname_target cname) (\<lambda>targetName.
         zbind (zsearch D targetName) (\<lambda>(elem, found).
         case elem of
           None \<Rightarrow> zret (rrs @ doLookup up targetName (q_Type q), apex_ns ap (q_Do q), [], Success)
         | Some elem \<Rightarrow>
             (case left of
                0 \<Rightarrow> zret (rrs, apex_ns ap (q_Do q), [], Success)
              | Suc n \<Rightarrow> externalLookup_redo D up ap q n elem rrs))))
      else
        (let targets = CNAMEForType (Elem_All D elem) (q_Type q) in
         zret (rrs @ (if targets \<noteq> [] then targets @
                        (if q_Do q then SubTypeSignature (Elem_Type elem TypeRRSIG) (q_Type q) else [])
                      else []),
               apex_ns ap (q_Do q), [], Success)))"

declare externalLookup_redo.simps [simp del]

definition externalLookup ::
  "dns_lib \<Rightarrow> upstream \<Rightarrow> Apex \<Rightarrow> question \<Rightarrow> Elem \<Rightarrow> RR list \<Rightarrow> sections zop" where
  "externalLookup D up ap q elem rrs =
     (let rrs = rrs @ (if q_Do q then SubTypeSignature (Elem_Type elem TypeRRSIG) TypeCNAME else []) in
      zbind (cname_target rrs) (\<lambda>targetName.
      zbind (zsearch D targetName) (\<lambda>(elem, found).
      case elem of
        None \<Rightarrow> zret (rrs @ doLookup up targetName (q_Type q), apex_ns ap (q_Do q), [], Success)
      | Some elem \<Rightarrow> externalLookup_redo D up ap q 8 elem rrs)))"

text \<open>The addresses of an element for the additional section.\<close>

definition addresses_of :: "Elem \<Rightarrow> bool \<Rightarrow> RR list" where
  "addresses_of elem dnssec =
     concat (map (\<lambda>addr. if gm_has (e_m elem) addr
                         then Elem_Type elem addr @
                              (if dnssec then SubTypeSignature (Elem_Type elem TypeRRSIG) addr else [])
                         else []) [TypeA, TypeAAAA])"

fun additionalProcessing :: "dns_lib \<Rightarrow> string \<Rightarrow> RR list \<Rightarrow> bool \<Rightarrow> RR list zop" where
  "additionalProcessing D origin [] dnssec = zret []"
| "additionalProcessing D origin (rr # answer) dnssec =
     (let name = (case rr_data rr of SRV x \<Rightarrow> x | MX x \<Rightarrow> x | _ \<Rightarrow> '''') in
      if name = '''' \<or> \<not> dIsSubDomain D origin name then additionalProcessing D origin answer dnssec
      else zbind (zsearch D name) (\<lambda>(elem, found).
           zbind (additionalProcessing D origin answer dnssec) (\<lambda>extra.
           zret ((case elem of None \<Rightarrow> [] | Some e \<Rightarrow> addresses_of e dnssec) @ extra))))"

text \<open>
  \<open>ClosestEncloser\<close>; \<open>None\<close> when the fuel runs out. Each turn drops at least a byte of the name.
\<close>

fun closest_loop :: "dns_lib \<Rightarrow> string \<Rightarrow> nat \<Rightarrow> nat \<Rightarrow> bool \<Rightarrow> string \<Rightarrow> (Elem option \<times> bool) option zop" where
  "closest_loop D origin 0 offset atend qname = zret None"
| "closest_loop D origin (Suc fuel) offset atend qname =
     (if atend then zbind (zsearch D origin) (\<lambda>res. zret (Some res))
      else zbind (zsearch D qname) (\<lambda>(elem, found).
           if elem \<noteq> None then zret (Some (elem, True))
           else zbind (\<lambda>t. go_bind (slice_from qname offset) (\<lambda>s. Ret (t, s))) (\<lambda>qname.
                let (offset, atend) = dNextLabel D qname offset
                in closest_loop D origin fuel offset atend qname)))"

definition ClosestEncloser :: "dns_lib \<Rightarrow> string \<Rightarrow> string \<Rightarrow> (Elem option \<times> bool) option zop" where
  "ClosestEncloser D origin qname =
     (let (offset, atend) = dNextLabel D qname 0 in closest_loop D origin (length qname + 2) offset atend qname)"

text \<open>
  The main loop of \<open>Lookup\<close>: label by label from the right. It ends with an answer, or overshoots the
  name with what it has found last and the wildcard kept; \<open>None\<close> when the fuel runs out.
\<close>

datatype lookup_end = Stopped sections | Overshot "Elem option" bool "Elem option"

definition dname_answer ::
  "dns_lib \<Rightarrow> name_lib \<Rightarrow> upstream \<Rightarrow> Apex \<Rightarrow> question \<Rightarrow> Elem \<Rightarrow> sections option zop" where
  "dname_answer D N up ap q elem =
     (case fmlookup (e_m elem) TypeDNAME of
        None \<Rightarrow> zret None
      | Some [] \<Rightarrow> zpanic ''index out of range''
      | Some (dname # others) \<Rightarrow>
          zbind (\<lambda>t. go_bind (synthesizeCNAME D N (q_Name q) dname) (\<lambda>c. Ret (t, c))) (\<lambda>c.
          case c of
            None \<Rightarrow> zret None
          | Some cname \<Rightarrow>
              zbind (externalLookup D up ap q elem [cname]) (\<lambda>(answer, ns, extra, rcode).
              zret (Some ((dname # others) @
                          (if q_Do q then SubTypeSignature (Elem_Type elem TypeRRSIG) TypeDNAME else []) @ answer,
                          ns, extra, rcode)))))"

definition delegation_answer :: "dns_lib \<Rightarrow> question \<Rightarrow> Elem \<Rightarrow> sections zop" where
  "delegation_answer D q elem =
     (let nsrrs = Elem_Type elem TypeNS in
      zbind (zglue D nsrrs (q_Do q)) (\<lambda>glue.
      zret ([], nsrrs @ (if q_Do q then typeFromElem elem TypeDS (q_Do q) else []), glue, Delegation)))"

text \<open>What the loop does with an element that exists; \<open>None\<close> when it goes on.\<close>

definition lookup_found ::
  "dns_lib \<Rightarrow> name_lib \<Rightarrow> upstream \<Rightarrow> Apex \<Rightarrow> question \<Rightarrow> string \<Rightarrow> Elem \<Rightarrow> sections option zop" where
  "lookup_found D N up ap q qname elem =
     zbind (dname_answer D N up ap q elem) (\<lambda>res.
     case res of
       Some answer \<Rightarrow> zret (Some answer)
     | None \<Rightarrow>
         if gm_has (e_m elem) TypeNS then
           zbind (if q_Type q = TypeDS then zbind (zname D elem) (\<lambda>name. zret (name = qname)) else zret False) (\<lambda>here.
           if here then zret None else zbind (delegation_answer D q elem) (\<lambda>answer. zret (Some answer)))
         else zret None)"

fun lookup_loop ::
  "dns_lib \<Rightarrow> name_lib \<Rightarrow> upstream \<Rightarrow> Zone \<Rightarrow> question \<Rightarrow> string \<Rightarrow> nat \<Rightarrow> nat \<Rightarrow> Elem option \<Rightarrow> bool \<Rightarrow> Elem option
     \<Rightarrow> lookup_end option zop" where
  "lookup_loop D N up z q qname 0 i elem found wildElem = zret None"
| "lookup_loop D N up z q qname (Suc fuel) i elem found wildElem =
     zbind (\<lambda>t. go_bind (nameFromRight D z qname i) (\<lambda>res. Ret (t, res))) (\<lambda>(parts, shot).
     if shot then zret (Some (Overshot elem found wildElem))
     else zbind (zsearch D parts) (\<lambda>(elem, found).
          if \<not> found then
            zbind (\<lambda>t. go_bind (replaceWithAsteriskLabel D parts) (\<lambda>w. Ret (t, w))) (\<lambda>wildcard.
            zbind (zsearch D wildcard) (\<lambda>(wild, wfound).
            lookup_loop D N up z q qname fuel (i + 1) elem found (if wfound then wild else wildElem)))
          else
            (case elem of
               None \<Rightarrow> zpanic ''nil pointer dereference''
             | Some e \<Rightarrow>
                 zbind (lookup_found D N up (z_Apex z) q qname e) (\<lambda>res.
                 case res of
                   Some answer \<Rightarrow> zret (Some (Stopped answer))
                 | None \<Rightarrow> lookup_loop D N up z q qname fuel (i + 1) elem found wildElem))))"

text \<open>The entire name was found.\<close>

definition lookup_name ::
  "dns_lib \<Rightarrow> upstream \<Rightarrow> Zone \<Rightarrow> question \<Rightarrow> Elem \<Rightarrow> sections zop" where
  "lookup_name D up z q elem =
     (let ap = z_Apex z; cname = Elem_Type elem TypeCNAME; rrs = Elem_Type elem (q_Type q) in
      if cname \<noteq> [] \<and> q_Type q \<noteq> TypeCNAME then externalLookup D up ap q elem cname
      else if rrs = [] then
        zret ([], apex_soa ap (q_Do q) @ (if q_Do q then typeFromElem elem TypeNSEC (q_Do q) else []), [], NoData)
      else zbind (additionalProcessing D (z_origin z) rrs (q_Do q)) (\<lambda>additional.
           zret (rrs @ (if q_Do q then SubTypeSignature (Elem_Type elem TypeRRSIG) (q_Type q) else []),
                 apex_ns ap (q_Do q), additional, Success)))"

text \<open>The name was not found, but a wildcard.\<close>

definition lookup_wildcard ::
  "dns_lib \<Rightarrow> upstream \<Rightarrow> Zone \<Rightarrow> question \<Rightarrow> string \<Rightarrow> Elem \<Rightarrow> sections zop" where
  "lookup_wildcard D up z q qname wildElem =
     (let ap = z_Apex z; cname = TypeForWildcard wildElem TypeCNAME qname; rrs = TypeForWildcard wildElem (q_Type q) qname in
      if cname \<noteq> [] then externalLookup D up ap q wildElem cname
      else if rrs = [] then
        zret ([], apex_soa ap (q_Do q) @ (if q_Do q then typeFromElem wildElem TypeNSEC (q_Do q) else []), [], Success)
      else if q_Do q then
        zbind (zprev D qname) (\<lambda>(deny, found).
        zret (rrs @ SubTypeSignature (TypeForWildcard wildElem TypeRRSIG qname) (q_Type q),
              apex_ns ap True @ (if found then (case deny of None \<Rightarrow> [] | Some e \<Rightarrow> typeFromElem e TypeNSEC True) else []),
              [], Success))
      else zret (rrs, apex_ns ap False, [], Success))"

text \<open>The second NSEC record of a name error: it denies the wildcard.\<close>

definition wildcard_denial :: "dns_lib \<Rightarrow> Zone \<Rightarrow> string \<Rightarrow> Elem \<Rightarrow> RR list option zop" where
  "wildcard_denial D z qname deny =
     zbind (ClosestEncloser D (z_origin z) qname) (\<lambda>ce.
     case ce of
       None \<Rightarrow> zret None
     | Some (None, found) \<Rightarrow> if found then zpanic ''nil pointer dereference'' else zret (Some [])
     | Some (Some ce, found) \<Rightarrow>
         if found then
           zbind (zname D ce) (\<lambda>name.
           zbind (zprev D (''*.'' @ name)) (\<lambda>(ss, found).
           case ss of
             None \<Rightarrow> zret (Some [])
           | Some ss \<Rightarrow>
               if found then
                 zbind (zname D ss) (\<lambda>sname. zbind (zname D deny) (\<lambda>dname.
                 zret (Some (if sname \<noteq> dname then typeFromElem ss TypeNSEC True else []))))
               else zret (Some [])))
         else zret (Some []))"

text \<open>Neither the name nor a wildcard was found.\<close>

definition lookup_nothing :: "dns_lib \<Rightarrow> Zone \<Rightarrow> question \<Rightarrow> string \<Rightarrow> sections option zop" where
  "lookup_nothing D z q qname =
     zbind (znext D qname) (\<lambda>(x, found).
     zbind (case x of None \<Rightarrow> zret False
                    | Some x \<Rightarrow> if found then zbind (zname D x) (\<lambda>name. zret (dIsSubDomain D qname name)) else zret False) (\<lambda>longer.
     let rcode = (if longer then Success else NameError); ret = apex_soa (z_Apex z) (q_Do q) in
     if \<not> q_Do q then zret (Some ([], ret, [], rcode))
     else zbind (zprev D qname) (\<lambda>(deny, found).
          case deny of
            None \<Rightarrow> zret (Some ([], ret, [], rcode))
          | Some deny \<Rightarrow>
              if \<not> found then zret (Some ([], ret, [], rcode))
              else let ret = ret @ typeFromElem deny TypeNSEC True in
                   if rcode \<noteq> NameError then zret (Some ([], ret, [], rcode))
                   else zbind (wildcard_denial D z qname deny) (\<lambda>nsecs.
                        zret (map_option (\<lambda>ns. ([], ret @ ns, [], rcode)) nsecs)))))"

definition Zone_Lookup ::
  "dns_lib \<Rightarrow> name_lib \<Rightarrow> upstream \<Rightarrow> Zone \<Rightarrow> question \<Rightarrow> string \<Rightarrow> sections option zop" where
  "Zone_Lookup D N up z q qname =
     (let ap = z_Apex z in
      if ap_SOA ap = None then zret (Some ([], [], [], ServerFailure))
      else if qname = z_origin z \<and> q_Type q = TypeSOA then
        zret (Some (apex_soa ap (q_Do q), apex_ns ap (q_Do q), [], Success))
      else if qname = z_origin z \<and> q_Type q = TypeNS then
        zbind (zglue D (apex_ns ap (q_Do q)) (q_Do q)) (\<lambda>glue. zret (Some (apex_ns ap (q_Do q), [], glue, Success)))
      else
        zbind (lookup_loop D N up z q qname (length qname + 2) 0 None False None) (\<lambda>e.
        case e of
          None \<Rightarrow> zret None
        | Some (Stopped answer) \<Rightarrow> zret (Some answer)
        | Some (Overshot elem found wildElem) \<Rightarrow>
            if found then
              (case elem of None \<Rightarrow> zpanic ''nil pointer dereference''
                          | Some e \<Rightarrow> zbind (lookup_name D up z q e) (\<lambda>a. zret (Some a)))
            else (case wildElem of
                    Some w \<Rightarrow> zbind (lookup_wildcard D up z q qname w) (\<lambda>a. zret (Some a))
                  | None \<Rightarrow> lookup_nothing D z q qname)))"

section \<open>Loading and serving\<close>

text \<open>
  \<open>Parse\<close>: the zone parser of miekg/dns gives the records one by one, each with what \<open>Err\<close> says
  then; what \<open>Err\<close> says after the last one is never asked for.
\<close>

fun parse_loop ::
  "dns_lib \<Rightarrow> string \<Rightarrow> string \<Rightarrow> int \<Rightarrow> (RR \<times> go_err) list \<Rightarrow> bool \<Rightarrow> Zone \<Rightarrow> (string + Zone) outcome" where
  "parse_loop D origin fileName serial [] seenSOA z =
     Ret (if \<not> seenSOA
          then Inl (''file '' @ [CHR 34] @ fileName @ [CHR 34] @ '' has no SOA record for origin '' @ origin)
          else Inr z)"
| "parse_loop D origin fileName serial ((rr, err) # rest) seenSOA z =
     (case err of
        Some e \<Rightarrow> Ret (Inl e)
      | None \<Rightarrow>
          (let same = (case rr_data rr of SOA _ _ s \<Rightarrow> \<not> seenSOA \<and> serial \<ge> 0 \<and> s = word_of_int serial | _ \<Rightarrow> False);
               seenSOA = (seenSOA \<or> (case rr_data rr of SOA _ _ _ \<Rightarrow> True | _ \<Rightarrow> False))
           in if same then Ret (Inl (''no change in SOA serial for origin '' @ origin @ '' in file '' @ fileName
                                     @ '', with '' @ strconv_Itoa serial @ '' SOA serial''))
              else go_bind (Zone_Insert D rr z) (\<lambda>(err, z).
                   case err of
                     Some e \<Rightarrow> Ret (Inl e)
                   | None \<Rightarrow> parse_loop D origin fileName serial rest seenSOA z)))"

definition Zone_Parse ::
  "dns_lib \<Rightarrow> name_lib \<Rightarrow> string \<Rightarrow> string \<Rightarrow> int \<Rightarrow> (RR \<times> go_err) list \<Rightarrow> (string + Zone) outcome" where
  "Zone_Parse D N origin fileName serial records = parse_loop D origin fileName serial records False (NewZone N origin)"

definition Zones_Matches :: "dns_lib \<Rightarrow> string list \<Rightarrow> string \<Rightarrow> string" where
  "Zones_Matches D names qname =
     fold (\<lambda>zname zone. if dIsSubDomain D zname qname \<and> length zone < length zname then zname else zone) names ''''"

record dns_reply =
  m_Authoritative :: bool
  m_Rcode :: nat
  m_Answer :: "RR list"
  m_Ns :: "RR list"
  m_Extra :: "RR list"

abbreviation (input) "RcodeSuccess \<equiv> (0 :: nat)"
abbreviation (input) "RcodeServerFailure \<equiv> (2 :: nat)"
abbreviation (input) "RcodeNameError \<equiv> (3 :: nat)"

text \<open>
  What \<open>ServeDNS\<close> does with a query: it hands it to the next plugin, returns a code without an answer,
  or writes a message. (A notification of a changed zone is handled apart and is not part of the model.)
\<close>

datatype dns_served = NextPlugin | Code nat | Reply dns_reply

definition reply_of :: "sections \<Rightarrow> dns_served" where
  "reply_of = (\<lambda>(answer, ns, extra, result).
     if result = ServerFailure then Code RcodeServerFailure
     else Reply \<lparr>m_Authoritative = (result \<noteq> Delegation), m_Rcode = (if result = NameError then RcodeNameError else RcodeSuccess),
                 m_Answer = answer, m_Ns = ns, m_Extra = extra\<rparr>)"

definition File_ServeDNS ::
  "dns_lib \<Rightarrow> name_lib \<Rightarrow> upstream \<Rightarrow> string list \<Rightarrow> (string, Zone) gomap \<Rightarrow> question \<Rightarrow> (dns_served option \<times> (string, Zone) gomap) outcome" where
  "File_ServeDNS D N up names zones q =
     (let qname = q_Name q; zone = Zones_Matches D names qname in
      if zone = '''' then Ret (Some NextPlugin, zones)
      else case fmlookup zones zone of
             None \<Rightarrow> Ret (Some (Code RcodeServerFailure), zones)
           | Some z \<Rightarrow>
               if z_Expired z then Ret (Some (Code RcodeServerFailure), zones)
               else go_bind (Zone_Lookup D N up z q qname (z_Tree z)) (\<lambda>(t, res).
                    Ret (map_option reply_of res, fmupd zone (z\<lparr>z_Tree := t\<rparr>) zones)))"

end
