(* ===== verification/ZoneLookupSpec.thy ===== *)
theory ZoneLookupSpec
  imports ZoneSpec ZoneLookup "HOL-Library.Sublist"
begin

text \<open>
  What a lookup in a zone answers. An operation on the tree is run on any tree that holds an abstract
  zone (\<open>runs\<close>): it returns, leaves a tree with the same zone, and its result has a property. The
  rules for \<open>runs\<close> follow the structure of an operation; those for the searches rest on
  \<open>ZoneSpec\<close>. Names are given by their labels (\<open>absolute\<close>), without escapes.
\<close>

section \<open>Running operations\<close>

definition runs :: "dns_lib \<Rightarrow> zone \<Rightarrow> 'a zop \<Rightarrow> ('a \<Rightarrow> bool) \<Rightarrow> bool" where
  "runs D z f Q \<longleftrightarrow>
     (\<forall>t. zone_ok D t \<and> zone_of D t = z \<longrightarrow> (\<exists>t' a. f t = Ret (t', a) \<and> zone_ok D t' \<and> zone_of D t' = z \<and> Q a))"

lemma runs_ret [intro!]: "Q a \<Longrightarrow> runs D z (zret a) Q"
  by (simp add: runs_def zret_def)

lemma runs_bind:
  assumes f: "runs D z f P" and g: "\<And>a. P a \<Longrightarrow> runs D z (g a) Q"
  shows "runs D z (zbind f g) Q"
  unfolding runs_def
proof (intro allI impI)
  fix t assume "zone_ok D t \<and> zone_of D t = z"
  with f obtain t1 a where a: "f t = Ret (t1, a)" "zone_ok D t1 \<and> zone_of D t1 = z" "P a" unfolding runs_def by blast
  from g [OF a(3)] a(2) have "\<exists>t' b. g a t1 = Ret (t', b) \<and> zone_ok D t' \<and> zone_of D t' = z \<and> Q b"
    unfolding runs_def by blast
  with a(1) show "\<exists>t' b. zbind f g t = Ret (t', b) \<and> zone_ok D t' \<and> zone_of D t' = z \<and> Q b" by (simp add: zbind_def)
qed

lemma zbind_pure [simp]: "zbind (zret a) g = g a" "zbind (\<lambda>t. Ret (t, a)) g = g a"
  by (simp_all add: zbind_def zret_def)

lemma zbind_assoc: "zbind (zbind f g) h = zbind f (\<lambda>x. zbind (g x) h)"
proof
  fix t show "zbind (zbind f g) h t = zbind f (\<lambda>x. zbind (g x) h) t"
    by (cases "f t") (auto simp: zbind_def split: prod.split)
qed

lemma runs_bind2:
  assumes "runs D z (zbind f g) P" "\<And>a. P a \<Longrightarrow> runs D z (h a) Q"
  shows "runs D z (zbind f (\<lambda>x. zbind (g x) h)) Q"
  using runs_bind [OF assms] by (simp only: zbind_assoc)

lemma runs_weaken: "runs D z f P \<Longrightarrow> (\<And>a. P a \<Longrightarrow> Q a) \<Longrightarrow> runs D z f Q"
  unfolding runs_def by blast

lemma runs_pure: "x = Ret a \<Longrightarrow> Q a \<Longrightarrow> runs D z (\<lambda>t. go_bind x (\<lambda>r. Ret (t, r))) Q"
  by (simp add: runs_def)

definition element_of :: "dns_lib \<Rightarrow> zone \<Rightarrow> string list \<Rightarrow> Elem \<Rightarrow> bool" where
  "element_of D z k e \<longleftrightarrow> elem_ok D e \<and> ekey D e = k \<and> z k = Some (e_m e)"

lemma element_type: "element_of D z k e \<Longrightarrow> Elem_Type e t = gm_get [] (the (z k)) t"
  by (simp add: element_of_def Elem_Type_def)

lemma element_has: "element_of D z k e \<Longrightarrow> gm_has (e_m e) t \<longleftrightarrow> Elem_Type e t \<noteq> []"
  by (auto simp: element_of_def elem_ok_def Elem_Type_def gm_has_def gm_get_def split: option.splits)

definition next_of :: "dns_lib \<Rightarrow> zone \<Rightarrow> string list \<Rightarrow> Elem option \<Rightarrow> bool" where
  "next_of D z k res =
     (case res of
        None \<Rightarrow> \<forall>a\<in>dom z. a < k
      | Some e \<Rightarrow> element_of D z (ekey D e) e \<and> k \<le> ekey D e \<and> (\<forall>a\<in>dom z. k \<le> a \<longrightarrow> ekey D e \<le> a))"

lemma last_entry_in: "last_entry xs = Some x \<Longrightarrow> x \<in> set xs"
  by (cases xs rule: rev_cases) auto

lemma first_entry_in: "first_entry xs = Some x \<Longrightarrow> x \<in> set xs"
  by (cases xs) auto

context zone_names
begin

lemma runs_search:
  "runs D z (zsearch D q) (\<lambda>(res, found). found = (res \<noteq> None) \<and>
     (case res of None \<Rightarrow> z (dkey D q) = None | Some e \<Rightarrow> element_of D z (dkey D q) e))"
  unfolding runs_def zsearch_def
proof (intro allI impI, elim conjE)
  fix t assume t: "zone_ok D t" "zone_of D t = z"
  obtain t' res where "Tree_Search D t q = Ret (t', res, res \<noteq> None)" "zone_ok D t'" "zone_of D t' = z"
    "map_option e_m res = z (dkey D q)" "pred_option (\<lambda>e. elem_ok D e \<and> ekey D e = dkey D q) res"
    using Tree_Search_ok [OF t(1), of q] t(2) by blast
  then show "\<exists>t' a. Tree_Search D t q = Ret (t', a) \<and> zone_ok D t' \<and> zone_of D t' = z \<and>
      (case a of (res, found) \<Rightarrow> found = (res \<noteq> None) \<and>
        (case res of None \<Rightarrow> z (dkey D q) = None | Some e \<Rightarrow> element_of D z (dkey D q) e))"
    by (cases res) (auto simp: element_of_def)
qed

lemma zone_ok_root:
  assumes "zone_ok D t" "contents D m = contents D (Root t)" "elems_ok D m"
    and "invc m = invc (Root t) \<and> invh m = invh (Root t) \<and> color m = color (Root t) \<and> bheight m = bheight (Root t)"
  shows "zone_ok D (t\<lparr>Root := m\<rparr>)" "zone_of D (t\<lparr>Root := m\<rparr>) = zone_of D t"
proof -
  have "length (elems m) = length (elems (Root t))" using assms(2) by (metis length_contents)
  then show "zone_ok D (t\<lparr>Root := m\<rparr>)" "zone_of D (t\<lparr>Root := m\<rparr>) = zone_of D t"
    using assms by (auto simp: zone_ok_def zone_of_def llrb_def)
qed

lemma entry_in_zone:
  assumes "zone_ok D t" "elem_ok D e" "entry D (Some e) \<in> set (contents D (Root t))"
  shows "element_of D (zone_of D t) (ekey D e) e"
proof -
  have "distinct (map fst (contents D (Root t)))"
    using assms(1) strict_sorted_iff by (auto simp: zone_ok_def)
  with assms show ?thesis by (simp add: element_of_def zone_of_def map_of_is_SomeI)
qed

lemma runs_prev:
  "runs D z (zprev D q) (\<lambda>(res, found). found = (res \<noteq> None) \<and> pred_option (\<lambda>e. element_of D z (ekey D e) e) res)"
  unfolding runs_def zprev_def
proof (intro allI impI, elim conjE)
  fix t assume t: "zone_ok D t" "zone_of D t = z"
  let ?goal = "\<exists>t' a. Tree_Prev D t q = Ret (t', a) \<and> zone_ok D t' \<and> zone_of D t' = z \<and>
      (case a of (res, found) \<Rightarrow> found = (res \<noteq> None) \<and> pred_option (\<lambda>e. element_of D z (ekey D e) e) res)"
  show ?goal
  proof (cases "Root t = NilNode")
    case True
    then show ?goal using t by (simp add: Tree_Prev_def)
  next
    case False
    have ok: "elems_ok D (Root t)" "sorted_keys (contents D (Root t))" using t by (simp_all add: zone_ok_def)
    obtain m res where m: "node_floor D q (Root t) = Ret (m, res)" "contents D m = contents D (Root t)" "elems_ok D m"
      "invc m = invc (Root t) \<and> invh m = invh (Root t) \<and> color m = color (Root t) \<and> bheight m = bheight (Root t)"
      "pred_option (elem_ok D) res"
      "map_option (\<lambda>e. entry D (Some e)) res = last_entry (filter (\<lambda>p. fst p \<le> dkey D q) (contents D (Root t)))"
      using floor_ok [OF ok, of q] by blast
    have "entry D (Some e) \<in> set (contents D (Root t))" if "res = Some e" for e
      using last_entry_in [OF m(6) [unfolded that option.map, symmetric]] by simp
    then have "pred_option (\<lambda>e. element_of D z (ekey D e) e) res"
      using entry_in_zone [OF t(1)] m(5) t(2) by (cases res) (simp_all del: entry.simps)
    moreover have "Tree_Prev D t q = Ret (t\<lparr>Root := m\<rparr>, res, res \<noteq> None)" using m(1) False by (simp add: Tree_Prev_def)
    ultimately show ?goal using zone_ok_root [OF t(1) m(2-4)] t(2) by simp
  qed
qed

lemma runs_next:
  "runs D z (znext D q) (\<lambda>(res, found). found = (res \<noteq> None) \<and> next_of D z (dkey D q) res)"
  unfolding runs_def znext_def
proof (intro allI impI, elim conjE)
  fix t assume t: "zone_ok D t" "zone_of D t = z"
  let ?goal = "\<exists>t' a. Tree_Next D t q = Ret (t', a) \<and> zone_ok D t' \<and> zone_of D t' = z \<and>
      (case a of (res, found) \<Rightarrow> found = (res \<noteq> None) \<and> next_of D z (dkey D q) res)"
  show ?goal
  proof (cases "Root t = NilNode")
    case True
    then show ?goal using t by (auto simp: Tree_Next_def next_of_def zone_of_def)
  next
    case False
    have ok: "elems_ok D (Root t)" "sorted_keys (contents D (Root t))" using t by (simp_all add: zone_ok_def)
    obtain m res where m: "node_ceil D q (Root t) = Ret (m, res)" "contents D m = contents D (Root t)" "elems_ok D m"
      "invc m = invc (Root t) \<and> invh m = invh (Root t) \<and> color m = color (Root t) \<and> bheight m = bheight (Root t)"
      "pred_option (elem_ok D) res"
      "map_option (\<lambda>e. entry D (Some e)) res = first_entry (filter (\<lambda>p. dkey D q \<le> fst p) (contents D (Root t)))"
      using ceil_ok [OF ok, of q] by blast
    have "entry D (Some e) \<in> set (contents D (Root t))" if "res = Some e" for e
      using first_entry_in [OF m(6) [unfolded that option.map, symmetric]] by simp
    then have "pred_option (\<lambda>e. element_of D z (ekey D e) e) res"
      using entry_in_zone [OF t(1)] m(5) t(2) by (cases res) (simp_all del: entry.simps)
    moreover have "dom z = fst ` set (contents D (Root t))"
      unfolding t(2) [symmetric] zone_of_def by (rule dom_map_of_conv_image_fst)
    ultimately have "next_of D z (dkey D q) res"
      using first_entry_least [OF ok(2) m(6)] by (cases res) (auto simp: next_of_def)
    moreover have "Tree_Next D t q = Ret (t\<lparr>Root := m\<rparr>, res, res \<noteq> None)" using m(1) False by (simp add: Tree_Next_def)
    ultimately show ?goal using zone_ok_root [OF t(1) m(2-4)] t(2) by simp
  qed
qed

end

context zone_names
begin

lemma runs_name: "elem_ok D e \<Longrightarrow> runs D z (zname D e) (\<lambda>n. dkey D n = ekey D e)"
  by (simp add: runs_def zname_def Elem_Name_ok ekey_def)

lemma runs_anything: "runs D z f Q \<Longrightarrow> runs D z f (\<lambda>_. True)"
  by (rule runs_weaken) simp_all

lemma runs_glue_of: "runs D z (\<lambda>t. glue_of D t name dnssec ty) (\<lambda>_. True)"
proof -
  have "(\<lambda>t. glue_of D t name dnssec ty) = zbind (zsearch D name) (\<lambda>(elem, found). zret (if found then
      (case elem of None \<Rightarrow> [] | Some e \<Rightarrow> Elem_Type e ty @ (if dnssec then SubTypeSignature (Elem_Type e TypeRRSIG) ty else []))
      else []))"
    by (simp add: glue_of_def zbind_def zsearch_def zret_def fun_eq_iff case_prod_unfold)
  then show ?thesis by (auto intro!: runs_bind [OF runs_search])
qed

lemma runs_searchGlue: "runs D z (\<lambda>t. searchGlue D t name dnssec) (\<lambda>_. True)"
proof -
  have "(\<lambda>t. searchGlue D t name dnssec) = zbind (\<lambda>t. glue_of D t name dnssec TypeA) (\<lambda>as.
      zbind (\<lambda>t. glue_of D t name dnssec TypeAAAA) (\<lambda>aaaas. zret (as @ aaaas)))"
    by (simp add: searchGlue_def zbind_def zret_def fun_eq_iff)
  then show ?thesis by (auto intro!: runs_bind [OF runs_glue_of])
qed

lemma runs_glue: "runs D z (zglue D nsrrs dnssec) (\<lambda>_. True)"
proof (induction nsrrs)
  case Nil
  then show ?case using runs_ret [of "\<lambda>_. True" "[]" D z] by (simp add: zglue_def zret_def)
next
  case (Cons rr nsrrs)
  let ?g = "case rr_data rr of NS ns \<Rightarrow> if dIsSubDomain D (rr_Name rr) ns then (\<lambda>t. searchGlue D t ns dnssec) else zret []
                             | _ \<Rightarrow> zret []"
  have "zglue D (rr # nsrrs) dnssec = zbind ?g (\<lambda>g. zbind (zglue D nsrrs dnssec) (\<lambda>gs. zret (g @ gs)))"
    by (simp add: zglue_def zbind_def zret_def fun_eq_iff split: rdata.split)
  moreover have "runs D z ?g (\<lambda>_. True)" by (auto simp: runs_searchGlue split: rdata.split)
  ultimately show ?case by (auto intro!: runs_bind [OF Cons.IH] elim!: runs_bind)
qed

lemma runs_additional: "runs D z (additionalProcessing D origin answer dnssec) (\<lambda>_. True)"
  by (induction answer) (auto simp: Let_def intro!: runs_bind [OF runs_search] elim!: runs_bind)

end

section \<open>Aliases\<close>

text \<open>The records of a type that names a class of data have data of that class.\<close>

definition typed :: "RR \<Rightarrow> bool" where
  "typed rr \<longleftrightarrow>
     (rr_Rrtype rr = TypeCNAME \<longrightarrow> (\<exists>x. rr_data rr = CNAME x)) \<and>
     (rr_Rrtype rr = TypeDNAME \<longrightarrow> (\<exists>x. rr_data rr = DNAME x))"

definition typed_zone :: "zone \<Rightarrow> bool" where
  "typed_zone z \<longleftrightarrow> (\<forall>k m t rrs. z k = Some m \<longrightarrow> fmlookup m t = Some rrs \<longrightarrow> (\<forall>rr\<in>set rrs. typed rr \<and> rr_Rrtype rr = t))"

lemma typed_element:
  assumes "typed_zone z" "element_of D z k e" "rr \<in> set (Elem_Type e t)"
  shows "typed rr" "rr_Rrtype rr = t"
proof -
  obtain rrs where "fmlookup (e_m e) t = Some rrs" "rr \<in> set rrs"
    using assms(3) by (cases "fmlookup (e_m e) t") (auto simp: Elem_Type_def gm_get_def)
  with assms show "typed rr" "rr_Rrtype rr = t" unfolding typed_zone_def element_of_def by blast+
qed

lemma runs_cname_target:
  assumes "rrs \<noteq> []" "\<exists>x. rr_data (hd rrs) = CNAME x"
  shows "runs D z (cname_target rrs) (\<lambda>_. True)"
  using assms by (cases rrs) (auto simp: cname_target_def)

lemma cname_element:
  assumes "typed_zone z" "element_of D z k e" "Elem_Type e TypeCNAME \<noteq> []"
  shows "\<exists>x. rr_data (hd (Elem_Type e TypeCNAME)) = CNAME x"
  using typed_element [OF assms(1,2), of "hd (Elem_Type e TypeCNAME)" TypeCNAME] assms(3) by (auto simp: typed_def)

definition alias_answer :: "RR list \<Rightarrow> sections \<Rightarrow> bool" where
  "alias_answer rrs a \<longleftrightarrow> prefix rrs (fst a) \<and> snd (snd (snd a)) = Success"

context zone_names
begin

lemma runs_redo:
  assumes "typed_zone z" "element_of D z k elem"
  shows "runs D z (externalLookup_redo D up ap q left elem rrs) (alias_answer rrs)"
  using assms(2)
proof (induction left arbitrary: k elem rrs rule: less_induct)
  case (less left)
  have next_elem: "runs D z (externalLookup_redo D up ap q n e (rrs @ cs)) (alias_answer rrs)"
    if "n < left" "element_of D z k' e" for n k' e cs
    by (rule runs_weaken [OF less.IH [OF that]]) (auto simp: alias_answer_def intro: append_prefixD)
  show ?case
    using cname_element [OF assms(1) less.prems]
    by (subst externalLookup_redo.simps)
      (auto simp: Let_def alias_answer_def intro!: runs_bind [OF runs_cname_target] runs_bind [OF runs_search] next_elem
        split: option.splits nat.split)
qed

lemma runs_external:
  assumes "typed_zone z" "rrs \<noteq> []" "\<exists>x. rr_data (hd rrs) = CNAME x"
  shows "runs D z (externalLookup D up ap q elem rrs) (alias_answer rrs)"
proof -
  have redo: "runs D z (externalLookup_redo D up ap q 8 e (rrs @ cs)) (alias_answer rrs)"
    if "element_of D z k e" for k e cs
    by (rule runs_weaken [OF runs_redo [OF assms(1) that]]) (auto simp: alias_answer_def intro: append_prefixD)
  have t: "runs D z (cname_target (rrs @ cs)) (\<lambda>_. True)" for cs
    using assms(2,3) by (intro runs_cname_target) (auto simp: hd_append)
  show ?thesis
    unfolding externalLookup_def Let_def
    by (rule runs_bind [OF t]) (auto simp: alias_answer_def intro!: runs_bind [OF runs_search] redo redo [of _ _ "[]", simplified]
      split: option.splits)
qed

end

section \<open>Names and their labels\<close>

text \<open>
  The documented behaviour of the name functions on names without escapes. \<open>label_ok\<close> is a label
  in lower case without dots and escapes.
\<close>

definition label_ok :: "string \<Rightarrow> bool" where
  "label_ok l \<longleftrightarrow> plain_label l \<and> strings_ToLower l = l"

definition labels_ok :: "string list \<Rightarrow> bool" where
  "labels_ok ls \<longleftrightarrow> ls \<noteq> [] \<and> (\<forall>l\<in>set ls. label_ok l)"

definition key_of :: "string list \<Rightarrow> string list" where
  "key_of ls = rev (map (\<lambda>l. l @ ''.'') ls)"

definition NextLabel_dots :: "(string \<Rightarrow> nat \<Rightarrow> nat \<times> bool) \<Rightarrow> bool" where
  "NextLabel_dots NL \<longleftrightarrow>
     (\<forall>s off. CHR 92 \<notin> set s \<longrightarrow>
        (case filter (\<lambda>i. off \<le> i \<and> s ! i = CHR ''.'') [0..<length s - 1] of
           [] \<Rightarrow> snd (NL s off)
         | i # _ \<Rightarrow> NL s off = (Suc i, False)))"

definition IsSubDomain_keys :: "dns_lib \<Rightarrow> bool" where
  "IsSubDomain_keys D \<longleftrightarrow>
     (\<forall>p c ps cs. labels_ok ps \<longrightarrow> labels_ok cs \<longrightarrow> dkey D p = key_of ps \<longrightarrow> dkey D c = key_of cs \<longrightarrow>
        (dIsSubDomain D p c \<longleftrightarrow> suffix ps cs))"

definition name_laws :: "name_lib \<Rightarrow> bool" where
  "name_laws N \<longleftrightarrow>
     (\<forall>ls. labels_ok ls \<longrightarrow> nl_CountLabel N (absolute ls) = length ls \<and> nl_SplitDomainName N (absolute ls) = ls \<and>
        nl_Fqdn N (absolute ls) = absolute ls) \<and>
     (\<forall>s. nl_Fqdn N s \<noteq> '''')"

definition dns_laws :: "dns_lib \<Rightarrow> bool" where
  "dns_laws D \<longleftrightarrow> PrevLabel_laws (dPrevLabel D) \<and> PrevLabel_dots (dPrevLabel D) \<and> NextLabel_dots (dNextLabel D) \<and> IsSubDomain_keys D"

lemma labels_ok_plain: "labels_ok ls \<Longrightarrow> \<forall>l\<in>set ls. plain_label l"
  by (simp add: labels_ok_def label_ok_def)

lemma labels_ok_append: "labels_ok os \<Longrightarrow> (\<forall>l\<in>set ps. label_ok l) \<Longrightarrow> labels_ok (ps @ os)"
  by (auto simp: labels_ok_def)

lemma star_ok: "label_ok ''*''"
  by (simp add: label_ok_def plain_label_def strings_ToLower_def lower_char_def)

lemma key_of_append [simp]: "key_of (ps @ os) = key_of os @ key_of ps"
  by (simp add: key_of_def)

lemma key_of_simps [simp]: "key_of [] = []" "key_of (l # ls) = key_of ls @ [l @ ''.'']"
  by (simp_all add: key_of_def)

lemma key_of_inj: "key_of ls = key_of ms \<longleftrightarrow> ls = ms"
  by (auto simp: key_of_def inj_map_eq_map inj_def)

lemma prefix_key_of: "prefix (key_of ps) (key_of cs) \<longleftrightarrow> suffix ps cs"
proof -
  have "prefix (key_of ps) (key_of cs) \<longleftrightarrow> suffix (map (\<lambda>l. l @ ''.'') ps) (map (\<lambda>l. l @ ''.'') cs)"
    by (simp add: key_of_def suffix_to_prefix)
  also have "\<dots> \<longleftrightarrow> suffix ps cs"
    by (auto simp: suffix_def map_eq_append_conv inj_map_eq_map inj_def)
  finally show ?thesis .
qed

lemma absolute_append [simp]: "absolute (ps @ os) = absolute ps @ absolute os"
  by (simp add: absolute_def)

lemma dot_starts_absolute:
  assumes "\<forall>l\<in>set ls. plain_label l"
  shows "length (dot_starts (absolute ls)) = length ls \<and>
    (\<forall>n<length ls. dot_starts (absolute ls) ! n = length (absolute (take (length ls - n - 1) ls)))"
  using assms
proof (induction ls)
  case Nil
  then show ?case by (simp add: dot_starts_def)
next
  case (Cons l ls)
  then have l: "CHR ''.'' \<notin> set l" by (simp add: plain_label_def)
  show ?case
  proof (cases "ls = []")
    case True
    then show ?thesis using l by (simp add: dot_starts_one)
  next
    case False
    have *: "dot_starts (absolute (l # ls)) = map ((+) (length l + 1)) (dot_starts (absolute ls)) @ [0]"
      using dot_starts_Cons [OF l, of "absolute ls"] False by simp
    show ?thesis
      using Cons False unfolding * by (auto simp: nth_append less_Suc_eq take_Cons' Suc_diff_le)
  qed
qed

lemma PrevLabel_starts:
  assumes "PrevLabel_laws PL" "1 \<le> n"
  shows "PL s n = (if n \<le> length (label_starts PL s) then (label_starts PL s ! (n - 1), False) else (0, True))"
proof -
  obtain os where os: "sorted_wrt (>) os" "\<forall>p\<in>set os. p < length s"
    "\<forall>n\<ge>1. PL s n = (if n \<le> length os then (os ! (n - 1), False) else (0, True))"
    using assms(1) unfolding PrevLabel_laws_def by meson
  then show ?thesis using label_starts_eq [of os s PL, OF os] assms(2) by simp
qed

locale zone_dns =
  fixes D :: dns_lib and N :: name_lib
  assumes dns: "dns_laws D" and name: "name_laws N"

sublocale zone_dns \<subseteq> zone_names D
  using dns by unfold_locales (simp add: dns_laws_def)

context zone_dns
begin

lemma dkey_absolute: "\<forall>l\<in>set ls. plain_label l \<Longrightarrow> dkey D (absolute ls) = key_of ls"
  using name_key_absolute [of "dPrevLabel D" ls] dns by (simp add: dkey_def dns_laws_def key_of_def)

lemma PrevLabel_absolute:
  assumes "\<forall>l\<in>set ls. plain_label l" "1 \<le> n"
  shows "dPrevLabel D (absolute ls) n =
    (if n \<le> length ls then (length (absolute (take (length ls - n) ls)), False) else (0, True))"
proof -
  have "label_starts (dPrevLabel D) (absolute ls) = dot_starts (absolute ls)"
    using dns plain_absolute [OF assms(1)] by (simp add: dns_laws_def PrevLabel_dots_def)
  then show ?thesis
    using PrevLabel_starts [OF _ assms(2), of "dPrevLabel D" "absolute ls"] dns dot_starts_absolute [OF assms(1)] assms(2)
    by (auto simp: dns_laws_def)
qed

lemma NextLabel_absolute:
  assumes "\<forall>l\<in>set (l # ls). plain_label l"
  shows "if ls = [] then snd (dNextLabel D (absolute (l # ls)) 0) else dNextLabel D (absolute (l # ls)) 0 = (length l + 1, False)"
proof -
  let ?s = "absolute (l # ls)"
  have l: "CHR ''.'' \<notin> set l" using assms by (simp add: plain_label_def)
  have nl: "case filter (\<lambda>i. 0 \<le> i \<and> ?s ! i = CHR ''.'') [0..<length ?s - 1] of
           [] \<Rightarrow> snd (dNextLabel D ?s 0) | i # _ \<Rightarrow> dNextLabel D ?s 0 = (Suc i, False)"
    using dns plain_absolute [OF assms] unfolding dns_laws_def NextLabel_dots_def by blast
  show ?thesis
  proof (cases "ls = []")
    case True
    then have "filter (\<lambda>i. 0 \<le> i \<and> ?s ! i = CHR ''.'') [0..<length ?s - 1] = []"
      using l by (auto simp: filter_empty_conv nth_append in_set_conv_nth)
    then show ?thesis using nl True by (simp del: absolute_simps)
  next
    case False
    have len: "length ?s - 1 = length l + 1 + (length (absolute ls) - 1)" using False by (cases "absolute ls") auto
    have "filter (\<lambda>i. ?s ! i = CHR ''.'') [0..<length l + 1 + (length (absolute ls) - 1)] = length l #
        map ((+) (length l + 1)) (filter (\<lambda>i. absolute ls ! i = CHR ''.'') [0..<length (absolute ls) - 1])"
      using dots_in_prefix [OF l, of "absolute ls"] by simp
    then show ?thesis using nl False unfolding len by (simp del: absolute_simps upt_Suc)
  qed
qed

lemma wildcard_name:
  assumes "\<forall>l\<in>set (l # ls). plain_label l"
  shows "replaceWithAsteriskLabel D (absolute (l # ls)) = Ret (if ls = [] then '''' else absolute (''*'' # ls))"
proof (cases "ls = []")
  case True
  then have "snd (dNextLabel D (absolute (l # ls)) 0)" using NextLabel_absolute [OF assms] by (simp del: absolute_simps)
  then show ?thesis using True by (simp add: replaceWithAsteriskLabel_def case_prod_unfold del: absolute_simps)
next
  case False
  then have "dNextLabel D (absolute (l # ls)) 0 = (length l + 1, False)"
    using NextLabel_absolute [OF assms] by (simp del: absolute_simps)
  then show ?thesis
    using False unfolding replaceWithAsteriskLabel_def Let_def by (simp add: slice_from_def)
qed

text \<open>The names that the loop visits: the origin and \<open>i\<close> more labels.\<close>

lemma nameFromRight_absolute:
  assumes "z_origin z = absolute os" "z_origLen z = length os" "\<forall>l\<in>set (ps @ os). plain_label l"
  shows "nameFromRight D z (absolute (ps @ os)) i =
    Ret (if i \<le> length ps then (absolute (drop (length ps - i) ps @ os), False) else (absolute (ps @ os), True))"
proof (cases "i = 0")
  case True
  then show ?thesis using assms(1) by (simp add: nameFromRight_def)
next
  case False
  let ?q = "absolute (ps @ os)"
  note pl = PrevLabel_absolute [OF assms(3)]
  have origin: "\<not> list_ex (\<lambda>j. snd (dPrevLabel D ?q j)) [1..<length os + 1]"
    using pl by (auto simp: list_ex_iff simp del: absolute_append)
  have more_labels: "list_ex (\<lambda>j. snd (dPrevLabel D ?q (j + length os))) [1..<i + 1] \<longleftrightarrow> length ps < i"
    using pl False by (auto simp: list_ex_iff simp del: absolute_append)
  show ?thesis
  proof (cases "i \<le> length ps")
    case True
    have "fst (dPrevLabel D ?q (i + length os)) = length (absolute (take (length ps - i) ps))"
      using pl [of "i + length os"] True False by (simp del: absolute_append)
    moreover have "slice_from ?q (length (absolute (take (length ps - i) ps))) = Ret (absolute (drop (length ps - i) ps @ os))"
    proof -
      have "?q = absolute (take (length ps - i) ps) @ absolute (drop (length ps - i) ps @ os)"
        by (metis append.assoc append_take_drop_id absolute_append)
      then show ?thesis unfolding slice_from_def by (simp del: absolute_append)
    qed
    ultimately show ?thesis
      using True False origin more_labels assms(2) by (simp add: nameFromRight_def del: absolute_append)
  qed (use False origin more_labels assms(2) in \<open>simp add: nameFromRight_def del: absolute_append\<close>)
qed

end

section \<open>The main loop\<close>

definition plain_zone :: "zone \<Rightarrow> bool" where
  "plain_zone Z \<longleftrightarrow>
     (\<forall>k m. Z k = Some m \<longrightarrow> (\<exists>ls. labels_ok ls \<and> k = key_of ls \<and>
        (\<forall>t rrs. fmlookup m t = Some rrs \<longrightarrow> (\<forall>rr\<in>set rrs. rr_Name rr = absolute ls))))"

lemma plain_zone_record:
  assumes "plain_zone Z" "element_of D Z (key_of ls) e" "rr \<in> set (Elem_Type e t)"
  shows "rr_Name rr = absolute ls"
proof -
  obtain rrs where "fmlookup (e_m e) t = Some rrs" "rr \<in> set rrs"
    using assms(3) by (cases "fmlookup (e_m e) t") (auto simp: Elem_Type_def gm_get_def)
  with assms(1,2) show ?thesis unfolding plain_zone_def element_of_def by (metis key_of_inj)
qed

lemma plain_zone_not_root: "plain_zone Z \<Longrightarrow> Z [] = None"
  unfolding plain_zone_def labels_ok_def by (metis key_of_inj key_of_simps(1) not_Some_eq)

context zone_dns
begin

lemma synthesizeCNAME_ok:
  assumes "labels_ok ls" "labels_ok qs" "suffix ls qs" "rr_Name d = absolute ls" "rr_data d = DNAME x"
  shows "\<exists>c. synthesizeCNAME D N (absolute qs) d = Ret c \<and> (c = None \<longleftrightarrow> ls = qs) \<and>
    (\<forall>r. c = Some r \<longrightarrow> (\<exists>y. rr_data r = CNAME y))"
proof -
  have keys: "dkey D (absolute ls) = key_of ls" "dkey D (absolute qs) = key_of qs"
    using assms(1,2) by (simp_all add: dkey_absolute labels_ok_plain)
  then have sub: "dIsSubDomain D (absolute ls) (absolute qs)"
    using dns assms(1-3) unfolding dns_laws_def IsSubDomain_keys_def by blast
  have eq: "absolute qs = absolute ls \<longleftrightarrow> ls = qs" using keys key_of_inj by metis
  show ?thesis
  proof (cases "ls = qs")
    case True
    then show ?thesis using assms(4,5) by (simp add: synthesizeCNAME_def substituteDNAME_def)
  next
    case False
    have len: "length ls < length qs" using assms(3) False by (metis suffix_length_less suffix_order.le_neq_trans strict_suffix_def)
    have "\<exists>t. dnsutil_Join N (take (length qs - length ls) qs @ rest) = Ret t \<and> t \<noteq> ''''" for rest
      using len name by (auto simp: dnsutil_Join_def name_laws_def)
    then obtain t where t: "dnsutil_Join N (take (length qs - length ls) qs @ nl_SplitDomainName N x) = Ret t" "t \<noteq> []" by auto
    have "nl_CountLabel N (absolute ls) = length ls" "nl_SplitDomainName N (absolute qs) = qs"
      using assms(1,2) name by (simp_all add: name_laws_def)
    then have "substituteDNAME D N (absolute qs) (absolute ls) x = Ret t"
      using False eq sub len t(1) by (simp add: substituteDNAME_def)
    then show ?thesis using t(2) assms(4,5) False by (simp add: synthesizeCNAME_def)
  qed
qed

lemma runs_dname:
  assumes "typed_zone Z" "plain_zone Z" "labels_ok ls" "labels_ok qs" "suffix ls qs" "q_Name q = absolute qs"
    and e: "element_of D Z (key_of ls) e"
  shows "runs D Z (dname_answer D N up ap q e) (\<lambda>r.
    (r = None \<longleftrightarrow> Elem_Type e TypeDNAME = [] \<or> ls = qs) \<and> (\<forall>a. r = Some a \<longrightarrow> alias_answer (Elem_Type e TypeDNAME) a))"
proof (cases "fmlookup (e_m e) TypeDNAME")
  case None
  then show ?thesis by (auto simp: dname_answer_def Elem_Type_def gm_get_def)
next
  case (Some rrs)
  then obtain d others where d: "rrs = d # others" using e unfolding element_of_def elem_ok_def by (cases rrs) auto
  then have in_e: "d \<in> set (Elem_Type e TypeDNAME)" using Some by (simp add: Elem_Type_def gm_get_def)
  have "rr_Name d = absolute ls" by (rule plain_zone_record [OF assms(2) e in_e])
  moreover obtain x where "rr_data d = DNAME x"
    using typed_element [OF assms(1) e in_e] by (auto simp: typed_def)
  ultimately obtain c where c: "synthesizeCNAME D N (absolute qs) d = Ret c" "c = None \<longleftrightarrow> ls = qs"
    "\<forall>r. c = Some r \<longrightarrow> (\<exists>y. rr_data r = CNAME y)"
    using synthesizeCNAME_ok [OF assms(3-5)] by blast
  have ext: "runs D Z (externalLookup D up ap q e [r]) (\<lambda>a. snd (snd (snd a)) = Success)" if "c = Some r" for r
    using c(3) that by (intro runs_weaken [OF runs_external [OF assms(1), of "[r]"]]) (auto simp: alias_answer_def)
  have "dname_answer D N up ap q e = (case c of None \<Rightarrow> zret None | Some cname \<Rightarrow>
      zbind (externalLookup D up ap q e [cname]) (\<lambda>(answer, ns, extra, rcode).
        zret (Some ((d # others) @ (if q_Do q then SubTypeSignature (Elem_Type e TypeRRSIG) TypeDNAME else []) @ answer,
                    ns, extra, rcode))))"
    using Some d c(1) assms(6) by (cases c) (simp_all add: dname_answer_def)
  moreover have "Elem_Type e TypeDNAME = d # others" using Some d by (simp add: Elem_Type_def gm_get_def)
  ultimately show ?thesis
    using c(2) by (cases c) (auto simp: alias_answer_def intro!: runs_bind [OF ext])
qed

end

section \<open>What a lookup has to answer\<close>

text \<open>
  The specification of \<open>Lookup\<close> on an abstract zone, for the name with the labels \<open>ps\<close> below the
  origin \<open>os\<close>. \<open>level i\<close> is the origin with \<open>i\<close> more labels of the name.
\<close>

definition level :: "string list \<Rightarrow> string list \<Rightarrow> nat \<Rightarrow> string list" where
  "level ps os i = drop (length ps - i) ps @ os"

definition records_at :: "zone \<Rightarrow> string list \<Rightarrow> u16 \<Rightarrow> RR list" where
  "records_at Z ls t = (case Z (key_of ls) of None \<Rightarrow> [] | Some m \<Rightarrow> gm_get [] m t)"

definition redirects :: "zone \<Rightarrow> string list \<Rightarrow> string list \<Rightarrow> nat \<Rightarrow> bool" where
  "redirects Z ps os i \<longleftrightarrow> i < length ps \<and> records_at Z (level ps os i) TypeDNAME \<noteq> []"

definition delegates :: "zone \<Rightarrow> string list \<Rightarrow> string list \<Rightarrow> nat \<Rightarrow> bool" where
  "delegates Z ps os i \<longleftrightarrow> records_at Z (level ps os i) TypeNS \<noteq> []"

definition starred :: "string list \<Rightarrow> string list" where
  "starred ls = ''*'' # tl ls"

definition wildcard_at :: "zone \<Rightarrow> string list \<Rightarrow> string list \<Rightarrow> nat \<Rightarrow> bool" where
  "wildcard_at Z ps os i \<longleftrightarrow>
     Z (key_of (level ps os i)) = None \<and> tl (level ps os i) \<noteq> [] \<and> Z (key_of (starred (level ps os i))) \<noteq> None"

definition below :: "zone \<Rightarrow> string list \<Rightarrow> bool" where
  "below Z qs \<longleftrightarrow> (\<exists>k\<in>dom Z. prefix (key_of qs) k)"

datatype verdict = Redirected "string list" | Referred "string list" | Present | Covered "string list" | Empty_name | Missing

definition verdict_of :: "zone \<Rightarrow> string list \<Rightarrow> string list \<Rightarrow> verdict" where
  "verdict_of Z ps os =
     (case filter (\<lambda>i. redirects Z ps os i \<or> delegates Z ps os i) [0..<Suc (length ps)] of
        i # _ \<Rightarrow> (if redirects Z ps os i then Redirected else Referred) (level ps os i)
      | [] \<Rightarrow>
          if Z (key_of (ps @ os)) \<noteq> None then Present
          else (case filter (wildcard_at Z ps os) (rev [0..<Suc (length ps)]) of
                  i # _ \<Rightarrow> Covered (starred (level ps os i))
                | [] \<Rightarrow> if below Z (ps @ os) then Empty_name else Missing))"

definition with_sigs :: "question \<Rightarrow> RR list \<Rightarrow> RR list \<Rightarrow> RR list" where
  "with_sigs q rrs sigs = rrs @ (if q_Do q then SubTypeSignature sigs (q_Type q) else [])"

definition denies :: "Zone \<Rightarrow> question \<Rightarrow> Result \<Rightarrow> sections \<Rightarrow> bool" where
  "denies zn q rcode a \<longleftrightarrow> fst a = [] \<and> prefix (apex_soa (z_Apex zn) (q_Do q)) (fst (snd a)) \<and> snd (snd (snd a)) = rcode"

definition wildcard_records :: "zone \<Rightarrow> string list \<Rightarrow> u16 \<Rightarrow> string \<Rightarrow> RR list" where
  "wildcard_records Z ls t qname = map (\<lambda>rr. rr\<lparr>rr_Name := qname\<rparr>) (records_at Z ls t)"

text \<open>The sections and the result that go with a verdict.\<close>

definition conforms :: "zone \<Rightarrow> Zone \<Rightarrow> question \<Rightarrow> string list \<Rightarrow> verdict \<Rightarrow> sections \<Rightarrow> bool" where
  "conforms Z zn q qs v a =
     (case v of
        Redirected ls \<Rightarrow> alias_answer (records_at Z ls TypeDNAME) a
      | Referred ls \<Rightarrow> fst a = [] \<and> prefix (records_at Z ls TypeNS) (fst (snd a)) \<and> snd (snd (snd a)) = Delegation
      | Present \<Rightarrow>
          if records_at Z qs TypeCNAME \<noteq> [] \<and> q_Type q \<noteq> TypeCNAME then alias_answer (records_at Z qs TypeCNAME) a
          else if records_at Z qs (q_Type q) = [] then denies zn q NoData a
          else fst a = with_sigs q (records_at Z qs (q_Type q)) (records_at Z qs TypeRRSIG) \<and>
               fst (snd a) = apex_ns (z_Apex zn) (q_Do q) \<and> snd (snd (snd a)) = Success
      | Covered ls \<Rightarrow>
          let recs = (\<lambda>t. wildcard_records Z ls t (absolute qs)) in
          if recs TypeCNAME \<noteq> [] then alias_answer (recs TypeCNAME) a
          else if recs (q_Type q) = [] then denies zn q Success a
          else fst a = with_sigs q (recs (q_Type q)) (recs TypeRRSIG) \<and>
               prefix (apex_ns (z_Apex zn) (q_Do q)) (fst (snd a)) \<and> snd (snd (snd a)) = Success
      | Empty_name \<Rightarrow> denies zn q Success a
      | Missing \<Rightarrow> denies zn q NameError a)"

text \<open>
  The question is for \<open>ps\<close> below the origin of the zone, and not for the DS records of a delegated name.
\<close>

definition asked :: "zone \<Rightarrow> Zone \<Rightarrow> question \<Rightarrow> string list \<Rightarrow> string list \<Rightarrow> bool" where
  "asked Z zn q ps os \<longleftrightarrow>
     typed_zone Z \<and> plain_zone Z \<and> (q_Type q = TypeDS \<longrightarrow> records_at Z (ps @ os) TypeNS = []) \<and> labels_ok os \<and> z_origin zn = absolute os \<and> z_origLen zn = length os \<and> (\<forall>l\<in>set ps. label_ok l) \<and> q_Name q = absolute (ps @ os)"

lemma level_ok:
  assumes "asked Z zn q ps os"
  shows "labels_ok (level ps os i)" "suffix (level ps os i) (ps @ os)" "labels_ok (ps @ os)"
proof -
  show "labels_ok (level ps os i)" "labels_ok (ps @ os)"
    using assms by (auto simp: asked_def level_def intro!: labels_ok_append dest: in_set_dropD)
  show "suffix (level ps os i) (ps @ os)" by (simp add: level_def suffix_drop)
qed

lemma level_full:
  shows "level ps os (length ps) = ps @ os" "i \<le> length ps \<Longrightarrow> level ps os i = ps @ os \<longleftrightarrow> i = length ps"
  by (auto simp: level_def dest: arg_cong [where f = length])

lemma records_element: "element_of D Z (key_of ls) e \<Longrightarrow> Elem_Type e t = records_at Z ls t"
  by (simp add: records_at_def element_of_def Elem_Type_def)

text \<open>The answer of a level that ends the search.\<close>

definition stopped_at :: "zone \<Rightarrow> string list \<Rightarrow> string list \<Rightarrow> nat \<Rightarrow> sections \<Rightarrow> bool" where
  "stopped_at Z ps os i a \<longleftrightarrow>
     (if redirects Z ps os i then alias_answer (records_at Z (level ps os i) TypeDNAME) a
      else delegates Z ps os i \<and> fst a = [] \<and> prefix (records_at Z (level ps os i) TypeNS) (fst (snd a)) \<and>
           snd (snd (snd a)) = Delegation)"

context zone_dns
begin

lemma runs_delegation:
  assumes "element_of D Z (key_of ls) e"
  shows "runs D Z (delegation_answer D q e)
    (\<lambda>a. fst a = [] \<and> prefix (records_at Z ls TypeNS) (fst (snd a)) \<and> snd (snd (snd a)) = Delegation)"
  using records_element [OF assms]
  by (auto simp: delegation_answer_def Let_def intro!: runs_bind [OF runs_glue])

lemma runs_cut:
  assumes a: "asked Z zn q ps os" and e: "element_of D Z (key_of (level ps os i)) e" and i: "i \<le> length ps"
    and ns: "records_at Z (level ps os i) TypeNS \<noteq> []"
  shows "runs D Z (if q_Type q = TypeDS then zbind (zname D e) (\<lambda>name. zret (name = absolute (ps @ os))) else zret False) Not"
proof (cases "q_Type q = TypeDS")
  case True
  then have "level ps os i \<noteq> ps @ os" using a ns unfolding asked_def by metis
  moreover have "dkey D (absolute (ps @ os)) = key_of (ps @ os)" using dkey_absolute labels_ok_plain level_ok(3) [OF a] by blast
  moreover have "elem_ok D e" "ekey D e = key_of (level ps os i)" using e by (simp_all add: element_of_def)
  ultimately have "runs D Z (zbind (zname D e) (\<lambda>name. zret (name = absolute (ps @ os)))) Not"
    using key_of_inj by (intro runs_bind [OF runs_name]) (auto simp del: absolute_append key_of_append)
  with True show ?thesis by simp
qed auto

lemma runs_found:
  assumes a: "asked Z zn q ps os" and e: "element_of D Z (key_of (level ps os i)) e" and i: "i \<le> length ps"
  shows "runs D Z (lookup_found D N up ap q (absolute (ps @ os)) e)
    (\<lambda>r. case r of None \<Rightarrow> \<not> redirects Z ps os i \<and> \<not> delegates Z ps os i | Some s \<Rightarrow> stopped_at Z ps os i s)"
proof -
  have zn: "typed_zone Z" "plain_zone Z" "q_Name q = absolute (ps @ os)" using a by (simp_all add: asked_def)
  note rec = records_element [OF e]
  note dn = runs_dname [OF zn(1,2) level_ok(1) [OF a] level_ok(3) [OF a] level_ok(2) [OF a] zn(3) e]
  have here: "level ps os i = ps @ os \<longleftrightarrow> i = length ps" by (rule level_full(2) [OF i])
  show ?thesis
    unfolding lookup_found_def
  proof (rule runs_bind [OF dn], elim conjE)
    fix r assume r: "(r = None) = (Elem_Type e TypeDNAME = [] \<or> level ps os i = ps @ os)"
      "\<forall>s. r = Some s \<longrightarrow> alias_answer (Elem_Type e TypeDNAME) s"
    have red: "redirects Z ps os i \<longleftrightarrow> r \<noteq> None" using r(1) here i by (auto simp: redirects_def rec)
    show "runs D Z (case r of None \<Rightarrow>
          if gm_has (e_m e) TypeNS then
            zbind (if q_Type q = TypeDS then zbind (zname D e) (\<lambda>name. zret (name = absolute (ps @ os))) else zret False)
              (\<lambda>here. if here then zret None else zbind (delegation_answer D q e) (\<lambda>answer. zret (Some answer)))
          else zret None
        | Some answer \<Rightarrow> zret (Some answer))
      (\<lambda>r. case r of None \<Rightarrow> \<not> redirects Z ps os i \<and> \<not> delegates Z ps os i | Some s \<Rightarrow> stopped_at Z ps os i s)"
    proof (cases r)
      case (Some s)
      then show ?thesis using r(2) red by (auto simp: stopped_at_def rec)
    next
      case None
      have del: "runs D Z (zbind (delegation_answer D q e) (\<lambda>answer. zret (Some answer)))
          (case_option (\<not> redirects Z ps os i \<and> \<not> delegates Z ps os i) (stopped_at Z ps os i))" if "delegates Z ps os i"
        using that red None by (auto simp: stopped_at_def intro!: runs_bind [OF runs_delegation [OF e]])
      show ?thesis
      proof (cases "delegates Z ps os i")
        case True
        then have ns: "records_at Z (level ps os i) TypeNS \<noteq> []" by (simp add: delegates_def)
        then have "gm_has (e_m e) TypeNS" using element_has [OF e] rec by metis
        moreover have "runs D Z (zbind (if q_Type q = TypeDS then zbind (zname D e) (\<lambda>name. zret (name = absolute (ps @ os))) else zret False)
              (\<lambda>here. if here then zret None else zbind (delegation_answer D q e) (\<lambda>answer. zret (Some answer))))
            (case_option (\<not> redirects Z ps os i \<and> \<not> delegates Z ps os i) (stopped_at Z ps os i))"
          using del [OF True] by (intro runs_bind [OF runs_cut [OF a e i ns]]) simp
        ultimately show ?thesis unfolding None option.case by (simp only: if_True)
      next
        case False
        then show ?thesis using None red by (auto simp: element_has [OF e] rec delegates_def)
      qed
    qed
  qed
qed

end

text \<open>
  What the loop knows before it visits level \<open>i\<close>: the last search and the last wildcard found.
\<close>

definition visited :: "dns_lib \<Rightarrow> zone \<Rightarrow> string list \<Rightarrow> string list \<Rightarrow> nat \<Rightarrow> Elem option \<Rightarrow> bool \<Rightarrow> Elem option \<Rightarrow> bool" where
  "visited D Z ps os i elem found wildElem \<longleftrightarrow>
     (\<forall>j<i. \<not> redirects Z ps os j \<and> \<not> delegates Z ps os j) \<and>
     found = (elem \<noteq> None) \<and>
     (case i of 0 \<Rightarrow> elem = None
      | Suc j \<Rightarrow> (case elem of None \<Rightarrow> Z (key_of (level ps os j)) = None | Some e \<Rightarrow> element_of D Z (key_of (level ps os j)) e)) \<and>
     (case filter (wildcard_at Z ps os) (rev [0..<i]) of
        [] \<Rightarrow> wildElem = None
      | j # _ \<Rightarrow> (\<exists>w. wildElem = Some w \<and> element_of D Z (key_of (starred (level ps os j))) w))"

lemma visited_start: "visited D Z ps os 0 None False None"
  by (simp add: visited_def)

lemma visited_missing:
  assumes "visited D Z ps os i elem found w" "Z (key_of (level ps os i)) = None"
    and "if wildcard_at Z ps os i then \<exists>x. w' = Some x \<and> element_of D Z (key_of (starred (level ps os i))) x else w' = w"
  shows "visited D Z ps os (Suc i) None False w'"
  using assms by (auto simp: visited_def redirects_def delegates_def records_at_def less_Suc_eq)

lemma visited_found:
  assumes "visited D Z ps os i elem found w" "element_of D Z (key_of (level ps os i)) e"
    and "\<not> redirects Z ps os i \<and> \<not> delegates Z ps os i"
  shows "visited D Z ps os (Suc i) (Some e) True w"
proof -
  have "\<not> wildcard_at Z ps os i" using assms(2) by (auto simp: wildcard_at_def element_of_def)
  then show ?thesis using assms by (auto simp: visited_def less_Suc_eq)
qed

definition ended :: "dns_lib \<Rightarrow> zone \<Rightarrow> string list \<Rightarrow> string list \<Rightarrow> lookup_end \<Rightarrow> bool" where
  "ended D Z ps os e =
     (case e of
        Stopped a \<Rightarrow> (\<exists>i\<le>length ps. (\<forall>j<i. \<not> redirects Z ps os j \<and> \<not> delegates Z ps os j) \<and> stopped_at Z ps os i a)
      | Overshot elem found wildElem \<Rightarrow> visited D Z ps os (Suc (length ps)) elem found wildElem)"

context zone_dns
begin

lemma runs_wildcard:
  assumes a: "asked Z zn q ps os" and missing: "Z (key_of (level ps os i)) = None"
  shows "runs D Z (zbind (\<lambda>t. go_bind (replaceWithAsteriskLabel D (absolute (level ps os i))) (\<lambda>w. Ret (t, w))) (zsearch D))
    (\<lambda>(wild, wfound). if wildcard_at Z ps os i
       then wfound \<and> (\<exists>x. wild = Some x \<and> element_of D Z (key_of (starred (level ps os i))) x) else \<not> wfound)"
proof -
  obtain l ls where ls: "level ps os i = l # ls" using level_ok(1) [OF a] by (cases "level ps os i") (auto simp: labels_ok_def)
  have plain: "\<forall>l\<in>set (l # ls). plain_label l" using level_ok(1) [OF a, of i] labels_ok_plain ls by metis
  let ?w = "if ls = [] then '''' else absolute (''*'' # ls)"
  have star: "\<forall>l\<in>set (''*'' # ls). plain_label l" using plain star_ok by (auto simp: label_ok_def)
  have key: "dkey D ?w = (if ls = [] then [] else key_of (starred (level ps os i)))"
    using dkey_absolute [OF star] dkey_absolute [of "[]"] by (auto simp: starred_def ls absolute_def)
  have root: "Z [] = None" using a plain_zone_not_root by (simp add: asked_def)
  have wild: "wildcard_at Z ps os i \<longleftrightarrow> Z (dkey D ?w) \<noteq> None"
    using missing root unfolding key wildcard_at_def by (simp add: ls)
  have elem: "element_of D Z (dkey D ?w) x \<Longrightarrow> wildcard_at Z ps os i \<and> element_of D Z (key_of (starred (level ps os i))) x" for x
    using root wild unfolding key by (auto simp: element_of_def split: if_splits)
  have "runs D Z (zsearch D ?w) (\<lambda>(wild, wfound). if wildcard_at Z ps os i
       then wfound \<and> (\<exists>x. wild = Some x \<and> element_of D Z (key_of (starred (level ps os i))) x) else \<not> wfound)"
    by (rule runs_weaken [OF runs_search]) (use wild elem in \<open>auto split: option.splits\<close>)
  then show ?thesis unfolding ls using wildcard_name [OF plain] by (simp del: absolute_simps)
qed

lemma runs_loop:
  assumes a: "asked Z zn q ps os"
  shows "i \<le> Suc (length ps) \<Longrightarrow> length ps + 2 \<le> fuel + i \<Longrightarrow> visited D Z ps os i elem found w \<Longrightarrow>
    runs D Z (lookup_loop D N up zn q (absolute (ps @ os)) fuel i elem found w) (\<lambda>r. \<exists>e. r = Some e \<and> ended D Z ps os e)"
proof (induction fuel arbitrary: i elem found w)
  case (Suc fuel)
  let ?Q = "\<lambda>r. \<exists>e. r = Some e \<and> ended D Z ps os e"
  have names: "z_origin zn = absolute os" "z_origLen zn = length os" "\<forall>l\<in>set (ps @ os). plain_label l"
    using a labels_ok_plain [OF level_ok(3) [OF a]] by (simp_all add: asked_def)
  note nfr = nameFromRight_absolute [OF names, of i, folded level_def]
  show ?case
  proof (cases "i \<le> length ps")
    case False
    then show ?thesis using Suc.prems nfr by (auto simp: ended_def le_Suc_eq simp del: absolute_append)
  next
    case True
    have IH: "runs D Z (lookup_loop D N up zn q (absolute (ps @ os)) fuel (i + 1) elem found w) ?Q"
      if "visited D Z ps os (Suc i) elem found w" for elem found w
      using Suc.IH [of "Suc i"] that True Suc.prems(2) by simp
    have key: "dkey D (absolute (level ps os i)) = key_of (level ps os i)"
      using dkey_absolute labels_ok_plain level_ok(1) [OF a] by blast
    have absent: "runs D Z (zbind (\<lambda>t. go_bind (replaceWithAsteriskLabel D (absolute (level ps os i))) (\<lambda>w. Ret (t, w))) (\<lambda>wildcard.
          zbind (zsearch D wildcard) (\<lambda>(wild, wfound).
          lookup_loop D N up zn q (absolute (ps @ os)) fuel (i + 1) None False (if wfound then wild else w)))) ?Q"
      if missing: "Z (key_of (level ps os i)) = None"
    proof (rule runs_bind2 [OF runs_wildcard [OF a missing]], goal_cases)
      case (1 res)
      then have "visited D Z ps os (Suc i) None False (if snd res then fst res else w)"
        by (intro visited_missing [OF Suc.prems(3) missing]) (auto split: if_splits)
      from IH [OF this] show ?case by (simp add: case_prod_unfold)
    qed
    have present: "runs D Z (zbind (lookup_found D N up (z_Apex zn) q (absolute (ps @ os)) e) (\<lambda>res.
          case res of Some answer \<Rightarrow> zret (Some (Stopped answer))
          | None \<Rightarrow> lookup_loop D N up zn q (absolute (ps @ os)) fuel (i + 1) (Some e) True w)) ?Q"
      if e: "element_of D Z (key_of (level ps os i)) e" for e
    proof (rule runs_bind [OF runs_found [OF a e True]], goal_cases)
      case (1 res)
      then show ?case
        using IH [OF visited_found [OF Suc.prems(3) e]] Suc.prems(3) True by (cases res) (auto simp: ended_def visited_def)
    qed
    have step: "runs D Z (zbind (zsearch D (absolute (level ps os i))) g) ?Q"
      if "Z (key_of (level ps os i)) = None \<Longrightarrow> runs D Z (g (None, False)) ?Q"
        "\<And>e. element_of D Z (key_of (level ps os i)) e \<Longrightarrow> runs D Z (g (Some e, True)) ?Q" for g
    proof (rule runs_bind [OF runs_search], goal_cases)
      case (1 res)
      then show ?case using that unfolding key by (cases res; cases "fst res") auto
    qed
    show ?thesis
      unfolding lookup_loop.simps nfr using True
      by (simp del: absolute_append Suc_eq_plus1, intro step)
        (use absent present in \<open>simp_all del: absolute_append\<close>)
  qed
qed simp

end

section \<open>After the loop\<close>

lemma lexicographic_between:
  fixes k :: "'a::linorder list"
  shows "prefix k a \<Longrightarrow> k \<le> b \<Longrightarrow> b \<le> a \<Longrightarrow> prefix k b"
proof (induction k arbitrary: a b)
  case (Cons x k)
  then obtain a' where a: "a = x # a'" "prefix k a'" by (cases a) auto
  with Cons.prems(2,3) obtain b' where "b = x # b'" "k \<le> b'" "b' \<le> a'" by (cases b) auto
  with Cons.IH [OF a(2)] show ?case by simp
qed simp

lemma prefix_is_le: "prefix k a \<Longrightarrow> k \<le> (a :: 'a::linorder list)"
  by (induction k arbitrary: a) (auto simp: prefix_def)

lemma below_next:
  assumes "next_of D Z k res" "Z k = None"
  shows "(\<exists>a\<in>dom Z. prefix k a) \<longleftrightarrow> (\<exists>e. res = Some e \<and> prefix k (ekey D e))"
proof
  assume "\<exists>a\<in>dom Z. prefix k a"
  then obtain a where a: "a \<in> dom Z" "prefix k a" "k \<le> a" using prefix_is_le by blast
  have "a < k" if "res = None" using assms(1) a(1) that by (auto simp: next_of_def)
  then have "res \<noteq> None" using leD [OF a(3)] by blast
  with a obtain e where "res = Some e" "k \<le> ekey D e" "ekey D e \<le> a" using assms(1) by (cases res) (auto simp: next_of_def)
  then show "\<exists>e. res = Some e \<and> prefix k (ekey D e)" using lexicographic_between a(2) by blast
next
  assume "\<exists>e. res = Some e \<and> prefix k (ekey D e)"
  then show "\<exists>a\<in>dom Z. prefix k a" using assms(1) by (auto simp: next_of_def element_of_def)
qed

lemma NextLabel_bounds:
  assumes "NextLabel_dots NL" "CHR 92 \<notin> set s" "NL s off = (off', False)"
  shows "0 < off'" "off' < length s"
proof -
  let ?is = "filter (\<lambda>i. off \<le> i \<and> s ! i = CHR ''.'') [0..<length s - 1]"
  have "case ?is of [] \<Rightarrow> snd (NL s off) | i # _ \<Rightarrow> NL s off = (Suc i, False)"
    using assms(1,2) unfolding NextLabel_dots_def by blast
  then obtain i rest where i: "?is = i # rest" "off' = Suc i" using assms(3) by (cases ?is) auto
  have "i \<in> set ?is" by (simp only: i(1) list.set_intros)
  then show "0 < off'" "off' < length s" using i(2) by auto
qed

context zone_dns
begin

lemma runs_lookup_name:
  assumes a: "asked Z zn q ps os" and e: "element_of D Z (key_of (ps @ os)) e"
  shows "runs D Z (lookup_name D up zn q e) (conforms Z zn q (ps @ os) Present)"
proof -
  have t: "typed_zone Z" using a by (simp add: asked_def)
  note rec = records_element [OF e]
  note cn = runs_external [OF t _ cname_element [OF t e]]
  show ?thesis
    unfolding lookup_name_def Let_def rec
    by (auto simp: conforms_def denies_def with_sigs_def rec intro!: runs_bind [OF runs_additional]
      runs_weaken [OF cn [unfolded rec]])
qed

lemma runs_lookup_wildcard:
  assumes a: "asked Z zn q ps os" and w: "element_of D Z (key_of ls) w"
  shows "runs D Z (lookup_wildcard D up zn q (absolute (ps @ os)) w) (conforms Z zn q (ps @ os) (Covered ls))"
proof -
  have t: "typed_zone Z" using a by (simp add: asked_def)
  have rec: "TypeForWildcard w ty n = wildcard_records Z ls ty n" for ty n
    by (simp add: TypeForWildcard_def wildcard_records_def records_element [OF w])
  have cn: "runs D Z (externalLookup D up ap q w rrs) (alias_answer rrs)"
    if "rrs \<noteq> []" "rrs = wildcard_records Z ls TypeCNAME n" for ap rrs n
    using that cname_element [OF t w] records_element [OF w, of TypeCNAME]
    by (intro runs_external [OF t that(1)]) (auto simp: wildcard_records_def hd_map)
  show ?thesis
    unfolding lookup_wildcard_def Let_def rec
    by (auto simp: conforms_def denies_def with_sigs_def Let_def intro!: runs_bind [OF runs_prev] runs_weaken [OF cn])
qed

lemma runs_closest:
  "CHR 92 \<notin> set s \<Longrightarrow> length s < fuel \<Longrightarrow> (\<not> atend \<longrightarrow> 0 < off \<and> off < length s) \<Longrightarrow>
    runs D Z (closest_loop D origin fuel off atend s)
      (\<lambda>r. \<exists>elem found. r = Some (elem, found) \<and> found = (elem \<noteq> None) \<and> pred_option (elem_ok D) elem)"
proof (induction fuel arbitrary: s off atend)
  case (Suc fuel)
  let ?Q = "\<lambda>r. \<exists>elem found. r = Some (elem, found) \<and> found = (elem \<noteq> None) \<and> pred_option (elem_ok D) elem"
  have search: "runs D Z (zsearch D n) (\<lambda>(elem, found). found = (elem \<noteq> None) \<and> pred_option (elem_ok D) elem)" for n
    by (rule runs_weaken [OF runs_search]) (auto simp: element_of_def split: option.splits)
  show ?case
  proof (cases atend)
    case True
    then show ?thesis by (auto intro!: runs_bind [OF search])
  next
    case False
    then have off: "0 < off" "off < length s" using Suc.prems by auto
    let ?t = "drop off s"
    obtain o' e' where nl: "dNextLabel D ?t off = (o', e')" by fastforce
    have t: "CHR 92 \<notin> set ?t" using Suc.prems(1) in_set_dropD by metis
    have "\<not> e' \<longrightarrow> 0 < o' \<and> o' < length ?t"
      using NextLabel_bounds [OF _ t, of "dNextLabel D" off o'] dns nl by (auto simp: dns_laws_def)
    then have "runs D Z (closest_loop D origin fuel o' e' ?t) ?Q"
      using Suc.IH [OF t] Suc.prems(2) off by simp
    then show ?thesis
      using False off nl by (auto simp: slice_from_def intro!: runs_bind [OF search])
  qed
qed simp

end

context zone_dns
begin

lemma runs_denial:
  assumes "CHR 92 \<notin> set s" "elem_ok D deny"
  shows "runs D Z (wildcard_denial D zn s deny) (\<lambda>r. r \<noteq> None)"
proof -
  obtain off e where nl: "dNextLabel D s 0 = (off, e)" by fastforce
  have "\<not> e \<longrightarrow> 0 < off \<and> off < length s"
    using NextLabel_bounds [OF _ assms(1), of "dNextLabel D" 0 off] dns nl by (auto simp: dns_laws_def)
  then have ce: "runs D Z (ClosestEncloser D (z_origin zn) s)
      (\<lambda>r. \<exists>elem found. r = Some (elem, found) \<and> found = (elem \<noteq> None) \<and> pred_option (elem_ok D) elem)"
    unfolding ClosestEncloser_def nl Let_def prod.case by (intro runs_closest assms) simp_all
  have name: "runs D Z (zname D ss) (\<lambda>_. True)" if "elem_ok D ss" for ss
    using runs_anything [OF runs_name [OF that]] .
  have ok: "elem_ok D ss" if "element_of D Z k ss" for k ss using that by (simp add: element_of_def)
  have prev: "runs D Z (zprev D n) (\<lambda>(res, found). found = (res \<noteq> None) \<and> pred_option (elem_ok D) res)" for n
    by (rule runs_weaken [OF runs_prev]) (auto dest: ok split: option.splits simp: pred_option_def)
  show ?thesis
    unfolding wildcard_denial_def
    by (rule runs_bind [OF ce])
      (auto simp: assms(2) split: option.splits intro!: runs_bind [OF name] runs_bind [OF prev])
qed

lemma runs_longer:
  assumes a: "asked Z zn q ps os" and missing: "Z (key_of (ps @ os)) = None"
  shows "runs D Z (zbind (znext D (absolute (ps @ os))) (\<lambda>(x, found).
      case x of None \<Rightarrow> zret False
      | Some x \<Rightarrow> if found then zbind (zname D x) (\<lambda>name. zret (dIsSubDomain D (absolute (ps @ os)) name)) else zret False))
    (\<lambda>longer. longer = below Z (ps @ os))"
proof (rule runs_bind [OF runs_next], goal_cases)
  case (1 res)
  let ?qs = "ps @ os"
  have qs: "labels_ok ?qs" using level_ok(3) [OF a] .
  have key: "dkey D (absolute ?qs) = key_of ?qs" using dkey_absolute labels_ok_plain qs by blast
  obtain x found where res: "res = (x, found)" by fastforce
  with 1 have x: "found = (x \<noteq> None)" "next_of D Z (key_of ?qs) x" by (simp_all add: key del: absolute_append key_of_append)
  note nxt = below_next [OF x(2) missing, folded below_def]
  show ?case
  proof (cases x)
    case None
    then show ?thesis using nxt res by auto
  next
    case (Some e)
    then have e: "elem_ok D e" "Z (ekey D e) = Some (e_m e)" using x(2) by (simp_all add: next_of_def element_of_def)
    obtain cs where cs: "labels_ok cs" "ekey D e = key_of cs" using a e(2) unfolding asked_def plain_zone_def by blast
    have "dIsSubDomain D (absolute ?qs) n = below Z ?qs" if "dkey D n = ekey D e" for n
    proof -
      have "dIsSubDomain D (absolute ?qs) n \<longleftrightarrow> suffix ?qs cs"
        using dns qs cs key that unfolding dns_laws_def IsSubDomain_keys_def by metis
      then show ?thesis using nxt Some cs(2) prefix_key_of by (simp del: absolute_append key_of_append)
    qed
    then show ?thesis
      using Some res x(1) by (auto simp del: absolute_append intro!: runs_bind [OF runs_name [OF e(1)]])
  qed
qed

end

context zone_dns
begin

lemma runs_nothing:
  assumes a: "asked Z zn q ps os" and missing: "Z (key_of (ps @ os)) = None"
  shows "runs D Z (lookup_nothing D zn q (absolute (ps @ os)))
    (\<lambda>r. \<exists>s. r = Some s \<and> conforms Z zn q (ps @ os) (if below Z (ps @ os) then Empty_name else Missing) s)"
proof -
  let ?rc = "if below Z (ps @ os) then Success else NameError"
  have plain: "CHR 92 \<notin> set (absolute (ps @ os))" using plain_absolute labels_ok_plain level_ok(3) [OF a] by blast
  have prev: "runs D Z (zprev D n) (\<lambda>(res, found). found = (res \<noteq> None) \<and> pred_option (elem_ok D) res)" for n
    by (rule runs_weaken [OF runs_prev]) (auto simp: pred_option_def element_of_def)
  have den: "denies zn q ?rc ([], apex_soa (z_Apex zn) (q_Do q) @ more_rrs, [], ?rc)" for more_rrs
    by (simp add: denies_def)
  have "runs D Z (lookup_nothing D zn q (absolute (ps @ os))) (\<lambda>r. \<exists>s. r = Some s \<and> denies zn q ?rc s)"
    unfolding lookup_nothing_def case_prod_unfold
    by (rule runs_bind2 [OF runs_longer [OF a missing, unfolded case_prod_unfold]])
      (use den den [of "[]"] in \<open>auto simp: Let_def case_prod_unfold simp del: absolute_append intro!: runs_bind [OF prev]
        runs_bind [OF runs_denial [OF plain]] split: option.splits\<close>)
  then show ?thesis by (rule runs_weaken) (auto simp: conforms_def)
qed

end

lemma filter_first:
  assumes "i \<le> n" "P i" "\<forall>j<i. \<not> P j"
  shows "\<exists>rest. filter P [0..<Suc n] = i # rest"
proof -
  have "[0..<Suc n] = [0..<i] @ [i..<Suc n]" using assms(1) upt_add_eq_append [of 0 i "Suc n - i"] by simp
  then have "[0..<Suc n] = [0..<i] @ i # [Suc i..<Suc n]" using assms(1) upt_conv_Cons [of i "Suc n"] by simp
  moreover have "filter P [0..<i] = []" using assms(3) by (simp add: filter_empty_conv)
  ultimately show ?thesis using assms(2) by (simp del: upt_Suc)
qed

lemma stopped_verdict:
  assumes "i \<le> length ps" "\<forall>j<i. \<not> redirects Z ps os j \<and> \<not> delegates Z ps os j" "stopped_at Z ps os i s"
  shows "conforms Z zn q (ps @ os) (verdict_of Z ps os) s"
proof -
  have "\<exists>rest. filter (\<lambda>i. redirects Z ps os i \<or> delegates Z ps os i) [0..<Suc (length ps)] = i # rest"
    using assms by (intro filter_first) (auto simp: stopped_at_def split: if_splits)
  then show ?thesis using assms(3)
    by (auto simp: verdict_of_def conforms_def stopped_at_def simp del: upt_Suc split: if_splits)
qed

context zone_dns
begin

lemma runs_overshot:
  assumes a: "asked Z zn q ps os" and v: "visited D Z ps os (Suc (length ps)) elem found w"
  shows "runs D Z (if found then
        (case elem of None \<Rightarrow> zpanic ''nil pointer dereference''
                    | Some e \<Rightarrow> zbind (lookup_name D up zn q e) (\<lambda>a. zret (Some a)))
      else (case w of
              Some w \<Rightarrow> zbind (lookup_wildcard D up zn q (absolute (ps @ os)) w) (\<lambda>a. zret (Some a))
            | None \<Rightarrow> lookup_nothing D zn q (absolute (ps @ os))))
    (\<lambda>r. \<exists>s. r = Some s \<and> conforms Z zn q (ps @ os) (verdict_of Z ps os) s)"
proof -
  have quiet: "filter (\<lambda>i. redirects Z ps os i \<or> delegates Z ps os i) [0..<Suc (length ps)] = []"
    using v by (auto simp: visited_def filter_empty_conv)
  show ?thesis
  proof (cases elem)
    case (Some e)
    then have found: "found" and e: "element_of D Z (key_of (ps @ os)) e"
      using v level_full(1) [of ps os] by (simp_all add: visited_def del: key_of_append)
    then have "verdict_of Z ps os = Present" by (simp only: verdict_of_def quiet element_of_def) simp
    then show ?thesis using Some found by (auto intro!: runs_bind [OF runs_lookup_name [OF a e]])
  next
    case None
    then have found: "\<not> found" and missing: "Z (key_of (ps @ os)) = None"
      using v level_full(1) [of ps os] by (simp_all add: visited_def del: key_of_append)
    show ?thesis
    proof (cases "filter (wildcard_at Z ps os) (rev [0..<Suc (length ps)])")
      case Nil
      then have "w = None" using v by (simp add: visited_def del: upt_Suc)
      moreover have "verdict_of Z ps os = (if below Z (ps @ os) then Empty_name else Missing)"
        using missing by (simp only: verdict_of_def quiet Nil list.case) simp
      ultimately show ?thesis using found runs_nothing [OF a missing] by simp
    next
      case (Cons j js)
      then obtain x where w: "w = Some x" and x: "element_of D Z (key_of (starred (level ps os j))) x"
        using v by (auto simp: visited_def simp del: upt_Suc)
      have "verdict_of Z ps os = Covered (starred (level ps os j))"
        using missing by (simp only: verdict_of_def quiet Cons list.case) simp
      moreover have "runs D Z (zbind (lookup_wildcard D up zn q (absolute (ps @ os)) x) (\<lambda>a. zret (Some a)))
          (\<lambda>r. \<exists>s. r = Some s \<and> conforms Z zn q (ps @ os) (Covered (starred (level ps os j))) s)"
        by (rule runs_bind [OF runs_lookup_wildcard [OF a x]]) auto
      ultimately show ?thesis using w found by simp
    qed
  qed
qed

text \<open>A lookup returns, keeps the zone, and answers what the verdict on the name asks for.\<close>

lemma runs_Lookup:
  assumes a: "asked Z zn q ps os" and soa: "ap_SOA (z_Apex zn) \<noteq> None"
    and apex: "\<not> (ps = [] \<and> q_Type q \<in> {TypeSOA, TypeNS})"
  shows "runs D Z (Zone_Lookup D N up zn q (absolute (ps @ os)))
    (\<lambda>r. \<exists>s. r = Some s \<and> conforms Z zn q (ps @ os) (verdict_of Z ps os) s)"
proof -
  let ?Q = "\<lambda>r. \<exists>s. r = Some s \<and> conforms Z zn q (ps @ os) (verdict_of Z ps os) s"
  have len: "length ps \<le> length (absolute (ps @ os))" by (induction ps) auto
  have origin: "\<not> (absolute (ps @ os) = z_origin zn \<and> q_Type q \<in> {TypeSOA, TypeNS})"
  proof -
    have "absolute (ps @ os) = absolute os \<Longrightarrow> ps = []"
      by (cases ps) auto
    then show ?thesis using apex a by (auto simp: asked_def)
  qed
  have loop: "runs D Z (lookup_loop D N up zn q (absolute (ps @ os)) (length (absolute (ps @ os)) + 2) 0 None False None)
      (\<lambda>r. \<exists>e. r = Some e \<and> ended D Z ps os e)"
    using len by (intro runs_loop [OF a]) (simp_all add: visited_start)
  have "runs D Z (zbind (lookup_loop D N up zn q (absolute (ps @ os)) (length (absolute (ps @ os)) + 2) 0 None False None) (\<lambda>e.
        case e of
          None \<Rightarrow> zret None
        | Some (Stopped answer) \<Rightarrow> zret (Some answer)
        | Some (Overshot elem found w) \<Rightarrow>
            if found then
              (case elem of None \<Rightarrow> zpanic ''nil pointer dereference''
                          | Some e \<Rightarrow> zbind (lookup_name D up zn q e) (\<lambda>a. zret (Some a)))
            else (case w of
                    Some w \<Rightarrow> zbind (lookup_wildcard D up zn q (absolute (ps @ os)) w) (\<lambda>a. zret (Some a))
                  | None \<Rightarrow> lookup_nothing D zn q (absolute (ps @ os))))) ?Q"
  proof (rule runs_bind [OF loop], goal_cases)
    case (1 r)
    then obtain e where e: "r = Some e" "ended D Z ps os e" by blast
    show ?case
    proof (cases e)
      case (Stopped s)
      then obtain i where "i \<le> length ps" "\<forall>j<i. \<not> redirects Z ps os j \<and> \<not> delegates Z ps os j" "stopped_at Z ps os i s"
        using e(2) by (auto simp: ended_def)
      then have "conforms Z zn q (ps @ os) (verdict_of Z ps os) s" by (rule stopped_verdict)
      then show ?thesis unfolding e(1) Stopped option.case lookup_end.case by (intro runs_ret exI conjI) simp_all
    next
      case (Overshot elem found w)
      then show ?thesis using e(1) e(2) runs_overshot [OF a, of elem found w] by (simp add: ended_def)
    qed
  qed
  moreover have "\<not> (absolute (ps @ os) = z_origin zn \<and> q_Type q = TypeSOA)" "\<not> (absolute (ps @ os) = z_origin zn \<and> q_Type q = TypeNS)"
    using origin by auto
  ultimately show ?thesis using soa unfolding Zone_Lookup_def Let_def by (simp only: if_False)
qed

end

end
