(* ===== verification/ZoneServe.thy ===== *)
theory ZoneServe
  imports ZoneLookupSpec
begin

text \<open>
  The DNS server end to end (\<open>coredns/plugin/file/file.go\<close>): what \<open>Parse\<close> loads from the records
  of a zone file, and what \<open>ServeDNS\<close> replies to a question for a name of the zone. The laws of the
  name functions of miekg/dns are shown to hold of functions that split a name at its dots.
\<close>

section \<open>Loading a zone\<close>

text \<open>The names of a record in lower case, and the type of the data.\<close>

definition normal :: "RR \<Rightarrow> RR" where
  "normal r = r\<lparr>rr_Name := strings_ToLower (rr_Name r), rr_data :=
     (case rr_data r of
        NS x \<Rightarrow> NS (strings_ToLower x)
      | SOA x m s \<Rightarrow> SOA (strings_ToLower x) (strings_ToLower m) s
      | CNAME x \<Rightarrow> CNAME (strings_ToLower x)
      | MX x \<Rightarrow> MX (strings_ToLower x)
      | SRV x \<Rightarrow> SRV (strings_ToLower x)
      | d \<Rightarrow> d)\<rparr>"

fun data_type :: "rdata \<Rightarrow> u16 option" where
  "data_type (NS _) = Some TypeNS"
| "data_type (SOA _ _ _) = Some TypeSOA"
| "data_type (RRSIG _) = Some TypeRRSIG"
| "data_type (CNAME _) = Some TypeCNAME"
| "data_type (DNAME _) = Some TypeDNAME"
| "data_type (MX _) = Some TypeMX"
| "data_type (SRV _) = Some TypeSRV"
| "data_type (Rdata _) = None"

definition well_typed :: "RR \<Rightarrow> bool" where
  "well_typed r \<longleftrightarrow>
     (case data_type (rr_data r) of
        Some t \<Rightarrow> rr_Rrtype r = t
      | None \<Rightarrow> rr_Rrtype r \<notin> {TypeNS, TypeSOA, TypeRRSIG, TypeCNAME, TypeDNAME, TypeMX, TypeSRV, TypeNSEC3, TypeNSEC3PARAM})"

text \<open>
  What a record adds to a zone: the SOA record and the NS records of the origin, with their signatures,
  go to the apex, every other record goes to its name.
\<close>

definition load_record :: "dns_lib \<Rightarrow> string \<Rightarrow> RR \<Rightarrow> zone \<times> Apex \<Rightarrow> zone \<times> Apex" where
  "load_record D origin r = (\<lambda>(Z, ap).
     let r = normal r in
     case rr_data r of
       NS _ \<Rightarrow> if rr_Name r = origin then (Z, ap\<lparr>ap_NS := ap_NS ap @ [r]\<rparr>) else (zone_insert D r Z, ap)
     | SOA _ _ _ \<Rightarrow> (Z, ap\<lparr>ap_SOA := Some r\<rparr>)
     | RRSIG t \<Rightarrow>
         if t = TypeSOA then (Z, ap\<lparr>ap_SIGSOA := ap_SIGSOA ap @ [r]\<rparr>)
         else if t = TypeNS \<and> rr_Name r = origin then (Z, ap\<lparr>ap_SIGNS := ap_SIGNS ap @ [r]\<rparr>)
         else (zone_insert D r Z, ap)
     | _ \<Rightarrow> (zone_insert D r Z, ap))"

definition load :: "dns_lib \<Rightarrow> string \<Rightarrow> RR list \<Rightarrow> zone \<times> Apex" where
  "load D origin rs = fold (load_record D origin) rs (\<lambda>k. None, empty_Apex)"

definition is_SOA :: "RR \<Rightarrow> bool" where
  "is_SOA r = (case rr_data r of SOA _ _ _ \<Rightarrow> True | _ \<Rightarrow> False)"

text \<open>A zone holds an abstract zone and an apex.\<close>

definition holds :: "dns_lib \<Rightarrow> Zone \<Rightarrow> zone \<times> Apex \<Rightarrow> bool" where
  "holds D z s \<longleftrightarrow> zone_ok D (z_Tree z) \<and> s = (zone_of D (z_Tree z), z_Apex z)"

context zone_names
begin

lemma tree_insert_holds:
  assumes "holds D z (Z, ap)"
  shows "\<exists>t. tree_insert D r z = Ret (None, z\<lparr>z_Tree := t\<rparr>) \<and> holds D (z\<lparr>z_Tree := t\<rparr>) (zone_insert D r Z, ap)"
proof -
  have z: "zone_ok D (z_Tree z)" "Z = zone_of D (z_Tree z)" "ap = z_Apex z" using assms by (simp_all add: holds_def)
  from Tree_Insert_ok [OF z(1), of r] obtain t where
    "Tree_Insert D (z_Tree z) r = Ret t" "zone_ok D t" "zone_of D t = zone_insert D r (zone_of D (z_Tree z))" by blast
  then show ?thesis using z by (intro exI [of _ t]) (simp add: tree_insert_def holds_def)
qed

lemma Zone_Insert_holds:
  assumes "holds D z s" "well_typed r"
  shows "\<exists>z'. Zone_Insert D r z = Ret (None, z') \<and> holds D z' (load_record D (z_origin z) r s) \<and>
    z_origin z' = z_origin z \<and> z_origLen z' = z_origLen z \<and> z_Expired z' = z_Expired z"
proof -
  obtain Z ap where s: "s = (Z, ap)" by fastforce
  have z: "z_Apex z = ap" "holds D z (Z, ap)" using assms(1) by (simp_all add: s holds_def)
  have ins: "\<exists>z'. tree_insert D r' z = Ret (None, z') \<and> holds D z' (zone_insert D r' Z, ap) \<and>
      z_origin z' = z_origin z \<and> z_origLen z' = z_origLen z \<and> z_Expired z' = z_Expired z" for r'
    using tree_insert_holds [OF z(2), of r'] by auto
  have apex: "holds D (z\<lparr>z_Apex := ap'\<rparr>) (Z, ap')" for ap'
    using z(2) by (simp add: holds_def)
  show ?thesis
    using assms(2) ins apex
    by (cases r; cases "rr_data r") (auto simp: Zone_Insert_def Let_def load_record_def normal_def well_typed_def s z(1))
qed

lemma parse_holds:
  assumes "holds D z s" "\<forall>r\<in>set rs. well_typed r" "serial < 0" "seen \<or> (\<exists>r\<in>set rs. is_SOA r)"
  shows "\<exists>z'. parse_loop D origin fileName serial (map (\<lambda>r. (r, None)) rs) seen z = Ret (Inr z') \<and>
    holds D z' (fold (load_record D (z_origin z)) rs s) \<and>
    z_origin z' = z_origin z \<and> z_origLen z' = z_origLen z \<and> z_Expired z' = z_Expired z"
  using assms
proof (induction rs arbitrary: z s seen)
  case Nil
  then show ?case by simp
next
  case (Cons r rs)
  obtain z1 where z1: "Zone_Insert D r z = Ret (None, z1)" "holds D z1 (load_record D (z_origin z) r s)"
    "z_origin z1 = z_origin z" "z_origLen z1 = z_origLen z" "z_Expired z1 = z_Expired z"
    using Zone_Insert_holds [OF Cons.prems(1), of r] Cons.prems(2) by auto
  have "\<forall>r\<in>set rs. well_typed r" "(seen \<or> is_SOA r) \<or> (\<exists>r\<in>set rs. is_SOA r)" using Cons.prems by auto
  from Cons.IH [OF z1(2) this(1) Cons.prems(3) this(2)] show ?case
    using z1 Cons.prems(3) by (auto simp: Let_def is_SOA_def split: rdata.splits)
qed

end

text \<open>A record of a zone file that the model of the name functions covers.\<close>

definition plain_record :: "RR \<Rightarrow> bool" where
  "plain_record r \<longleftrightarrow> well_typed r \<and> (\<exists>ls. labels_ok ls \<and> strings_ToLower (rr_Name r) = absolute ls)"

lemma add_rr_lookup:
  "fmlookup (add_rr r mo) t = Some rrs \<Longrightarrow> x \<in> set rrs \<Longrightarrow>
    x = r \<and> rr_Rrtype r = t \<or> (\<exists>m rrs'. mo = Some m \<and> fmlookup m t = Some rrs' \<and> x \<in> set rrs')"
  by (cases mo) (auto simp: gm_get_def split: if_splits option.splits)

lemma typed_insert:
  assumes "typed_zone Z" "typed r"
  shows "typed_zone (zone_insert D r Z)"
  unfolding typed_zone_def
proof (intro allI impI ballI)
  fix k m t rrs x assume m: "zone_insert D r Z k = Some m" "fmlookup m t = Some rrs" "x \<in> set rrs"
  show "typed x \<and> rr_Rrtype x = t"
  proof (cases "k = dkey D (rr_Name r)")
    case True
    then have "fmlookup (add_rr r (Z k)) t = Some rrs" using m(1,2) by (simp add: zone_insert_def Let_def)
    from add_rr_lookup [OF this m(3)] show ?thesis using assms unfolding typed_zone_def by blast
  next
    case False
    then show ?thesis using m assms(1) unfolding typed_zone_def zone_insert_def Let_def by (metis fun_upd_apply)
  qed
qed

lemma typed_normal: "well_typed r \<Longrightarrow> typed (normal r)"
  by (cases "rr_data r") (auto simp: well_typed_def typed_def normal_def)

context zone_dns
begin

lemma plain_insert:
  assumes "plain_zone Z" "labels_ok ls" "rr_Name r = absolute ls"
  shows "plain_zone (zone_insert D r Z)"
  unfolding plain_zone_def
proof (intro allI impI)
  have key: "dkey D (rr_Name r) = key_of ls" using assms(2,3) dkey_absolute labels_ok_plain by metis
  fix k m assume m: "zone_insert D r Z k = Some m"
  show "\<exists>ls. labels_ok ls \<and> k = key_of ls \<and> (\<forall>t rrs. fmlookup m t = Some rrs \<longrightarrow> (\<forall>rr\<in>set rrs. rr_Name rr = absolute ls))"
  proof (cases "k = key_of ls")
    case True
    have "rr_Name x = absolute ls" if "fmlookup m t = Some rrs" "x \<in> set rrs" for t rrs x
    proof -
      have "fmlookup (add_rr r (Z k)) t = Some rrs" using m that(1) True key by (simp add: zone_insert_def Let_def)
      from add_rr_lookup [OF this that(2)] show ?thesis
        using assms(1,3) True key_of_inj unfolding plain_zone_def by metis
    qed
    with True assms(2) show ?thesis by blast
  next
    case False
    then have "Z k = Some m" using m key by (simp add: zone_insert_def Let_def)
    with assms(1) show ?thesis unfolding plain_zone_def by blast
  qed
qed

lemma load_record_plain:
  assumes "plain_record r" "typed_zone (fst s)" "plain_zone (fst s)"
  shows "typed_zone (fst (load_record D origin r s))" "plain_zone (fst (load_record D origin r s))"
proof -
  obtain ls where ls: "labels_ok ls" "rr_Name (normal r) = absolute ls" using assms(1) by (auto simp: plain_record_def normal_def)
  have "typed (normal r)" using assms(1) typed_normal by (simp add: plain_record_def)
  note ins = typed_insert [OF assms(2) this] plain_insert [OF assms(3) ls]
  have "fst (load_record D origin r s) \<in> {fst s, zone_insert D (normal r) (fst s)}"
    by (auto simp: load_record_def Let_def split: prod.split rdata.split)
  then show "typed_zone (fst (load_record D origin r s))" "plain_zone (fst (load_record D origin r s))"
    using assms(2,3) ins by auto
qed

lemma load_plain:
  assumes "\<forall>r\<in>set rs. plain_record r"
  shows "typed_zone (fst (load D origin rs))" "plain_zone (fst (load D origin rs))"
proof -
  have "typed_zone (fst s) \<and> plain_zone (fst s) \<Longrightarrow> \<forall>r\<in>set rs. plain_record r \<Longrightarrow>
      typed_zone (fst (fold (load_record D origin) rs s)) \<and> plain_zone (fst (fold (load_record D origin) rs s))" for rs s
    by (induction rs arbitrary: s) (auto simp: load_record_plain)
  moreover have "typed_zone (\<lambda>k. None)" "plain_zone (\<lambda>k. None)" by (simp_all add: typed_zone_def plain_zone_def)
  ultimately show "typed_zone (fst (load D origin rs))" "plain_zone (fst (load D origin rs))"
    using assms by (simp_all add: load_def)
qed

end

section \<open>Serving\<close>

text \<open>\<open>Matches\<close> keeps the longest of the zones that the name is in.\<close>

lemma Matches_fold:
  "(let z = fold (\<lambda>zname zone. if dIsSubDomain D zname qname \<and> length zone < length zname then zname else zone) names z0 in
    (z = z0 \<or> z \<in> set names \<and> dIsSubDomain D z qname) \<and> length z0 \<le> length z \<and>
    (\<forall>n\<in>set names. dIsSubDomain D n qname \<longrightarrow> length n \<le> length z))"
proof (induction names arbitrary: z0)
  case (Cons n names)
  let ?z1 = "if dIsSubDomain D n qname \<and> length z0 < length n then n else z0"
  from Cons.IH [of ?z1] show ?case by (auto simp: Let_def split: if_splits)
qed simp

lemma Zones_Matches_longest:
  assumes "dIsSubDomain D n qname" "n \<in> set names" "n \<noteq> ''''" "\<forall>m\<in>set names. dIsSubDomain D m qname \<longrightarrow> length m \<le> length n \<and> (length m = length n \<longrightarrow> m = n)"
  shows "Zones_Matches D names qname = n"
proof -
  let ?z = "Zones_Matches D names qname"
  have z: "?z = '''' \<or> ?z \<in> set names \<and> dIsSubDomain D ?z qname" "length n \<le> length ?z"
    using Matches_fold [of D qname names "''''"] assms(1,2) unfolding Zones_Matches_def Let_def by blast+
  moreover have "?z \<noteq> ''''" using z(2) assms(3) by auto
  ultimately show ?thesis using assms(4) le_antisym by blast
qed

section \<open>Functions with the laws\<close>

definition dots_NextLabel :: "string \<Rightarrow> nat \<Rightarrow> nat \<times> bool" where
  "dots_NextLabel s off =
     (case filter (\<lambda>i. off \<le> i \<and> s ! i = CHR ''.'') [0..<length s - 1] of [] \<Rightarrow> (length s, True) | i # _ \<Rightarrow> (Suc i, False))"

fun split_dots :: "string \<Rightarrow> string \<Rightarrow> string list" where
  "split_dots acc [] = (if acc = [] then [] else [rev acc])"
| "split_dots acc (c # s) = (if c = CHR ''.'' then rev acc # split_dots [] s else split_dots (c # acc) s)"

definition dotted_dns :: dns_lib where
  "dotted_dns = \<lparr>dPrevLabel = dots_PrevLabel, dNextLabel = dots_NextLabel,
     dIsSubDomain = (\<lambda>p c. prefix (name_key dots_PrevLabel p) (name_key dots_PrevLabel c)), dRange = (\<lambda>m t. 0)\<rparr>"

definition dotted_names :: name_lib where
  "dotted_names = \<lparr>nl_CountLabel = (\<lambda>s. length (split_dots [] s)), nl_SplitDomainName = split_dots [],
     nl_Fqdn = (\<lambda>s. if s \<noteq> [] \<and> last s = CHR ''.'' then s else s @ ''.'')\<rparr>"

lemma split_dots_label: "CHR ''.'' \<notin> set l \<Longrightarrow> split_dots acc (l @ CHR ''.'' # s) = (rev acc @ l) # split_dots [] s"
  by (induction l arbitrary: acc) auto

lemma split_dots_absolute: "\<forall>l\<in>set ls. plain_label l \<Longrightarrow> split_dots [] (absolute ls) = ls"
  by (induction ls) (auto simp: split_dots_label plain_label_def)

lemma last_absolute: "ls \<noteq> [] \<Longrightarrow> absolute ls \<noteq> [] \<and> last (absolute ls) = CHR ''.''"
  by (induction ls) auto

lemma dotted_laws: "dns_laws dotted_dns" "name_laws dotted_names"
proof -
  have "NextLabel_dots dots_NextLabel"
    by (auto simp: NextLabel_dots_def dots_NextLabel_def split: list.split)
  moreover have "IsSubDomain_keys dotted_dns"
    by (simp add: IsSubDomain_keys_def dotted_dns_def dkey_def prefix_key_of)
  ultimately show "dns_laws dotted_dns"
    by (simp add: dns_laws_def dotted_dns_def dots_PrevLabel_laws dots_PrevLabel_dots)
  show "name_laws dotted_names"
    using last_absolute by (auto simp: name_laws_def dotted_names_def labels_ok_def split_dots_absolute label_ok_def)
qed

interpretation dotted: zone_dns dotted_dns dotted_names
  by unfold_locales (rule dotted_laws)+

section \<open>Properties\<close>

lemma verdict_missing:
  "verdict_of Z ps os = Missing \<longleftrightarrow>
     (\<forall>i\<le>length ps. \<not> redirects Z ps os i \<and> \<not> delegates Z ps os i \<and> \<not> wildcard_at Z ps os i) \<and> \<not> below Z (ps @ os)"
proof -
  have here: "\<not> below Z (ps @ os) \<Longrightarrow> Z (key_of (ps @ os)) = None" by (auto simp: below_def simp del: key_of_append)
  have none: "(\<forall>i\<le>length ps. \<not> P i) \<longleftrightarrow> filter P [0..<Suc (length ps)] = []" for P
    by (auto simp: filter_empty_conv less_Suc_eq_le simp del: upt_Suc)
  have rev_none: "filter P (rev xs) = [] \<longleftrightarrow> filter P xs = []" for P and xs :: "nat list"
    by (simp add: filter_empty_conv)
  define stops where "stops = filter (\<lambda>i. redirects Z ps os i \<or> delegates Z ps os i) [0..<Suc (length ps)]"
  define wilds where "wilds = filter (wildcard_at Z ps os) (rev [0..<Suc (length ps)])"
  have "verdict_of Z ps os = Missing \<longleftrightarrow> stops = [] \<and> Z (key_of (ps @ os)) = None \<and> wilds = [] \<and> \<not> below Z (ps @ os)"
    unfolding verdict_of_def stops_def [symmetric] wilds_def [symmetric]
    by (cases stops; cases wilds; cases "Z (key_of (ps @ os))") (simp_all del: key_of_append)
  moreover have "stops = [] \<longleftrightarrow> (\<forall>i\<le>length ps. \<not> (redirects Z ps os i \<or> delegates Z ps os i))"
    "wilds = [] \<longleftrightarrow> (\<forall>i\<le>length ps. \<not> wildcard_at Z ps os i)"
    unfolding stops_def wilds_def none rev_none by simp_all
  ultimately show ?thesis using here by blast
qed

lemma conforms_rcode:
  assumes "conforms Z zn q qs v s"
  shows "snd (snd (snd s)) = NameError \<longleftrightarrow> v = Missing" "snd (snd (snd s)) = Delegation \<longleftrightarrow> (\<exists>ls. v = Referred ls)"
    "snd (snd (snd s)) \<noteq> ServerFailure"
  using assms by (auto simp: conforms_def denies_def alias_answer_def Let_def split: verdict.splits if_splits)

text \<open>
  C2. A lookup refines the specification of the zone: for any name below the origin of a loaded
  zone it returns without panicking, leaves the zone as it is, and its sections and result are those
  of the verdict on the name (redirected by a DNAME record or referred at the topmost cut above the
  name, the records of the name, the records of the wildcard, an empty name, or a missing name).
\<close>

theorem Lookup_conforms:
  assumes "dns_laws D" "name_laws N" "zone_ok D t" "asked (zone_of D t) zn q ps os" "ap_SOA (z_Apex zn) \<noteq> None"
    and "\<not> (ps = [] \<and> q_Type q \<in> {TypeSOA, TypeNS})"
  shows "\<exists>t' s. Zone_Lookup D N up zn q (absolute (ps @ os)) t = Ret (t', Some s) \<and> zone_ok D t' \<and> zone_of D t' = zone_of D t \<and>
    conforms (zone_of D t) zn q (ps @ os) (verdict_of (zone_of D t) ps os) s"
proof -
  have "zone_dns D N" using assms(1,2) by (rule zone_dns.intro)
  from zone_dns.runs_Lookup [OF this assms(4-6), of up] show ?thesis
    using assms(3) unfolding runs_def by blast
qed

text \<open>
  C33. A lookup answers that a name does not exist exactly when nothing in the zone speaks for the
  name: no DNAME record above it, no delegation above it or at it, no record at it or below it, and no
  wildcard at any level that is missing.
\<close>

theorem NameError_exact:
  assumes "dns_laws D" "name_laws N" "zone_ok D t" "asked (zone_of D t) zn q ps os" "ap_SOA (z_Apex zn) \<noteq> None"
    and "\<not> (ps = [] \<and> q_Type q \<in> {TypeSOA, TypeNS})"
    and "Zone_Lookup D N up zn q (absolute (ps @ os)) t = Ret (t', Some (answer, ns, extra, rcode))"
  shows "rcode = NameError \<longleftrightarrow>
    (\<forall>i\<le>length ps. \<not> redirects (zone_of D t) ps os i \<and> \<not> delegates (zone_of D t) ps os i \<and> \<not> wildcard_at (zone_of D t) ps os i) \<and>
    \<not> below (zone_of D t) (ps @ os)"
proof -
  have "zone_dns D N" using assms(1,2) by (rule zone_dns.intro)
  from zone_dns.runs_Lookup [OF this assms(4-6), of up]
  have "conforms (zone_of D t) zn q (ps @ os) (verdict_of (zone_of D t) ps os) (answer, ns, extra, rcode)"
    using assms(3,7) unfolding runs_def by (auto simp del: absolute_append)
  from conforms_rcode(1) [OF this] show ?thesis by (simp add: verdict_missing)
qed

text \<open>
  C34. Loading a zone file: for records whose data is of their type, with an SOA record among them,
  \<open>Parse\<close> returns a zone with a sound tree that holds exactly the records of the file in lower
  case, each at its name, with the SOA record and the NS records of the origin in the apex.
\<close>

theorem Parse_loads_zone:
  assumes "PrevLabel_laws (dPrevLabel D)" "\<forall>r\<in>set rs. well_typed r" "\<exists>r\<in>set rs. is_SOA r" "serial < 0"
  shows "\<exists>z. Zone_Parse D N origin fileName serial (map (\<lambda>r. (r, None)) rs) = Ret (Inr z) \<and> zone_ok D (z_Tree z) \<and>
    (zone_of D (z_Tree z), z_Apex z) = load D (nl_Fqdn N origin) rs \<and>
    z_origin z = nl_Fqdn N origin \<and> z_origLen z = nl_CountLabel N (nl_Fqdn N origin)"
proof -
  have "holds D (NewZone N origin) (\<lambda>k. None, empty_Apex)"
    using zone_ok_empty [of D] by (simp add: holds_def NewZone_def empty_tree_def)
  from zone_names.parse_holds [OF zone_names.intro [OF assms(1)] this assms(2,4) disjI2 [OF assms(3)], of origin fileName False]
  show ?thesis by (auto simp: Zone_Parse_def holds_def load_def NewZone_def)
qed

text \<open>The records of the apex have data of their type too.\<close>

definition typed_apex :: "Apex \<Rightarrow> bool" where
  "typed_apex ap \<longleftrightarrow>
     pred_option is_SOA (ap_SOA ap) \<and> (\<forall>r\<in>set (ap_NS ap). \<exists>x. rr_data r = NS x) \<and>
     (\<forall>r\<in>set (ap_SIGSOA ap). rr_data r = RRSIG TypeSOA) \<and> (\<forall>r\<in>set (ap_SIGNS ap). rr_data r = RRSIG TypeNS)"

lemma load_record_typed:
  assumes "well_typed r" "typed_zone (fst s)" "typed_apex (snd s)"
  shows "typed_zone (fst (load_record D origin r s)) \<and> typed_apex (snd (load_record D origin r s))"
  using assms typed_insert [OF assms(2) typed_normal [OF assms(1)]]
  by (cases s; cases "rr_data r")
    (auto simp: load_record_def Let_def typed_apex_def is_SOA_def normal_def)

lemma parse_has_SOA:
  "parse_loop D origin fileName serial (map (\<lambda>r. (r, None)) rs) False z0 = Ret (Inr z) \<Longrightarrow> \<exists>r\<in>set rs. is_SOA r"
proof (induction rs arbitrary: z0)
  case (Cons r rs)
  show ?case
  proof (cases "is_SOA r")
    case False
    then obtain z1 where "parse_loop D origin fileName serial (map (\<lambda>r. (r, None)) rs) False z1 = Ret (Inr z)"
      using Cons.prems by (cases "rr_data r") (auto simp: Let_def is_SOA_def go_bind_Ret split: option.splits)
    from Cons.IH [OF this] show ?thesis by simp
  qed simp
qed simp


lemma load_SOA:
  assumes "\<exists>r\<in>set rs. is_SOA r"
  shows "ap_SOA (snd (load D origin rs)) \<noteq> None"
proof -
  have keep: "ap_SOA (snd s) \<noteq> None \<Longrightarrow> ap_SOA (snd (load_record D origin r s)) \<noteq> None" for r s
    by (auto simp: load_record_def Let_def split: prod.split rdata.split)
  have new: "is_SOA r \<Longrightarrow> ap_SOA (snd (load_record D origin r s)) \<noteq> None" for r s
    by (auto simp: load_record_def Let_def is_SOA_def normal_def split: prod.split rdata.splits)
  have "(\<exists>r\<in>set rs. is_SOA r) \<or> ap_SOA (snd s) \<noteq> None \<Longrightarrow> ap_SOA (snd (fold (load_record D origin) rs s)) \<noteq> None" for s
  proof (induction rs arbitrary: s)
    case (Cons r rs)
    from Cons.prems consider "\<exists>r\<in>set rs. is_SOA r" | "is_SOA r" | "ap_SOA (snd s) \<noteq> None" by (auto simp del: not_None_eq)
    then have "(\<exists>r\<in>set rs. is_SOA r) \<or> ap_SOA (snd (load_record D origin r s)) \<noteq> None"
      by cases (use keep new in blast)+
    from Cons.IH [OF this] show ?case by simp
  qed simp
  then show ?thesis using assms by (simp add: load_def)
qed

context zone_dns
begin

lemma loaded_zone:
  assumes rs: "\<forall>r\<in>set rs. plain_record r" "\<exists>r\<in>set rs. is_SOA r" and os: "labels_ok os"
  shows "\<exists>z. Zone_Parse D N (absolute os) fileName (- 1) (map (\<lambda>r. (r, None)) rs) = Ret (Inr z) \<and>
    zone_ok D (z_Tree z) \<and> zone_of D (z_Tree z) = fst (load D (absolute os) rs) \<and> ap_SOA (z_Apex z) \<noteq> None \<and>
    z_origin z = absolute os \<and> z_origLen z = length os \<and> \<not> z_Expired z"
proof -
  have fqdn: "nl_Fqdn N (absolute os) = absolute os" "nl_CountLabel N (absolute os) = length os"
    using name os by (simp_all add: name_laws_def)
  have typed: "\<forall>r\<in>set rs. well_typed r" using rs(1) by (simp add: plain_record_def)
  have "holds D (NewZone N (absolute os)) (\<lambda>k. None, empty_Apex)"
    using zone_ok_empty [of D] by (simp add: holds_def NewZone_def empty_tree_def)
  from parse_holds [OF this typed _ disjI2 [OF rs(2)], of "- 1" "absolute os" fileName False]
  obtain z where z: "Zone_Parse D N (absolute os) fileName (- 1) (map (\<lambda>r. (r, None)) rs) = Ret (Inr z)"
    "holds D z (load D (absolute os) rs)" "z_origin z = absolute os" "z_origLen z = length os" "\<not> z_Expired z"
    by (auto simp: Zone_Parse_def load_def NewZone_def fqdn)
  moreover have "ap_SOA (z_Apex z) \<noteq> None"
    using load_SOA [OF rs(2), of D "absolute os"] z(2) by (auto simp: holds_def)
  ultimately show ?thesis by (auto simp: holds_def)
qed

lemma origin_matches:
  assumes "labels_ok os" "labels_ok (ps @ os)"
  shows "Zones_Matches D [absolute os] (absolute (ps @ os)) = absolute os"
proof -
  have "dkey D (absolute os) = key_of os" "dkey D (absolute (ps @ os)) = key_of (ps @ os)"
    using assms dkey_absolute labels_ok_plain by blast+
  then have "dIsSubDomain D (absolute os) (absolute (ps @ os))"
    using dns assms suffixI [of "ps @ os" ps os] unfolding dns_laws_def IsSubDomain_keys_def by blast
  then show ?thesis using last_absolute assms(1) by (intro Zones_Matches_longest) (auto simp: labels_ok_def)
qed

lemma serve_conforms:
  assumes a: "asked Z z q ps os" and z: "zone_ok D (z_Tree z)" "zone_of D (z_Tree z) = Z" "ap_SOA (z_Apex z) \<noteq> None" "\<not> z_Expired z"
    and apex: "\<not> (ps = [] \<and> q_Type q \<in> {TypeSOA, TypeNS})"
  shows "\<exists>answer ns extra rcode zones. conforms Z z q (ps @ os) (verdict_of Z ps os) (answer, ns, extra, rcode) \<and>
    File_ServeDNS D N up [absolute os] (fmupd (absolute os) z fmempty) q = Ret (Some (Reply
      \<lparr>m_Authoritative = (rcode \<noteq> Delegation), m_Rcode = (if rcode = NameError then RcodeNameError else RcodeSuccess),
       m_Answer = answer, m_Ns = ns, m_Extra = extra\<rparr>), zones)"
proof -
  obtain t' s where "Zone_Lookup D N up z q (absolute (ps @ os)) (z_Tree z) = Ret (t', Some s)"
    "conforms Z z q (ps @ os) (verdict_of Z ps os) s"
    using runs_Lookup [OF a z(3) apex, of up] z(1,2) unfolding runs_def by blast
  moreover obtain answer ns extra rcode where "s = (answer, ns, extra, rcode)" by (cases s)
  ultimately have s: "Zone_Lookup D N up z q (absolute (ps @ os)) (z_Tree z) = Ret (t', Some (answer, ns, extra, rcode))"
    "conforms Z z q (ps @ os) (verdict_of Z ps os) (answer, ns, extra, rcode)" by simp_all
  have "q_Name q = absolute (ps @ os)" "labels_ok os" using a by (simp_all add: asked_def)
  moreover from this have "Zones_Matches D [absolute os] (absolute (ps @ os)) = absolute os"
    using origin_matches level_ok(3) [OF a] by blast
  ultimately have "File_ServeDNS D N up [absolute os] (fmupd (absolute os) z fmempty) q = Ret (Some (Reply
      \<lparr>m_Authoritative = (rcode \<noteq> Delegation), m_Rcode = (if rcode = NameError then RcodeNameError else RcodeSuccess),
       m_Answer = answer, m_Ns = ns, m_Extra = extra\<rparr>), fmupd (absolute os) (z\<lparr>z_Tree := t'\<rparr>) (fmupd (absolute os) z fmempty))"
    using s(1) conforms_rcode(3) [OF s(2)] z(4) last_absolute [of os]
    by (simp add: File_ServeDNS_def Let_def reply_of_def labels_ok_def del: absolute_append)
  with s(2) show ?thesis by blast
qed

end


section \<open>A zone\<close>

text \<open>The zone \<open>org.\<close> with the address of \<open>a.org.\<close> and one for every other name.\<close>

definition soa_record :: "string \<Rightarrow> RR" where
  "soa_record name = \<lparr>rr_Name = name, rr_Rrtype = 6, rr_Class = 1, rr_Ttl = 300, rr_data = SOA ''ns.org.'' ''admin.org.'' 1\<rparr>"

definition demo_file :: "RR list" where
  "demo_file = [soa_record ''org.'', a_record ''A.org.'', a_record ''*.org.'']"

definition demo_zone :: zone where
  "demo_zone = [[''org.'', ''a.''] \<mapsto> fmupd 1 [a_record ''a.org.''] fmempty, [''org.'', ''*.''] \<mapsto> fmupd 1 [a_record ''*.org.''] fmempty]"

lemma demo_lower:
  "strings_ToLower ''org.'' = ''org.''" "strings_ToLower ''ns.org.'' = ''ns.org.''" "strings_ToLower ''admin.org.'' = ''admin.org.''"
  "strings_ToLower ''A.org.'' = ''a.org.''" "strings_ToLower ''*.org.'' = ''*.org.''"
  by code_simp+

lemma demo_dkeys: "dkey dotted_dns ''a.org.'' = [''org.'', ''a.'']" "dkey dotted_dns ''*.org.'' = [''org.'', ''*.'']"
  by code_simp+

lemma demo_load: "load dotted_dns ''org.'' demo_file = (demo_zone, empty_Apex\<lparr>ap_SOA := Some (soa_record ''org.'')\<rparr>)"
  by (simp add: load_def demo_file_def load_record_def normal_def soa_record_def a_record_def zone_insert_def Let_def
    demo_lower demo_dkeys demo_zone_def)

lemma demo_plain: "\<forall>r\<in>set demo_file. plain_record r" "\<exists>r\<in>set demo_file. is_SOA r"
proof -
  have ok: "labels_ok [''org'']" "labels_ok [''a'', ''org'']" "labels_ok [''*'', ''org'']"
    by (simp_all add: labels_ok_def label_ok_def plain_label_def strings_ToLower_def lower_char_def)
  have "\<exists>ls. labels_ok ls \<and> ''org.'' = absolute ls" "\<exists>ls. labels_ok ls \<and> ''a.org.'' = absolute ls"
    "\<exists>ls. labels_ok ls \<and> ''*.org.'' = absolute ls"
    using ok by (intro exI [of _ "[''org'']"] exI [of _ "[''a'', ''org'']"] exI [of _ "[''*'', ''org'']"]; simp)+
  then show "\<forall>r\<in>set demo_file. plain_record r"
    by (simp add: demo_file_def plain_record_def soa_record_def a_record_def well_typed_def demo_lower)
  show "\<exists>r\<in>set demo_file. is_SOA r" by (simp add: demo_file_def is_SOA_def soa_record_def)
qed

lemma demo_verdicts:
  "verdict_of demo_zone [''a''] [''org''] = Present" "verdict_of demo_zone [''b'', ''a''] [''org''] = Missing"
  "verdict_of demo_zone [''c'', ''b''] [''org''] = Covered [''*'', ''org'']"
  by (simp_all add: verdict_of_def redirects_def delegates_def records_at_def level_def demo_zone_def wildcard_at_def starred_def
    below_def gm_get_def)

definition ask :: "string \<Rightarrow> u16 \<Rightarrow> question" where
  "ask name ty = \<lparr>q_Name = name, q_Type = ty, q_Do = False\<rparr>"

lemma label_ok_demo: "label_ok ''a''" "label_ok ''b''" "label_ok ''c''" "labels_ok [''org'']"
  by (simp_all add: labels_ok_def label_ok_def plain_label_def strings_ToLower_def lower_char_def)

lemma demo_loaded:
  "\<exists>z. Zone_Parse dotted_dns dotted_names ''org.'' ''db.org'' (- 1) (map (\<lambda>r. (r, None)) demo_file) = Ret (Inr z) \<and>
    zone_ok dotted_dns (z_Tree z) \<and> zone_of dotted_dns (z_Tree z) = demo_zone \<and> ap_SOA (z_Apex z) \<noteq> None \<and>
    z_origin z = ''org.'' \<and> z_origLen z = 1"
  using dotted.loaded_zone [OF demo_plain label_ok_demo(4), of "''db.org''"] demo_load by auto

lemma demo_asked:
  assumes "z_origin z = ''org.''" "z_origLen z = 1" "\<forall>l\<in>set ps. label_ok l" "ty \<noteq> TypeDS"
  shows "asked demo_zone z (ask (absolute (ps @ [''org''])) ty) ps [''org'']"
  using assms dotted.load_plain [OF demo_plain(1), of "''org.''"] label_ok_demo(4) by (simp add: asked_def ask_def demo_load)

theorem Lookup_conforms_witness:
  "\<exists>z t' s. Zone_Parse dotted_dns dotted_names ''org.'' ''db.org'' (- 1) (map (\<lambda>r. (r, None)) demo_file) = Ret (Inr z) \<and>
    Zone_Lookup dotted_dns dotted_names (\<lambda>n t. None) z (ask ''a.org.'' 1) ''a.org.'' (z_Tree z) = Ret (t', Some s) \<and>
    fst s = [a_record ''a.org.'']"
proof -
  from demo_loaded obtain z where z: "Zone_Parse dotted_dns dotted_names ''org.'' ''db.org'' (- 1) (map (\<lambda>r. (r, None)) demo_file) = Ret (Inr z)"
    "zone_ok dotted_dns (z_Tree z)" "zone_of dotted_dns (z_Tree z) = demo_zone" "ap_SOA (z_Apex z) \<noteq> None" "z_origin z = ''org.''"
    "z_origLen z = 1" by blast
  have "asked (zone_of dotted_dns (z_Tree z)) z (ask ''a.org.'' 1) [''a''] [''org'']"
    using demo_asked [OF z(5,6), of "[''a'']" 1] label_ok_demo z(3) by simp
  from Lookup_conforms [OF dotted_laws z(2) this z(4), of "\<lambda>n t. None"]
  obtain t' s where "Zone_Lookup dotted_dns dotted_names (\<lambda>n t. None) z (ask ''a.org.'' 1) ''a.org.'' (z_Tree z) = Ret (t', Some s)"
    "conforms demo_zone z (ask ''a.org.'' 1) [''a'', ''org''] Present s" by (auto simp: z(3) demo_verdicts)
  moreover from this(2) have "fst s = [a_record ''a.org.'']"
    by (simp add: conforms_def records_at_def demo_zone_def gm_get_def ask_def with_sigs_def)
  ultimately show ?thesis using z(1) by blast
qed

theorem NameError_exact_witness:
  "\<exists>z t' answer ns extra. Zone_Parse dotted_dns dotted_names ''org.'' ''db.org'' (- 1) (map (\<lambda>r. (r, None)) demo_file) = Ret (Inr z) \<and>
    Zone_Lookup dotted_dns dotted_names (\<lambda>n t. None) z (ask ''b.a.org.'' 1) ''b.a.org.'' (z_Tree z) = Ret (t', Some (answer, ns, extra, NameError))"
proof -
  from demo_loaded obtain z where z: "Zone_Parse dotted_dns dotted_names ''org.'' ''db.org'' (- 1) (map (\<lambda>r. (r, None)) demo_file) = Ret (Inr z)"
    "zone_ok dotted_dns (z_Tree z)" "zone_of dotted_dns (z_Tree z) = demo_zone" "ap_SOA (z_Apex z) \<noteq> None" "z_origin z = ''org.''"
    "z_origLen z = 1" by blast
  have a: "asked (zone_of dotted_dns (z_Tree z)) z (ask ''b.a.org.'' 1) [''b'', ''a''] [''org'']"
    using demo_asked [OF z(5,6), of "[''b'', ''a'']" 1] label_ok_demo z(3) by simp
  from dotted.runs_Lookup [OF a z(4), of "\<lambda>n t. None"] z(2)
  obtain t' answer ns extra rcode where
    l: "Zone_Lookup dotted_dns dotted_names (\<lambda>n t. None) z (ask ''b.a.org.'' 1) ''b.a.org.'' (z_Tree z) = Ret (t', Some (answer, ns, extra, rcode))"
    by (auto simp: runs_def)
  with NameError_exact [OF dotted_laws z(2) a z(4), of "\<lambda>n t. None" t' answer ns extra rcode] demo_verdicts(2)
  have "rcode = NameError" by (simp add: verdict_missing z(3))
  with l z(1) show ?thesis by blast
qed

theorem Parse_loads_zone_witness:
  "\<exists>z. Zone_Parse dotted_dns dotted_names ''org.'' ''db.org'' (- 1) (map (\<lambda>r. (r, None)) demo_file) = Ret (Inr z) \<and>
    zone_of dotted_dns (z_Tree z) = demo_zone \<and> ap_SOA (z_Apex z) = Some (soa_record ''org.'')"
proof -
  have "\<forall>r\<in>set demo_file. well_typed r" using demo_plain(1) by (simp add: plain_record_def)
  moreover have "PrevLabel_laws (dPrevLabel dotted_dns)" using dotted_laws(1) by (simp add: dns_laws_def)
  moreover have "nl_Fqdn dotted_names ''org.'' = ''org.''" by (simp add: dotted_names_def)
  ultimately show ?thesis
    using Parse_loads_zone [of dotted_dns demo_file "- 1" dotted_names "''org.''" "''db.org''"] demo_plain(2) demo_load by auto
qed


text \<open>
  A wildcard found above a missing level is kept although a name below that level exists: the name
  \<open>c.b.org.\<close> is answered from \<open>*.org.\<close> in a zone with \<open>x.b.org.\<close>, whose existing but empty
  parent \<open>b.org.\<close> is its closest encloser.
\<close>

lemma wildcard_crosses_empty_name:
  "verdict_of [[''org.'', ''*.''] \<mapsto> fmupd 1 [a_record ''*.org.''] fmempty, [''org.'', ''b.'', ''x.''] \<mapsto> fmupd 1 [a_record ''x.b.org.''] fmempty]
     [''c'', ''b''] [''org''] = Covered [''*'', ''org'']"
  by (simp add: verdict_of_def redirects_def delegates_def records_at_def level_def wildcard_at_def starred_def gm_get_def)

text \<open>
  \<open>ClosestEncloser\<close> looks for the next label from the offset in the longer name: for
  \<open>x.y.aaa.org.\<close> it goes on from \<open>y.aaa.org.\<close> to \<open>org.\<close> and passes over \<open>aaa.org.\<close>, which exists.
\<close>

lemma ClosestEncloser_passes_over:
  "(case Tree_Insert dotted_dns empty_tree (a_record ''aaa.org.'') of
      Ret t \<Rightarrow> (case ClosestEncloser dotted_dns ''org.'' ''x.y.aaa.org.'' t of Ret (t', r) \<Rightarrow> r | Panic msg \<Rightarrow> None)
    | Panic msg \<Rightarrow> None) = Some (None, False)"
  by code_simp


end
