(* ===== verification/Pfdns.thy ===== *)
theory Pfdns
  imports PfdhcpTypes "HOL-Library.List_Lexorder" "HOL-Library.Char_ord"
begin

text \<open>
  The DNS server of the captive portal (\<open>src/go/coredns/plugin/pfdns\<close>: \<open>pfdns.go\<close>,
  \<open>pfconfig.go\<close>; and what it uses of \<open>src/go/coredns/request/request.go\<close>). A question of a
  device that may not use the network yet is answered with the address of the portal; only
  passthroughs are resolved.

  Parameters (\<open>pf_env\<close>) are the database, the local resolver, the filter service, the API that opens
  passthroughs, the cache library and the record functions of miekg/dns. A compiled regular expression
  is the predicate it decides, \<open>None\<close> when the expression did not compile. A map with pointers as keys
  has numbers as keys; the order in which a \<open>range\<close> statement visits it is given by priorities, one
  function for each statement.
\<close>

section \<open>Questions and messages\<close>

record rr_header =
  h_Name :: string
  h_Rrtype :: u16
  h_Class :: u16
  h_Ttl :: u32

definition empty_header :: rr_header where
  "empty_header = \<lparr>h_Name = [], h_Rrtype = 0, h_Class = 0, h_Ttl = 0\<rparr>"

text \<open>An OPT record; its TTL field holds the extended code, the version and the flags.\<close>

record edns =
  eo_Ttl :: u32
  eo_UDPSize :: u16
  eo_Option :: "u16 list"

definition eo_Do :: "edns \<Rightarrow> bool" where
  "eo_Do e \<longleftrightarrow> and (eo_Ttl e) 0x8000 = 0x8000"

datatype dns_rr = RR_A rr_header ip | RR_AAAA rr_header ip | RR_OPT edns | RR_Other rr_header string

text \<open>A message; a record may be a nil pointer.\<close>

record dns_msg =
  dm_Rcode :: nat
  dm_Authoritative :: bool
  dm_Answer :: "dns_rr option list"
  dm_Extra :: "dns_rr option list"

record dns_question =
  qu_Name :: string
  qu_Qtype :: u16
  qu_Qclass :: u16

text \<open>A request: the client address, as text and as the bytes of the UDP or TCP address, and the message.\<close>

record dns_request =
  dr_RemoteAddr :: string
  dr_addr :: ip
  dr_Question :: "dns_question list"
  dr_Edns :: "edns option"
  dr_RecursionDesired :: bool

definition request_IP :: "dns_request \<Rightarrow> string" where
  "request_IP r =
     (let (host, port, err) = SplitHostPort (dr_RemoteAddr r) in if err \<noteq> None then dr_RemoteAddr r else host)"

definition request_Family :: "dns_request \<Rightarrow> nat" where
  "request_Family r = (if To4 (dr_addr r) \<noteq> [] then 1 else 2)"

definition QName :: "(string \<Rightarrow> string) \<Rightarrow> dns_request \<Rightarrow> string" where
  "QName nameString r = (case dr_Question r of [] \<Rightarrow> ''.'' | q # _ \<Rightarrow> nameString (qu_Name q))"

definition QType :: "dns_request \<Rightarrow> u16" where
  "QType r = (case dr_Question r of [] \<Rightarrow> 0 | q # _ \<Rightarrow> qu_Qtype q)"

definition QClass :: "dns_request \<Rightarrow> u16" where
  "QClass r = (case dr_Question r of [] \<Rightarrow> 0 | q # _ \<Rightarrow> qu_Qclass q)"

definition Type_String :: "(u16 \<Rightarrow> string) \<Rightarrow> dns_request \<Rightarrow> string" where
  "Type_String typeString r = (case dr_Question r of [] \<Rightarrow> '''' | q # _ \<Rightarrow> typeString (qu_Qtype q))"

text \<open>
  \<open>SizeAndDo\<close>: the OPT record of the reply reflects the one of the request. \<open>supported\<close> are the
  options that plugins have announced.
\<close>

definition supportedOptions :: "(u16 \<Rightarrow> bool) \<Rightarrow> u16 list \<Rightarrow> u16 list" where
  "supportedOptions supported opts = filter (\<lambda>code. code \<in> {3, 9, 10, 11, 12} \<or> supported code) opts"

definition clear_flags :: "edns \<Rightarrow> edns" where
  "clear_flags e = e\<lparr>eo_Ttl := and (and (eo_Ttl e) 0xFF00FFFF) 0xFF00\<rparr>"

text \<open>The last OPT record of a message, which is given in reverse.\<close>

fun set_edns :: "edns \<Rightarrow> dns_rr option list \<Rightarrow> (dns_rr option list) option" where
  "set_edns q [] = None"
| "set_edns q (Some (RR_OPT e) # rrs) =
     (let e = clear_flags (e\<lparr>eo_UDPSize := eo_UDPSize q\<rparr>)
      in Some (Some (RR_OPT (if eo_Do q then e\<lparr>eo_Ttl := or (eo_Ttl e) 0x8000\<rparr> else e)) # rrs))"
| "set_edns q (rr # rrs) = map_option ((#) rr) (set_edns q rrs)"

definition SizeAndDo :: "(u16 \<Rightarrow> bool) \<Rightarrow> dns_request \<Rightarrow> dns_msg \<Rightarrow> dns_msg" where
  "SizeAndDo supported r m =
     (case dr_Edns r of
        None \<Rightarrow> m
      | Some q \<Rightarrow>
          (case set_edns q (rev (dm_Extra m)) of
             Some extra \<Rightarrow> m\<lparr>dm_Extra := rev extra\<rparr>
           | None \<Rightarrow> m\<lparr>dm_Extra := dm_Extra m @ [Some (RR_OPT ((clear_flags q)\<lparr>eo_Option := supportedOptions supported (eo_Option q)\<rparr>))]\<rparr>))"

section \<open>State and environment\<close>

type_synonym regex = "(string \<Rightarrow> bool) option"

definition MatchString :: "regex \<Rightarrow> string \<Rightarrow> bool outcome" where
  "MatchString r s = (case r of None \<Rightarrow> Panic ''nil pointer dereference'' | Some f \<Rightarrow> Ret (f s))"

record network_conf =
  nc_DhcpStart :: string
  nc_DhcpEnd :: string
  nc_NextHop :: string
  nc_Netmask :: string
  nc_RegNetwork :: string
  nc_Type :: string
  nc_PortalFQDN :: string

record 'c pfdns =
  pf_InternalPortalIP :: ip
  pf_FqdnPort :: "(nat, regex \<times> string list) gomap"
  pf_FqdnIsolationPort :: "(nat, regex \<times> string list) gomap"
  pf_FqdnDomainPort :: "(nat, regex \<times> string list) gomap"
  pf_Network :: "(string, ip) gomap"
  pf_NetworkType :: "(nat, IPNet \<times> network_conf) gomap"
  pf_DNSFilter :: 'c
  pf_IpsetCache :: 'c
  pf_PortalFQDN :: "(nat, (nat, IPNet \<times> regex) gomap) gomap"
  pf_detectionBypass :: bool
  pf_detectionMechanisms :: "regex list"
  pf_recordDNS :: bool

record 'c pf_env =
  e_cache :: "'c gocache"
  e_now :: int
  e_prio :: "nat \<Rightarrow> nat \<Rightarrow> nat"
  e_prio_net :: "string \<Rightarrow> nat"
  e_locked :: bool
  e_IP4log :: "string \<Rightarrow> string option"
  e_IP6log :: "string \<Rightarrow> string option"
  e_Nodedb :: "string \<Rightarrow> (string \<times> string) option"
  e_SecurityEvent :: "string \<Rightarrow> int option"
  e_exchange :: "string \<Rightarrow> dns_request \<Rightarrow> dns_msg option \<times> go_err"
  e_ipset :: "string \<Rightarrow> string \<Rightarrow> string \<Rightarrow> string \<Rightarrow> go_err"
  e_FilterDns :: "string \<Rightarrow> string \<Rightarrow> string \<Rightarrow> u16 \<Rightarrow> string \<Rightarrow> string + iface"
  e_NewRR :: "string \<Rightarrow> dns_rr option"
  e_rrString :: "dns_rr \<Rightarrow> string"
  e_nameString :: "string \<Rightarrow> string"
  e_typeString :: "u16 \<Rightarrow> string"
  e_supported :: "u16 \<Rightarrow> bool"
  e_next :: int

text \<open>What the handler does: it opens a passthrough, notes an answer, writes a reply or defers to the next plugin.\<close>

datatype pf_event =
    Opened string string string
  | Audited string string string string string string
  | Written dns_msg
  | Deferred

text \<open>The default expirations given to \<open>cache.New\<close>: five minutes and an hour.\<close>

definition DNSFilter_expiration :: int where "DNSFilter_expiration = 300000000000"
definition IpsetCache_expiration :: int where "IpsetCache_expiration = 3600000000000"

text \<open>The entries of a map in the order of a \<open>range\<close> statement.\<close>

definition ranged :: "(nat \<Rightarrow> nat) \<Rightarrow> (nat, 'v) gomap \<Rightarrow> 'v list" where
  "ranged prio m = map (\<lambda>k. the (fmlookup m k)) (range_keys prio m)"

text \<open>A new pointer as key.\<close>

definition put_new :: "'v \<Rightarrow> (nat, 'v) gomap \<Rightarrow> (nat, 'v) gomap" where
  "put_new v m = fmupd (gm_len m) v m"

text \<open>A compiled expression as key: a new pointer, or the nil pointer, which is the key 0.\<close>

definition put_regex :: "regex \<Rightarrow> string list \<Rightarrow> (nat, regex \<times> string list) gomap \<Rightarrow> (nat, regex \<times> string list) gomap" where
  "put_regex r v m = fmupd (case r of None \<Rightarrow> 0 | Some f \<Rightarrow> Suc (gm_len m)) (r, v) m"

section \<open>Lookups\<close>

definition IP2Mac :: "'c pf_env \<Rightarrow> string \<Rightarrow> nat \<Rightarrow> string \<times> go_err" where
  "IP2Mac env x version =
     (case (if version = 4 then e_IP4log env x else e_IP6log env x) of
        None \<Rightarrow> ('''', Some ''sql: no rows in result set'')
      | Some mac \<Rightarrow> (mac, None))"

definition HasSecurityEvents :: "'c pf_env \<Rightarrow> string \<Rightarrow> bool" where
  "HasSecurityEvents env mac = (case e_SecurityEvent env mac of None \<Rightarrow> False | Some n \<Rightarrow> n \<noteq> 0)"

text \<open>The row of a node; the variables keep their values when there is none.\<close>

definition node_row :: "'c pf_env \<Rightarrow> string \<Rightarrow> string \<Rightarrow> string \<Rightarrow> string \<times> string" where
  "node_row env mac status category = (case e_Nodedb env mac of None \<Rightarrow> (status, category) | Some row \<Rightarrow> row)"

fun any_match :: "regex list \<Rightarrow> string \<Rightarrow> bool outcome" where
  "any_match [] s = Ret False"
| "any_match (r # rs) s = go_bind (MatchString r s) (\<lambda>b. if b then Ret True else any_match rs s)"

definition checkDetectionMechanisms :: "'c pfdns \<Rightarrow> string \<Rightarrow> bool outcome" where
  "checkDetectionMechanisms pf s =
     (if pf_detectionMechanisms pf = [] \<or> pf_detectionBypass pf then Ret False else any_match (pf_detectionMechanisms pf) s)"

definition MakeKeyCache :: "string \<Rightarrow> string \<Rightarrow> bool \<Rightarrow> string \<Rightarrow> string" where
  "MakeKeyCache mac category event qname = mac @ category @ (if event then ''true'' else ''false'') @ qname"

definition LocalResolver :: "'c pf_env \<Rightarrow> dns_request \<Rightarrow> dns_msg option \<times> go_err" where
  "LocalResolver env r =
     (let r = r\<lparr>dr_RecursionDesired := True\<rparr>;
          (m, err) = (let (m, err) = e_exchange env '''' r in if err \<noteq> None then e_exchange env ''tcp'' r else (m, err))
      in if err \<noteq> None then (None, err)
         else case m of
                None \<Rightarrow> (None, None)
              | Some reply \<Rightarrow>
                  if dm_Rcode reply = 3 \<or> dm_Rcode reply = 0 then (m, None)
                  else (None, Some ''No name server to answer the question''))"

section \<open>Passthroughs\<close>

definition SetPassthrough ::
  "'c pf_env \<Rightarrow> string \<Rightarrow> string \<Rightarrow> string \<Rightarrow> bool \<Rightarrow> 'c pfdns \<times> pf_event list \<Rightarrow> 'c pfdns \<times> pf_event list" where
  "SetPassthrough env passthrough x port loc = (\<lambda>(pf, evs).
     let queryLocal = (if loc then ''1'' else ''0'');
         cacheKey = passthrough @ '':'' @ x @ '':'' @ port @ '':'' @ queryLocal
     in case gcGet (e_cache env) (e_now env) cacheKey (pf_IpsetCache pf) of
          Some _ \<Rightarrow> (pf, evs)
        | None \<Rightarrow>
            (case e_ipset env passthrough queryLocal x port of
               Some e \<Rightarrow> (pf, evs)
             | None \<Rightarrow>
                 (pf\<lparr>pf_IpsetCache := gcSet (e_cache env) (e_now env) cacheKey (IInt 1) IpsetCache_expiration (pf_IpsetCache pf)\<rparr>,
                  evs @ [Opened passthrough x port])))"

text \<open>The addresses in an answer, and the ports opened for each of them.\<close>

definition answer_addresses :: "dns_msg \<Rightarrow> ip list" where
  "answer_addresses m =
     concat (map (\<lambda>rr. case rr of Some (RR_A h x) \<Rightarrow> [x] | _ \<Rightarrow> []) (dm_Answer m @ dm_Extra m))"

definition open_passthroughs ::
  "'c pf_env \<Rightarrow> string \<Rightarrow> dns_msg \<Rightarrow> string list \<Rightarrow> 'c pfdns \<times> pf_event list \<Rightarrow> 'c pfdns \<times> pf_event list" where
  "open_passthroughs env passthrough m ports =
     fold (\<lambda>x. fold (\<lambda>valeur. SetPassthrough env passthrough (ip_String x) valeur False) ports) (answer_addresses m)"

text \<open>\<open>logreply\<close>; the blanks of a record are squeezed.\<close>

fun squeeze :: "bool \<Rightarrow> string \<Rightarrow> string" where
  "squeeze after [] = []"
| "squeeze after (c # s) =
     (if c \<in> {CHR 9, CHR 10, CHR 12, CHR 13, CHR 32} then (if after then [] else '' '') @ squeeze True s
      else c # squeeze False s)"

definition trim_right :: "char set \<Rightarrow> string \<Rightarrow> string" where
  "trim_right cs s = rev (dropWhile (\<lambda>c. c \<in> cs) (rev s))"

fun answer_text :: "'c pf_env \<Rightarrow> dns_rr option list \<Rightarrow> string outcome" where
  "answer_text env [] = Ret []"
| "answer_text env (None # rrs) = Panic ''nil pointer dereference''"
| "answer_text env (Some rr # rrs) =
     go_bind (answer_text env rrs) (\<lambda>s. Ret (squeeze False (e_rrString env rr) @ '' '' @ [CHR 10] @ '' '' @ s))"

definition logreply ::
  "'c pf_env \<Rightarrow> 'c pfdns \<Rightarrow> string \<Rightarrow> string \<Rightarrow> string \<Rightarrow> string \<Rightarrow> dns_msg \<Rightarrow> string \<Rightarrow> pf_event list outcome" where
  "logreply env pf x mac qname qtype reply scope =
     go_bind (answer_text env (dm_Answer reply)) (\<lambda>b.
     Ret (if pf_recordDNS pf
          then [Audited x mac (trim_right {CHR ''.''} qname) qtype scope (trim_right {CHR '' '', CHR 10} b)] else []))"

section \<open>Answering a question\<close>

text \<open>What the handler knows of a question.\<close>

record pf_query =
  pq_req :: dns_request
  pq_srcIP :: string
  pq_bIP :: ip
  pq_mac :: string
  pq_qname :: string

definition pf_reply :: "'c pf_env \<Rightarrow> pf_query \<Rightarrow> string \<Rightarrow> dns_msg \<Rightarrow> 'c pfdns \<times> pf_event list \<Rightarrow> ('c pfdns \<times> pf_event list \<times> int) outcome" where
  "pf_reply env q scope m = (\<lambda>(pf, evs).
     let m = SizeAndDo (e_supported env) (pq_req q) m in
     go_bind (logreply env pf (pq_srcIP q) (pq_mac q) (pq_qname q) (Type_String (e_typeString env) (pq_req q)) m scope) (\<lambda>audit.
     Ret (pf, evs @ audit @ [Written m], 0)))"

definition new_reply :: "dns_rr option \<Rightarrow> dns_msg" where
  "new_reply rr = \<lparr>dm_Rcode = 0, dm_Authoritative = True, dm_Answer = [rr], dm_Extra = []\<rparr>"

text \<open>
  One of the three loops over the passthroughs: the first expression that matches decides. \<open>None\<close> when
  there is none.
\<close>

fun bypass ::
  "'c pf_env \<Rightarrow> pf_query \<Rightarrow> string \<Rightarrow> string \<Rightarrow> (regex \<times> string list) list \<Rightarrow> 'c pfdns \<times> pf_event list
     \<Rightarrow> ('c pfdns \<times> pf_event list \<times> int) option outcome" where
  "bypass env q ipset scope [] s = Ret None"
| "bypass env q ipset scope ((k, v) # kvs) s =
     go_bind (MatchString k (pq_qname q)) (\<lambda>b.
     if \<not> b then bypass env q ipset scope kvs s
     else let (answer, err) = LocalResolver env (pq_req q) in
          if err \<noteq> None then Ret (Some (fst s, snd s, 0))
          else case answer of
                 None \<Rightarrow> Panic ''nil pointer dereference''
               | Some m \<Rightarrow> go_bind (pf_reply env q scope m (open_passthroughs env ipset m v s)) (\<lambda>r. Ret (Some r)))"

text \<open>Is the name a name of the portal for the client?\<close>

fun portal_scan :: "ip \<Rightarrow> string \<Rightarrow> (IPNet \<times> regex) list \<Rightarrow> bool \<Rightarrow> bool outcome" where
  "portal_scan x qname [] found = Ret found"
| "portal_scan x qname ((c, d) # cds) found =
     (if net_Contains c x then go_bind (MatchString d qname) (\<lambda>b. portal_scan x qname cds (found \<or> b))
      else portal_scan x qname cds found)"

fun portal_loop :: "'c pf_env \<Rightarrow> 'c pfdns \<Rightarrow> ip \<Rightarrow> string \<Rightarrow> nat list \<Rightarrow> bool \<Rightarrow> bool outcome" where
  "portal_loop env pf x qname [] found = Ret found"
| "portal_loop env pf x qname (i # is) found =
     (if found then Ret found
      else go_bind (portal_scan x qname (ranged (e_prio env 4) (gm_get fmempty (pf_PortalFQDN pf) i)) found) (\<lambda>found.
           portal_loop env pf x qname is found))"

definition is_portal_name :: "'c pf_env \<Rightarrow> 'c pfdns \<Rightarrow> ip \<Rightarrow> string \<Rightarrow> bool outcome" where
  "is_portal_name env pf x qname = portal_loop env pf x qname [0..<gm_len (pf_PortalFQDN pf) + 1] False"

definition network_kind :: "string \<Rightarrow> string \<Rightarrow> string" where
  "network_kind ty kind =
     (if ty = ''inlinel2'' \<or> ty = ''inlinel3'' then ''inline''
      else if ty = ''vlan-isolation'' then ''isolation''
      else if ty = ''vlan-registration'' then ''registration''
      else if ty = ''dns-enforcement'' then ''dnsenforcement''
      else kind)"

text \<open>The answer of the filter service, from the cache or asked for. \<open>None\<close> when it fails.\<close>

definition filter_answer ::
  "'c pf_env \<Rightarrow> pf_query \<Rightarrow> string \<Rightarrow> string \<Rightarrow> bool \<Rightarrow> 'c pfdns \<Rightarrow> ('c pfdns \<times> dns_rr option option) outcome" where
  "filter_answer env q kind category event pf =
     (let key = MakeKeyCache (pq_mac q) category event (pq_qname q);
          cached = gcGet (e_cache env) (e_now env) key (pf_DNSFilter pf) in
      if cached \<noteq> None \<and> cached \<noteq> Some (IStr ''null'')
      then go_bind (assert_string (the cached)) (\<lambda>reply. Ret (pf, Some (e_NewRR env reply)))
      else case e_FilterDns env kind (pq_qname q) (dr_RemoteAddr (pq_req q)) (QType (pq_req q)) (pq_mac q) of
             Inl e \<Rightarrow> Ret (pf\<lparr>pf_DNSFilter := gcSet (e_cache env) (e_now env) key (IStr ''null'') DNSFilter_expiration (pf_DNSFilter pf)\<rparr>, None)
           | Inr info \<Rightarrow>
               go_bind (assert_map info) (\<lambda>m.
               go_bind (case filter (\<lambda>(a, b). a = ''answer'') m of [] \<Rightarrow> Ret '''' | (a, b) # _ \<Rightarrow> assert_string b) (\<lambda>response.
               Ret (pf\<lparr>pf_DNSFilter := gcSet (e_cache env) (e_now env) key (IStr response) DNSFilter_expiration (pf_DNSFilter pf)\<rparr>,
                    Some (e_NewRR env response)))))"

text \<open>
  What a network that contains the client decides: \<open>Inl\<close> a return of the handler, \<open>Inr\<close> when the filter
  failed and the loop is left.
\<close>

definition network_answer ::
  "'c pf_env \<Rightarrow> pf_query \<Rightarrow> string \<Rightarrow> string \<Rightarrow> bool \<Rightarrow> 'c pfdns \<times> pf_event list
     \<Rightarrow> (('c pfdns \<times> pf_event list \<times> int) + 'c pfdns) outcome" where
  "network_answer env q kind category0 event = (\<lambda>(pf, evs).
     let enforced = kind = ''dnsenforcement'' \<or> kind = ''inline'';
         (status, category) = (if enforced then node_row env (pq_mac q) ''unreg'' category0 else ('''', category0));
         filtered = go_bind (filter_answer env q kind category event pf) (\<lambda>(pf, res).
           case res of
             None \<Rightarrow> Ret (Inr pf)
           | Some rr \<Rightarrow> go_bind (pf_reply env q ''DNS Filter'' (new_reply rr) (pf, evs)) (\<lambda>r. Ret (Inl r)))
     in if enforced \<and> status = ''reg'' \<and> \<not> event \<and> category \<noteq> ''REJECT'' then
          go_bind (is_portal_name env pf (pq_bIP q) (pq_qname q)) (\<lambda>found.
          if \<not> found then Ret (Inl (pf, evs @ [Deferred], e_next env)) else filtered)
        else if enforced \<and> status = ''reg'' \<and> category = ''REJECT'' then
          go_bind (pf_reply env q kind (new_reply (e_NewRR env ''30 IN A 127.0.0.1'')) (pf, evs)) (\<lambda>r. Ret (Inl r))
        else filtered)"

fun network_loop ::
  "'c pf_env \<Rightarrow> pf_query \<Rightarrow> string \<Rightarrow> bool \<Rightarrow> (IPNet \<times> network_conf) list \<Rightarrow> string \<Rightarrow> 'c pfdns \<times> pf_event list
     \<Rightarrow> (('c pfdns \<times> pf_event list \<times> int) + 'c pfdns) outcome" where
  "network_loop env q category event [] kind s = Ret (Inr (fst s))"
| "network_loop env q category event ((k, v) # kvs) kind s =
     (let kind = network_kind (nc_Type v) kind in
      if net_Contains k (pq_bIP q) then network_answer env q kind category event s
      else network_loop env q category event kvs kind s)"

text \<open>The header of a portal answer: that of the first entry whose network has the client.\<close>

fun portal_ttl :: "ip \<Rightarrow> string \<Rightarrow> bool \<Rightarrow> (IPNet \<times> regex) list \<Rightarrow> u32 option outcome" where
  "portal_ttl x qname detection [] = Ret None"
| "portal_ttl x qname detection ((c, d) # cds) =
     (if net_Contains c x
      then go_bind (MatchString d qname) (\<lambda>b. Ret (Some (if b then 60 else if detection then 5 else 15)))
      else portal_ttl x qname detection cds)"

fun portal_header ::
  "'c pf_env \<Rightarrow> 'c pfdns \<Rightarrow> pf_query \<Rightarrow> u16 \<Rightarrow> bool \<Rightarrow> nat list \<Rightarrow> rr_header outcome" where
  "portal_header env pf q ty detection [] = Ret empty_header"
| "portal_header env pf q ty detection (i # is) =
     go_bind (portal_ttl (pq_bIP q) (pq_qname q) detection (ranged (e_prio env 5) (gm_get fmempty (pf_PortalFQDN pf) i))) (\<lambda>res.
     case res of
       Some ttl \<Rightarrow> Ret \<lparr>h_Name = pq_qname q, h_Rrtype = ty, h_Class = QClass (pq_req q), h_Ttl = ttl\<rparr>
     | None \<Rightarrow> portal_header env pf q ty detection is)"

text \<open>
  The address of the portal for the client. The first loop is that for IPv4, where a network is also
  looked up by its text among the typed networks; an empty list is the nil address.
\<close>

definition portal_v4 :: "'c pf_env \<Rightarrow> 'c pfdns \<Rightarrow> nat \<Rightarrow> IPNet \<Rightarrow> ip \<Rightarrow> ip option outcome" where
  "portal_v4 env pf site k v =
     (case filter (\<lambda>(w, x). net_String k = net_String w) (ranged (e_prio env site) (pf_NetworkType pf)) of
        [] \<Rightarrow> Ret None
      | (w, x) # _ \<Rightarrow>
          if nc_NextHop x \<noteq> '''' then Ret (Some (To4 v))
          else if length (pf_InternalPortalIP pf) < 4 then Panic ''index out of range''
          else Ret (Some (take 4 (pf_InternalPortalIP pf))))"

fun portal_v4_loop :: "'c pf_env \<Rightarrow> 'c pfdns \<Rightarrow> ip \<Rightarrow> nat \<Rightarrow> (string \<times> ip) list \<Rightarrow> bool \<Rightarrow> ip \<Rightarrow> ip outcome" where
  "portal_v4_loop env pf x site [] found a = Ret a"
| "portal_v4_loop env pf x site ((n, v) # nvs) found a =
     (case ParseCIDR n of
        None \<Rightarrow> Panic ''nil pointer dereference''
      | Some (_, k) \<Rightarrow>
          if net_Contains k x then
            go_bind (portal_v4 env pf site k v) (\<lambda>res.
            case res of
              Some a \<Rightarrow> portal_v4_loop env pf x (site + 1) nvs True a
            | None \<Rightarrow> portal_v4_loop env pf x (site + 1) nvs found a)
          else if found then Ret a
          else portal_v4_loop env pf x (site + 1) nvs found [])"

fun portal_v6_loop :: "ip \<Rightarrow> (string \<times> ip) list \<Rightarrow> ip \<Rightarrow> ip outcome" where
  "portal_v6_loop x [] a = Ret a"
| "portal_v6_loop x ((n, v) # nvs) a =
     (case ParseCIDR n of
        None \<Rightarrow> Panic ''nil pointer dereference''
      | Some (_, k) \<Rightarrow> if net_Contains k x then Ret (if To4 v \<noteq> [] then v4InV6Prefix @ To4 v else if length v = 16 then v else [])
                       else portal_v6_loop x nvs [])"

definition networks_in_order :: "'c pf_env \<Rightarrow> 'c pfdns \<Rightarrow> (string \<times> ip) list" where
  "networks_in_order env pf = map (\<lambda>n. (n, gm_get [] (pf_Network pf) n)) (range_keys (e_prio_net env) (pf_Network pf))"

definition IPv6loopback :: ip where
  "IPv6loopback = replicate 15 0 @ [1]"

definition portal_record :: "'c pf_env \<Rightarrow> 'c pfdns \<Rightarrow> pf_query \<Rightarrow> bool \<Rightarrow> dns_rr outcome" where
  "portal_record env pf q detection =
     (let is = [0..<gm_len (pf_PortalFQDN pf) + 1]; nets = networks_in_order env pf in
      if request_Family (pq_req q) = 1 then
        go_bind (portal_header env pf q 1 detection is) (\<lambda>hdr.
        go_bind (portal_v4_loop env pf (pq_bIP q) 6 nets False []) (\<lambda>a.
        Ret (RR_A hdr (if a = [] then [127, 0, 0, 2] else a))))
      else
        go_bind (portal_header env pf q 28 detection is) (\<lambda>hdr.
        go_bind (portal_v6_loop (pq_bIP q) nets []) (\<lambda>a.
        Ret (RR_AAAA hdr (if a = [] then IPv6loopback else a)))))"

definition query_of :: "'c pf_env \<Rightarrow> dns_request \<Rightarrow> pf_query" where
  "query_of env r =
     (let srcIP = request_IP r; bIP = ParseIP srcIP;
          (mac, err) = IP2Mac env srcIP (if To4 bIP = [] then 6 else 4)
      in \<lparr>pq_req = r, pq_srcIP = srcIP, pq_bIP = bIP, pq_mac = (if err \<noteq> None then ''00:00:00:00:00:00'' else mac),
          pq_qname = QName (e_nameString env) r\<rparr>)"

text \<open>The three groups of passthroughs, in their order.\<close>

definition bypasses ::
  "'c pf_env \<Rightarrow> pf_query \<Rightarrow> bool \<Rightarrow> bool \<Rightarrow> 'c pfdns \<Rightarrow> ('c pfdns \<times> pf_event list \<times> int) option outcome" where
  "bypasses env q detection event pf =
     go_bind (bypass env q ''passthrough'' ''Portal'' (ranged (e_prio env 0) (pf_FqdnDomainPort pf)) (pf, [])) (\<lambda>res.
     if res \<noteq> None then Ret res
     else go_bind (if event \<and> \<not> detection
                   then bypass env q ''passthrough_isolation'' ''Isolation passthrough''
                          (ranged (e_prio env 1) (pf_FqdnIsolationPort pf)) (pf, [])
                   else Ret None) (\<lambda>res.
          if res \<noteq> None then Ret res
          else if \<not> detection
               then bypass env q ''passthrough'' ''Passthrough'' (ranged (e_prio env 2) (pf_FqdnPort pf)) (pf, [])
               else Ret None))"

definition ServeDNS :: "'c pf_env \<Rightarrow> dns_request \<Rightarrow> 'c pfdns \<Rightarrow> ('c pfdns \<times> pf_event list \<times> int) outcome" where
  "ServeDNS env r pf =
     (if \<not> e_locked env then Panic ''Unable to obtain pfconfigpool lock in pfdns middleware''
      else let q = query_of env r; category = snd (node_row env (pq_mac q) ''unreg'' ''''); event = HasSecurityEvents env (pq_mac q) in
        go_bind (checkDetectionMechanisms pf (pq_qname q)) (\<lambda>detection.
        go_bind (bypasses env q detection event pf) (\<lambda>res.
        case res of
          Some r \<Rightarrow> Ret r
        | None \<Rightarrow>
            go_bind (network_loop env q category event (ranged (e_prio env 3) (pf_NetworkType pf)) '''' (pf, [])) (\<lambda>res.
            case res of
              Inl r \<Rightarrow> Ret r
            | Inr pf \<Rightarrow>
                go_bind (portal_record env pf q detection) (\<lambda>rr.
                pf_reply env q ''Portal'' (new_reply (Some rr)) (pf, []))))))"

section \<open>Configuration\<close>

text \<open>
  The settings that the configuration service returns: \<open>passthroughs\<close> has the names with their ports, for
  wildcards and for plain names, \<open>compile\<close> is the regular expression library.
\<close>

record passthrough_conf =
  pc_Wildcard :: "(string, string list) gomap"
  pc_Normal :: "(string, string list) gomap"

definition passthrough_map ::
  "(string \<Rightarrow> regex) \<Rightarrow> (string \<Rightarrow> nat) \<Rightarrow> passthrough_conf \<Rightarrow> (nat, regex \<times> string list) gomap" where
  "passthrough_map compile prio conf =
     fold (\<lambda>k. put_regex (compile (''^'' @ k @ ''.$'')) (gm_get [] (pc_Normal conf) k)) (range_keys prio (pc_Normal conf))
       (fold (\<lambda>k. put_regex (compile (''.*'' @ k)) (gm_get [] (pc_Wildcard conf) k)) (range_keys prio (pc_Wildcard conf)) fmempty)"

definition PassthroughsInit :: "(string \<Rightarrow> regex) \<Rightarrow> (string \<Rightarrow> nat) \<Rightarrow> passthrough_conf \<Rightarrow> 'c pfdns \<Rightarrow> 'c pfdns" where
  "PassthroughsInit compile prio conf pf = pf\<lparr>pf_FqdnPort := passthrough_map compile prio conf\<rparr>"

definition PassthroughsIsolationInit :: "(string \<Rightarrow> regex) \<Rightarrow> (string \<Rightarrow> nat) \<Rightarrow> passthrough_conf \<Rightarrow> 'c pfdns \<Rightarrow> 'c pfdns" where
  "PassthroughsIsolationInit compile prio conf pf = pf\<lparr>pf_FqdnIsolationPort := passthrough_map compile prio conf\<rparr>"

definition domain_ports :: "string list" where
  "domain_ports = [''tcp:88'', ''udp:88'', ''udp:123'', ''udp:135'', ''tcp:135'', ''udp:137'', ''udp:138'', ''udp:139'', ''tcp:139'',
     ''tcp:389'', ''udp:389'', ''udp:445'', ''tcp:445'', ''udp:464'', ''tcp:464'', ''tcp:1025'', ''udp:49155'', ''tcp:49155'',
     ''udp:49156'', ''tcp:49156'', ''udp:49172'', ''tcp:49172'']"

definition DomainPassthroughInit :: "(string \<Rightarrow> regex) \<Rightarrow> string list \<Rightarrow> 'c pfdns \<Rightarrow> 'c pfdns" where
  "DomainPassthroughInit compile keys pf =
     pf\<lparr>pf_FqdnDomainPort := fold (\<lambda>v. put_regex (compile (''.*(_msdcs|_sites).'' @ v)) domain_ports) keys fmempty\<rparr>"

definition DNSRecord :: "string \<Rightarrow> 'c pfdns \<Rightarrow> 'c pfdns" where
  "DNSRecord recordDNS pf = pf\<lparr>pf_recordDNS := (recordDNS = ''enabled'')\<rparr>"

text \<open>The networks of the settings: \<open>IPNet\<close> of the key and the mask.\<close>

definition conf_net :: "string \<Rightarrow> network_conf \<Rightarrow> IPNet" where
  "conf_net key c = \<lparr>net_IP = ParseIP key, net_Mask = ParseIP (nc_Netmask c)\<rparr>"

definition PortalFQDNInit ::
  "(string \<Rightarrow> regex) \<Rightarrow> string \<Rightarrow> string \<Rightarrow> (string \<Rightarrow> network_conf) \<Rightarrow> string list \<Rightarrow> 'c pfdns \<Rightarrow> 'c pfdns" where
  "PortalFQDNInit compile hostname domain conf keys pf =
     (let entry = (\<lambda>net fqdn. put_new (net, compile (''.*'' @ fqdn)) fmempty) in
      pf\<lparr>pf_PortalFQDN :=
        put_new (entry \<lparr>net_IP = IPv4zero, net_Mask = IPv4zero\<rparr> (hostname @ ''.'' @ domain))
          (fold (\<lambda>key. put_new (entry (conf_net key (conf key))
             (if nc_PortalFQDN (conf key) \<noteq> '''' then nc_PortalFQDN (conf key) else hostname @ ''.'' @ domain))) keys fmempty)\<rparr>)"

definition addDetectionMechanismsToList :: "(string \<Rightarrow> regex) \<Rightarrow> string \<Rightarrow> 'c pfdns \<Rightarrow> 'c pfdns" where
  "addDetectionMechanismsToList compile r pf =
     (case compile r of None \<Rightarrow> pf | Some f \<Rightarrow> pf\<lparr>pf_detectionMechanisms := pf_detectionMechanisms pf @ [Some f]\<rparr>)"

definition MakeDetectionMecanism ::
  "(string \<Rightarrow> regex) \<Rightarrow> (string \<Rightarrow> string option) \<Rightarrow> string \<Rightarrow> string list \<Rightarrow> 'c pfdns \<Rightarrow> 'c pfdns" where
  "MakeDetectionMecanism compile url_host bypass_setting urls pf =
     fold (\<lambda>v pf. case url_host v of None \<Rightarrow> pf | Some host \<Rightarrow> addDetectionMechanismsToList compile host pf) urls
       (pf\<lparr>pf_detectionBypass := (bypass_setting = ''enabled''), pf_detectionMechanisms := []\<rparr>)"

text \<open>
  The interfaces: \<open>listenInts\<close> and the names in the settings \<open>dnsInts\<close>, without duplicates (\<open>dedup\<close> is
  the function of the utility package). \<open>addrs\<close> gives the addresses of an interface of the system.
\<close>

fun int_names :: "(string \<times> iface) list \<Rightarrow> string list outcome" where
  "int_names [] = Ret []"
| "int_names ((key, v) # kvs) =
     (if key = ''int'' then go_bind (assert_string v) (\<lambda>s. go_bind (int_names kvs) (\<lambda>ss. Ret (s # ss))) else int_names kvs)"

fun dns_ints :: "iface list \<Rightarrow> string list outcome" where
  "dns_ints [] = Ret []"
| "dns_ints (vi # vis) =
     go_bind (assert_map vi) (\<lambda>m. go_bind (int_names m) (\<lambda>ss. go_bind (dns_ints vis) (\<lambda>rest. Ret (ss @ rest))))"

definition in_network :: "IPNet \<Rightarrow> network_conf \<Rightarrow> bool" where
  "in_network n c \<longleftrightarrow>
     net_Contains n (ParseIP (nc_DhcpStart c)) \<and> net_Contains n (ParseIP (nc_DhcpEnd c)) \<or> net_Contains n (ParseIP (nc_NextHop c))"

definition reg_network :: "IPNet \<Rightarrow> network_conf \<Rightarrow> IPNet option" where
  "reg_network n c =
     (if nc_RegNetwork c = '''' then None
      else case ParseCIDR (nc_RegNetwork c) of None \<Rightarrow> None | Some (x, n2) \<Rightarrow> if net_Contains n x then Some n2 else None)"

definition type_network ::
  "IPNet \<Rightarrow> string \<Rightarrow> network_conf \<Rightarrow> (nat, IPNet \<times> network_conf) gomap \<Rightarrow> (nat, IPNet \<times> network_conf) gomap" where
  "type_network n key c m =
     (let m = (if in_network n c then put_new (conf_net key c, c) m else m)
      in case reg_network n c of None \<Rightarrow> m | Some n2 \<Rightarrow> put_new (n2, c) m)"

text \<open>The address and network of an interface, without those of a single host.\<close>

fun interface_nets :: "string list \<Rightarrow> (ip \<times> IPNet) list outcome" where
  "interface_nets [] = Ret []"
| "interface_nets (adresse # as) =
     (case ParseCIDR adresse of
        None \<Rightarrow> Panic ''nil pointer dereference''
      | Some (x, n) \<Rightarrow>
          go_bind (interface_nets as) (\<lambda>ns. let (a, b) = Mask_Size (net_Mask n) in Ret (if a = b then ns else (x, n) # ns)))"

fun detectType_loop ::
  "(string \<Rightarrow> string list option) \<Rightarrow> (string \<Rightarrow> network_conf) \<Rightarrow> string list \<Rightarrow> string list
     \<Rightarrow> (nat, IPNet \<times> network_conf) gomap \<Rightarrow> (nat, IPNet \<times> network_conf) gomap outcome" where
  "detectType_loop addrs conf keys [] m = Ret m"
| "detectType_loop addrs conf keys (v # vs) m =
     go_bind (interface_nets (case addrs v of None \<Rightarrow> [] | Some as \<Rightarrow> as)) (\<lambda>nets.
     detectType_loop addrs conf keys vs (fold (\<lambda>(x, n). fold (\<lambda>key. type_network n key (conf key)) keys) nets m))"

definition detectType ::
  "(string list \<Rightarrow> string list) \<Rightarrow> (string \<Rightarrow> string list option) \<Rightarrow> (string \<Rightarrow> network_conf) \<Rightarrow> string list \<Rightarrow> string list \<Rightarrow> iface list
     \<Rightarrow> 'c pfdns \<Rightarrow> 'c pfdns outcome" where
  "detectType dedup addrs conf keys listenInts dnsInts pf =
     go_bind (dns_ints dnsInts) (\<lambda>intDNS.
     go_bind (detectType_loop addrs conf keys (dedup (listenInts @ intDNS)) fmempty) (\<lambda>m.
     Ret (pf\<lparr>pf_NetworkType := m\<rparr>)))"

definition vip_network :: "IPNet \<Rightarrow> ip \<Rightarrow> string \<Rightarrow> network_conf \<Rightarrow> (string, ip) gomap \<Rightarrow> (string, ip) gomap" where
  "vip_network n vip key c m =
     (let m = (if in_network n c then fmupd (net_String (conf_net key c)) vip m else m)
      in case reg_network n c of None \<Rightarrow> m | Some n2 \<Rightarrow> fmupd (net_String n2) vip m)"

text \<open>
  The three nested loops of \<open>detectVIP\<close>. The state is the number of times the transaction lock was taken
  and the map; \<open>lock n\<close> says whether it is obtained the next time. The flag is false when it was not, which
  ends the function.
\<close>

fun vip_keys ::
  "(nat \<Rightarrow> bool) \<Rightarrow> (string \<Rightarrow> network_conf option) \<Rightarrow> IPNet \<Rightarrow> ip \<Rightarrow> string list \<Rightarrow> nat \<times> (string, ip) gomap \<Rightarrow> bool \<times> nat \<times> (string, ip) gomap" where
  "vip_keys lock conf n vip [] s = (True, s)"
| "vip_keys lock conf n vip (key # keys) (i, m) =
     (case conf key of
        None \<Rightarrow> vip_keys lock conf n vip keys (i, m)
      | Some c \<Rightarrow>
          if \<not> lock i then (False, i, m) else vip_keys lock conf n vip keys (i + 1, vip_network n vip key c m))"

fun vip_addrs ::
  "(nat \<Rightarrow> bool) \<Rightarrow> (string \<Rightarrow> network_conf option) \<Rightarrow> string list \<Rightarrow> string \<Rightarrow> string list \<Rightarrow> nat \<times> (string, ip) gomap
     \<Rightarrow> (bool \<times> nat \<times> (string, ip) gomap) outcome" where
  "vip_addrs lock conf keys vip [] s = Ret (True, s)"
| "vip_addrs lock conf keys vip (adresse # as) s =
     (case ParseCIDR adresse of
        None \<Rightarrow> Panic ''nil pointer dereference''
      | Some (x, n) \<Rightarrow>
          let (a, b) = Mask_Size (net_Mask n) in
          if a = b then vip_addrs lock conf keys vip as s
          else let (ok, s) = vip_keys lock conf n (if vip \<noteq> '''' then ParseIP vip else x) keys s in
               if ok then vip_addrs lock conf keys vip as s else Ret (False, s))"

fun pfdns_VIP_loop ::
  "(nat \<Rightarrow> bool) \<Rightarrow> (string \<Rightarrow> string option) \<Rightarrow> (string \<Rightarrow> string list option) \<Rightarrow> (string \<Rightarrow> network_conf option) \<Rightarrow> string list \<Rightarrow> string list
     \<Rightarrow> nat \<times> (string, ip) gomap \<Rightarrow> (bool \<times> nat \<times> (string, ip) gomap) outcome" where
  "pfdns_VIP_loop lock cluster addrs conf keys [] s = Ret (True, s)"
| "pfdns_VIP_loop lock cluster addrs conf keys (v # vs) s =
     (case (cluster v, addrs v) of
        (Some vip, Some as) \<Rightarrow>
          go_bind (vip_addrs lock conf keys vip as s) (\<lambda>(ok, s).
          if ok then pfdns_VIP_loop lock cluster addrs conf keys vs s else Ret (False, s))
      | _ \<Rightarrow> pfdns_VIP_loop lock cluster addrs conf keys vs s)"

definition pfdns_detectVIP ::
  "(nat \<Rightarrow> bool) \<Rightarrow> (string list \<Rightarrow> string list) \<Rightarrow> (string \<Rightarrow> string option) \<Rightarrow> (string \<Rightarrow> string list option) \<Rightarrow> (string \<Rightarrow> network_conf option)
     \<Rightarrow> string list option \<Rightarrow> string list \<Rightarrow> iface list \<Rightarrow> 'c pfdns \<Rightarrow> (go_err \<times> 'c pfdns) outcome" where
  "pfdns_detectVIP lock dedup cluster addrs conf keys listenInts dnsInts pf =
     (case keys of
        None \<Rightarrow> Ret (Some ''Unable to fetch config::Network from pfconfig'', pf)
      | Some keys \<Rightarrow>
          go_bind (dns_ints dnsInts) (\<lambda>intDNS.
          go_bind (pfdns_VIP_loop lock cluster addrs conf keys (dedup (listenInts @ intDNS)) (0, pf_Network pf)) (\<lambda>(ok, _, m).
          Ret (if ok then None else Some ''Unable to create a RWLock'', pf\<lparr>pf_Network := m\<rparr>))))"

text \<open>
  \<open>Refresh\<close>: reloads the settings that have changed. An emptied cache is \<open>gcNew\<close> with its default
  expiration.
\<close>

definition Refresh ::
  "'c gocache \<Rightarrow> (string \<Rightarrow> regex) \<Rightarrow> (string \<Rightarrow> nat) \<Rightarrow> bool \<Rightarrow> passthrough_conf \<Rightarrow> passthrough_conf \<Rightarrow> bool \<Rightarrow> string \<Rightarrow> 'c pfdns \<Rightarrow> 'c pfdns" where
  "Refresh C compile prio valid reg isolation dnsValid recordDNS pf =
     (let pf = (if valid then pf
                else (PassthroughsIsolationInit compile prio isolation (PassthroughsInit compile prio reg pf))
                       \<lparr>pf_DNSFilter := gcNew C DNSFilter_expiration, pf_IpsetCache := gcNew C IpsetCache_expiration\<rparr>)
      in if dnsValid then pf else DNSRecord recordDNS pf)"

section \<open>Setting up and serving\<close>

text \<open>
  What the plugin reads when it starts, and what the system and the libraries answer. \<open>st_conf\<close> is the
  answer for the settings of a network; where an error is not looked at, the variable keeps its zero value.
\<close>

record pf_settings =
  st_compile :: "string \<Rightarrow> regex"
  st_prio :: "string \<Rightarrow> nat"
  st_Registration :: passthrough_conf
  st_Isolation :: passthrough_conf
  st_dedup :: "string list \<Rightarrow> string list"
  st_cluster :: "string \<Rightarrow> string option"
  st_addrs :: "string \<Rightarrow> string list option"
  st_conf :: "string \<Rightarrow> network_conf option"
  st_keys :: "string list option"
  st_ListenInts :: "string list"
  st_DNSInts :: "iface list"
  st_domains :: "string list"
  st_Hostname :: string
  st_Domain :: string
  st_url_host :: "string \<Rightarrow> string option"
  st_DetectionMecanismBypass :: string
  st_DetectionMecanismUrls :: "string list"
  st_IpAddress :: string
  st_RecordDNS :: string

definition zero_conf :: network_conf where
  "zero_conf = \<lparr>nc_DhcpStart = '''', nc_DhcpEnd = '''', nc_NextHop = '''', nc_Netmask = '''', nc_RegNetwork = '''', nc_Type = '''', nc_PortalFQDN = ''''\<rparr>"

definition st_network :: "pf_settings \<Rightarrow> string \<Rightarrow> network_conf" where
  "st_network st key = (case st_conf st key of None \<Rightarrow> zero_conf | Some c \<Rightarrow> c)"

definition zero_pfdns :: "'c gocache \<Rightarrow> 'c pfdns" where
  "zero_pfdns C = \<lparr>pf_InternalPortalIP = [], pf_FqdnPort = fmempty, pf_FqdnIsolationPort = fmempty, pf_FqdnDomainPort = fmempty,
     pf_Network = fmempty, pf_NetworkType = fmempty, pf_DNSFilter = gcNew C DNSFilter_expiration, pf_IpsetCache = gcNew C IpsetCache_expiration,
     pf_PortalFQDN = fmempty, pf_detectionBypass = False, pf_detectionMechanisms = [], pf_recordDNS = False\<rparr>"

definition st_detectVIP :: "pf_settings \<Rightarrow> (nat \<Rightarrow> bool) \<Rightarrow> 'c pfdns \<Rightarrow> (go_err \<times> 'c pfdns) outcome" where
  "st_detectVIP st lock = pfdns_detectVIP lock (st_dedup st) (st_cluster st) (st_addrs st) (st_conf st) (st_keys st) (st_ListenInts st) (st_DNSInts st)"

text \<open>
  \<open>setuppfdns\<close>, from the first initialisation on: the caches are created with it, and the address of the
  portal is set when the plugin is added to the server.
\<close>

definition setuppfdns :: "'c gocache \<Rightarrow> pf_settings \<Rightarrow> (nat \<Rightarrow> bool) \<Rightarrow> (string + 'c pfdns) outcome" where
  "setuppfdns C st lock =
     (let compile = st_compile st; keys = (case st_keys st of None \<Rightarrow> [] | Some keys \<Rightarrow> keys);
          pf = PassthroughsInit compile (st_prio st) (st_Registration st) (zero_pfdns C);
          pf = PassthroughsIsolationInit compile (st_prio st) (st_Isolation st) pf
      in go_bind (st_detectVIP st lock pf) (\<lambda>(err, pf).
         if err \<noteq> None then Ret (Inl ''pfdns: unable to initialize the vip network map'')
         else let pf = DomainPassthroughInit compile (st_domains st) pf in
              go_bind (detectType (st_dedup st) (st_addrs st) (st_network st) keys (st_ListenInts st) (st_DNSInts st) pf) (\<lambda>pf.
              let pf = PortalFQDNInit compile (st_Hostname st) (st_Domain st) (st_network st) keys pf;
                  pf = MakeDetectionMecanism compile (st_url_host st) (st_DetectionMecanismBypass st) (st_DetectionMecanismUrls st) pf
              in Ret (Inr (pf\<lparr>pf_InternalPortalIP := To4 (ParseIP (st_IpAddress st))\<rparr>)))))"

text \<open>
  The life of the plugin: it is set up, answers questions, and in between the goroutine of
  \<open>RefreshPfconfig\<close> reloads settings, which may have changed, and looks for the addresses again.
\<close>

inductive pfdns_life :: "'c gocache \<Rightarrow> (string \<Rightarrow> regex) \<Rightarrow> 'c pfdns \<Rightarrow> bool" for C compile where
  started: "setuppfdns C st lock = Ret (Inr pf) \<Longrightarrow> st_compile st = compile \<Longrightarrow> pfdns_life C compile pf"
| refreshed: "pfdns_life C compile pf \<Longrightarrow> st_compile (st :: pf_settings) = compile \<Longrightarrow>
    pfdns_life C compile (Refresh C compile (st_prio st) valid (st_Registration st) (st_Isolation st) dnsValid (st_RecordDNS st) pf)"
| detected: "pfdns_life C compile pf \<Longrightarrow> st_detectVIP st lock pf = Ret (err, pf') \<Longrightarrow> pfdns_life C compile pf'"
| served: "pfdns_life C compile pf \<Longrightarrow> e_cache env = C \<Longrightarrow> ServeDNS env r pf = Ret (pf', evs, code) \<Longrightarrow> pfdns_life C compile pf'"

end
