(* ===== verification/PfdnsSpec.thy ===== *)
theory PfdnsSpec
  imports Pfdns
begin

text \<open>
  What the DNS server of the captive portal promises: which devices are passed on to the real
  resolver, what the others get, and which passthroughs are opened.
\<close>

section \<open>Passthroughs\<close>

lemma ranged_set [simp]: "x \<in> set (ranged prio m) \<longleftrightarrow> (\<exists>k. fmlookup m k = Some x)"
proof -
  have "x \<in> set (ranged prio m) \<longleftrightarrow> (\<exists>k. gm_has m k \<and> x = the (fmlookup m k))"
    by (auto simp: ranged_def image_iff)
  then show ?thesis by (auto simp: gm_has_def)
qed

definition names_match :: "(nat, regex \<times> string list) gomap \<Rightarrow> string \<Rightarrow> bool" where
  "names_match m s \<longleftrightarrow> (\<exists>k f v. fmlookup m k = Some (Some f, v) \<and> f s)"

text \<open>The events of a reply: the notes of the audit log and the message.\<close>

definition reply_events :: "'c pf_env \<Rightarrow> pf_query \<Rightarrow> dns_msg \<Rightarrow> pf_event list \<Rightarrow> bool" where
  "reply_events env q m evs \<longleftrightarrow>
     (\<exists>audit. evs = audit @ [Written (SizeAndDo (e_supported env) (pq_req q) m)] \<and> (\<forall>e\<in>set audit. \<exists>a b c d f g. e = Audited a b c d f g))"

lemma pf_reply_events:
  assumes "pf_reply env q scope m (pf, evs) = Ret (pf', evs', code)"
  shows "pf' = pf \<and> code = 0 \<and> (\<exists>out. evs' = evs @ out \<and> reply_events env q m out)"
  using assms by (auto simp: pf_reply_def Let_def go_bind_Ret logreply_def reply_events_def)

lemma SizeAndDo_Answer [simp]: "dm_Answer (SizeAndDo supp r m) = dm_Answer m"
  by (simp add: SizeAndDo_def split: option.split)

lemma answer_text_total: "None \<notin> set rrs \<Longrightarrow> \<exists>s. answer_text env rrs = Ret s"
  by (induction rrs rule: answer_text.induct) auto

lemma pf_reply_total:
  assumes "None \<notin> set (dm_Answer m)"
  shows "\<exists>out. pf_reply env q scope m (pf, evs) = Ret (pf, evs @ out, 0) \<and> reply_events env q m out"
proof -
  obtain s where "answer_text env (dm_Answer m) = Ret s" using answer_text_total [OF assms] by blast
  then show ?thesis by (simp add: pf_reply_def Let_def logreply_def reply_events_def)
qed

lemma SetPassthrough_events:
  "\<exists>out. snd (SetPassthrough env p x port loc (pf, evs)) = evs @ out \<and> set out \<subseteq> {Opened p x port}"
  by (auto simp: SetPassthrough_def Let_def split: option.split)

lemma fold_events:
  assumes "\<And>x s. \<exists>out. snd (f x s) = snd s @ out \<and> (\<forall>e\<in>set out. P e)"
  shows "\<exists>out. snd (fold f xs s) = snd s @ out \<and> (\<forall>e\<in>set out. P e)"
proof (induction xs arbitrary: s)
  case (Cons x xs)
  obtain o1 where "snd (f x s) = snd s @ o1" "\<forall>e\<in>set o1. P e" using assms by blast
  moreover obtain o2 where "snd (fold f xs (f x s)) = snd (f x s) @ o2" "\<forall>e\<in>set o2. P e" using Cons.IH by blast
  ultimately show ?case by (intro exI [of _ "o1 @ o2"]) auto
qed simp

lemma open_events:
  "\<exists>out. snd (open_passthroughs env p m ports s) = snd s @ out \<and> (\<forall>e\<in>set out. \<exists>x port. e = Opened p x port)"
proof -
  have "\<exists>out. snd (SetPassthrough env p x port False s) = snd s @ out \<and> (\<forall>e\<in>set out. \<exists>x port. e = Opened p x port)" for x port s
    using SetPassthrough_events [of env p x port False "fst s" "snd s"] by auto
  then show ?thesis unfolding open_passthroughs_def by (intro fold_events)
qed

text \<open>What a loop over passthroughs returns.\<close>

lemma bypass_Cons:
  assumes "bypass env q p scope ((k, v) # kvs) s = Ret res"
  obtains f where "k = Some f" "\<not> f (pq_qname q)" "bypass env q p scope kvs s = Ret res"
  | f where "k = Some f" "f (pq_qname q)" "res = Some (fst s, snd s, 0)" "snd (LocalResolver env (pq_req q)) \<noteq> None"
  | f m r where "k = Some f" "f (pq_qname q)" "LocalResolver env (pq_req q) = (Some m, None)" "res = Some r"
      "pf_reply env q scope m (open_passthroughs env p m v s) = Ret r"
proof (cases k)
  case None
  then show ?thesis using assms by (simp add: MatchString_def)
next
  case (Some f)
  obtain answer err where lr: "LocalResolver env (pq_req q) = (answer, err)" by fastforce
  show ?thesis
  proof (cases "f (pq_qname q)")
    case True
    then show ?thesis using assms Some lr that(2,3) by (cases err; cases answer) (auto simp: MatchString_def go_bind_Ret)
  next
    case False
    then show ?thesis using assms Some that(1) by (simp add: MatchString_def)
  qed
qed

lemma bypass_none:
  "bypass env q p scope kvs s = Ret None \<Longrightarrow> (k, v) \<in> set kvs \<Longrightarrow> \<exists>f. k = Some f \<and> \<not> f (pq_qname q)"
proof (induction kvs)
  case (Cons kv kvs)
  obtain k' v' where kv: "kv = (k', v')" by fastforce
  from Cons.prems(1) [unfolded kv] show ?case
    by (cases rule: bypass_Cons) (use Cons kv in auto)
qed simp

lemma bypass_some:
  "bypass env q p scope kvs s = Ret (Some res) \<Longrightarrow> \<exists>f v. (Some f, v) \<in> set kvs \<and> f (pq_qname q) \<and>
    (res = (fst s, snd s, 0) \<or>
     (\<exists>m. LocalResolver env (pq_req q) = (Some m, None) \<and> pf_reply env q scope m (open_passthroughs env p m v s) = Ret res))"
proof (induction kvs)
  case (Cons kv kvs)
  obtain k' v' where kv: "kv = (k', v')" by fastforce
  from Cons.prems [unfolded kv] show ?case
    by (cases rule: bypass_Cons) (use Cons.IH kv in \<open>auto 0 4\<close>)
qed simp

definition passthrough_name :: "'c pfdns \<Rightarrow> string \<Rightarrow> bool" where
  "passthrough_name pf s \<longleftrightarrow>
     names_match (pf_FqdnDomainPort pf) s \<or> names_match (pf_FqdnIsolationPort pf) s \<or> names_match (pf_FqdnPort pf) s"

text \<open>The name of a question is answered by the local resolver, after opening passthroughs, or not at all.\<close>

definition passed_through :: "'c pf_env \<Rightarrow> pf_query \<Rightarrow> pf_event list \<Rightarrow> bool" where
  "passed_through env q evs \<longleftrightarrow>
     evs = [] \<or> (\<exists>m opened out. LocalResolver env (pq_req q) = (Some m, None) \<and> evs = opened @ out \<and>
       (\<forall>e\<in>set opened. \<exists>p x port. e = Opened p x port) \<and> reply_events env q m out)"

lemma passed_not_deferred: "passed_through env q evs \<Longrightarrow> Deferred \<notin> set evs"
  by (auto simp: passed_through_def reply_events_def)

lemma bypass_passed:
  assumes "bypass env q p scope (ranged prio m) (pf, []) = Ret (Some (pf', evs, code))"
  shows "names_match m (pq_qname q)" "passed_through env q evs" "code = 0"
proof -
  from bypass_some [OF assms] obtain f v where fv: "(Some f, v) \<in> set (ranged prio m)" "f (pq_qname q)"
    and res: "(pf', evs, code) = (pf, [], 0) \<or> (\<exists>a. LocalResolver env (pq_req q) = (Some a, None) \<and>
      pf_reply env q scope a (open_passthroughs env p a v (pf, [])) = Ret (pf', evs, code))" by auto
  from fv show "names_match m (pq_qname q)" by (auto simp: names_match_def)
  have "passed_through env q evs \<and> code = 0"
  proof (cases "(pf', evs, code) = (pf, [], 0)")
    case False
    then obtain a where a: "LocalResolver env (pq_req q) = (Some a, None)"
      "pf_reply env q scope a (open_passthroughs env p a v (pf, [])) = Ret (pf', evs, code)" using res by blast
    obtain pf1 o1 where o1: "open_passthroughs env p a v (pf, []) = (pf1, o1)" by fastforce
    have "\<forall>e\<in>set o1. \<exists>x port. e = Opened p x port" using open_events [of env p a v "(pf, [])"] by (simp add: o1)
    moreover from pf_reply_events [OF a(2) [unfolded o1]] obtain out where "code = 0" "evs = o1 @ out" "reply_events env q a out" by blast
    moreover from this calculation(1) have "\<forall>e\<in>set o1. \<exists>p x port. e = Opened p x port" by blast
    ultimately show ?thesis
      unfolding passed_through_def
      by (intro conjI disjI2 exI [of _ a] exI [of _ o1] exI [of _ out]) (simp_all add: a(1))
  qed (simp add: passed_through_def)
  then show "passed_through env q evs" "code = 0" by simp_all
qed

text \<open>A result is none exactly when no name matches, and otherwise of a name that is passed through.\<close>

definition decided :: "'c pf_env \<Rightarrow> pf_query \<Rightarrow> bool \<Rightarrow> ('c pfdns \<times> pf_event list \<times> int) option \<Rightarrow> bool" where
  "decided env q matched res \<longleftrightarrow>
     (case res of None \<Rightarrow> \<not> matched | Some (pf', evs, code) \<Rightarrow> matched \<and> passed_through env q evs \<and> code = 0)"

lemma bypass_decided:
  assumes "bypass env q p scope (ranged prio m) (pf, []) = Ret res"
  shows "decided env q (names_match m (pq_qname q)) res"
proof (cases res)
  case None
  have "\<not> f (pq_qname q)" if "fmlookup m k = Some (Some f, v)" for k f v
    using bypass_none [OF assms [unfolded None], of "Some f" v] that by auto
  with None show ?thesis by (auto simp: names_match_def decided_def)
next
  case (Some x)
  obtain pf' evs code where "x = (pf', evs, code)" by (cases x)
  with bypass_passed [of env q p scope prio m pf pf' evs code] assms Some show ?thesis by (simp add: decided_def)
qed

lemma decided_bind:
  assumes "go_bind r (\<lambda>res. if res \<noteq> None then Ret res else r') = Ret res" "\<And>x. r = Ret x \<Longrightarrow> decided env q m x"
    and "\<And>x. r' = Ret x \<Longrightarrow> decided env q m' x"
  shows "decided env q (m \<or> m') res"
proof (cases r)
  case (Ret x)
  then show ?thesis using assms by (cases x) (auto simp: decided_def split: option.splits prod.splits)
qed (use assms(1) in simp)

definition bypassed :: "'c pfdns \<Rightarrow> string \<Rightarrow> bool \<Rightarrow> bool \<Rightarrow> bool" where
  "bypassed pf s detection event \<longleftrightarrow>
     names_match (pf_FqdnDomainPort pf) s \<or> event \<and> \<not> detection \<and> names_match (pf_FqdnIsolationPort pf) s \<or>
     \<not> detection \<and> names_match (pf_FqdnPort pf) s"

lemma bypasses_decided:
  assumes "bypasses env q detection event pf = Ret res"
  shows "decided env q (bypassed pf (pq_qname q) detection event) res"
proof -
  have none: "decided env q False None" by (simp add: decided_def)
  show ?thesis
    unfolding bypassed_def
    by (rule decided_bind [OF assms [unfolded bypasses_def] bypass_decided], assumption, erule decided_bind)
      (auto simp: none split: if_splits dest: bypass_decided)
qed

section \<open>Networks\<close>

text \<open>
  A device that may use the network: it is registered, not rejected, and no security event is open.
\<close>

definition admitted :: "'c pf_env \<Rightarrow> string \<Rightarrow> bool" where
  "admitted env mac \<longleftrightarrow>
     (\<exists>category. e_Nodedb env mac = Some (''reg'', category) \<and> category \<noteq> ''REJECT'') \<and> \<not> HasSecurityEvents env mac"

definition enforced :: "string \<Rightarrow> bool" where
  "enforced kind \<longleftrightarrow> kind = ''dnsenforcement'' \<or> kind = ''inline''"

lemma filter_answer_text:
  assumes "filter_answer env q kind category event pf = Ret (pf', Some rr)"
  shows "\<exists>t. rr = e_NewRR env t"
  using assms by (auto simp: filter_answer_def Let_def go_bind_Ret split: if_splits sum.splits)

lemma filter_answer_keeps:
  assumes "filter_answer env q kind category event pf = Ret (pf', res)"
  shows "\<exists>c. pf' = pf\<lparr>pf_DNSFilter := c\<rparr>"
proof -
  have "\<exists>c. pf = pf\<lparr>pf_DNSFilter := c\<rparr>" by (rule exI [of _ "pf_DNSFilter pf"]) simp
  with assms show ?thesis by (auto simp: filter_answer_def Let_def go_bind_Ret split: if_splits sum.splits)
qed

lemma reply_record:
  assumes "pf_reply env q scope (new_reply rr) (pf, evs) = Ret r"
  obtains x out where "rr = Some x" "r = (pf, evs @ out, 0)" "reply_events env q (new_reply (Some x)) out"
proof -
  obtain pf' evs' code where r: "r = (pf', evs', code)" by (cases r)
  obtain x where "rr = Some x"
    using assms by (cases rr) (auto simp: pf_reply_def Let_def logreply_def new_reply_def go_bind_Ret)
  with pf_reply_events [OF assms [unfolded r]] that r show ?thesis by blast
qed

text \<open>The filter decides: a record made of a text, or nothing.\<close>

definition filter_result :: "'c pf_env \<Rightarrow> pf_query \<Rightarrow> 'c pfdns \<Rightarrow> pf_event list \<Rightarrow> (('c pfdns \<times> pf_event list \<times> int) + 'c pfdns) \<Rightarrow> bool" where
  "filter_result env q pf evs res \<longleftrightarrow>
     (\<exists>pf' t rr out. res = Inl (pf', evs @ out, 0) \<and> e_NewRR env t = Some rr \<and> reply_events env q (new_reply (Some rr)) out) \<or>
     (\<exists>c. res = Inr (pf\<lparr>pf_DNSFilter := c\<rparr>))"

lemma reply_is_filter_result:
  assumes "go_bind (pf_reply env q scope (new_reply (e_NewRR env t)) (pf', evs)) (\<lambda>r. Ret (Inl r)) = Ret res"
  shows "filter_result env q pf evs res"
proof -
  from assms obtain r where r: "pf_reply env q scope (new_reply (e_NewRR env t)) (pf', evs) = Ret r" "res = Inl r"
    by (auto simp: go_bind_Ret)
  from r(1) show ?thesis by (rule reply_record) (use r(2) in \<open>auto simp: filter_result_def\<close>)
qed

lemma filtered_result:
  assumes "go_bind (filter_answer env q kind category event pf) (\<lambda>(pf, res).
     case res of None \<Rightarrow> Ret (Inr pf)
     | Some rr \<Rightarrow> go_bind (pf_reply env q ''DNS Filter'' (new_reply rr) (pf, evs)) (\<lambda>r. Ret (Inl r))) = Ret res"
  shows "filter_result env q pf evs res"
proof -
  from assms obtain pf' o' where fa: "filter_answer env q kind category event pf = Ret (pf', o')"
    and rest: "(case o' of None \<Rightarrow> Ret (Inr pf')
     | Some rr \<Rightarrow> go_bind (pf_reply env q ''DNS Filter'' (new_reply rr) (pf', evs)) (\<lambda>r. Ret (Inl r))) = Ret res"
    by (auto simp: go_bind_Ret)
  show ?thesis
  proof (cases o')
    case None
    with rest filter_answer_keeps [OF fa] show ?thesis by (auto simp: filter_result_def)
  next
    case (Some rr)
    with filter_answer_text [of env q kind category event pf pf' rr] fa obtain t where "rr = e_NewRR env t" by auto
    with Some rest reply_is_filter_result [of env q "''DNS Filter''" t pf' evs res pf] show ?thesis by simp
  qed
qed

text \<open>What a network that has the client decides.\<close>

lemma network_answer_cases:
  assumes "network_answer env q kind category (HasSecurityEvents env (pq_mac q)) (pf, evs) = Ret res"
  shows "res = Inl (pf, evs @ [Deferred], e_next env) \<and> enforced kind \<and> admitted env (pq_mac q) \<and>
      is_portal_name env pf (pq_bIP q) (pq_qname q) = Ret False \<or>
    filter_result env q pf evs res \<and>
      (enforced kind \<and> admitted env (pq_mac q) \<longrightarrow> is_portal_name env pf (pq_bIP q) (pq_qname q) = Ret True)"
proof -
  let ?event = "HasSecurityEvents env (pq_mac q)"
  obtain status cat where sc: "(if enforced kind then node_row env (pq_mac q) ''unreg'' category else ('''', category)) = (status, cat)"
    by fastforce
  have adm: "enforced kind \<and> status = ''reg'' \<and> \<not> ?event \<and> cat \<noteq> ''REJECT'' \<longleftrightarrow> enforced kind \<and> admitted env (pq_mac q)"
    using sc by (auto simp: admitted_def node_row_def split: if_splits option.splits)
  have eq: "network_answer env q kind category ?event (pf, evs) =
     (let filtered = go_bind (filter_answer env q kind cat ?event pf) (\<lambda>(pf, res).
           case res of None \<Rightarrow> Ret (Inr pf)
           | Some rr \<Rightarrow> go_bind (pf_reply env q ''DNS Filter'' (new_reply rr) (pf, evs)) (\<lambda>r. Ret (Inl r)))
      in if enforced kind \<and> admitted env (pq_mac q) then
          go_bind (is_portal_name env pf (pq_bIP q) (pq_qname q)) (\<lambda>found.
          if \<not> found then Ret (Inl (pf, evs @ [Deferred], e_next env)) else filtered)
        else if enforced kind \<and> status = ''reg'' \<and> cat = ''REJECT'' then
          go_bind (pf_reply env q kind (new_reply (e_NewRR env ''30 IN A 127.0.0.1'')) (pf, evs)) (\<lambda>r. Ret (Inl r))
        else filtered)"
    unfolding adm [symmetric] network_answer_def prod.case Let_def enforced_def [symmetric] sc by (rule refl)
  show ?thesis
  proof (cases "enforced kind \<and> admitted env (pq_mac q)")
    case True
    with assms eq obtain b where "is_portal_name env pf (pq_bIP q) (pq_qname q) = Ret b"
      by (auto simp: Let_def go_bind_Ret)
    with True assms eq show ?thesis by (cases b) (auto simp: Let_def dest: filtered_result)
  next
    case False
    note a = assms [unfolded eq Let_def if_not_P [OF False]]
    have "filter_result env q pf evs res"
    proof (cases "enforced kind \<and> status = ''reg'' \<and> cat = ''REJECT''")
      case True
      from a [unfolded if_P [OF True]] show ?thesis by (rule reply_is_filter_result)
    next
      case no: False
      from a [unfolded if_not_P [OF no]] show ?thesis by (rule filtered_result)
    qed
    with False show ?thesis by blast
  qed
qed

definition kind_after :: "(IPNet \<times> network_conf) list \<Rightarrow> string \<Rightarrow> string" where
  "kind_after kvs kind = fold (\<lambda>(k, v). network_kind (nc_Type v)) kvs kind"

lemma network_loop_none:
  "\<forall>(k, v)\<in>set kvs. \<not> net_Contains k (pq_bIP q) \<Longrightarrow> network_loop env q category event kvs kind s = Ret (Inr (fst s))"
  by (induction kvs arbitrary: kind) (auto simp: Let_def)

lemma network_loop_first:
  "\<forall>(k, v)\<in>set pre. \<not> net_Contains k (pq_bIP q) \<Longrightarrow> net_Contains k (pq_bIP q) \<Longrightarrow>
    network_loop env q category event (pre @ (k, v) # post) kind s =
    network_answer env q (network_kind (nc_Type v) (kind_after pre kind)) category event s"
  by (induction pre arbitrary: kind) (auto simp: Let_def kind_after_def)

text \<open>The first network of a list that has the client.\<close>

lemma first_network:
  assumes "\<exists>(k, v)\<in>set kvs. net_Contains k x"
  obtains pre k v post where "kvs = pre @ (k, v) # post" "\<forall>(k, v)\<in>set pre. \<not> net_Contains k x" "net_Contains k x"
proof -
  have "\<exists>kv\<in>set kvs. net_Contains (fst kv) x" using assms by force
  then obtain pre kv post where "kvs = pre @ kv # post" "net_Contains (fst kv) x" "\<forall>kv\<in>set pre. \<not> net_Contains (fst kv) x"
    by (rule split_list_first_propE)
  with that [of pre "fst kv" "snd kv" post] show ?thesis by (auto simp: case_prod_unfold)
qed

lemma portal_header_cache: "portal_header env (pf\<lparr>pf_DNSFilter := c\<rparr>) q ty d is = portal_header env pf q ty d is"
proof (induction "is")
  case (Cons i "is")
  show ?case unfolding portal_header.simps Cons.IH by simp
qed simp

lemma portal_v4_cache: "portal_v4_loop env (pf\<lparr>pf_DNSFilter := c\<rparr>) x site nvs found a = portal_v4_loop env pf x site nvs found a"
proof (induction nvs arbitrary: site found a)
  case (Cons nv nvs)
  obtain n v where nv: "nv = (n, v)" by fastforce
  have sel: "pf_NetworkType (pf\<lparr>pf_DNSFilter := c\<rparr>) = pf_NetworkType pf"
    "pf_InternalPortalIP (pf\<lparr>pf_DNSFilter := c\<rparr>) = pf_InternalPortalIP pf" by simp_all
  have pv: "portal_v4 env (pf\<lparr>pf_DNSFilter := c\<rparr>) site k v = portal_v4 env pf site k v" for k
    unfolding portal_v4_def sel ..
  show ?case unfolding nv portal_v4_loop.simps Cons.IH pv ..
qed simp

lemma portal_record_cache: "portal_record env (pf\<lparr>pf_DNSFilter := c\<rparr>) q d = portal_record env pf q d"
proof -
  have sel: "pf_PortalFQDN (pf\<lparr>pf_DNSFilter := c\<rparr>) = pf_PortalFQDN pf"
    "networks_in_order env (pf\<lparr>pf_DNSFilter := c\<rparr>) = networks_in_order env pf" by (simp_all add: networks_in_order_def)
  show ?thesis unfolding portal_record_def sel portal_header_cache portal_v4_cache ..
qed

text \<open>The network that decides on the client, and whether it has to be admitted there.\<close>

definition deciding :: "'c pf_env \<Rightarrow> 'c pfdns \<Rightarrow> ip \<Rightarrow> string option" where
  "deciding env pf x =
     (let kvs = ranged (e_prio env 3) (pf_NetworkType pf); pre = takeWhile (\<lambda>(k, v). \<not> net_Contains k x) kvs in
      case dropWhile (\<lambda>(k, v). \<not> net_Contains k x) kvs of
        [] \<Rightarrow> None
      | (k, v) # _ \<Rightarrow> Some (network_kind (nc_Type v) (kind_after pre '''')))"

definition defers :: "'c pf_env \<Rightarrow> 'c pfdns \<Rightarrow> pf_query \<Rightarrow> bool" where
  "defers env pf q \<longleftrightarrow>
     (\<exists>kind. deciding env pf (pq_bIP q) = Some kind \<and> enforced kind) \<and> admitted env (pq_mac q) \<and>
     is_portal_name env pf (pq_bIP q) (pq_qname q) = Ret False"

lemma network_loop_cases:
  assumes "network_loop env q category (HasSecurityEvents env (pq_mac q)) (ranged (e_prio env 3) (pf_NetworkType pf)) '''' (pf, []) = Ret res"
  shows "res = Inl (pf, [Deferred], e_next env) \<and> defers env pf q \<or> filter_result env q pf [] res \<and> \<not> defers env pf q"
proof -
  let ?kvs = "ranged (e_prio env 3) (pf_NetworkType pf)" and ?x = "pq_bIP q"
  show ?thesis
  proof (cases "\<exists>(k, v)\<in>set ?kvs. net_Contains k ?x")
    case False
    then have none: "\<forall>(k, v)\<in>set ?kvs. \<not> net_Contains k ?x" by auto
    then have "dropWhile (\<lambda>(k, v). \<not> net_Contains k ?x) ?kvs = []" by (simp only: dropWhile_eq_Nil_conv)
    then have "deciding env pf ?x = None" by (simp only: deciding_def Let_def list.case)
    moreover
    have "res = Inr (pf\<lparr>pf_DNSFilter := pf_DNSFilter pf\<rparr>)"
      using network_loop_none [OF none, of env category _ _ "(pf, [])"] assms by simp
    then have "filter_result env q pf [] res" unfolding filter_result_def by blast
    ultimately show ?thesis by (simp add: defers_def)
  next
    case True
    then obtain pre k v post where k: "?kvs = pre @ (k, v) # post" "\<forall>(k, v)\<in>set pre. \<not> net_Contains k ?x" "net_Contains k ?x"
      by (rule first_network)
    let ?kind = "network_kind (nc_Type v) (kind_after pre '''')"
    have "takeWhile (\<lambda>(k, v). \<not> net_Contains k ?x) ?kvs = pre" "dropWhile (\<lambda>(k, v). \<not> net_Contains k ?x) ?kvs = (k, v) # post"
      unfolding k(1) using k(2,3) by (auto simp: takeWhile_append2 dropWhile_append2 case_prod_unfold)
    then have "deciding env pf ?x = Some ?kind" by (simp only: deciding_def Let_def list.case prod.case)
    moreover have "network_answer env q ?kind category (HasSecurityEvents env (pq_mac q)) (pf, []) = Ret res"
      using assms unfolding k(1) network_loop_first [OF k(2,3)] .
    ultimately show ?thesis using network_answer_cases [of env q ?kind category pf "[]" res] by (auto simp: defers_def)
  qed
qed

section \<open>The handler\<close>

text \<open>The answer that a device gets that is not passed on: one record, of the filter or of the portal.\<close>

definition captive_answer :: "'c pf_env \<Rightarrow> 'c pfdns \<Rightarrow> pf_query \<Rightarrow> bool \<Rightarrow> pf_event list \<Rightarrow> bool" where
  "captive_answer env pf q detection evs \<longleftrightarrow>
     (\<exists>rr. reply_events env q (new_reply (Some rr)) evs \<and>
       (portal_record env pf q detection = Ret rr \<or> (\<exists>t. e_NewRR env t = Some rr)))"

lemma captive_not_deferred: "captive_answer env pf q detection evs \<Longrightarrow> Deferred \<notin> set evs \<and> (\<forall>p x port. Opened p x port \<notin> set evs)"
  by (auto simp: captive_answer_def reply_events_def)

lemma ServeDNS_cases:
  assumes "ServeDNS env r pf = Ret (pf', evs, code)" and q: "q = query_of env r"
  shows "\<exists>detection. checkDetectionMechanisms pf (pq_qname q) = Ret detection \<and>
    (let bp = bypassed pf (pq_qname q) detection (HasSecurityEvents env (pq_mac q)) in
     bp \<and> passed_through env q evs \<or>
     \<not> bp \<and> defers env pf q \<and> evs = [Deferred] \<or>
     \<not> bp \<and> \<not> defers env pf q \<and> captive_answer env pf q detection evs)"
proof -
  let ?event = "HasSecurityEvents env (pq_mac q)"
  from assms(1) obtain detection bres where det: "checkDetectionMechanisms pf (pq_qname q) = Ret detection"
    and b: "bypasses env q detection ?event pf = Ret bres"
    and rest: "(case bres of Some r \<Rightarrow> Ret r
        | None \<Rightarrow> go_bind (network_loop env q (snd (node_row env (pq_mac q) ''unreg'' '''')) ?event
              (ranged (e_prio env 3) (pf_NetworkType pf)) '''' (pf, [])) (\<lambda>res.
            case res of Inl r \<Rightarrow> Ret r
            | Inr pf \<Rightarrow> go_bind (portal_record env pf q detection) (\<lambda>rr. pf_reply env q ''Portal'' (new_reply (Some rr)) (pf, []))))
       = Ret (pf', evs, code)"
    unfolding ServeDNS_def q Let_def by (auto simp: go_bind_Ret split: if_splits)
  note bp = bypasses_decided [OF b]
  show ?thesis
  proof (cases bres)
    case (Some x)
    then show ?thesis using bp rest det by (auto simp: decided_def Let_def)
  next
    case None
    with bp have nb: "\<not> bypassed pf (pq_qname q) detection ?event" by (simp add: decided_def)
    from None rest obtain res where l: "network_loop env q (snd (node_row env (pq_mac q) ''unreg'' '''')) ?event
        (ranged (e_prio env 3) (pf_NetworkType pf)) '''' (pf, []) = Ret res"
      and rest2: "(case res of Inl r \<Rightarrow> Ret r
            | Inr pf \<Rightarrow> go_bind (portal_record env pf q detection) (\<lambda>rr. pf_reply env q ''Portal'' (new_reply (Some rr)) (pf, [])))
        = Ret (pf', evs, code)" by (auto simp: go_bind_Ret)
    consider "res = Inl (pf, [Deferred], e_next env)" "defers env pf q"
      | pf1 t rr where "\<not> defers env pf q" "res = Inl (pf1, evs, 0)" "e_NewRR env t = Some rr" "reply_events env q (new_reply (Some rr)) evs"
      | c where "\<not> defers env pf q" "res = Inr (pf\<lparr>pf_DNSFilter := c\<rparr>)"
      using network_loop_cases [OF l] rest2 by (auto simp: filter_result_def)
    then show ?thesis
    proof cases
      case 1
      then show ?thesis using rest2 nb det by (simp add: Let_def)
    next
      case 2
      then show ?thesis using nb det unfolding captive_answer_def Let_def by blast
    next
      case 3
      then obtain rr where rr: "portal_record env pf q detection = Ret rr"
        and rep: "pf_reply env q ''Portal'' (new_reply (Some rr)) (pf\<lparr>pf_DNSFilter := c\<rparr>, []) = Ret (pf', evs, code)"
        using rest2 by (auto simp: go_bind_Ret portal_record_cache)
      from pf_reply_events [OF rep] have "reply_events env q (new_reply (Some rr)) evs" by simp
      with rr 3(1) nb det show ?thesis unfolding captive_answer_def Let_def by blast
    qed
  qed
qed

section \<open>Properties\<close>


definition known_type :: "string \<Rightarrow> bool" where
  "known_type ty \<longleftrightarrow> ty \<in> {''inlinel2'', ''inlinel3'', ''vlan-isolation'', ''vlan-registration'', ''dns-enforcement''}"

lemma network_kind_known: "known_type ty \<Longrightarrow> enforced (network_kind ty kind) \<longleftrightarrow> ty \<in> {''inlinel2'', ''inlinel3'', ''dns-enforcement''}"
  by (auto simp: known_type_def network_kind_def enforced_def)

lemma deciding_known:
  assumes "\<And>i k v. fmlookup (pf_NetworkType pf) i = Some (k, v) \<Longrightarrow> net_Contains k x \<Longrightarrow> known_type (nc_Type v) \<and> (nc_Type v \<in> {''inlinel2'', ''inlinel3'', ''dns-enforcement''} \<longleftrightarrow> e)"
  shows "(\<exists>kind. deciding env pf x = Some kind \<and> enforced kind) \<longleftrightarrow> e \<and> (\<exists>i k v. fmlookup (pf_NetworkType pf) i = Some (k, v) \<and> net_Contains k x)"
proof -
  let ?kvs = "ranged (e_prio env 3) (pf_NetworkType pf)"
  show ?thesis
  proof (cases "dropWhile (\<lambda>(k, v). \<not> net_Contains k x) ?kvs")
    case Nil
    then have "deciding env pf x = None" by (simp only: deciding_def Let_def list.case)
    moreover have "\<not> net_Contains k x" if "fmlookup (pf_NetworkType pf) i = Some (k, v)" for i k v
    proof -
      have "(k, v) \<in> set ?kvs" using that by auto
      from bspec [OF Nil [unfolded dropWhile_eq_Nil_conv] this] show ?thesis by simp
    qed
    ultimately show ?thesis by auto
  next
    case (Cons kv post)
    obtain k v where kv: "kv = (k, v)" by fastforce
    have "net_Contains k x" using hd_dropWhile [of "\<lambda>(k, v). \<not> net_Contains k x" ?kvs] Cons kv by simp
    moreover have "(k, v) \<in> set ?kvs" using Cons kv set_dropWhileD [of "(k, v)" "\<lambda>(k, v). \<not> net_Contains k x" ?kvs] by simp
    then obtain i where i: "fmlookup (pf_NetworkType pf) i = Some (k, v)" by auto
    ultimately have "enforced (network_kind (nc_Type v) kind) \<longleftrightarrow> e" for kind
      using assms [of i k v] network_kind_known by blast
    moreover have "deciding env pf x = Some (network_kind (nc_Type v) (kind_after (takeWhile (\<lambda>(k, v). \<not> net_Contains k x) ?kvs) ''''))"
      using Cons kv by (simp only: deciding_def Let_def list.case prod.case)
    ultimately show ?thesis using i \<open>net_Contains k x\<close> by auto
  qed
qed

text \<open>
  C10. Who is passed on: when the networks that have the client are of known types and agree on whether
  the name service is enforced there, a question is passed on to the real resolver exactly when the device is
  admitted, its network is inline or enforces the name service, the name is neither a passthrough nor a name
  of the portal. The order in which the maps are visited does not matter.
\<close>

theorem passed_on_exactly:
  assumes "ServeDNS env r pf = Ret (pf', evs, code)" "q = query_of env r"
    and "\<And>i k v. fmlookup (pf_NetworkType pf) i = Some (k, v) \<Longrightarrow> net_Contains k (pq_bIP q) \<Longrightarrow>
      known_type (nc_Type v) \<and> (nc_Type v \<in> {''inlinel2'', ''inlinel3'', ''dns-enforcement''} \<longleftrightarrow> e)"
    and "checkDetectionMechanisms pf (pq_qname q) = Ret detection"
  shows "Deferred \<in> set evs \<longleftrightarrow>
    admitted env (pq_mac q) \<and> e \<and> (\<exists>i k v. fmlookup (pf_NetworkType pf) i = Some (k, v) \<and> net_Contains k (pq_bIP q)) \<and>
    \<not> names_match (pf_FqdnDomainPort pf) (pq_qname q) \<and> (detection \<or> \<not> names_match (pf_FqdnPort pf) (pq_qname q)) \<and>
    is_portal_name env pf (pq_bIP q) (pq_qname q) = Ret False"
proof -
  have "defers env pf q \<longleftrightarrow> admitted env (pq_mac q) \<and> e \<and>
      (\<exists>i k v. fmlookup (pf_NetworkType pf) i = Some (k, v) \<and> net_Contains k (pq_bIP q)) \<and>
      is_portal_name env pf (pq_bIP q) (pq_qname q) = Ret False"
    using deciding_known [of pf "pq_bIP q" e env, OF assms(3)] by (auto simp: defers_def)
  moreover have "Deferred \<in> set evs \<longleftrightarrow> \<not> bypassed pf (pq_qname q) detection (HasSecurityEvents env (pq_mac q)) \<and> defers env pf q"
    using ServeDNS_cases [OF assms(1,2)] assms(4) captive_not_deferred [of env pf q _ evs] passed_not_deferred [of env q evs]
    by (auto simp: Let_def)
  moreover have "\<not> HasSecurityEvents env (pq_mac q)" if "admitted env (pq_mac q)" using that by (simp add: admitted_def)
  ultimately show ?thesis by (auto simp: bypassed_def)
qed

section \<open>Reaching the portal\<close>

definition compiled :: "'c pfdns \<Rightarrow> bool" where
  "compiled pf \<longleftrightarrow>
     (\<forall>i k v. fmlookup (pf_FqdnDomainPort pf) i = Some (k, v) \<longrightarrow> k \<noteq> None) \<and>
     (\<forall>i k v. fmlookup (pf_FqdnIsolationPort pf) i = Some (k, v) \<longrightarrow> k \<noteq> None) \<and>
     (\<forall>i k v. fmlookup (pf_FqdnPort pf) i = Some (k, v) \<longrightarrow> k \<noteq> None) \<and>
     (\<forall>i m j c d. fmlookup (pf_PortalFQDN pf) i = Some m \<longrightarrow> fmlookup m j = Some (c, d) \<longrightarrow> d \<noteq> None) \<and>
     None \<notin> set (pf_detectionMechanisms pf)"

text \<open>The filter service has no rule for a question, and none has been noted.\<close>

definition no_filter :: "'c pf_env \<Rightarrow> 'c pfdns \<Rightarrow> pf_query \<Rightarrow> bool" where
  "no_filter env pf q \<longleftrightarrow>
     (\<forall>kind. \<exists>e. e_FilterDns env kind (pq_qname q) (dr_RemoteAddr (pq_req q)) (QType (pq_req q)) (pq_mac q) = Inl e) \<and>
     (\<forall>category event. gcGet (e_cache env) (e_now env) (MakeKeyCache (pq_mac q) category event (pq_qname q)) (pf_DNSFilter pf)
        \<in> {None, Some (IStr ''null'')})"

text \<open>
  The address of the portal for a client: exactly one network has it; it is also a typed network, and
  decides between the address of the interface and the address of the portal.
\<close>

definition portal_address :: "'c pfdns \<Rightarrow> ip \<Rightarrow> ip \<Rightarrow> bool" where
  "portal_address pf x a \<longleftrightarrow>
     (\<exists>n v y k. fmlookup (pf_Network pf) n = Some v \<and> ParseCIDR n = Some (y, k) \<and> net_Contains k x \<and>
       (\<forall>n' v'. fmlookup (pf_Network pf) n' = Some v' \<longrightarrow> n' \<noteq> n \<longrightarrow> (\<exists>y' k'. ParseCIDR n' = Some (y', k') \<and> \<not> net_Contains k' x)) \<and>
       (\<exists>i w c. fmlookup (pf_NetworkType pf) i = Some (w, c) \<and> net_String k = net_String w) \<and>
       (\<forall>i w c. fmlookup (pf_NetworkType pf) i = Some (w, c) \<longrightarrow> net_String k = net_String w \<longrightarrow>
          a = (if nc_NextHop c \<noteq> '''' then To4 v else pf_InternalPortalIP pf))) \<and>
     length (pf_InternalPortalIP pf) = 4 \<and> a \<noteq> []"

lemma any_match_total: "None \<notin> set rs \<Longrightarrow> \<exists>b. any_match rs s = Ret b"
proof (induction rs)
  case (Cons r rs)
  then obtain f where "r = Some f" by (cases r) auto
  with Cons show ?case by (auto simp: MatchString_def)
qed auto

lemma detection_total: "compiled pf \<Longrightarrow> \<exists>d. checkDetectionMechanisms pf s = Ret d"
  using any_match_total by (auto simp: checkDetectionMechanisms_def compiled_def)

lemma bypass_quiet:
  assumes "\<forall>i k v. fmlookup m i = Some (k, v) \<longrightarrow> k \<noteq> None" "\<not> names_match m (pq_qname q)"
  shows "bypass env q p scope (ranged prio m) s = Ret None"
proof -
  have "\<forall>(k, v)\<in>set (ranged prio m). \<exists>f. k = Some f \<and> \<not> f (pq_qname q)"
    using assms unfolding names_match_def by fastforce
  moreover have "\<forall>(k, v)\<in>set kvs. \<exists>f. k = Some f \<and> \<not> f (pq_qname q) \<Longrightarrow> bypass env q p scope kvs s = Ret None" for kvs
    by (induction kvs) (auto simp: MatchString_def)
  ultimately show ?thesis by blast
qed

lemma bypasses_quiet:
  assumes "compiled pf" "\<not> passthrough_name pf (pq_qname q)"
  shows "bypasses env q detection event pf = Ret None"
proof -
  have "bypass env q p scope (ranged prio m) (pf, []) = Ret None"
    if "m \<in> {pf_FqdnDomainPort pf, pf_FqdnIsolationPort pf, pf_FqdnPort pf}" for p scope prio m
  proof (rule bypass_quiet)
    show "\<forall>i k v. fmlookup m i = Some (k, v) \<longrightarrow> k \<noteq> None" using that assms(1) unfolding compiled_def by blast
    show "\<not> names_match m (pq_qname q)" using that assms(2) unfolding passthrough_name_def by blast
  qed
  then show ?thesis by (simp add: bypasses_def)
qed

text \<open>A device that is neither admitted nor rejected, without a filter: the networks decide nothing.\<close>

lemma network_answer_silent:
  assumes "no_filter env pf q" "\<not> admitted env (pq_mac q)" "e_Nodedb env (pq_mac q) \<noteq> Some (''reg'', ''REJECT'')"
  shows "\<exists>c. network_answer env q kind category (HasSecurityEvents env (pq_mac q)) (pf, evs) = Ret (Inr (pf\<lparr>pf_DNSFilter := c\<rparr>))"
proof -
  let ?event = "HasSecurityEvents env (pq_mac q)"
  have silent: "\<exists>c. filter_answer env q kind cat ?event pf = Ret (pf\<lparr>pf_DNSFilter := c\<rparr>, None)" for cat
  proof -
    obtain e where "e_FilterDns env kind (pq_qname q) (dr_RemoteAddr (pq_req q)) (QType (pq_req q)) (pq_mac q) = Inl e"
      using assms(1) unfolding no_filter_def by blast
    moreover have "gcGet (e_cache env) (e_now env) (MakeKeyCache (pq_mac q) cat ?event (pq_qname q)) (pf_DNSFilter pf)
        \<in> {None, Some (IStr ''null'')}" using assms(1) unfolding no_filter_def by blast
    ultimately show ?thesis by (auto simp: filter_answer_def Let_def)
  qed
  obtain status cat where sc: "(if enforced kind then node_row env (pq_mac q) ''unreg'' category else ('''', category)) = (status, cat)"
    by fastforce
  have "\<not> (enforced kind \<and> status = ''reg'' \<and> \<not> ?event \<and> cat \<noteq> ''REJECT'')" "\<not> (enforced kind \<and> status = ''reg'' \<and> cat = ''REJECT'')"
    using sc assms(2,3) by (auto simp: admitted_def node_row_def split: if_splits option.splits)
  note no = if_not_P [OF this(1)] if_not_P [OF this(2)]
  obtain c where "filter_answer env q kind cat ?event pf = Ret (pf\<lparr>pf_DNSFilter := c\<rparr>, None)" using silent by blast
  then show ?thesis
    unfolding network_answer_def prod.case Let_def enforced_def [symmetric] sc no by auto
qed

lemma network_loop_silent:
  assumes "no_filter env pf q" "\<not> admitted env (pq_mac q)" "e_Nodedb env (pq_mac q) \<noteq> Some (''reg'', ''REJECT'')"
  shows "\<exists>c. network_loop env q category (HasSecurityEvents env (pq_mac q)) kvs kind (pf, []) = Ret (Inr (pf\<lparr>pf_DNSFilter := c\<rparr>))"
proof (induction kvs arbitrary: kind)
  case Nil
  show ?case by (intro exI [of _ "pf_DNSFilter pf"]) simp
next
  case (Cons kv kvs)
  show ?case using Cons.IH network_answer_silent [OF assms] by (cases kv) (simp add: Let_def)
qed

text \<open>The address of the portal does not depend on the order of the networks.\<close>

lemma portal_v4_after:
  "\<forall>(n, v)\<in>set nvs. \<exists>y k. ParseCIDR n = Some (y, k) \<and> \<not> net_Contains k x \<Longrightarrow> portal_v4_loop env pf x site nvs True a = Ret a"
  by (cases nvs) auto

lemma portal_v4_before:
  "\<forall>(n, v)\<in>set pre. \<exists>y k. ParseCIDR n = Some (y, k) \<and> \<not> net_Contains k x \<Longrightarrow>
    portal_v4_loop env pf x site (pre @ nvs) False [] = portal_v4_loop env pf x (site + length pre) nvs False []"
  by (induction pre arbitrary: site) auto

lemma portal_v4_address:
  assumes "portal_address pf x a"
  shows "portal_v4_loop env pf x site (networks_in_order env pf) False [] = Ret a"
proof -
  obtain n v y k where n: "fmlookup (pf_Network pf) n = Some v" "ParseCIDR n = Some (y, k)" "net_Contains k x"
    and others: "\<And>n' v'. fmlookup (pf_Network pf) n' = Some v' \<Longrightarrow> n' \<noteq> n \<Longrightarrow> \<exists>y' k'. ParseCIDR n' = Some (y', k') \<and> \<not> net_Contains k' x"
    and typed: "\<exists>i w c. fmlookup (pf_NetworkType pf) i = Some (w, c) \<and> net_String k = net_String w"
    and addr: "\<And>i w c. fmlookup (pf_NetworkType pf) i = Some (w, c) \<Longrightarrow> net_String k = net_String w \<Longrightarrow>
      a = (if nc_NextHop c \<noteq> '''' then To4 v else pf_InternalPortalIP pf)"
    and len: "length (pf_InternalPortalIP pf) = 4"
    using assms unfolding portal_address_def by (elim conjE exE) (rule that; blast)
  let ?ks = "range_keys (e_prio_net env) (pf_Network pf)" and ?f = "\<lambda>n. (n, gm_get [] (pf_Network pf) n)"
  have "n \<in> set ?ks" using n(1) by (simp add: gm_has_def)
  then obtain pre post where ks: "?ks = pre @ n # post" using split_list [of n ?ks] by blast
  moreover have "distinct ?ks" by simp
  ultimately have new: "n \<notin> set pre" "n \<notin> set post" by auto
  have other: "\<exists>y k. ParseCIDR m = Some (y, k) \<and> \<not> net_Contains k x" if "m \<in> set pre \<union> set post" for m
  proof -
    have "m \<in> set ?ks" "m \<noteq> n" using that new unfolding ks by auto
    then obtain v' where "fmlookup (pf_Network pf) m = Some v'" by (auto simp: gm_has_def)
    from others [OF this \<open>m \<noteq> n\<close>] show ?thesis .
  qed
  have v4: "portal_v4 env pf s k v = Ret (Some a)" for s
  proof -
    let ?m = "filter (\<lambda>(w, x). net_String k = net_String w) (ranged (e_prio env s) (pf_NetworkType pf))"
    obtain w c rest where m: "?m = (w, c) # rest" using typed by (cases ?m) (fastforce simp: filter_empty_conv)+
    then have "(w, c) \<in> set ?m" by simp
    then obtain i where "fmlookup (pf_NetworkType pf) i = Some (w, c)" "net_String k = net_String w" by auto
    then show ?thesis unfolding portal_v4_def m using addr len by auto
  qed
  have nets: "networks_in_order env pf = map ?f pre @ (n, v) # map ?f post"
    using n(1) by (simp add: networks_in_order_def ks gm_get_def)
  have before: "portal_v4_loop env pf x site (map ?f pre @ nvs) False [] = portal_v4_loop env pf x (site + length (map ?f pre)) nvs False []" for nvs
    using other by (intro portal_v4_before) auto
  have "portal_v4_loop env pf x s (map ?f post) True a = Ret a" for s
    using other by (intro portal_v4_after) auto
  then show ?thesis unfolding nets before using n(2,3) v4 by simp
qed

lemma portal_ttl_total:
  assumes "\<forall>(c, d)\<in>set cds. d \<noteq> None"
  shows "\<exists>t. portal_ttl x s detection cds = Ret t \<and> (\<forall>ttl. t = Some ttl \<longrightarrow> ttl \<in> {5, 15, 60})"
  using assms by (induction cds) (auto simp: MatchString_def)

lemma portal_header_total:
  assumes "compiled pf"
  shows "\<exists>hdr. portal_header env pf q ty detection is = Ret hdr \<and> (hdr = empty_header \<or> h_Name hdr = pq_qname q \<and> h_Ttl hdr \<in> {5, 15, 60})"
proof (induction "is")
  case (Cons i "is")
  let ?cds = "ranged (e_prio env 5) (gm_get fmempty (pf_PortalFQDN pf) i)"
  have "d \<noteq> None" if "fmlookup (gm_get fmempty (pf_PortalFQDN pf) i) j = Some (c, d)" for j c d
  proof (cases "fmlookup (pf_PortalFQDN pf) i")
    case (Some m)
    then show ?thesis using that assms unfolding compiled_def gm_get_def by auto
  qed (use that in \<open>simp add: gm_get_def\<close>)
  then have "\<forall>(c, d)\<in>set ?cds. d \<noteq> None" by auto
  from portal_ttl_total [OF this] obtain t where t: "portal_ttl (pq_bIP q) (pq_qname q) detection ?cds = Ret t"
    "\<forall>ttl. t = Some ttl \<longrightarrow> ttl \<in> {5, 15, 60}" by blast
  then show ?case using Cons.IH by (cases t) auto
qed simp

text \<open>Once the networks decide nothing, the record of the portal is the answer.\<close>

lemma captive_reply:
  assumes "e_locked env" "q = query_of env r" "compiled pf" "no_filter env pf q" "\<not> admitted env (pq_mac q)"
    and "e_Nodedb env (pq_mac q) \<noteq> Some (''reg'', ''REJECT'')" "\<not> passthrough_name pf (pq_qname q)"
    and det: "checkDetectionMechanisms pf (pq_qname q) = Ret detection" and rec: "portal_record env pf q detection = Ret rr"
  shows "\<exists>c evs. ServeDNS env r pf = Ret (pf\<lparr>pf_DNSFilter := c\<rparr>, evs, 0) \<and> reply_events env q (new_reply (Some rr)) evs"
proof -
  obtain c where loop: "network_loop env q (snd (node_row env (pq_mac q) ''unreg'' '''')) (HasSecurityEvents env (pq_mac q))
      (ranged (e_prio env 3) (pf_NetworkType pf)) '''' (pf, []) = Ret (Inr (pf\<lparr>pf_DNSFilter := c\<rparr>))"
    using network_loop_silent [OF assms(4-6)] by blast
  obtain out where out: "pf_reply env q ''Portal'' (new_reply (Some rr)) (pf\<lparr>pf_DNSFilter := c\<rparr>, []) = Ret (pf\<lparr>pf_DNSFilter := c\<rparr>, out, 0)"
    "reply_events env q (new_reply (Some rr)) out"
    using pf_reply_total [of "new_reply (Some rr)" env q "''Portal''" "pf\<lparr>pf_DNSFilter := c\<rparr>" "[]"] by (auto simp: new_reply_def)
  have "ServeDNS env r pf = Ret (pf\<lparr>pf_DNSFilter := c\<rparr>, out, 0)"
    using assms(1) det bypasses_quiet [OF assms(3,7)] loop rec out(1)
    by (simp add: ServeDNS_def Let_def assms(2) [symmetric] portal_record_cache)
  with out(2) show ?thesis by blast
qed

section \<open>Opening passthroughs\<close>

definition passthrough_key :: "string \<Rightarrow> string \<Rightarrow> string \<Rightarrow> string" where
  "passthrough_key p x port = p @ '':'' @ x @ '':'' @ port @ '':'' @ ''0''"

definition remembered :: "'c pf_env \<Rightarrow> 'c pfdns \<Rightarrow> string \<Rightarrow> string \<Rightarrow> string \<Rightarrow> bool" where
  "remembered env pf p x port \<longleftrightarrow> gcGet (e_cache env) (e_now env) (passthrough_key p x port) (pf_IpsetCache pf) \<noteq> None"

lemma split_at_colon:
  "x @ CHR '':'' # r = x' @ CHR '':'' # r' \<Longrightarrow> CHR '':'' \<notin> set x \<Longrightarrow> CHR '':'' \<notin> set x' \<Longrightarrow> x = x' \<and> r = r'"
proof (induction x arbitrary: x')
  case Nil
  then show ?case by (cases x') auto
next
  case (Cons c x)
  then show ?case by (cases x') auto
qed

lemma passthrough_key_eq:
  assumes "CHR '':'' \<notin> set x" "CHR '':'' \<notin> set x'"
  shows "passthrough_key p x port = passthrough_key p x' port' \<longleftrightarrow> x = x' \<and> port = port'"
  using assms by (auto simp: passthrough_key_def dest: split_at_colon)

text \<open>A cache with its laws, and an API that answers.\<close>

locale passthrough_api =
  fixes env :: "'c pf_env"
  assumes cache: "gocache_laws (e_cache env)"
    and api: "e_ipset env p l x port = None"
begin

lemma SetPassthrough_step:
  "SetPassthrough env p x port False (pf, evs) =
     (if remembered env pf p x port then (pf, evs)
      else (pf\<lparr>pf_IpsetCache := gcSet (e_cache env) (e_now env) (passthrough_key p x port) (IInt 1) IpsetCache_expiration (pf_IpsetCache pf)\<rparr>,
            evs @ [Opened p x port]))"
  by (auto simp: SetPassthrough_def remembered_def passthrough_key_def api Let_def split: option.split)

lemma remembered_step:
  assumes "CHR '':'' \<notin> set x" "CHR '':'' \<notin> set x'"
  shows "remembered env (fst (SetPassthrough env p x port False s)) p x' port' \<longleftrightarrow>
    remembered env (fst s) p x' port' \<or> x' = x \<and> port' = port"
proof -
  have pos: "0 < IpsetCache_expiration" by (simp add: IpsetCache_expiration_def)
  obtain pf evs where s: "s = (pf, evs)" by fastforce
  show ?thesis
    using gcGet_Set(1) [OF cache pos] gcGet_Set(2) [OF cache] passthrough_key_eq [OF assms, of p port port'] pos
    unfolding s SetPassthrough_step by (auto simp: remembered_def)
qed

definition open_pairs :: "string \<Rightarrow> (string \<times> string) list \<Rightarrow> 'c pfdns \<times> pf_event list \<Rightarrow> 'c pfdns \<times> pf_event list" where
  "open_pairs p xps = fold (\<lambda>(x, port). SetPassthrough env p x port False) xps"

lemma open_pairs_spec:
  assumes "\<forall>(x, port)\<in>set xps. CHR '':'' \<notin> set x"
  shows "\<exists>pf' out. open_pairs p xps (pf, evs) = (pf', evs @ out) \<and> distinct out \<and>
    set out = {Opened p x port |x port. (x, port) \<in> set xps \<and> \<not> remembered env pf p x port} \<and>
    (\<forall>x port. CHR '':'' \<notin> set x \<longrightarrow> (remembered env pf' p x port \<longleftrightarrow> remembered env pf p x port \<or> (x, port) \<in> set xps))"
  using assms
proof (induction xps arbitrary: pf evs)
  case Nil
  then show ?case by (simp add: open_pairs_def)
next
  case (Cons xp xps)
  obtain x port where xp: "xp = (x, port)" by fastforce
  obtain pf1 o1 where s1: "SetPassthrough env p x port False (pf, evs) = (pf1, evs @ o1)"
    "o1 = (if remembered env pf p x port then [] else [Opened p x port])"
    using that by (cases "remembered env pf p x port") (auto simp: SetPassthrough_step)
  have no: "CHR '':'' \<notin> set x" using Cons.prems xp by simp
  have step: "remembered env pf1 p x' port' \<longleftrightarrow> remembered env pf p x' port' \<or> x' = x \<and> port' = port" if "CHR '':'' \<notin> set x'" for x' port'
    using remembered_step [OF no that, of p port "(pf, evs)" port'] s1(1) by simp
  obtain pf' o2 where o2: "open_pairs p xps (pf1, evs @ o1) = (pf', (evs @ o1) @ o2)" "distinct o2"
    "set o2 = {Opened p x port |x port. (x, port) \<in> set xps \<and> \<not> remembered env pf1 p x port}"
    "\<forall>x port. CHR '':'' \<notin> set x \<longrightarrow> (remembered env pf' p x port \<longleftrightarrow> remembered env pf1 p x port \<or> (x, port) \<in> set xps)"
    using Cons.IH [of pf1 "evs @ o1"] Cons.prems by auto
  have colon: "CHR '':'' \<notin> set x'" if "(x', port') \<in> set xps" for x' port' using that Cons.prems by auto
  have set2: "set o2 = {Opened p x' port' |x' port'. (x', port') \<in> set xps \<and> \<not> remembered env pf p x' port' \<and> \<not> (x' = x \<and> port' = port)}"
    unfolding o2(3) using step colon by blast
  have "open_pairs p (xp # xps) (pf, evs) = (pf', evs @ o1 @ o2)" using o2(1) s1(1) by (simp add: open_pairs_def xp)
  moreover have "distinct (o1 @ o2)" using o2(2) set2 s1(2) by auto
  moreover have "set (o1 @ o2) = {Opened p x port |x port. (x, port) \<in> set (xp # xps) \<and> \<not> remembered env pf p x port}"
    using set2 s1(2) xp by auto
  ultimately show ?case using o2(4) step xp by (intro exI [of _ pf'] exI [of _ "o1 @ o2"]) auto
qed

end

lemma dotted_no_colon: "CHR '':'' \<notin> set (dotted [a, b, c, d])"
  using dec_nat_chars by (auto simp: dotted_def)

lemma ip_String_v4:
  assumes "length x = 4"
  shows "CHR '':'' \<notin> set (ip_String x)"
proof -
  obtain a b c d where "x = [a, b, c, d]" using assms by (auto simp: numeral_eq_Suc length_Suc_conv)
  then show ?thesis using dotted_no_colon by (simp add: ip_String_def To4_def)
qed

context passthrough_api
begin

lemma open_passthroughs_pairs:
  "open_passthroughs env p m ports = open_pairs p (concat (map (\<lambda>x. map (Pair (ip_String x)) ports) (answer_addresses m)))"
proof
  have inner: "fold (\<lambda>(x, port). SetPassthrough env p x port False) (map (Pair y) ports) = fold (\<lambda>port. SetPassthrough env p y port False) ports" for y
    by (simp add: fold_map comp_def)
  have "fold (\<lambda>(x, port). SetPassthrough env p x port False) (concat (map (\<lambda>x. map (Pair (ip_String x)) ports) xs)) s
      = fold (\<lambda>x. fold (\<lambda>valeur. SetPassthrough env p (ip_String x) valeur False) ports) xs s" for xs s
    by (induction xs arbitrary: s) (simp_all add: inner)
  then show "open_passthroughs env p m ports s = open_pairs p (concat (map (\<lambda>x. map (Pair (ip_String x)) ports) (answer_addresses m))) s" for s
    by (simp add: open_passthroughs_def open_pairs_def)
qed

lemma open_passthroughs_spec:
  assumes "\<forall>x\<in>set (answer_addresses m). length x = 4"
  shows "\<exists>pf' out. open_passthroughs env p m ports (pf, evs) = (pf', evs @ out) \<and> distinct out \<and>
    set out = {Opened p (ip_String x) port |x port. x \<in> set (answer_addresses m) \<and> port \<in> set ports \<and> \<not> remembered env pf p (ip_String x) port} \<and>
    (\<forall>x\<in>set (answer_addresses m). \<forall>port\<in>set ports. remembered env pf' p (ip_String x) port)"
proof -
  let ?xps = "concat (map (\<lambda>x. map (Pair (ip_String x)) ports) (answer_addresses m))"
  have mem: "(y, port) \<in> set ?xps \<longleftrightarrow> (\<exists>x\<in>set (answer_addresses m). y = ip_String x) \<and> port \<in> set ports" for y port by auto
  have "\<forall>(x, port)\<in>set ?xps. CHR '':'' \<notin> set x" using assms ip_String_v4 by auto
  from open_pairs_spec [OF this, of p pf evs] obtain pf' out where o: "open_pairs p ?xps (pf, evs) = (pf', evs @ out)" "distinct out"
    "set out = {Opened p x port |x port. (x, port) \<in> set ?xps \<and> \<not> remembered env pf p x port}"
    "\<forall>x port. CHR '':'' \<notin> set x \<longrightarrow> (remembered env pf' p x port \<longleftrightarrow> remembered env pf p x port \<or> (x, port) \<in> set ?xps)" by blast
  have "remembered env pf' p (ip_String x) port" if "x \<in> set (answer_addresses m)" "port \<in> set ports" for x port
    using o(4) that assms ip_String_v4 mem by blast
  moreover have "set out = {Opened p (ip_String x) port |x port. x \<in> set (answer_addresses m) \<and> port \<in> set ports \<and> \<not> remembered env pf p (ip_String x) port}"
    unfolding o(3) mem by blast
  ultimately show ?thesis using o(1,2) unfolding open_passthroughs_pairs by blast
qed

end


section \<open>A small network\<close>

text \<open>
  A portal at \<open>10.0.0.1\<close> for the network \<open>10.0.0.0/24\<close>, with one passthrough. The device
  \<open>10.0.0.7\<close> is registered, the device \<open>10.0.0.8\<close> is not. Nothing else is known.
\<close>

definition demo_conf :: network_conf where
  "demo_conf = \<lparr>nc_DhcpStart = ''10.0.0.5'', nc_DhcpEnd = ''10.0.0.9'', nc_NextHop = '''', nc_Netmask = ''255.255.255.0'',
     nc_RegNetwork = '''', nc_Type = ''inlinel2'', nc_PortalFQDN = ''''\<rparr>"

definition demo_net :: IPNet where
  "demo_net = \<lparr>net_IP = [10, 0, 0, 0], net_Mask = [255, 255, 255, 0]\<rparr>"

definition demo_pf :: "list_store pfdns" where
  "demo_pf = \<lparr>pf_InternalPortalIP = [10, 0, 0, 1], pf_FqdnPort = fmupd 0 (Some (\<lambda>s. s = ''ok.net.''), [''tcp:80'']) fmempty,
     pf_FqdnIsolationPort = fmempty, pf_FqdnDomainPort = fmempty, pf_Network = fmupd ''10.0.0.0/24'' [10, 0, 0, 1] fmempty,
     pf_NetworkType = fmupd 0 (demo_net, demo_conf) fmempty, pf_DNSFilter = [], pf_IpsetCache = [],
     pf_PortalFQDN = fmupd 0 (fmupd 0 (demo_net, Some (\<lambda>s. s = ''portal.net.'')) fmempty) fmempty,
     pf_detectionBypass = False, pf_detectionMechanisms = [], pf_recordDNS = False\<rparr>"

definition demo_env :: "list_store pf_env" where
  "demo_env = \<lparr>e_cache = list_cache, e_now = 0, e_prio = (\<lambda>site k. k), e_prio_net = (\<lambda>n. 0), e_locked = True,
     e_IP4log = (\<lambda>x. if x = ''10.0.0.7'' then Some ''reg-mac'' else if x = ''10.0.0.8'' then Some ''new-mac'' else None),
     e_IP6log = (\<lambda>x. None), e_Nodedb = (\<lambda>mac. if mac = ''reg-mac'' then Some (''reg'', ''guest'') else None),
     e_SecurityEvent = (\<lambda>mac. Some 0),
     e_exchange = (\<lambda>net r. (Some \<lparr>dm_Rcode = 0, dm_Authoritative = False, dm_Answer = [Some (RR_A empty_header [192, 0, 2, 1])], dm_Extra = []\<rparr>, None)),
     e_ipset = (\<lambda>p l x port. None), e_FilterDns = (\<lambda>kind name addr ty mac. Inl ''no rule''), e_NewRR = (\<lambda>s. None),
     e_rrString = (\<lambda>rr. ''rr''), e_nameString = (\<lambda>s. s), e_typeString = (\<lambda>t. ''A''), e_supported = (\<lambda>c. False), e_next = 0\<rparr>"

definition demo_request :: "string \<Rightarrow> ip \<Rightarrow> string \<Rightarrow> dns_request" where
  "demo_request addr x name = \<lparr>dr_RemoteAddr = addr, dr_addr = x, dr_Question = [\<lparr>qu_Name = name, qu_Qtype = 1, qu_Qclass = 1\<rparr>],
     dr_Edns = None, dr_RecursionDesired = True\<rparr>"

lemma demo_addresses:
  "SplitHostPort ''10.0.0.7:5353'' = (''10.0.0.7'', ''5353'', None)" "SplitHostPort ''10.0.0.8:5353'' = (''10.0.0.8'', ''5353'', None)"
  "ParseIP ''10.0.0.7'' = IPv4 10 0 0 7" "ParseIP ''10.0.0.8'' = IPv4 10 0 0 8"
  by (simp_all add: SplitHostPort_def parse_literal IPv4_def)

lemma demo_query:
  "query_of demo_env (demo_request ''10.0.0.7:5353'' [10, 0, 0, 7] ''www.net.'') =
     \<lparr>pq_req = demo_request ''10.0.0.7:5353'' [10, 0, 0, 7] ''www.net.'', pq_srcIP = ''10.0.0.7'', pq_bIP = IPv4 10 0 0 7,
      pq_mac = ''reg-mac'', pq_qname = ''www.net.''\<rparr>"
  "query_of demo_env (demo_request ''10.0.0.8:5353'' [10, 0, 0, 8] ''www.net.'') =
     \<lparr>pq_req = demo_request ''10.0.0.8:5353'' [10, 0, 0, 8] ''www.net.'', pq_srcIP = ''10.0.0.8'', pq_bIP = IPv4 10 0 0 8,
      pq_mac = ''new-mac'', pq_qname = ''www.net.''\<rparr>"
  by (simp_all add: query_of_def request_IP_def demo_request_def demo_addresses demo_env_def IP2Mac_def QName_def IPv4_def To4_def v4InV6Prefix_def)

interpretation demo_api: passthrough_api demo_env
  by unfold_locales (simp_all add: demo_env_def list_cache_laws)

lemma range_keys_single [simp]: "range_keys prio (fmupd k v fmempty) = [k]"
proof -
  let ?ks = "range_keys prio (fmupd k v fmempty)"
  have "length ?ks = 1" by (simp add: gm_len_def fcard.rep_eq)
  then obtain y where y: "?ks = [y]" by (auto simp: length_Suc_conv simp del: length_range_keys)
  have "k \<in> set ?ks" by (simp add: gm_has_def)
  with y show ?thesis by simp
qed

lemma ranged_simps [simp]: "ranged prio fmempty = []" "ranged prio (fmupd k v fmempty) = [v]"
  by (simp_all add: ranged_def)

lemma demo_contains [simp]: "net_Contains demo_net (IPv4 10 0 0 7)" "net_Contains demo_net (IPv4 10 0 0 8)"
  by (simp_all add: net_Contains_def networkNumberAndMask_def demo_net_def IPv4_def To4_def v4InV6Prefix_def)

lemma demo_admitted: "admitted demo_env ''reg-mac''" "\<not> admitted demo_env ''new-mac''"
  by (simp_all add: admitted_def demo_env_def HasSecurityEvents_def)

lemma demo_quiet: "compiled demo_pf" "\<not> passthrough_name demo_pf ''www.net.''" "checkDetectionMechanisms demo_pf s = Ret False"
  by (auto simp: compiled_def demo_pf_def passthrough_name_def names_match_def checkDetectionMechanisms_def split: if_splits)

lemma demo_portal_name: "is_portal_name demo_env demo_pf (IPv4 10 0 0 7) ''www.net.'' = Ret False"
proof -
  have "[0..<gm_len (pf_PortalFQDN demo_pf) + 1] = [0, 1]" by (simp add: demo_pf_def gm_len_def fcard.rep_eq upt_conv_Cons)
  then show ?thesis unfolding is_portal_name_def by (simp add: demo_pf_def gm_get_def MatchString_def)
qed

lemma demo_nodes:
  "node_row demo_env ''reg-mac'' status category = (''reg'', ''guest'')" "node_row demo_env ''new-mac'' status category = (status, category)"
  "HasSecurityEvents demo_env mac = False" "e_locked demo_env" "e_next demo_env = 0"
  "ranged (e_prio demo_env 3) (pf_NetworkType demo_pf) = [(demo_net, demo_conf)]" "network_kind (nc_Type demo_conf) s = ''inline''"
  by (simp_all add: node_row_def demo_env_def HasSecurityEvents_def demo_pf_def demo_conf_def network_kind_def)

lemma demo_deferred:
  "ServeDNS demo_env (demo_request ''10.0.0.7:5353'' [10, 0, 0, 7] ''www.net.'') demo_pf = Ret (demo_pf, [Deferred], 0)"
proof -
  let ?q = "query_of demo_env (demo_request ''10.0.0.7:5353'' [10, 0, 0, 7] ''www.net.'')"
  have loop: "network_loop demo_env ?q ''guest'' False [(demo_net, demo_conf)] '''' (demo_pf, []) = Ret (Inl (demo_pf, [Deferred], 0))"
    by (simp add: demo_query network_answer_def demo_nodes demo_portal_name)
  have "bypasses demo_env ?q False False demo_pf = Ret None"
    using bypasses_quiet [OF demo_quiet(1), of ?q demo_env] demo_quiet(2) by (simp add: demo_query)
  with loop show ?thesis by (simp add: ServeDNS_def demo_nodes demo_quiet(3) demo_query Let_def)
qed

lemma demo_ParseCIDR: "ParseCIDR ''10.0.0.0/24'' = Some (IPv4 10 0 0 0, demo_net)"
proof -
  have "index_of (CHR ''/'') ''10.0.0.0/24'' = Some 8" by simp
  moreover have "parseIPv4 ''10.0.0.0'' = IPv4 10 0 0 0" by (simp add: parse_literal)
  moreover have "IPv4 10 0 0 0 \<noteq> []" by (simp add: IPv4_def)
  moreover have "dtoi ''24'' = Some (24, [])" by (simp add: dtoi_def dtoi_digits_def char_digit_def)
  moreover have "[0..<4] = [0, 1, 2, 3::nat]" by (simp add: upt_conv_Cons)
  then have mask: "CIDRMask 24 32 = [255, 255, 255, 0]" by (simp add: CIDRMask_def)
  moreover have "ip_Mask (IPv4 10 0 0 0) [255, 255, 255, 0] = [10, 0, 0, 0]" by (simp add: ip_Mask_def IPv4_def v4InV6Prefix_def)
  ultimately show ?thesis by (simp add: ParseCIDR_def demo_net_def)
qed

lemma demo_captive:
  defines "q \<equiv> query_of demo_env (demo_request ''10.0.0.8:5353'' [10, 0, 0, 8] ''www.net.'')"
  shows "no_filter demo_env demo_pf q" "\<not> admitted demo_env (pq_mac q)" "e_Nodedb demo_env (pq_mac q) \<noteq> Some (''reg'', ''REJECT'')"
    "\<not> passthrough_name demo_pf (pq_qname q)" "portal_address demo_pf (pq_bIP q) [10, 0, 0, 1]"
    "request_Family (demo_request ''10.0.0.8:5353'' [10, 0, 0, 8] ''www.net.'') = 1"
proof -
  show "no_filter demo_env demo_pf q" by (simp add: no_filter_def demo_env_def demo_pf_def list_cache_def lc_get_def)
  show "\<not> admitted demo_env (pq_mac q)" "\<not> passthrough_name demo_pf (pq_qname q)" by (simp_all add: q_def demo_query demo_admitted demo_quiet)
  show "e_Nodedb demo_env (pq_mac q) \<noteq> Some (''reg'', ''REJECT'')" by (simp add: q_def demo_query) (simp add: demo_env_def)
  note demo_ParseCIDR
  then show "portal_address demo_pf (pq_bIP q) [10, 0, 0, 1]"
    by (auto simp: portal_address_def q_def demo_query demo_pf_def demo_conf_def)
  show "request_Family (demo_request ''10.0.0.8:5353'' [10, 0, 0, 8] ''www.net.'') = 1"
    by (simp add: request_Family_def demo_request_def To4_def)
qed

lemma demo_portal_reply:
  "\<exists>c evs. ServeDNS demo_env (demo_request ''10.0.0.8:5353'' [10, 0, 0, 8] ''www.net.'') demo_pf = Ret (demo_pf\<lparr>pf_DNSFilter := c\<rparr>, evs, 0)"
proof -
  let ?r = "demo_request ''10.0.0.8:5353'' [10, 0, 0, 8] ''www.net.''"
  let ?q = "query_of demo_env ?r"
  obtain hdr where "portal_header demo_env demo_pf ?q 1 False [0..<gm_len (pf_PortalFQDN demo_pf) + 1] = Ret hdr"
    using portal_header_total [OF demo_quiet(1)] by blast
  moreover have "pq_req ?q = ?r" by (simp add: demo_query)
  ultimately have "portal_record demo_env demo_pf ?q False = Ret (RR_A hdr [10, 0, 0, 1])"
    using portal_v4_address [OF demo_captive(5)] demo_captive(6) by (simp add: portal_record_def Let_def)
  from captive_reply [OF demo_nodes(4) refl demo_quiet(1) demo_captive(1-4) demo_quiet(3) this] show ?thesis by blast
qed


theorem passed_on_exactly_witness:
  "ServeDNS demo_env (demo_request ''10.0.0.7:5353'' [10, 0, 0, 7] ''www.net.'') demo_pf = Ret (demo_pf, [Deferred], 0) \<and>
    admitted demo_env ''reg-mac'' \<and> is_portal_name demo_env demo_pf (IPv4 10 0 0 7) ''www.net.'' = Ret False"
proof -
  have "known_type (nc_Type v) \<and> (nc_Type v \<in> {''inlinel2'', ''inlinel3'', ''dns-enforcement''} \<longleftrightarrow> True)"
    if "fmlookup (pf_NetworkType demo_pf) i = Some (k, v)" for i k v
    using that by (auto simp: demo_pf_def demo_conf_def known_type_def split: if_splits)
  from passed_on_exactly [OF demo_deferred refl this demo_quiet(3)] demo_deferred show ?thesis by (simp add: demo_query)
qed


end
