(* ===== verification/PfdnsLife.thy ===== *)
theory PfdnsLife
  imports PfdnsSpec
begin

text \<open>
  The life of the captive portal's DNS server (\<open>src/go/coredns/plugin/pfdns/setup.go\<close> and the
  initialisations of \<open>pfdns.go\<close> and \<open>pfconfig.go\<close>): what the set-up establishes and every later step
  keeps, and what this means for the answers.
\<close>

section \<open>The expressions\<close>

definition compiled_map :: "(nat, regex \<times> string list) gomap \<Rightarrow> bool" where
  "compiled_map m \<longleftrightarrow> (\<forall>i k v. fmlookup m i = Some (k, v) \<longrightarrow> k \<noteq> None)"

definition compiled_portals :: "(nat, (nat, IPNet \<times> regex) gomap) gomap \<Rightarrow> bool" where
  "compiled_portals ms \<longleftrightarrow> (\<forall>i m j c d. fmlookup ms i = Some m \<longrightarrow> fmlookup m j = Some (c, d) \<longrightarrow> d \<noteq> None)"

lemma compiled_maps:
  "compiled pf \<longleftrightarrow> compiled_map (pf_FqdnDomainPort pf) \<and> compiled_map (pf_FqdnIsolationPort pf) \<and> compiled_map (pf_FqdnPort pf) \<and>
     compiled_portals (pf_PortalFQDN pf) \<and> None \<notin> set (pf_detectionMechanisms pf)"
  unfolding compiled_def compiled_map_def compiled_portals_def ..

lemma compiled_map_empty [simp]: "compiled_map fmempty" "compiled_portals fmempty"
  by (simp_all add: compiled_map_def compiled_portals_def)

lemma put_regex_compiled: "compiled_map m \<Longrightarrow> r \<noteq> None \<Longrightarrow> compiled_map (put_regex r v m)"
  by (auto simp: compiled_map_def put_regex_def split: if_splits)

lemma fold_put_regex: "compiled_map m \<Longrightarrow> (\<And>k. f k \<noteq> None) \<Longrightarrow> compiled_map (fold (\<lambda>k. put_regex (f k) (g k)) ks m)"
  by (induction ks arbitrary: m) (simp_all add: put_regex_compiled)

lemma put_new_compiled:
  "compiled_portals ms \<Longrightarrow> d \<noteq> None \<Longrightarrow> compiled_portals (put_new (put_new (c, d) fmempty) ms)"
  by (auto simp: compiled_portals_def put_new_def split: if_splits)

lemma fold_put_new:
  "compiled_portals ms \<Longrightarrow> (\<And>k. g k \<noteq> None) \<Longrightarrow> compiled_portals (fold (\<lambda>k. put_new (put_new (f k, g k) fmempty)) ks ms)"
  by (induction ks arbitrary: ms) (simp_all add: put_new_compiled)

lemma passthrough_map_compiled: "(\<And>s. compile s \<noteq> None) \<Longrightarrow> compiled_map (passthrough_map compile prio conf)"
  by (simp add: passthrough_map_def fold_put_regex)

lemma MakeDetectionMecanism_compiled:
  "None \<notin> set (pf_detectionMechanisms (MakeDetectionMecanism compile url_host setting urls (pf :: 'c pfdns)))"
proof -
  have "None \<notin> set (pf_detectionMechanisms pf) \<Longrightarrow>
    None \<notin> set (pf_detectionMechanisms (fold (\<lambda>v pf. case url_host v of None \<Rightarrow> pf | Some host \<Rightarrow> addDetectionMechanismsToList compile host pf) urls pf))" for pf :: "'c pfdns"
    by (induction urls arbitrary: pf) (auto simp: addDetectionMechanismsToList_def split: option.split)
  then show ?thesis by (simp add: MakeDetectionMecanism_def)
qed

lemma pfdns_same: "\<exists>ms. pf = pf\<lparr>pf_detectionMechanisms := ms\<rparr>"
  by (intro exI [of _ "pf_detectionMechanisms pf"]) simp

lemma MakeDetectionMecanism_keeps:
  "\<exists>b ms. MakeDetectionMecanism compile url_host setting urls (pf :: 'c pfdns) = pf\<lparr>pf_detectionBypass := b, pf_detectionMechanisms := ms\<rparr>"
proof -
  have "\<exists>ms. fold (\<lambda>v pf. case url_host v of None \<Rightarrow> pf | Some host \<Rightarrow> addDetectionMechanismsToList compile host pf) urls pf = pf\<lparr>pf_detectionMechanisms := ms\<rparr>" for pf :: "'c pfdns"
  proof (induction urls arbitrary: pf)
    case Nil
    show ?case using pfdns_same by simp
  next
    case (Cons v urls)
    have "\<exists>ms. (case url_host v of None \<Rightarrow> pf | Some host \<Rightarrow> addDetectionMechanismsToList compile host pf) = pf\<lparr>pf_detectionMechanisms := ms\<rparr>"
      using pfdns_same [of pf] by (auto simp: addDetectionMechanismsToList_def split: option.splits)
    then obtain ms where "(case url_host v of None \<Rightarrow> pf | Some host \<Rightarrow> addDetectionMechanismsToList compile host pf) = pf\<lparr>pf_detectionMechanisms := ms\<rparr>" ..
    then show ?case using Cons.IH [of "pf\<lparr>pf_detectionMechanisms := ms\<rparr>"] by simp
  qed
  then obtain ms where "MakeDetectionMecanism compile url_host setting urls pf =
      pf\<lparr>pf_detectionBypass := (setting = ''enabled''), pf_detectionMechanisms := []\<rparr>\<lparr>pf_detectionMechanisms := ms\<rparr>"
    unfolding MakeDetectionMecanism_def by blast
  then show ?thesis by (intro exI [of _ "setting = ''enabled''"] exI [of _ ms]) simp
qed

section \<open>Every IPv4 client has a portal name\<close>

text \<open>The last entry of the portal names is for all IPv4 addresses.\<close>

definition catches :: "'c pfdns \<Rightarrow> bool" where
  "catches pf \<longleftrightarrow>
     (\<forall>x. To4 x \<noteq> [] \<longrightarrow>
       (\<exists>i\<le>gm_len (pf_PortalFQDN pf). \<exists>j c d. fmlookup (gm_get fmempty (pf_PortalFQDN pf) i) j = Some (c, d) \<and> net_Contains c x))"

lemma all_IPv4: "To4 x \<noteq> [] \<Longrightarrow> net_Contains \<lparr>net_IP = IPv4zero, net_Mask = IPv4zero\<rparr> x"
proof -
  assume "To4 x \<noteq> []"
  then have "length (To4 x) = 4" by (auto simp: To4_def split: if_splits)
  then obtain a b c d where x: "To4 x = [a, b, c, d]" by (auto simp: numeral_eq_Suc length_Suc_conv)
  have "networkNumberAndMask \<lparr>net_IP = IPv4zero, net_Mask = IPv4zero\<rparr> = ([0, 0, 0, 0], [0, 0, 0, 0])"
    by (simp add: networkNumberAndMask_def IPv4zero_def IPv4_def To4_def v4InV6Prefix_def Let_def)
  then show ?thesis by (simp add: net_Contains_def x)
qed

lemma PortalFQDNInit_catches: "catches (PortalFQDNInit compile hostname domain conf keys pf)"
proof -
  define ms where "ms = fold (\<lambda>key. put_new (put_new (conf_net key (conf key), compile (''.*'' @
      (if nc_PortalFQDN (conf key) \<noteq> '''' then nc_PortalFQDN (conf key) else hostname @ ''.'' @ domain))) fmempty)) keys fmempty"
  let ?e = "put_new (\<lparr>net_IP = IPv4zero, net_Mask = IPv4zero\<rparr>, compile (''.*'' @ hostname @ ''.'' @ domain)) fmempty"
  have "pf_PortalFQDN (PortalFQDNInit compile hostname domain conf keys pf) = put_new ?e ms"
    by (simp add: PortalFQDNInit_def ms_def Let_def)
  moreover have "gm_get fmempty (put_new ?e ms) (gm_len ms) = ?e" by (simp add: put_new_def gm_get_def)
  moreover have "gm_len ms \<le> gm_len (put_new ?e ms)" by (simp add: put_new_def)
  moreover have "fmlookup ?e 0 = Some (\<lparr>net_IP = IPv4zero, net_Mask = IPv4zero\<rparr>, compile (''.*'' @ hostname @ ''.'' @ domain))"
    by (simp add: put_new_def)
  ultimately show ?thesis unfolding catches_def using all_IPv4 by metis
qed

lemma PortalFQDNInit_compiled: "(\<And>s. compile s \<noteq> None) \<Longrightarrow> compiled_portals (pf_PortalFQDN (PortalFQDNInit compile hostname domain conf keys pf))"
  by (simp add: PortalFQDNInit_def Let_def fold_put_new put_new_compiled)

lemma portal_ttl_found:
  assumes "\<forall>(c, d)\<in>set cds. d \<noteq> None" "(c, d) \<in> set cds" "net_Contains c x"
  shows "\<exists>t. portal_ttl x s detection cds = Ret (Some t)"
  using assms by (induction cds) (auto simp: MatchString_def)

lemma portal_header_named:
  assumes "compiled pf" "catches pf" "To4 (pq_bIP q) \<noteq> []"
  shows "\<exists>hdr. portal_header env pf q ty detection [0..<gm_len (pf_PortalFQDN pf) + 1] = Ret hdr \<and>
    h_Name hdr = pq_qname q \<and> h_Rrtype hdr = ty \<and> h_Ttl hdr \<in> {5, 15, 60}"
proof -
  let ?cds = "\<lambda>i. ranged (e_prio env 5) (gm_get fmempty (pf_PortalFQDN pf) i)"
  have some: "\<forall>(c, d)\<in>set (?cds i). d \<noteq> None" for i
    using assms(1) by (cases "fmlookup (pf_PortalFQDN pf) i") (fastforce simp: compiled_def gm_get_def)+
  have named: "\<exists>hdr. portal_header env pf q ty detection is = Ret hdr \<and> h_Name hdr = pq_qname q \<and> h_Rrtype hdr = ty \<and> h_Ttl hdr \<in> {5, 15, 60}"
    if "i \<in> set is" "(c, d) \<in> set (?cds i)" "net_Contains c (pq_bIP q)" for "is" i c d
    using that(1)
  proof (induction "is")
    case (Cons j "is")
    obtain t where t: "portal_ttl (pq_bIP q) (pq_qname q) detection (?cds j) = Ret t" "\<And>ttl. t = Some ttl \<Longrightarrow> ttl \<in> {5, 15, 60}"
      using portal_ttl_total [OF some] by blast
    show ?case
    proof (cases t)
      case None
      have "j \<noteq> i" using portal_ttl_found [OF some that(2,3), of "pq_qname q" detection] t(1) None by auto
      then show ?thesis using Cons None t(1) by simp
    next
      case (Some ttl)
      then show ?thesis using t by simp
    qed
  qed simp
  obtain i j c d where "i \<le> gm_len (pf_PortalFQDN pf)" "fmlookup (gm_get fmempty (pf_PortalFQDN pf) i) j = Some (c, d)" "net_Contains c (pq_bIP q)"
    using assms(2,3) unfolding catches_def by blast
  then show ?thesis by (intro named [of i _ c d]) auto
qed

section \<open>What a question leaves\<close>

text \<open>Answering a question changes the two caches only.\<close>

definition same_settings :: "'c pfdns \<Rightarrow> 'c pfdns \<Rightarrow> bool" where
  "same_settings pf pf' \<longleftrightarrow> (\<exists>c d. pf' = pf\<lparr>pf_DNSFilter := c, pf_IpsetCache := d\<rparr>)"

lemma same_settings_refl [simp]: "same_settings pf pf"
  unfolding same_settings_def by (intro exI [of _ "pf_DNSFilter pf"] exI [of _ "pf_IpsetCache pf"]) simp

lemma same_settings_trans:
  assumes "same_settings pf pf'" "same_settings pf' pf''"
  shows "same_settings pf pf''"
proof -
  obtain c d where "pf'' = pf'\<lparr>pf_DNSFilter := c, pf_IpsetCache := d\<rparr>" using assms(2) unfolding same_settings_def by blast
  moreover obtain c' d' where "pf' = pf\<lparr>pf_DNSFilter := c', pf_IpsetCache := d'\<rparr>" using assms(1) unfolding same_settings_def by blast
  ultimately have "pf'' = pf\<lparr>pf_DNSFilter := c, pf_IpsetCache := d\<rparr>" by simp
  then show ?thesis unfolding same_settings_def by blast
qed

lemma same_settings_cache [simp]: "same_settings pf (pf\<lparr>pf_DNSFilter := c\<rparr>)" "same_settings pf (pf\<lparr>pf_IpsetCache := d\<rparr>)"
  unfolding same_settings_def
  by (intro exI [of _ c] exI [of _ "pf_IpsetCache pf"], simp) (intro exI [of _ "pf_DNSFilter pf"] exI [of _ d], simp)

lemma SetPassthrough_same: "same_settings (fst s) (fst (SetPassthrough env p x port loc s))"
  by (cases s) (auto simp: SetPassthrough_def Let_def split: option.split)

lemma fold_same: "(\<And>x s. same_settings (fst s) (fst (f x s))) \<Longrightarrow> same_settings (fst s) (fst (fold f xs s))"
proof (induction xs arbitrary: s)
  case (Cons x xs)
  have "same_settings (fst (f x s)) (fst (fold f xs (f x s)))" by (rule Cons.IH) (rule Cons.prems)
  with Cons.prems [of s x] show ?case by (simp add: same_settings_trans)
qed simp

lemma open_passthroughs_same: "same_settings (fst s) (fst (open_passthroughs env p m ports s))"
  unfolding open_passthroughs_def by (intro fold_same SetPassthrough_same)

lemma pf_reply_same: "pf_reply env q scope m s = Ret (pf', evs, code) \<Longrightarrow> pf' = fst s"
  using pf_reply_events [of env q scope m "fst s" "snd s" pf' evs code] by simp

lemma bypass_same:
  assumes "bypass env q p scope kvs s = Ret (Some (pf', evs, code))"
  shows "same_settings (fst s) pf'"
  using assms
proof (induction kvs)
  case (Cons kv kvs)
  obtain k v where kv: "kv = (k, v)" by fastforce
  obtain b where b: "MatchString k (pq_qname q) = Ret b" using Cons.prems by (auto simp: kv go_bind_Ret)
  show ?case
  proof (cases b)
    case True
    with Cons.prems b show ?thesis
      by (auto simp: kv Let_def go_bind_Ret split: if_splits option.splits prod.splits dest!: pf_reply_same intro: open_passthroughs_same)
  next
    case False
    with Cons b show ?thesis by (simp add: kv)
  qed
qed simp

lemma bypasses_same:
  assumes "bypasses env q detection event pf = Ret (Some (pf', evs, code))"
  shows "same_settings pf pf'"
  using assms bypass_same [of env q _ _ _ "(pf, [])" pf' evs code]
  by (auto simp: bypasses_def go_bind_Ret split: if_splits)

definition left_by :: "('c pfdns \<times> pf_event list \<times> int) + 'c pfdns \<Rightarrow> 'c pfdns" where
  "left_by res = (case res of Inl r \<Rightarrow> fst r | Inr pf \<Rightarrow> pf)"

lemma replied_same: "go_bind (pf_reply env q scope m (pf', evs)) (\<lambda>r. Ret (Inl r)) = Ret res \<Longrightarrow> left_by res = pf'"
  using pf_reply_same [of env q scope m "(pf', evs)"] by (auto simp: go_bind_Ret left_by_def)

lemma filtered_same:
  assumes "go_bind (filter_answer env q kind category event pf) (\<lambda>(pf, res).
      case res of None \<Rightarrow> Ret (Inr pf) | Some rr \<Rightarrow> go_bind (pf_reply env q ''DNS Filter'' (new_reply rr) (pf, evs)) (\<lambda>r. Ret (Inl r))) = Ret res"
  shows "same_settings pf (left_by res)"
proof -
  obtain pf' rr where f: "filter_answer env q kind category event pf = Ret (pf', rr)" using assms by (auto simp: go_bind_Ret)
  have "left_by res = pf'" using assms f replied_same [of env q "''DNS Filter''" _ pf' evs res] by (cases rr) (auto simp: left_by_def)
  with filter_answer_keeps [OF f] show ?thesis by auto
qed

lemma network_answer_same:
  assumes "network_answer env q kind category event (pf, evs) = Ret res"
  shows "same_settings pf (left_by res)"
proof -
  obtain status cat where sc: "(if enforced kind then node_row env (pq_mac q) ''unreg'' category else ('''', category)) = (status, cat)"
    by fastforce
  note run = assms [unfolded network_answer_def prod.case Let_def enforced_def [symmetric] sc]
  note filtered = filtered_same [of env q kind cat event pf evs res]
  show ?thesis
  proof (cases "enforced kind \<and> status = ''reg'' \<and> \<not> event \<and> cat \<noteq> ''REJECT''")
    case True
    with run filtered show ?thesis by (auto simp: go_bind_Ret left_by_def split: if_splits)
  next
    case no: False
    show ?thesis
    proof (cases "enforced kind \<and> status = ''reg'' \<and> cat = ''REJECT''")
      case True
      from replied_same [OF run [unfolded if_not_P [OF no] if_P [OF True]]] show ?thesis by simp
    next
      case False
      from filtered [OF run [unfolded if_not_P [OF no] if_not_P [OF False]]] show ?thesis .
    qed
  qed
qed

lemma network_loop_same: "network_loop env q category event kvs kind s = Ret res \<Longrightarrow> same_settings (fst s) (left_by res)"
proof (induction kvs arbitrary: kind)
  case Nil
  then show ?case by (auto simp: left_by_def)
next
  case (Cons kv kvs)
  then show ?case using network_answer_same [of env q _ category event "fst s" "snd s" res]
    by (cases kv) (auto simp: Let_def split: if_splits)
qed

lemma ServeDNS_same:
  assumes "ServeDNS env r pf = Ret (pf', evs, code)"
  shows "same_settings pf pf'"
proof -
  let ?q = "query_of env r"
  let ?event = "HasSecurityEvents env (pq_mac ?q)"
  obtain detection res where run: "bypasses env ?q detection ?event pf = Ret res"
    "(case res of Some r \<Rightarrow> Ret r
      | None \<Rightarrow> go_bind (network_loop env ?q (snd (node_row env (pq_mac ?q) ''unreg'' '''')) ?event
            (ranged (e_prio env 3) (pf_NetworkType pf)) '''' (pf, [])) (\<lambda>res.
          case res of Inl r \<Rightarrow> Ret r
          | Inr pf \<Rightarrow> go_bind (portal_record env pf ?q detection) (\<lambda>rr. pf_reply env ?q ''Portal'' (new_reply (Some rr)) (pf, [])))) =
      Ret (pf', evs, code)"
    using assms by (auto simp: ServeDNS_def Let_def go_bind_Ret split: if_splits)
  show ?thesis
  proof (cases res)
    case (Some r)
    then show ?thesis using run bypasses_same [of env ?q detection ?event pf pf' evs code] by simp
  next
    case None
    then obtain res' where loop: "network_loop env ?q (snd (node_row env (pq_mac ?q) ''unreg'' '''')) ?event
        (ranged (e_prio env 3) (pf_NetworkType pf)) '''' (pf, []) = Ret res'" using run(2) by (auto simp: go_bind_Ret)
    have "left_by res' = pf'"
    proof (cases res')
      case (Inr pf1)
      then obtain rr where "pf_reply env ?q ''Portal'' (new_reply (Some rr)) (pf1, []) = Ret (pf', evs, code)"
        using run(2) None loop by (auto simp: go_bind_Ret)
      then show ?thesis using pf_reply_same Inr by (fastforce simp: left_by_def)
    qed (use run(2) None loop in \<open>auto simp: left_by_def\<close>)
    with network_loop_same [OF loop] show ?thesis by simp
  qed
qed

section \<open>The life of the plugin\<close>

lemma same_settings_kept: "same_settings pf pf' \<Longrightarrow> compiled pf' = compiled pf \<and> catches pf' = catches pf"
  unfolding same_settings_def by (elim exE) (simp add: compiled_maps catches_def)

lemma st_detectVIP_keeps:
  assumes "st_detectVIP st lock pf = Ret (err, pf')"
  shows "\<exists>m. pf' = pf\<lparr>pf_Network := m\<rparr>"
proof (cases "st_keys st")
  case None
  then have "pf' = pf\<lparr>pf_Network := pf_Network pf\<rparr>" using assms by (simp add: st_detectVIP_def pfdns_detectVIP_def)
  then show ?thesis ..
next
  case (Some keys)
  then show ?thesis using assms by (auto simp: st_detectVIP_def pfdns_detectVIP_def go_bind_Ret)
qed

lemma Refresh_compiled:
  assumes "\<And>s. compile s \<noteq> None" "compiled pf" "catches pf"
  shows "compiled (Refresh C compile prio valid reg isolation dnsValid setting pf) \<and> catches (Refresh C compile prio valid reg isolation dnsValid setting pf)"
  using assms(2,3) passthrough_map_compiled [of compile, OF assms(1)]
  by (simp add: Refresh_def Let_def compiled_maps catches_def PassthroughsInit_def PassthroughsIsolationInit_def DNSRecord_def)

lemma setup_compiled:
  assumes "setuppfdns C st lock = Ret (Inr pf)" "\<And>s. st_compile st s \<noteq> None"
  shows "compiled pf \<and> catches pf"
proof -
  let ?pf0 = "PassthroughsIsolationInit (st_compile st) (st_prio st) (st_Isolation st)
      (PassthroughsInit (st_compile st) (st_prio st) (st_Registration st) (zero_pfdns C))"
  obtain m1 m2 keys where "pf = (MakeDetectionMecanism (st_compile st) (st_url_host st) (st_DetectionMecanismBypass st) (st_DetectionMecanismUrls st)
      (PortalFQDNInit (st_compile st) (st_Hostname st) (st_Domain st) (st_network st) keys
        ((DomainPassthroughInit (st_compile st) (st_domains st) (?pf0\<lparr>pf_Network := m1\<rparr>))\<lparr>pf_NetworkType := m2\<rparr>)))
      \<lparr>pf_InternalPortalIP := To4 (ParseIP (st_IpAddress st))\<rparr>"
    using assms(1)
    by (auto simp: setuppfdns_def Let_def go_bind_Ret detectType_def split: if_splits dest!: st_detectVIP_keeps)
  then obtain pf1 where pf: "pf = (MakeDetectionMecanism (st_compile st) (st_url_host st) (st_DetectionMecanismBypass st) (st_DetectionMecanismUrls st) pf1)
      \<lparr>pf_InternalPortalIP := To4 (ParseIP (st_IpAddress st))\<rparr>"
    and pf1: "pf1 = PortalFQDNInit (st_compile st) (st_Hostname st) (st_Domain st) (st_network st) keys
        ((DomainPassthroughInit (st_compile st) (st_domains st) (?pf0\<lparr>pf_Network := m1\<rparr>))\<lparr>pf_NetworkType := m2\<rparr>)" by blast
  obtain b ms where md: "MakeDetectionMecanism (st_compile st) (st_url_host st) (st_DetectionMecanismBypass st) (st_DetectionMecanismUrls st) pf1 =
      pf1\<lparr>pf_detectionBypass := b, pf_detectionMechanisms := ms\<rparr>" using MakeDetectionMecanism_keeps by blast
  have "None \<notin> set ms"
    using MakeDetectionMecanism_compiled [of "st_compile st" "st_url_host st" "st_DetectionMecanismBypass st" "st_DetectionMecanismUrls st" pf1]
    by (simp add: md)
  moreover have "catches pf1" "compiled_portals (pf_PortalFQDN pf1)" unfolding pf1 by (rule PortalFQDNInit_catches, rule PortalFQDNInit_compiled, rule assms(2))
  moreover have "compiled_map (pf_FqdnDomainPort pf1)" "compiled_map (pf_FqdnIsolationPort pf1)" "compiled_map (pf_FqdnPort pf1)"
    unfolding pf1 using passthrough_map_compiled [of "st_compile st", OF assms(2)] assms(2)
    by (simp_all add: PortalFQDNInit_def DomainPassthroughInit_def PassthroughsInit_def PassthroughsIsolationInit_def Let_def fold_put_regex)
  ultimately show ?thesis unfolding pf md by (simp add: compiled_maps catches_def)
qed

lemma pfdns_life_invariant:
  assumes "pfdns_life C compile pf" "\<And>s. compile s \<noteq> None"
  shows "compiled pf \<and> catches pf"
  using assms(1)
proof (induction rule: pfdns_life.induct)
  case (started st lock pf)
  then show ?case using setup_compiled [of C st lock pf] assms(2) by simp
next
  case (refreshed pf st valid dnsValid)
  then show ?case using Refresh_compiled [of compile, OF assms(2)] by blast
next
  case (detected pf st lock err pf')
  from st_detectVIP_keeps [OF this(2)] detected.IH show ?case by (elim exE) (simp add: compiled_maps catches_def)
next
  case (served pf env r pf' evs code)
  then show ?case using same_settings_kept [OF ServeDNS_same [OF served.hyps(3)]] by simp
qed


section \<open>A life of the small network\<close>

definition demo_settings :: pf_settings where
  "demo_settings = \<lparr>st_compile = (\<lambda>s. Some (\<lambda>x. x = s)), st_prio = (\<lambda>s. 0),
     st_Registration = \<lparr>pc_Wildcard = fmempty, pc_Normal = fmempty\<rparr>, st_Isolation = \<lparr>pc_Wildcard = fmempty, pc_Normal = fmempty\<rparr>,
     st_dedup = remdups, st_cluster = (\<lambda>v. Some ''''), st_addrs = (\<lambda>v. Some [''10.0.0.1/24'']), st_conf = (\<lambda>key. Some demo_conf),
     st_keys = Some [''10.0.0.0''], st_ListenInts = [''eth0''], st_DNSInts = [], st_domains = [], st_Hostname = ''pf'', st_Domain = ''net'',
     st_url_host = (\<lambda>s. None), st_DetectionMecanismBypass = '''', st_DetectionMecanismUrls = [], st_IpAddress = ''10.0.0.1'', st_RecordDNS = ''''\<rparr>"

definition demo_life :: "list_store pfdns" where
  "demo_life = (PortalFQDNInit (st_compile demo_settings) ''pf'' ''net'' (st_network demo_settings) [''10.0.0.0'']
     ((zero_pfdns list_cache)\<lparr>pf_Network := fmupd ''10.0.0.0/24'' (IPv4 10 0 0 1) fmempty,
        pf_NetworkType := fmupd 0 (conf_net ''10.0.0.0'' demo_conf, demo_conf) fmempty\<rparr>))\<lparr>pf_InternalPortalIP := [10, 0, 0, 1]\<rparr>"

lemma demo_fields:
  "st_keys demo_settings = Some [''10.0.0.0'']" "st_dedup demo_settings = remdups" "st_ListenInts demo_settings = [''eth0'']"
  "st_DNSInts demo_settings = []" "st_cluster demo_settings v = Some ''''" "st_addrs demo_settings v = Some [''10.0.0.1/24'']"
  "st_conf demo_settings key = Some demo_conf" "st_network demo_settings key = demo_conf" "st_domains demo_settings = []"
  "st_Hostname demo_settings = ''pf''" "st_Domain demo_settings = ''net''" "st_DetectionMecanismBypass demo_settings = ''''"
  "st_DetectionMecanismUrls demo_settings = []" "st_IpAddress demo_settings = ''10.0.0.1''"
  "passthrough_map compile prio (st_Registration demo_settings) = fmempty" "passthrough_map compile prio (st_Isolation demo_settings) = fmempty"
  by (simp_all add: demo_settings_def st_network_def passthrough_map_def)

lemma demo_literals:
  "parseIPv4 ''10.0.0.1'' = IPv4 10 0 0 1" "ParseIP ''10.0.0.1'' = IPv4 10 0 0 1" "ParseIP ''10.0.0.0'' = IPv4 10 0 0 0" "ParseIP '''' = []"
  "ParseIP ''255.255.255.0'' = IPv4 255 255 255 0" "ParseIP ''10.0.0.5'' = IPv4 10 0 0 5" "ParseIP ''10.0.0.9'' = IPv4 10 0 0 9"
  "dtoi ''24'' = Some (24, [])"
  by (simp_all add: parse_literal IPv4_def)

lemma demo_mask: "CIDRMask 24 32 = [255, 255, 255, 0]" "simpleMaskLength [255, 255, 255, 0] = Some 24" "Mask_Size [255, 255, 255, 0] = (24, 32)"
proof -
  have "leading_ones 8 0 = 0" by (simp add: eval_nat_numeral)
  then show "simpleMaskLength [255, 255, 255, 0] = Some 24" by simp
  then show "Mask_Size [255, 255, 255, 0] = (24, 32)" by (simp add: Mask_Size_def)
  have "[0..<4] = [0, 1, 2, 3::nat]" by (simp add: upt_conv_Cons)
  then show "CIDRMask 24 32 = [255, 255, 255, 0]" by (simp add: CIDRMask_def)
qed

lemma demo_interface: "ParseCIDR ''10.0.0.1/24'' = Some (IPv4 10 0 0 1, demo_net)"
proof -
  have "index_of (CHR ''/'') ''10.0.0.1/24'' = Some 8" by simp
  moreover have "IPv4 10 0 0 1 \<noteq> []" by (simp add: IPv4_def)
  moreover have "ip_Mask (IPv4 10 0 0 1) [255, 255, 255, 0] = [10, 0, 0, 0]" by (simp add: ip_Mask_def IPv4_def v4InV6Prefix_def)
  ultimately show ?thesis by (simp add: ParseCIDR_def demo_net_def demo_literals demo_mask)
qed

lemma demo_in_network: "in_network demo_net demo_conf" "reg_network demo_net demo_conf = None"
  by (simp_all add: in_network_def reg_network_def demo_conf_def demo_literals net_Contains_def networkNumberAndMask_def demo_net_def IPv4_def To4_def v4InV6Prefix_def)

lemma demo_net_String: "net_String demo_net = ''10.0.0.0/24''" "net_String (conf_net ''10.0.0.0'' demo_conf) = ''10.0.0.0/24''"
proof -
  have "networkNumberAndMask demo_net = ([10, 0, 0, 0], [255, 255, 255, 0])"
    "networkNumberAndMask (conf_net ''10.0.0.0'' demo_conf) = ([10, 0, 0, 0], [255, 255, 255, 0])"
    by (simp_all add: networkNumberAndMask_def demo_net_def conf_net_def demo_conf_def demo_literals IPv4_def To4_def v4InV6Prefix_def)
  moreover have digits: "digit_char 0 = CHR ''0''" "digit_char 1 = CHR ''1''" "digit_char 2 = CHR ''2''" "digit_char 4 = CHR ''4''" by code_simp+
  then have "ip_String [10, 0, 0, 0] = ''10.0.0.0''" by (simp add: ip_String_def To4_def dotted_def dec_nat.simps)
  moreover have "dec_nat 24 = ''24''" using digits by (simp add: dec_nat.simps)
  ultimately show "net_String demo_net = ''10.0.0.0/24''" "net_String (conf_net ''10.0.0.0'' demo_conf) = ''10.0.0.0/24''"
    by (simp_all add: net_String_def demo_mask del: simpleMaskLength.simps)
qed

lemma demo_set_up: "setuppfdns list_cache demo_settings (\<lambda>i. True) = Ret (Inr demo_life)"
proof -
  have "net_Mask demo_net = [255, 255, 255, 0]" by (simp add: demo_net_def)
  then have size: "Mask_Size (net_Mask demo_net) = (24, 32)" by (simp add: demo_mask)
  moreover have "vip_network demo_net (IPv4 10 0 0 1) ''10.0.0.0'' demo_conf m = fmupd ''10.0.0.0/24'' (IPv4 10 0 0 1) m" for m
    by (simp add: vip_network_def demo_in_network demo_net_String)
  moreover have "type_network demo_net ''10.0.0.0'' demo_conf fmempty = fmupd 0 (conf_net ''10.0.0.0'' demo_conf, demo_conf) fmempty"
    by (simp add: type_network_def demo_in_network put_new_def)
  moreover have "To4 (IPv4 10 0 0 1) = [10, 0, 0, 1]" by (simp add: IPv4_def To4_def v4InV6Prefix_def)
  ultimately show ?thesis
    by (simp add: setuppfdns_def Let_def st_detectVIP_def pfdns_detectVIP_def detectType_def demo_interface demo_literals demo_fields
        demo_life_def MakeDetectionMecanism_def PassthroughsInit_def PassthroughsIsolationInit_def
        DomainPassthroughInit_def zero_pfdns_def PortalFQDNInit_def)
qed

lemma demo_life_fields:
  "pf_FqdnDomainPort demo_life = fmempty" "pf_FqdnIsolationPort demo_life = fmempty" "pf_FqdnPort demo_life = fmempty"
  "pf_DNSFilter demo_life = []" "pf_Network demo_life = fmupd ''10.0.0.0/24'' (IPv4 10 0 0 1) fmempty"
  "pf_NetworkType demo_life = fmupd 0 (conf_net ''10.0.0.0'' demo_conf, demo_conf) fmempty" "pf_InternalPortalIP demo_life = [10, 0, 0, 1]"
  by (simp_all add: demo_life_def PortalFQDNInit_def Let_def zero_pfdns_def list_cache_def)


section \<open>Weak spots\<close>

text \<open>A network of a type that is not listed is taken for one of the type visited before it, so the order of the map decides.\<close>

lemma unlisted_type_by_order:
  assumes "\<not> known_type (nc_Type v)" "net_Contains k (pq_bIP q)" "\<not> net_Contains k' (pq_bIP q)"
  shows "network_loop env q category event [(k', v'), (k, v)] kind s = network_answer env q (network_kind (nc_Type v') kind) category event s"
    and "network_loop env q category event [(k, v), (k', v')] kind s = network_answer env q kind category event s"
  using assms by (simp_all add: known_type_def network_kind_def Let_def)

text \<open>An answer of the filter is cached without the type of the question: the next question for the name gets it whatever it asks.\<close>

lemma cached_filter_any_type:
  assumes "gcGet (e_cache env) (e_now env) (MakeKeyCache (pq_mac q) category event (pq_qname q)) (pf_DNSFilter pf) = Some (IStr reply)" "reply \<noteq> ''null''"
  shows "filter_answer env (q\<lparr>pq_req := r\<rparr>) kind category event pf = Ret (pf, Some (e_NewRR env reply))"
  using assms by (simp add: filter_answer_def Let_def)

text \<open>A filter rule without an answer: the parser of records returns nil for the empty text, and the handler panics on it.\<close>

lemma filter_without_answer_panics:
  assumes "e_NewRR env '''' = None" "gcGet (e_cache env) (e_now env) (MakeKeyCache (pq_mac q) category event (pq_qname q)) (pf_DNSFilter pf) = None"
    and "e_FilterDns env kind (pq_qname q) (dr_RemoteAddr (pq_req q)) (QType (pq_req q)) (pq_mac q) = Inr (IMap [])" "\<not> enforced kind"
  shows "network_answer env q kind category event (pf, evs) = Panic ''nil pointer dereference''"
  using assms by (simp add: network_answer_def filter_answer_def Let_def enforced_def pf_reply_def logreply_def new_reply_def SizeAndDo_def split: option.split)

text \<open>A passthrough whose expression does not compile ends the handler when it is visited.\<close>

lemma uncompiled_passthrough_panics: "bypass env q p scope ((None, v) # kvs) s = Panic ''nil pointer dereference''"
  by (simp add: MatchString_def)

text \<open>The portal names are for IPv4 networks only: without a network of its own an IPv6 client gets a record without a name.\<close>

lemma IPv6_client_unnamed:
  assumes "To4 (pq_bIP q) = []" "length (pq_bIP q) = 16"
  shows "portal_header env (PortalFQDNInit compile hostname domain conf [] pf) q ty detection [0..<2] = Ret empty_header"
proof -
  have "\<not> net_Contains \<lparr>net_IP = IPv4zero, net_Mask = IPv4zero\<rparr> (pq_bIP q)"
    using assms by (simp add: net_Contains_def networkNumberAndMask_def IPv4zero_def IPv4_def To4_def v4InV6Prefix_def Let_def)
  then show ?thesis by (simp add: PortalFQDNInit_def Let_def put_new_def gm_get_def upt_conv_Cons numeral_2_eq_2)
qed

end
