(* ===== verification/PfacctNodes.thy ===== *)
theory PfacctNodes
  imports Prelude "HOL-Library.Product_Lexorder"
begin

text \<open>
  The bandwidth buckets of the accounting daemon (\<open>cmd/pfacct/nodes.go\<close>): per tenant and MAC address
  a node, per node its sessions, per session the bytes counted in each time bucket.

  A counter is an \<open>int64\<close>; \<open>i64\<close> is the value an operation leaves in one. The locks around
  the maps are held for whole operations, which are atomic in the model, except for the lock of the
  node table: \<open>Nodes_RemoveSession\<close> takes it for reading and does not give it back, so the
  number of readers is part of the state, and an operation that has to wait for ever for the lock
  has the value \<open>None\<close>.
\<close>

section \<open>Signed 64-bit integers\<close>

definition i64 :: "int \<Rightarrow> int" where
  "i64 x = (x + 2 ^ 63) mod 2 ^ 64 - 2 ^ 63"

lemma i64_id: "- (2 ^ 63) \<le> x \<Longrightarrow> x < 2 ^ 63 \<Longrightarrow> i64 x = x"
  by (simp add: i64_def)

lemma i64_range: "- (2 ^ 63) \<le> i64 x" "i64 x < 2 ^ 63"
  by (simp_all add: i64_def)

lemma i64_i64_diff: "i64 (i64 x - y) = i64 (x - y)"
proof -
  have "(((x + 2 ^ 63) mod 2 ^ 64 - 2 ^ 63) - y + 2 ^ 63) mod (2 ^ 64 :: int) = (x - y + 2 ^ 63) mod 2 ^ 64"
    by (simp add: mod_diff_left_eq algebra_simps)
  then show ?thesis by (simp add: i64_def)
qed

section \<open>Sessions\<close>

record BandwidthBucket =
  bb_InBytes :: int
  bb_OutBytes :: int

definition zero_bucket :: BandwidthBucket where
  "zero_bucket = \<lparr>bb_InBytes = 0, bb_OutBytes = 0\<rparr>"

type_synonym buckets = "(int, BandwidthBucket) gomap"

text \<open>The time of the last update and the flag \<open>Stopped\<close> are never used.\<close>

record Session =
  s_Buckets :: buckets

definition NewSession :: Session where
  "NewSession = \<lparr>s_Buckets = fmempty\<rparr>"

definition Session_Add :: "int \<Rightarrow> int \<Rightarrow> int \<Rightarrow> Session \<Rightarrow> Session" where
  "Session_Add key inb outb s =
     (let b = gm_get zero_bucket (s_Buckets s) key
      in s\<lparr>s_Buckets := fmupd key \<lparr>bb_InBytes = i64 (bb_InBytes b + inb), bb_OutBytes = i64 (bb_OutBytes b + outb)\<rparr>
             (s_Buckets s)\<rparr>)"

text \<open>The body of the loop over the other buckets; \<open>prio\<close> orders the iteration of the map.\<close>

definition subtract_bucket :: "int \<Rightarrow> buckets \<Rightarrow> int \<Rightarrow> BandwidthBucket \<Rightarrow> BandwidthBucket" where
  "subtract_bucket key m k bb =
     (if k = key then bb
      else let v = gm_get zero_bucket m k
           in \<lparr>bb_InBytes = i64 (bb_InBytes bb - bb_InBytes v), bb_OutBytes = i64 (bb_OutBytes bb - bb_OutBytes v)\<rparr>)"

definition Session_Update :: "(int \<Rightarrow> nat) \<Rightarrow> int \<Rightarrow> int \<Rightarrow> int \<Rightarrow> Session \<Rightarrow> Session" where
  "Session_Update prio key inb outb s =
     (let m = s_Buckets s;
          bb = fold (subtract_bucket key m) (range_keys prio m) \<lparr>bb_InBytes = inb, bb_OutBytes = outb\<rparr>;
          bb = (if bb_InBytes bb < 0 then bb\<lparr>bb_InBytes := 0\<rparr> else bb);
          bb = (if bb_OutBytes bb < 0 then bb\<lparr>bb_OutBytes := 0\<rparr> else bb)
      in if bb_InBytes bb > 0 \<or> bb_OutBytes bb > 0 then s\<lparr>s_Buckets := fmupd key bb m\<rparr> else s)"

definition Session_GetBucket :: "int \<Rightarrow> Session \<Rightarrow> BandwidthBucket \<times> bool" where
  "Session_GetBucket key s = (gm_get zero_bucket (s_Buckets s) key, gm_has (s_Buckets s) key)"

section \<open>Sessions of a node\<close>

type_synonym SessionID = "u8 list"

record Sessions =
  ss_Sessions :: "(SessionID, Session) gomap"

definition NewSessions :: Sessions where
  "NewSessions = \<lparr>ss_Sessions = fmempty\<rparr>"

definition Sessions_getOrAdd :: "SessionID \<Rightarrow> Sessions \<Rightarrow> Session \<times> Sessions" where
  "Sessions_getOrAdd sid ss =
     (case fmlookup (ss_Sessions ss) sid of
        Some item \<Rightarrow> (item, ss)
      | None \<Rightarrow> (NewSession, ss\<lparr>ss_Sessions := fmupd sid NewSession (ss_Sessions ss)\<rparr>))"

text \<open>\<open>getOrAdd\<close> returns a pointer into the map: what is done to the session is stored back.\<close>

definition with_session :: "SessionID \<Rightarrow> (Session \<Rightarrow> Session) \<Rightarrow> Sessions \<Rightarrow> Sessions" where
  "with_session sid f ss =
     (let (item, ss) = Sessions_getOrAdd sid ss in ss\<lparr>ss_Sessions := fmupd sid (f item) (ss_Sessions ss)\<rparr>)"

definition Sessions_Add :: "SessionID \<Rightarrow> int \<Rightarrow> int \<Rightarrow> int \<Rightarrow> Sessions \<Rightarrow> Sessions" where
  "Sessions_Add sid key inb outb ss = with_session sid (Session_Add key inb outb) ss"

definition Sessions_Update :: "(int \<Rightarrow> nat) \<Rightarrow> SessionID \<Rightarrow> int \<Rightarrow> int \<Rightarrow> int \<Rightarrow> Sessions \<Rightarrow> Sessions" where
  "Sessions_Update prio sid key inb outb ss = with_session sid (Session_Update prio key inb outb) ss"

definition Sessions_GetBucket :: "SessionID \<Rightarrow> int \<Rightarrow> Sessions \<Rightarrow> BandwidthBucket \<times> bool" where
  "Sessions_GetBucket sid key ss =
     (case fmlookup (ss_Sessions ss) sid of
        None \<Rightarrow> (zero_bucket, False)
      | Some item \<Rightarrow> Session_GetBucket key item)"

definition Sessions_RemoveSession :: "SessionID \<Rightarrow> Sessions \<Rightarrow> Session option \<times> Sessions" where
  "Sessions_RemoveSession sid ss =
     (case fmlookup (ss_Sessions ss) sid of
        None \<Rightarrow> (None, ss)
      | Some item \<Rightarrow> (Some item, ss\<lparr>ss_Sessions := fmdrop sid (ss_Sessions ss)\<rparr>))"

record Node =
  nd_Sessions :: Sessions

definition NewNode :: Node where
  "NewNode = \<lparr>nd_Sessions = NewSessions\<rparr>"

definition Node_GetBucket :: "SessionID \<Rightarrow> int \<Rightarrow> Node \<Rightarrow> BandwidthBucket \<times> bool" where
  "Node_GetBucket sid key n = Sessions_GetBucket sid key (nd_Sessions n)"

definition Node_AddToTimeBucket :: "SessionID \<Rightarrow> int \<Rightarrow> int \<Rightarrow> int \<Rightarrow> Node \<Rightarrow> Node" where
  "Node_AddToTimeBucket sid key inb outb n =
     n\<lparr>nd_Sessions := with_session sid (Session_Add key inb outb) (nd_Sessions n)\<rparr>"

definition Node_UpdateTimeBucket :: "(int \<Rightarrow> nat) \<Rightarrow> SessionID \<Rightarrow> int \<Rightarrow> int \<Rightarrow> int \<Rightarrow> Node \<Rightarrow> Node" where
  "Node_UpdateTimeBucket prio sid key inb outb n =
     n\<lparr>nd_Sessions := with_session sid (Session_Update prio key inb outb) (nd_Sessions n)\<rparr>"

definition Node_RemoveSession :: "SessionID \<Rightarrow> Node \<Rightarrow> Session option \<times> Node" where
  "Node_RemoveSession sid n =
     (let (item, ss) = Sessions_RemoveSession sid (nd_Sessions n) in (item, n\<lparr>nd_Sessions := ss\<rparr>))"

section \<open>The table of nodes\<close>

type_synonym NodeKey = "int \<times> nat"

text \<open>\<open>ns_readers\<close>: the read locks that were taken and not given back.\<close>

record Nodes =
  ns_Nodes :: "(NodeKey, Node) gomap"
  ns_readers :: nat

definition NewNodes :: Nodes where
  "NewNodes = \<lparr>ns_Nodes = fmempty, ns_readers = 0\<rparr>"

text \<open>The write lock, needed for a new node, waits for all readers.\<close>

definition getOrAddNode :: "NodeKey \<Rightarrow> Nodes \<Rightarrow> (Node \<times> Nodes) option" where
  "getOrAddNode key n =
     (case fmlookup (ns_Nodes n) key of
        Some item \<Rightarrow> Some (item, n)
      | None \<Rightarrow> if ns_readers n > 0 then None
                else Some (NewNode, n\<lparr>ns_Nodes := fmupd key NewNode (ns_Nodes n)\<rparr>))"

definition Nodes_Add :: "NodeKey \<Rightarrow> SessionID \<Rightarrow> int \<Rightarrow> int \<Rightarrow> int \<Rightarrow> Nodes \<Rightarrow> Nodes option" where
  "Nodes_Add key sid bucket inb outb n =
     map_option (\<lambda>(node, n). n\<lparr>ns_Nodes := fmupd key (Node_AddToTimeBucket sid bucket inb outb node) (ns_Nodes n)\<rparr>)
       (getOrAddNode key n)"

definition Nodes_Update ::
  "(int \<Rightarrow> nat) \<Rightarrow> NodeKey \<Rightarrow> SessionID \<Rightarrow> int \<Rightarrow> int \<Rightarrow> int \<Rightarrow> Nodes \<Rightarrow> Nodes option" where
  "Nodes_Update prio key sid bucket inb outb n =
     map_option (\<lambda>(node, n). n\<lparr>ns_Nodes := fmupd key (Node_UpdateTimeBucket prio sid bucket inb outb node) (ns_Nodes n)\<rparr>)
       (getOrAddNode key n)"

definition Nodes_GetBucket :: "NodeKey \<Rightarrow> SessionID \<Rightarrow> int \<Rightarrow> Nodes \<Rightarrow> BandwidthBucket \<times> bool" where
  "Nodes_GetBucket key sid bucket n =
     (case fmlookup (ns_Nodes n) key of
        None \<Rightarrow> (zero_bucket, False)
      | Some node \<Rightarrow> Node_GetBucket sid bucket node)"

definition Nodes_RemoveSession :: "NodeKey \<Rightarrow> SessionID \<Rightarrow> Nodes \<Rightarrow> Session option \<times> Nodes" where
  "Nodes_RemoveSession key sid n =
     (let n = n\<lparr>ns_readers := Suc (ns_readers n)\<rparr> in
      case fmlookup (ns_Nodes n) key of
        None \<Rightarrow> (None, n)
      | Some node \<Rightarrow>
          (let (item, node) = Node_RemoveSession sid node
           in (item, n\<lparr>ns_Nodes := fmupd key node (ns_Nodes n)\<rparr>)))"

section \<open>The sum of the buckets\<close>

definition other_keys :: "int \<Rightarrow> buckets \<Rightarrow> int set" where
  "other_keys key m = {k. gm_has m k \<and> k \<noteq> key}"

definition bucket_sum :: "(BandwidthBucket \<Rightarrow> int) \<Rightarrow> buckets \<Rightarrow> int set \<Rightarrow> int" where
  "bucket_sum f m K = (\<Sum>k \<in> K. f (gm_get zero_bucket m k))"

definition session_in :: "Session \<Rightarrow> int" where
  "session_in s = bucket_sum bb_InBytes (s_Buckets s) {k. gm_has (s_Buckets s) k}"

definition session_out :: "Session \<Rightarrow> int" where
  "session_out s = bucket_sum bb_OutBytes (s_Buckets s) {k. gm_has (s_Buckets s) k}"

lemma finite_has: "finite {k. gm_has m k}"
proof -
  have "{k. gm_has m k} = fset (fmdom m)" by (auto simp: gm_has_fmdom)
  then show ?thesis by simp
qed

lemma finite_other_keys: "finite (other_keys key m)"
  by (rule finite_subset [OF _ finite_has [of m]]) (auto simp: other_keys_def)

definition in_range :: "BandwidthBucket \<Rightarrow> bool" where
  "in_range bb \<longleftrightarrow> - (2 ^ 63) \<le> bb_InBytes bb \<and> bb_InBytes bb < 2 ^ 63
     \<and> - (2 ^ 63) \<le> bb_OutBytes bb \<and> bb_OutBytes bb < 2 ^ 63"

lemma in_range_subtract: "in_range bb \<Longrightarrow> in_range (subtract_bucket key m k bb)"
  using i64_range by (auto simp: in_range_def subtract_bucket_def Let_def)

lemma fold_subtract:
  "in_range bb \<Longrightarrow> fold (subtract_bucket key m) ks bb =
    \<lparr>bb_InBytes = i64 (bb_InBytes bb - (\<Sum>k \<leftarrow> filter (\<lambda>k. k \<noteq> key) ks. bb_InBytes (gm_get zero_bucket m k))),
     bb_OutBytes = i64 (bb_OutBytes bb - (\<Sum>k \<leftarrow> filter (\<lambda>k. k \<noteq> key) ks. bb_OutBytes (gm_get zero_bucket m k)))\<rparr>"
proof (induction ks arbitrary: bb)
  case Nil
  then show ?case by (simp add: in_range_def i64_id)
next
  case (Cons k ks)
  from Cons.IH [OF in_range_subtract [OF Cons.prems, of key m k]] show ?case
    by (auto simp: subtract_bucket_def Let_def i64_i64_diff diff_diff_eq)
qed

lemma sum_range_keys:
  "(\<Sum>k \<leftarrow> filter (\<lambda>k. k \<noteq> key) (range_keys prio m). f (gm_get zero_bucket m k)) = bucket_sum f m (other_keys key m)"
proof -
  have "distinct (filter (\<lambda>k. k \<noteq> key) (range_keys prio m))" by simp
  moreover have "set (filter (\<lambda>k. k \<noteq> key) (range_keys prio m)) = other_keys key m" by (auto simp: other_keys_def)
  ultimately show ?thesis unfolding bucket_sum_def by (metis sum_list_distinct_conv_sum_set)
qed

lemma bucket_sum_upd:
  "bucket_sum f (fmupd key b m) {k. k = key \<or> gm_has m k} = f b + bucket_sum f m (other_keys key m)"
proof -
  have "{k. k = key \<or> gm_has m k} = insert key (other_keys key m)" by (auto simp: other_keys_def)
  moreover have "key \<notin> other_keys key m" by (simp add: other_keys_def)
  moreover have "(\<Sum>k \<in> other_keys key m. f (gm_get zero_bucket (fmupd key b m) k)) = bucket_sum f m (other_keys key m)"
    unfolding bucket_sum_def by (rule sum.cong) (auto simp: other_keys_def)
  ultimately show ?thesis by (simp add: bucket_sum_def finite_other_keys)
qed

text \<open>The bucket of the key and the others make up the sum.\<close>

lemma bucket_sum_split:
  assumes "f zero_bucket = 0"
  shows "bucket_sum f m {k. gm_has m k} = f (gm_get zero_bucket m key) + bucket_sum f m (other_keys key m)"
proof (cases "gm_has m key")
  case True
  then have "{k. gm_has m k} = insert key (other_keys key m)" "key \<notin> other_keys key m" by (auto simp: other_keys_def)
  then show ?thesis by (simp add: bucket_sum_def finite_other_keys)
next
  case False
  then have "{k. gm_has m k} = other_keys key m" by (auto simp: other_keys_def)
  moreover have "gm_get zero_bucket m key = zero_bucket" using False by (simp add: gm_has_def gm_get_def)
  ultimately show ?thesis using assms by simp
qed

lemma zero_bucket_simps [simp]: "bb_InBytes zero_bucket = 0" "bb_OutBytes zero_bucket = 0"
  by (simp_all add: zero_bucket_def)

definition session_ok :: "Session \<Rightarrow> bool" where
  "session_ok s \<longleftrightarrow> (\<forall>k. 0 \<le> bb_InBytes (gm_get zero_bucket (s_Buckets s) k)
     \<and> 0 \<le> bb_OutBytes (gm_get zero_bucket (s_Buckets s) k))"

lemma bucket_sum_nonneg:
  assumes "session_ok s"
  shows "0 \<le> bucket_sum bb_InBytes (s_Buckets s) K" "0 \<le> bucket_sum bb_OutBytes (s_Buckets s) K"
  using assms by (auto simp: bucket_sum_def session_ok_def intro: sum_nonneg)

lemma Session_Update_total:
  assumes "session_ok s" and "session_in s \<le> inb" "session_out s \<le> outb" "inb < 2 ^ 63" "outb < 2 ^ 63"
  shows "session_in (Session_Update prio key inb outb s) = inb \<and> session_out (Session_Update prio key inb outb s) = outb
    \<and> session_ok (Session_Update prio key inb outb s)"
proof -
  let ?m = "s_Buckets s"
  let ?i = "bucket_sum bb_InBytes ?m (other_keys key ?m)" and ?o = "bucket_sum bb_OutBytes ?m (other_keys key ?m)"
  let ?bi = "bb_InBytes (gm_get zero_bucket ?m key)" and ?bo = "bb_OutBytes (gm_get zero_bucket ?m key)"
  have split: "session_in s = ?bi + ?i" "session_out s = ?bo + ?o"
    unfolding session_in_def session_out_def by (rule bucket_sum_split; simp)+
  have nn: "0 \<le> ?i" "0 \<le> ?o" "0 \<le> ?bi" "0 \<le> ?bo"
    using bucket_sum_nonneg [OF assms(1)] assms(1) by (simp_all add: session_ok_def)
  let ?bb = "\<lparr>bb_InBytes = inb - ?i, bb_OutBytes = outb - ?o\<rparr>"
  have "fold (subtract_bucket key ?m) (range_keys prio ?m) \<lparr>bb_InBytes = inb, bb_OutBytes = outb\<rparr> = ?bb"
    using fold_subtract [of "\<lparr>bb_InBytes = inb, bb_OutBytes = outb\<rparr>" key ?m "range_keys prio ?m"] assms split nn
    by (simp add: in_range_def sum_range_keys i64_id)
  then have upd: "Session_Update prio key inb outb s =
      (if inb - ?i > 0 \<or> outb - ?o > 0 then s\<lparr>s_Buckets := fmupd key ?bb ?m\<rparr> else s)"
    using assms(2,3) split nn by (simp add: Session_Update_def Let_def)
  show ?thesis
  proof (cases "inb - ?i > 0 \<or> outb - ?o > 0")
    case True
    have "inb - ?i \<ge> 0" "outb - ?o \<ge> 0" using assms(2,3) split nn by linarith+
    with True upd assms(1) show ?thesis
      by (simp add: session_in_def session_out_def bucket_sum_upd session_ok_def)
  next
    case False
    with upd assms split nn show ?thesis by simp
  qed
qed

section \<open>Reports of many sessions\<close>

record report =
  rp_key :: NodeKey
  rp_sid :: SessionID
  rp_bucket :: int
  rp_in :: int
  rp_out :: int

fun run_reports :: "(int \<Rightarrow> nat) \<Rightarrow> report list \<Rightarrow> Nodes \<Rightarrow> Nodes option" where
  "run_reports prio [] n = Some n"
| "run_reports prio (r # rs) n =
     Option.bind (Nodes_Update prio (rp_key r) (rp_sid r) (rp_bucket r) (rp_in r) (rp_out r) n) (run_reports prio rs)"

definition session_of :: "NodeKey \<Rightarrow> SessionID \<Rightarrow> Nodes \<Rightarrow> Session" where
  "session_of key sid n =
     (case fmlookup (ns_Nodes n) key of
        None \<Rightarrow> NewSession
      | Some node \<Rightarrow> gm_get NewSession (ss_Sessions (nd_Sessions node)) sid)"

definition reports_of :: "NodeKey \<Rightarrow> SessionID \<Rightarrow> report list \<Rightarrow> report list" where
  "reports_of key sid rs = filter (\<lambda>r. rp_key r = key \<and> rp_sid r = sid) rs"

text \<open>The counters of a session are cumulative: they never go down.\<close>

definition cumulative :: "report list \<Rightarrow> bool" where
  "cumulative rs \<longleftrightarrow> sorted (map rp_in rs) \<and> sorted (map rp_out rs)
     \<and> (\<forall>r \<in> set rs. 0 \<le> rp_in r \<and> rp_in r < 2 ^ 63 \<and> 0 \<le> rp_out r \<and> rp_out r < 2 ^ 63)"

definition last_in :: "report list \<Rightarrow> int" where
  "last_in rs = (if rs = [] then 0 else rp_in (last rs))"

definition last_out :: "report list \<Rightarrow> int" where
  "last_out rs = (if rs = [] then 0 else rp_out (last rs))"

lemma session_of_update:
  assumes "ns_readers n = 0"
  shows "\<exists>n'. Nodes_Update prio key sid b i out n = Some n' \<and> ns_readers n' = 0
    \<and> (\<forall>key' sid'. session_of key' sid' n' = (if key' = key \<and> sid' = sid
         then Session_Update prio b i out (session_of key sid n) else session_of key' sid' n))"
proof (cases "fmlookup (ns_Nodes n) key")
  case None
  with assms show ?thesis
    by (auto simp: Nodes_Update_def getOrAddNode_def session_of_def Node_UpdateTimeBucket_def with_session_def
        Sessions_getOrAdd_def NewNode_def NewSessions_def gm_get_def)
next
  case (Some node)
  with assms show ?thesis
    by (auto simp: Nodes_Update_def getOrAddNode_def session_of_def Node_UpdateTimeBucket_def with_session_def
        Sessions_getOrAdd_def gm_get_def Let_def split: option.splits)
qed

lemma run_reports_append:
  "run_reports prio (rs @ rs') n = Option.bind (run_reports prio rs n) (run_reports prio rs')"
  by (induction rs arbitrary: n) (auto split: Option.bind_splits)

lemma session_NewSession: "session_ok NewSession" "session_in NewSession = 0" "session_out NewSession = 0"
  by (simp_all add: session_ok_def session_in_def session_out_def NewSession_def bucket_sum_def)

lemma reports_of_append: "reports_of key sid (rs @ rs') = reports_of key sid rs @ reports_of key sid rs'"
  by (simp add: reports_of_def)

lemma cumulative_snoc:
  assumes "cumulative (rs @ [r])"
  shows "cumulative rs" "last_in rs \<le> rp_in r" "last_out rs \<le> rp_out r" "rp_in r < 2 ^ 63" "rp_out r < 2 ^ 63"
  using assms by (auto simp: cumulative_def sorted_append last_in_def last_out_def)

definition totals_ok :: "report list \<Rightarrow> Nodes \<Rightarrow> bool" where
  "totals_ok rs n \<longleftrightarrow> ns_readers n = 0 \<and> (\<forall>key sid. session_ok (session_of key sid n)
     \<and> session_in (session_of key sid n) = last_in (reports_of key sid rs)
     \<and> session_out (session_of key sid n) = last_out (reports_of key sid rs))"

lemma reports_of_snoc:
  "reports_of key sid (rs @ [r]) =
    (if rp_key r = key \<and> rp_sid r = sid then reports_of key sid rs @ [r] else reports_of key sid rs)"
  by (simp add: reports_of_def)

lemma report_step:
  assumes "totals_ok rs n" and "cumulative (reports_of (rp_key r) (rp_sid r) (rs @ [r]))"
  shows "\<exists>n'. Nodes_Update prio (rp_key r) (rp_sid r) (rp_bucket r) (rp_in r) (rp_out r) n = Some n'
    \<and> totals_ok (rs @ [r]) n'"
proof -
  let ?k = "rp_key r" and ?s = "rp_sid r"
  from assms(1) have n: "ns_readers n = 0" "\<And>key sid. session_ok (session_of key sid n)"
    "\<And>key sid. session_in (session_of key sid n) = last_in (reports_of key sid rs)"
    "\<And>key sid. session_out (session_of key sid n) = last_out (reports_of key sid rs)"
    unfolding totals_ok_def by blast+
  from session_of_update [OF n(1)] obtain n' where
    n': "Nodes_Update prio ?k ?s (rp_bucket r) (rp_in r) (rp_out r) n = Some n'" "ns_readers n' = 0"
    "\<And>key sid. session_of key sid n' = (if key = ?k \<and> sid = ?s
       then Session_Update prio (rp_bucket r) (rp_in r) (rp_out r) (session_of ?k ?s n) else session_of key sid n)"
    by meson
  from assms(2) have "cumulative (reports_of ?k ?s rs @ [r])" by (simp add: reports_of_snoc)
  from cumulative_snoc [OF this] Session_Update_total [of "session_of ?k ?s n" "rp_in r" "rp_out r" prio "rp_bucket r"]
  have "session_in (session_of ?k ?s n') = rp_in r" "session_out (session_of ?k ?s n') = rp_out r"
    "session_ok (session_of ?k ?s n')"
    using n(2-4) n'(3) by simp_all
  then have "totals_ok (rs @ [r]) n'"
    using n n'(2,3) by (auto simp: totals_ok_def reports_of_snoc last_in_def last_out_def)
  with n'(1) show ?thesis by blast
qed

lemma run_reports_totals:
  "\<forall>key sid. cumulative (reports_of key sid rs) \<Longrightarrow> \<exists>n. run_reports prio rs NewNodes = Some n \<and> totals_ok rs n"
proof (induction rs rule: rev_induct)
  case Nil
  then show ?case
    by (simp add: totals_ok_def NewNodes_def session_of_def session_NewSession reports_of_def last_in_def last_out_def)
next
  case (snoc r rs)
  have "cumulative (reports_of key sid rs)" for key sid
    using snoc.prems [rule_format, of key sid] cumulative_snoc(1) by (auto simp: reports_of_snoc split: if_splits)
  then obtain n where n: "run_reports prio rs NewNodes = Some n" "totals_ok rs n" using snoc.IH by auto
  from report_step [OF n(2) snoc.prems [rule_format], of prio] n(1) show ?case by (auto simp: run_reports_append)
qed

text \<open>
  C37. Whatever sessions report, in whatever order and into whatever time buckets, the bytes
  in the buckets of a session add up to the counters it reported last, provided its
  counters are cumulative and below \<open>2 ^ 63\<close>: no byte is counted twice or lost when a
  session spans several buckets or reports late.
\<close>

theorem session_buckets_add_up:
  assumes "\<forall>key sid. cumulative (reports_of key sid rs)"
  shows "\<exists>n. run_reports prio rs NewNodes = Some n \<and> (\<forall>key sid.
    session_in (session_of key sid n) = last_in (reports_of key sid rs)
    \<and> session_out (session_of key sid n) = last_out (reports_of key sid rs))"
  using run_reports_totals [OF assms, of prio] by (auto simp: totals_ok_def)

definition demo_reports :: "report list" where
  "demo_reports =
     [\<lparr>rp_key = (1, 7), rp_sid = [1], rp_bucket = 0, rp_in = 30, rp_out = 300\<rparr>,
      \<lparr>rp_key = (1, 9), rp_sid = [2], rp_bucket = 0, rp_in = 5, rp_out = 5\<rparr>,
      \<lparr>rp_key = (1, 7), rp_sid = [1], rp_bucket = 300, rp_in = 40, rp_out = 400\<rparr>]"

theorem session_buckets_add_up_witness:
  "\<exists>n. run_reports (\<lambda>k. 0) demo_reports NewNodes = Some n
    \<and> session_in (session_of (1, 7) [1] n) = 40 \<and> session_out (session_of (1, 7) [1] n) = 400"
proof -
  have "cumulative (reports_of key sid demo_reports)" for key sid
    by (auto simp: demo_reports_def reports_of_def cumulative_def)
  with session_buckets_add_up [of demo_reports "\<lambda>k. 0"] show ?thesis
    by (auto simp: demo_reports_def reports_of_def last_in_def last_out_def)
qed

text \<open>\<open>RemoveSession\<close> keeps the read lock of the table: afterwards no new node can be added.\<close>

lemma RemoveSession_blocks_new_nodes:
  assumes "fmlookup (ns_Nodes n) key' = None" and "key' \<noteq> key"
  shows "Nodes_Add key' sid' b i out (snd (Nodes_RemoveSession key sid n)) = None"
  using assms
  by (auto simp: Nodes_Add_def Nodes_RemoveSession_def getOrAddNode_def Let_def split: option.splits prod.splits)

end
