(* ===== verification/PfacctNetflow.thy ===== *)
theory PfacctNetflow
  imports GoNet
begin

unbundle bit_operations_syntax

text \<open>
  Accounting of NetFlow packets (\<open>cmd/pfacct/net_flow.go\<close>): the flows of a packet are summed up per
  address of the allowed networks, and the sums are written with one SQL statement.

  A flow is what \<open>netflow5.Flow\<close> gives for it: two addresses and a number of octets. A point
  in time is a number of nanoseconds since 1970; the text of a date is a parameter.
\<close>

section \<open>Time buckets\<close>

text \<open>\<open>time.Truncate\<close> rounds down to a multiple of the duration since the year 1.\<close>

definition year_one :: int where
  "year_one = 62135596800 * 1000000000"

definition time_Truncate :: "int \<Rightarrow> int \<Rightarrow> int" where
  "time_Truncate t d = (if d \<le> 0 then t else t - (t + year_one) mod d)"

lemma time_Truncate_bounds: "0 < d \<Longrightarrow> time_Truncate t d \<le> t \<and> t < time_Truncate t d + d"
  using pos_mod_bound [of d "t + year_one"] pos_mod_sign [of d "t + year_one"] by (simp add: time_Truncate_def)

lemma time_Truncate_same:
  assumes "0 < d" and "time_Truncate t d \<le> u" and "u < time_Truncate t d + d"
  shows "time_Truncate u d = time_Truncate t d"
proof -
  let ?q = "(t + year_one) div d"
  have t: "time_Truncate t d + year_one = ?q * d"
    using assms(1) by (simp add: time_Truncate_def minus_mod_eq_div_mult [symmetric])
  then have "?q * d \<le> u + year_one" "u + year_one < ?q * d + d" using assms(2,3) by linarith+
  then have "(u + year_one) div d = ?q"
    using assms(1) by (intro int_div_pos_eq [of _ _ _ "u + year_one - ?q * d"]) (auto simp: mult.commute)
  then have "time_Truncate u d + year_one = ?q * d"
    using assms(1) div_mult_mod_eq [of "u + year_one" d] by (simp add: time_Truncate_def)
  with t show ?thesis by linarith
qed

section \<open>Records\<close>

record NetFlowBandwidthAccountingRec =
  nf_Ip :: string
  nf_UniqueSession :: u64
  nf_TimeBucket :: int
  nf_InBytes :: u64
  nf_OutBytes :: u64

type_synonym NetFlowBandwidthAccountingRecs = "NetFlowBandwidthAccountingRec list"

definition AppendUint :: "u64 \<Rightarrow> string" where
  "AppendUint n = dec_nat (unat n)"

definition ToSQLSelect :: "(int \<Rightarrow> string) \<Rightarrow> NetFlowBandwidthAccountingRec \<Rightarrow> string" where
  "ToSQLSelect date rec =
     ''SELECT _latin1'' @ [CHR 34] @ nf_Ip rec @ [CHR 34] @ '' as ip, ''
     @ AppendUint (nf_UniqueSession rec) @ '' as unique_session_id, ''
     @ AppendUint (nf_InBytes rec) @ '' as in_bytes_, ''
     @ AppendUint (nf_OutBytes rec) @ '' as out_bytes_, '' @ [CHR 34]
     @ date (nf_TimeBucket rec) @ [CHR 34] @ '' as time_bucket'' @ [CHR 10]"

text \<open>The session of an address: four bytes set, followed by the first four of the address.\<close>

definition netflow_session :: "u8 \<Rightarrow> u8 \<Rightarrow> u8 \<Rightarrow> u8 \<Rightarrow> u64" where
  "netflow_session a b c d =
     push_bit 32 0xFFFFFFFF OR push_bit 24 (ucast a) OR push_bit 16 (ucast b) OR push_bit 8 (ucast c) OR ucast d"

definition Recs_Append ::
  "ip \<Rightarrow> int \<Rightarrow> NetFlowBandwidthAccountingRecs \<Rightarrow> (nat \<times> NetFlowBandwidthAccountingRecs) outcome" where
  "Recs_Append addr bucket recs =
     go_bind (slice_get addr 0) (\<lambda>a. go_bind (slice_get addr 1) (\<lambda>b.
     go_bind (slice_get addr 2) (\<lambda>c. go_bind (slice_get addr 3) (\<lambda>d.
     Ret (length recs, recs @ [\<lparr>nf_Ip = ip_String addr, nf_UniqueSession = netflow_session a b c d,
                                 nf_TimeBucket = bucket, nf_InBytes = 0, nf_OutBytes = 0\<rparr>])))))"

definition sql_head :: string where
  "sql_head = ''INSERT INTO bandwidth_accounting (node_id, tenant_id, mac, unique_session_id, time_bucket, in_bytes, out_bytes, source_type)'' @ [CHR 10]
     @ ''    SELECT * FROM ('' @ [CHR 10]
     @ ''        SELECT ((tenant_id << 48) | CAST(CONV(REPLACE(mac,'' @ [CHR 34] @ '':'' @ [CHR 34] @ '','' @ [CHR 34, CHR 34]
     @ ''), 16, 10) AS UNSIGNED)) as node_id, tenant_id, mac, unique_session_id, time_bucket, in_bytes_, out_bytes_, ''
     @ [CHR 34] @ ''net_flow'' @ [CHR 34] @ '' FROM ('' @ [CHR 10] @ ''            ''"

definition sql_tail :: string where
  "sql_tail = ''        ) as time_buckets INNER JOIN ip4log as ip4 ON time_buckets.ip = ip4.ip'' @ [CHR 10]
     @ ''    ) as x'' @ [CHR 10]
     @ ''ON DUPLICATE KEY UPDATE in_bytes = in_bytes + VALUES(in_bytes), out_bytes = out_bytes + VALUES(out_bytes), last_updated = NOW();''"

definition ToSQL :: "(int \<Rightarrow> string) \<Rightarrow> NetFlowBandwidthAccountingRecs \<Rightarrow> string" where
  "ToSQL date array =
     (case array of
        [] \<Rightarrow> ''''
      | first # rest \<Rightarrow>
          sql_head @ ToSQLSelect date first
          @ concat (map (\<lambda>rec. ''            UNION ALL '' @ ToSQLSelect date rec) rest) @ sql_tail)"

section \<open>Flows\<close>

record netflow_Header =
  nh_UnixSecs :: u32
  nh_UnixNsecs :: u32

record netflow_Flow =
  fl_SrcIP :: ip
  fl_DstIP :: ip
  fl_DOctets :: u32

text \<open>The fields of \<open>PfAcct\<close> that the accounting of flows reads.\<close>

record netflow_conf =
  nc_AllNetworks :: bool
  nc_AllowedNetworks :: "IPNet list"
  nc_TimeDuration :: int

definition IpAddressAllowed :: "netflow_conf \<Rightarrow> ip \<Rightarrow> bool" where
  "IpAddressAllowed h addr \<longleftrightarrow>
     nc_AllNetworks h \<or> (\<exists>n \<in> set (nc_AllowedNetworks h). net_Contains n addr)"

type_synonym flow_state = "NetFlowBandwidthAccountingRecs \<times> (string, nat) gomap"

text \<open>The index of the record of an address, made when it is new; \<open>None\<close> is the index -1.\<close>

definition rec_index ::
  "netflow_conf \<Rightarrow> int \<Rightarrow> ip \<Rightarrow> flow_state \<Rightarrow> (nat option \<times> flow_state) outcome" where
  "rec_index h bucket addr st =
     (if IpAddressAllowed h addr then
        (case fmlookup (snd st) (ip_String addr) of
           Some i \<Rightarrow> Ret (Some i, st)
         | None \<Rightarrow> go_bind (Recs_Append addr bucket (fst st)) (\<lambda>(i, recs).
                     Ret (Some i, recs, fmupd (ip_String addr) i (snd st))))
      else Ret (None, st))"

definition add_out :: "u64 \<Rightarrow> nat option \<Rightarrow> NetFlowBandwidthAccountingRecs \<Rightarrow> NetFlowBandwidthAccountingRecs outcome" where
  "add_out n index recs =
     (case index of
        None \<Rightarrow> Ret recs
      | Some i \<Rightarrow> go_bind (slice_get recs (int i)) (\<lambda>r.
                   slice_set recs (int i) (r\<lparr>nf_OutBytes := nf_OutBytes r + n\<rparr>)))"

definition add_in :: "u64 \<Rightarrow> nat option \<Rightarrow> NetFlowBandwidthAccountingRecs \<Rightarrow> NetFlowBandwidthAccountingRecs outcome" where
  "add_in n index recs =
     (case index of
        None \<Rightarrow> Ret recs
      | Some i \<Rightarrow> go_bind (slice_get recs (int i)) (\<lambda>r.
                   slice_set recs (int i) (r\<lparr>nf_InBytes := nf_InBytes r + n\<rparr>)))"

definition flow_step :: "netflow_conf \<Rightarrow> int \<Rightarrow> netflow_Flow \<Rightarrow> flow_state \<Rightarrow> flow_state outcome" where
  "flow_step h bucket flow st =
     go_bind (rec_index h bucket (fl_SrcIP flow) st) (\<lambda>(src, st).
     go_bind (rec_index h bucket (fl_DstIP flow) st) (\<lambda>(dst, st).
     go_bind (add_out (ucast (fl_DOctets flow)) src (fst st)) (\<lambda>recs.
     go_bind (add_in (ucast (fl_DOctets flow)) dst recs) (\<lambda>recs. Ret (recs, snd st)))))"

fun flow_loop :: "netflow_conf \<Rightarrow> int \<Rightarrow> netflow_Flow list \<Rightarrow> flow_state \<Rightarrow> flow_state outcome" where
  "flow_loop h bucket [] st = Ret st"
| "flow_loop h bucket (flow # flows) st = go_bind (flow_step h bucket flow st) (flow_loop h bucket flows)"

definition NetFlowV5ToBandwidthAccounting ::
  "netflow_conf \<Rightarrow> netflow_Header \<Rightarrow> netflow_Flow list \<Rightarrow> NetFlowBandwidthAccountingRecs outcome" where
  "NetFlowV5ToBandwidthAccounting h header flows =
     (let unixTime = uint (nh_UnixSecs header) * 1000000000 + uint (nh_UnixNsecs header);
          unixTime = time_Truncate unixTime (nc_TimeDuration h)
      in go_bind (flow_loop h unixTime flows ([], fmempty)) (\<lambda>st. Ret (fst st)))"

text \<open>\<open>exec\<close> runs a statement on the database.\<close>

definition HandleFlows ::
  "(string \<Rightarrow> 'd \<Rightarrow> 'd) \<Rightarrow> (int \<Rightarrow> string) \<Rightarrow> netflow_conf \<Rightarrow> netflow_Header \<Rightarrow> netflow_Flow list \<Rightarrow> 'd \<Rightarrow> 'd outcome" where
  "HandleFlows exec date h header flows db =
     go_bind (NetFlowV5ToBandwidthAccounting h header flows) (\<lambda>recs.
     let sql = ToSQL date recs in Ret (if sql \<noteq> '''' then exec sql db else db))"

definition netFlowAddress :: "string \<Rightarrow> string \<Rightarrow> string" where
  "netFlowAddress cliNetFlowAddr NetFlowAddress = (if cliNetFlowAddr \<noteq> '''' then cliNetFlowAddr else NetFlowAddress)"

section \<open>The records of a packet\<close>

text \<open>
  What the records hold when the addresses \<open>A\<close> have been seen and \<open>S\<close> and \<open>R\<close> octets have been
  counted as sent and received.
\<close>

definition recs_ok ::
  "int \<Rightarrow> ip set \<Rightarrow> (ip \<Rightarrow> u64) \<Rightarrow> (ip \<Rightarrow> u64) \<Rightarrow> flow_state \<Rightarrow> bool" where
  "recs_ok bucket A S R = (\<lambda>(recs, lookup).
     (\<forall>s i. fmlookup lookup s = Some i \<longleftrightarrow> i < length recs \<and> nf_Ip (recs ! i) = s)
     \<and> (\<forall>i < length recs. \<exists>a \<in> A. length a = 4 \<and> nf_Ip (recs ! i) = ip_String a \<and> nf_OutBytes (recs ! i) = S a
          \<and> nf_InBytes (recs ! i) = R a \<and> nf_TimeBucket (recs ! i) = bucket)
     \<and> (\<forall>a. length a = 4 \<longrightarrow> gm_has lookup (ip_String a) = (a \<in> A))
     \<and> (\<forall>a. a \<notin> A \<longrightarrow> S a = 0 \<and> R a = 0))"

lemma recs_ok_init: "recs_ok bucket {} (\<lambda>a. 0) (\<lambda>a. 0) ([], fmempty)"
  by (simp add: recs_ok_def)

lemma Recs_Append_ok:
  "length a = 4 \<Longrightarrow> \<exists>r. Recs_Append a bucket recs = Ret (length recs, recs @ [r]) \<and> nf_Ip r = ip_String a
    \<and> nf_OutBytes r = 0 \<and> nf_InBytes r = 0 \<and> nf_TimeBucket r = bucket"
  by (simp add: Recs_Append_def slice_get_def)

lemma rec_index_ok:
  assumes "recs_ok bucket A S R st" and "length a = 4" and "IpAddressAllowed h a"
  shows "\<exists>i st'. rec_index h bucket a st = Ret (Some i, st') \<and> recs_ok bucket (insert a A) S R st'
    \<and> fmlookup (snd st') (ip_String a) = Some i \<and> (\<forall>s j. fmlookup (snd st) s = Some j \<longrightarrow> fmlookup (snd st') s = Some j)"
proof -
  obtain recs lookup where st: "st = (recs, lookup)" by (cases st)
  note inv = assms(1) [unfolded st recs_ok_def, simplified]
  show ?thesis
  proof (cases "fmlookup lookup (ip_String a)")
    case (Some i)
    then have "a \<in> A" using inv assms(2) by (auto simp: gm_has_def)
    then have "insert a A = A" by auto
    with Some assms st show ?thesis by (simp add: rec_index_def)
  next
    case None
    then have a: "a \<notin> A" "S a = 0" "R a = 0" using inv assms(2) by (auto simp: gm_has_def)
    obtain r where r: "Recs_Append a bucket recs = Ret (length recs, recs @ [r])" "nf_Ip r = ip_String a"
      "nf_OutBytes r = 0" "nf_InBytes r = 0" "nf_TimeBucket r = bucket" using Recs_Append_ok [OF assms(2)] by blast
    let ?st = "(recs @ [r], fmupd (ip_String a) (length recs) lookup)"
    have "recs_ok bucket (insert a A) S R ?st"
      unfolding recs_ok_def prod.case
    proof (intro conjI allI impI)
      fix s i
      have "i < length recs \<Longrightarrow> nf_Ip (recs ! i) \<noteq> ip_String a" using None inv by (metis option.distinct(1))
      then show "fmlookup (fmupd (ip_String a) (length recs) lookup) s = Some i
          \<longleftrightarrow> i < length (recs @ [r]) \<and> nf_Ip ((recs @ [r]) ! i) = s"
        using inv r(2) by (auto simp: nth_append less_Suc_eq)
    next
      fix i assume "i < length (recs @ [r])"
      then show "\<exists>b \<in> insert a A. length b = 4 \<and> nf_Ip ((recs @ [r]) ! i) = ip_String b \<and> nf_OutBytes ((recs @ [r]) ! i) = S b
          \<and> nf_InBytes ((recs @ [r]) ! i) = R b \<and> nf_TimeBucket ((recs @ [r]) ! i) = bucket"
        using inv r a assms(2) by (cases "i < length recs") (auto simp: nth_append)
    next
      fix b :: ip assume "length b = 4"
      then show "gm_has (fmupd (ip_String a) (length recs) lookup) (ip_String b) = (b \<in> insert a A)"
        using inv assms(2) ip_String_inj4 by auto
    qed (use inv in auto)
    with None assms(3) st r(1) show ?thesis by (simp add: rec_index_def)
  qed
qed

lemma recs_ok_set:
  assumes "recs_ok bucket A S R (recs, lookup)" and "fmlookup lookup (ip_String a) = Some i" and "length a = 4"
    and r: "nf_Ip r = ip_String a" "nf_OutBytes r = S' a" "nf_InBytes r = R' a" "nf_TimeBucket r = bucket"
    and other: "\<And>b. b \<noteq> a \<Longrightarrow> S' b = S b \<and> R' b = R b"
  shows "i < length recs \<and> recs_ok bucket A S' R' (recs[i := r], lookup)"
proof -
  note inv = assms(1) [unfolded recs_ok_def, simplified]
  have i: "i < length recs" "nf_Ip (recs ! i) = ip_String a" using inv assms(2) by auto
  have a: "a \<in> A" using inv assms(2,3) by (auto simp: gm_has_def)
  have "recs_ok bucket A S' R' (recs[i := r], lookup)"
    unfolding recs_ok_def prod.case
  proof (intro conjI allI impI)
    fix j assume j: "j < length (recs[i := r])"
    show "\<exists>b \<in> A. length b = 4 \<and> nf_Ip (recs[i := r] ! j) = ip_String b \<and> nf_OutBytes (recs[i := r] ! j) = S' b
        \<and> nf_InBytes (recs[i := r] ! j) = R' b \<and> nf_TimeBucket (recs[i := r] ! j) = bucket"
    proof (cases "j = i")
      case True
      with a i r assms(3) show ?thesis by auto
    next
      case False
      with j inv obtain b where b: "b \<in> A" "length b = 4" "nf_Ip (recs ! j) = ip_String b" "nf_OutBytes (recs ! j) = S b"
        "nf_InBytes (recs ! j) = R b" "nf_TimeBucket (recs ! j) = bucket" by auto
      have "b \<noteq> a"
      proof
        assume "b = a"
        with b(3) j inv have "fmlookup lookup (ip_String a) = Some j" by auto
        with assms(2) False show False by simp
      qed
      with b other False show ?thesis by auto
    qed
  next
    fix s j
    show "fmlookup lookup s = Some j \<longleftrightarrow> j < length (recs[i := r]) \<and> nf_Ip (recs[i := r] ! j) = s"
      using inv i r(1) by (cases "j = i") auto
  next
    fix b assume "b \<notin> A"
    with a inv have "b \<noteq> a" "S b = 0" "R b = 0" by auto
    with other [of b] show "S' b = 0" "R' b = 0" by simp_all
  qed (use inv in simp)
  with i show ?thesis by simp
qed

text \<open>The addresses and octets of the flows of a packet, counted without records.\<close>

definition seen :: "netflow_conf \<Rightarrow> netflow_Flow list \<Rightarrow> ip set" where
  "seen h flows = {a. IpAddressAllowed h a \<and> (\<exists>f \<in> set flows. a = fl_SrcIP f \<or> a = fl_DstIP f)}"

definition octets_of :: "(netflow_Flow \<Rightarrow> ip) \<Rightarrow> netflow_Flow list \<Rightarrow> ip \<Rightarrow> u64" where
  "octets_of side flows a = (\<Sum>f \<leftarrow> filter (\<lambda>f. side f = a) flows. ucast (fl_DOctets f))"

definition counted :: "netflow_conf \<Rightarrow> (netflow_Flow \<Rightarrow> ip) \<Rightarrow> netflow_Flow list \<Rightarrow> ip \<Rightarrow> u64" where
  "counted h side flows a = (if IpAddressAllowed h a then octets_of side flows a else 0)"

lemma seen_Nil [simp]: "seen h [] = {}"
  by (simp add: seen_def)

lemma counted_Nil [simp]: "counted h side [] = (\<lambda>a. 0)"
  by (simp add: counted_def octets_of_def fun_eq_iff)

lemma seen_snoc: "seen h (flows @ [f]) = seen h flows
    \<union> (if IpAddressAllowed h (fl_SrcIP f) then {fl_SrcIP f} else {})
    \<union> (if IpAddressAllowed h (fl_DstIP f) then {fl_DstIP f} else {})"
  by (auto simp: seen_def)

lemma counted_snoc: "counted h side (flows @ [f]) =
    (if IpAddressAllowed h (side f)
     then (counted h side flows)(side f := counted h side flows (side f) + ucast (fl_DOctets f)) else counted h side flows)"
  by (auto simp: counted_def octets_of_def fun_eq_iff)

lemma index_any:
  assumes "recs_ok bucket A S R st" and "length a = 4"
  shows "\<exists>ix st'. rec_index h bucket a st = Ret (ix, st') \<and> recs_ok bucket (if IpAddressAllowed h a then insert a A else A) S R st'
    \<and> (case ix of None \<Rightarrow> \<not> IpAddressAllowed h a
       | Some i \<Rightarrow> IpAddressAllowed h a \<and> fmlookup (snd st') (ip_String a) = Some i)
    \<and> (\<forall>s j. fmlookup (snd st) s = Some j \<longrightarrow> fmlookup (snd st') s = Some j)"
proof (cases "IpAddressAllowed h a")
  case True
  from rec_index_ok [OF assms True] obtain i st' where "rec_index h bucket a st = Ret (Some i, st')"
    "recs_ok bucket (insert a A) S R st'" "fmlookup (snd st') (ip_String a) = Some i"
    "\<forall>s j. fmlookup (snd st) s = Some j \<longrightarrow> fmlookup (snd st') s = Some j" by blast
  with True show ?thesis by (intro exI [of _ "Some i"] exI [of _ st']) simp
next
  case False
  with assms show ?thesis by (simp add: rec_index_def)
qed

lemma recs_ok_at:
  assumes "recs_ok bucket A S R (recs, lookup)" and "fmlookup lookup (ip_String a) = Some i" and "length a = 4"
  shows "i < length recs" "nf_Ip (recs ! i) = ip_String a" "nf_OutBytes (recs ! i) = S a"
    "nf_InBytes (recs ! i) = R a" "nf_TimeBucket (recs ! i) = bucket"
proof -
  note inv = assms(1) [unfolded recs_ok_def, simplified]
  from inv assms(2) show i: "i < length recs" "nf_Ip (recs ! i) = ip_String a" by auto
  from inv i(1) obtain b where b: "length b = 4" "nf_Ip (recs ! i) = ip_String b" "nf_OutBytes (recs ! i) = S b"
    "nf_InBytes (recs ! i) = R b" "nf_TimeBucket (recs ! i) = bucket" by blast
  with ip_String_inj4 [OF b(1) assms(3)] i(2) have "b = a" by simp
  with b show "nf_OutBytes (recs ! i) = S a" "nf_InBytes (recs ! i) = R a" "nf_TimeBucket (recs ! i) = bucket" by simp_all
qed

lemma add_out_ok:
  assumes "recs_ok bucket A S R (recs, lookup)" and "length a = 4"
    and "case ix of None \<Rightarrow> \<not> ok | Some i \<Rightarrow> ok \<and> fmlookup lookup (ip_String a) = Some i"
  shows "\<exists>recs'. add_out n ix recs = Ret recs' \<and> recs_ok bucket A (if ok then S(a := S a + n) else S) R (recs', lookup)"
proof (cases ix)
  case None
  with assms show ?thesis by (simp add: add_out_def)
next
  case (Some i)
  with assms have i: "fmlookup lookup (ip_String a) = Some i" and ok by simp_all
  with recs_ok_at [OF assms(1) i assms(2)] Some
    recs_ok_set [OF assms(1) i assms(2), of "(recs ! i)\<lparr>nf_OutBytes := S a + n\<rparr>" "S(a := S a + n)" R]
  show ?thesis by (auto simp: add_out_def slice_get_def slice_set_def)
qed

lemma add_in_ok:
  assumes "recs_ok bucket A S R (recs, lookup)" and "length a = 4"
    and "case ix of None \<Rightarrow> \<not> ok | Some i \<Rightarrow> ok \<and> fmlookup lookup (ip_String a) = Some i"
  shows "\<exists>recs'. add_in n ix recs = Ret recs' \<and> recs_ok bucket A S (if ok then R(a := R a + n) else R) (recs', lookup)"
proof (cases ix)
  case None
  with assms show ?thesis by (simp add: add_in_def)
next
  case (Some i)
  with assms have i: "fmlookup lookup (ip_String a) = Some i" and ok by simp_all
  with recs_ok_at [OF assms(1) i assms(2)] Some
    recs_ok_set [OF assms(1) i assms(2), of "(recs ! i)\<lparr>nf_InBytes := R a + n\<rparr>" S "R(a := R a + n)"]
  show ?thesis by (auto simp: add_in_def slice_get_def slice_set_def)
qed

lemma flow_step_ok:
  assumes "recs_ok bucket (seen h flows) (counted h fl_SrcIP flows) (counted h fl_DstIP flows) st"
    and "length (fl_SrcIP f) = 4" "length (fl_DstIP f) = 4"
  shows "\<exists>st'. flow_step h bucket f st = Ret st'
    \<and> recs_ok bucket (seen h (flows @ [f])) (counted h fl_SrcIP (flows @ [f])) (counted h fl_DstIP (flows @ [f])) st'"
proof -
  let ?n = "ucast (fl_DOctets f) :: u64"
  let ?S = "counted h fl_SrcIP flows" and ?R = "counted h fl_DstIP flows"
  let ?as = "IpAddressAllowed h (fl_SrcIP f)" and ?ad = "IpAddressAllowed h (fl_DstIP f)"
  obtain src st1 where s1: "rec_index h bucket (fl_SrcIP f) st = Ret (src, st1)"
    "recs_ok bucket (if ?as then insert (fl_SrcIP f) (seen h flows) else seen h flows) ?S ?R st1"
    "case src of None \<Rightarrow> \<not> ?as | Some i \<Rightarrow> ?as \<and> fmlookup (snd st1) (ip_String (fl_SrcIP f)) = Some i"
    using index_any [OF assms(1,2)] by blast
  let ?A1 = "if ?as then insert (fl_SrcIP f) (seen h flows) else seen h flows"
  obtain dst st2 where "rec_index h bucket (fl_DstIP f) st1 = Ret (dst, st2)"
    "recs_ok bucket (if ?ad then insert (fl_DstIP f) ?A1 else ?A1) ?S ?R st2"
    "case dst of None \<Rightarrow> \<not> ?ad | Some i \<Rightarrow> ?ad \<and> fmlookup (snd st2) (ip_String (fl_DstIP f)) = Some i"
    "\<forall>s j. fmlookup (snd st1) s = Some j \<longrightarrow> fmlookup (snd st2) s = Some j"
    using index_any [OF s1(2) assms(3), of h] by blast
  moreover obtain recs lookup where "st2 = (recs, lookup)" by (cases st2)
  ultimately have s2: "rec_index h bucket (fl_DstIP f) st1 = Ret (dst, recs, lookup)"
    "recs_ok bucket (if ?ad then insert (fl_DstIP f) ?A1 else ?A1) ?S ?R (recs, lookup)"
    "case dst of None \<Rightarrow> \<not> ?ad | Some i \<Rightarrow> ?ad \<and> fmlookup lookup (ip_String (fl_DstIP f)) = Some i"
    "\<forall>s j. fmlookup (snd st1) s = Some j \<longrightarrow> fmlookup lookup s = Some j"
    by (simp_all split: option.splits)
  have A: "(if ?ad then insert (fl_DstIP f) ?A1 else ?A1) = seen h (flows @ [f])" by (auto simp: seen_snoc)
  from s1(3) s2(4) have src: "case src of None \<Rightarrow> \<not> ?as | Some i \<Rightarrow> ?as \<and> fmlookup lookup (ip_String (fl_SrcIP f)) = Some i"
    by (auto split: option.splits)
  obtain recs1 where r1: "add_out ?n src recs = Ret recs1"
    "recs_ok bucket (seen h (flows @ [f])) (if ?as then ?S(fl_SrcIP f := ?S (fl_SrcIP f) + ?n) else ?S) ?R (recs1, lookup)"
    using add_out_ok [OF s2(2) assms(2) src] unfolding A by blast
  obtain recs2 where r2: "add_in ?n dst recs1 = Ret recs2"
    "recs_ok bucket (seen h (flows @ [f])) (if ?as then ?S(fl_SrcIP f := ?S (fl_SrcIP f) + ?n) else ?S)
       (if ?ad then ?R(fl_DstIP f := ?R (fl_DstIP f) + ?n) else ?R) (recs2, lookup)"
    using add_in_ok [OF r1(2) assms(3) s2(3)] by blast
  from r2(2) have "recs_ok bucket (seen h (flows @ [f])) (counted h fl_SrcIP (flows @ [f]))
      (counted h fl_DstIP (flows @ [f])) (recs2, lookup)" by (simp only: counted_snoc)
  with s1(1) s2(1) r1(1) r2(1) show ?thesis by (simp add: flow_step_def)
qed

lemma flow_loop_ok:
  assumes "recs_ok bucket (seen h past) (counted h fl_SrcIP past) (counted h fl_DstIP past) st"
    and "\<forall>f \<in> set flows. length (fl_SrcIP f) = 4 \<and> length (fl_DstIP f) = 4"
  shows "\<exists>st'. flow_loop h bucket flows st = Ret st'
    \<and> recs_ok bucket (seen h (past @ flows)) (counted h fl_SrcIP (past @ flows)) (counted h fl_DstIP (past @ flows)) st'"
  using assms
proof (induction flows arbitrary: past st)
  case (Cons f flows)
  then obtain st' where st': "flow_step h bucket f st = Ret st'"
    "recs_ok bucket (seen h (past @ [f])) (counted h fl_SrcIP (past @ [f])) (counted h fl_DstIP (past @ [f])) st'"
    using flow_step_ok [OF Cons.prems(1), of f] by auto
  from Cons.IH [OF st'(2)] Cons.prems(2) st'(1) show ?case by simp
qed simp

text \<open>
  C38. The records made from a NetFlow packet are exact: there is one record for each allowed address
  that sends or receives in the packet and none for any other, its bytes out and in are the sums
  (modulo \<open>2 ^ 64\<close>) of the octets of the flows from and to the address, and its bucket is the
  time of the packet rounded down to the size of a bucket. The conversion never panics.
\<close>

theorem netflow_records_exact:
  assumes "\<forall>f \<in> set flows. length (fl_SrcIP f) = 4 \<and> length (fl_DstIP f) = 4"
  shows "\<exists>recs. NetFlowV5ToBandwidthAccounting h header flows = Ret recs \<and> distinct (map nf_Ip recs)
    \<and> set (map nf_Ip recs) = ip_String ` seen h flows
    \<and> (\<forall>rec \<in> set recs. \<exists>a \<in> seen h flows. nf_Ip rec = ip_String a
         \<and> nf_OutBytes rec = octets_of fl_SrcIP flows a \<and> nf_InBytes rec = octets_of fl_DstIP flows a
         \<and> nf_TimeBucket rec = time_Truncate (uint (nh_UnixSecs header) * 1000000000 + uint (nh_UnixNsecs header)) (nc_TimeDuration h))"
proof -
  let ?t = "time_Truncate (uint (nh_UnixSecs header) * 1000000000 + uint (nh_UnixNsecs header)) (nc_TimeDuration h)"
  have "recs_ok ?t (seen h []) (counted h fl_SrcIP []) (counted h fl_DstIP []) ([], fmempty)"
    using recs_ok_init [of ?t] by simp
  from flow_loop_ok [OF this assms] obtain recs lookup where st: "flow_loop h ?t flows ([], fmempty) = Ret (recs, lookup)"
    "recs_ok ?t (seen h flows) (counted h fl_SrcIP flows) (counted h fl_DstIP flows) (recs, lookup)" by auto
  note inv = st(2) [unfolded recs_ok_def, simplified]
  have "distinct (map nf_Ip recs)"
    using inv by (auto simp: distinct_conv_nth) (metis option.inject)
  moreover have "set (map nf_Ip recs) = ip_String ` seen h flows"
  proof -
    have "\<exists>i < length recs. nf_Ip (recs ! i) = ip_String a" if "a \<in> seen h flows" for a
    proof -
      have "length a = 4" using that assms by (auto simp: seen_def)
      with that inv have "gm_has lookup (ip_String a)" by simp
      with inv show ?thesis by (auto simp: gm_has_iff)
    qed
    moreover have "\<exists>a \<in> seen h flows. nf_Ip (recs ! i) = ip_String a" if "i < length recs" for i
      using inv that by blast
    ultimately show ?thesis by (force simp: in_set_conv_nth image_iff)
  qed
  moreover have "\<forall>rec \<in> set recs. \<exists>a \<in> seen h flows. nf_Ip rec = ip_String a
      \<and> nf_OutBytes rec = octets_of fl_SrcIP flows a \<and> nf_InBytes rec = octets_of fl_DstIP flows a \<and> nf_TimeBucket rec = ?t"
  proof
    fix rec assume "rec \<in> set recs"
    then obtain i where "i < length recs" "rec = recs ! i" by (auto simp: in_set_conv_nth)
    with inv obtain a where a: "a \<in> seen h flows" "nf_Ip rec = ip_String a" "nf_OutBytes rec = counted h fl_SrcIP flows a"
      "nf_InBytes rec = counted h fl_DstIP flows a" "nf_TimeBucket rec = ?t" by blast
    moreover from a(1) have "IpAddressAllowed h a" by (simp add: seen_def)
    ultimately show "\<exists>a \<in> seen h flows. nf_Ip rec = ip_String a \<and> nf_OutBytes rec = octets_of fl_SrcIP flows a
        \<and> nf_InBytes rec = octets_of fl_DstIP flows a \<and> nf_TimeBucket rec = ?t"
      by (auto simp: counted_def)
  qed
  ultimately show ?thesis using st(1) by (simp add: NetFlowV5ToBandwidthAccounting_def Let_def)
qed

theorem netflow_records_exact_witness:
  "\<exists>recs. NetFlowV5ToBandwidthAccounting
      \<lparr>nc_AllNetworks = True, nc_AllowedNetworks = [], nc_TimeDuration = 300000000000\<rparr>
      \<lparr>nh_UnixSecs = 0, nh_UnixNsecs = 0\<rparr>
      [\<lparr>fl_SrcIP = [10, 0, 0, 1], fl_DstIP = [10, 0, 0, 2], fl_DOctets = 7\<rparr>] = Ret recs
    \<and> set (map nf_Ip recs) = {ip_String [10, 0, 0, 1], ip_String [10, 0, 0, 2]}"
  using netflow_records_exact [of "[\<lparr>fl_SrcIP = [10, 0, 0, 1], fl_DstIP = [10, 0, 0, 2], fl_DOctets = 7\<rparr>]"
      "\<lparr>nc_AllNetworks = True, nc_AllowedNetworks = [], nc_TimeDuration = 300000000000\<rparr>"
      "\<lparr>nh_UnixSecs = 0, nh_UnixNsecs = 0\<rparr>"]
  by (auto simp: seen_def IpAddressAllowed_def)

end
