(* ===== verification/PfacctRadius.thy ===== *)
theory PfacctRadius
  imports PfacctNodes PfacctNetflow
begin

text \<open>
  RADIUS accounting (\<open>cmd/pfacct/radius.go\<close>, \<open>nodeSession.go\<close> and the request queues of
  \<open>pfacct.go\<close>).

  The packet library, the MAC addresses of go-utils, the hash of a session, the dictionary and the
  cache of sessions are parameters (\<open>radius_lib\<close>, \<open>mac_lib\<close>, \<open>radius_dict\<close>,
  \<open>ns_cache\<close>); the database is one (\<open>acct_db\<close>) with an operation per prepared statement, whose
  laws (\<open>node_laws\<close>) say what the SQL text of the statement does to the table of nodes. The
  state collects the calls made to the AAA service. Log messages and timings are left out.
\<close>

section \<open>Parameters\<close>

abbreviation (input) "AcctStart \<equiv> (1 :: u32)"
abbreviation (input) "AcctStop \<equiv> (2 :: u32)"
abbreviation (input) "AcctInterimUpdate \<equiv> (3 :: u32)"

record 'p radius_lib =
  rl_StatusType :: "'p \<Rightarrow> u32"
  rl_InputOctets :: "'p \<Rightarrow> u32"
  rl_OutputOctets :: "'p \<Rightarrow> u32"
  rl_InputGigawords :: "'p \<Rightarrow> u32"
  rl_OutputGigawords :: "'p \<Rightarrow> u32"
  rl_SessionTime :: "'p \<Rightarrow> u32"
  rl_EventTimestamp :: "'p \<Rightarrow> int option"
  rl_CallingStationID :: "'p \<Rightarrow> string"
  rl_UserName :: "'p \<Rightarrow> bytes"
  rl_CallingStation :: "'p \<Rightarrow> bytes"
  rl_SessionID :: "'p \<Rightarrow> bytes"
  rl_ProxyState :: "'p \<Rightarrow> bytes option"
  rl_TenantID :: "'p \<Rightarrow> u32"
  rl_Attributes :: "'p \<Rightarrow> (nat, bytes list) gomap"

type_synonym Mac = bytes

record mac_lib =
  ml_NewFromString :: "string \<Rightarrow> Mac \<times> go_err"
  ml_String :: "Mac \<Rightarrow> string"
  ml_NodeId :: "Mac \<Rightarrow> u16 \<Rightarrow> u64"

text \<open>The result of \<open>Exec\<close>: an error, or what \<open>RowsAffected\<close> gives.\<close>

datatype exec_result = ExecErr string | Affected int go_err

record 'd acct_db =
  db_isUnreg :: "int \<Rightarrow> string \<Rightarrow> 'd \<Rightarrow> int \<times> go_err"
  db_isTimeZero :: "int \<Rightarrow> Mac \<Rightarrow> 'd \<Rightarrow> int \<times> go_err"
  db_isBandwidthZero :: "int \<Rightarrow> Mac \<Rightarrow> 'd \<Rightarrow> int \<times> go_err"
  db_softTime :: "int \<Rightarrow> string \<Rightarrow> int \<Rightarrow> 'd \<Rightarrow> exec_result \<times> 'd"
  db_subTime :: "int \<Rightarrow> int \<Rightarrow> string \<Rightarrow> 'd \<Rightarrow> exec_result \<times> 'd"
  db_softBandwidth :: "int \<Rightarrow> string \<Rightarrow> int \<Rightarrow> 'd \<Rightarrow> exec_result \<times> 'd"
  db_subBandwidth :: "int \<Rightarrow> int \<Rightarrow> string \<Rightarrow> 'd \<Rightarrow> exec_result \<times> 'd"
  db_insertBandwidth :: "u64 \<Rightarrow> int \<Rightarrow> string \<Rightarrow> u64 \<Rightarrow> int \<Rightarrow> int \<Rightarrow> int \<Rightarrow> 'd \<Rightarrow> go_err \<times> 'd"
  db_closeSession :: "u64 \<Rightarrow> u64 \<Rightarrow> 'd \<Rightarrow> exec_result \<times> 'd"
  db_switchLookup :: "string \<Rightarrow> string \<Rightarrow> 'd \<Rightarrow> string + string \<times> string \<times> int \<times> string list"

record nodeSession =
  ns_timeBalance :: int
  ns_bandwidthBalance :: int

text \<open>
  The cache holds pointers: writing through one is seen by everyone who reads the key, and is a
  \<open>ns_set\<close> of it.
\<close>

record 'c ns_cache =
  ns_get :: "string \<Rightarrow> 'c \<Rightarrow> nodeSession option"
  ns_set :: "string \<Rightarrow> nodeSession \<Rightarrow> 'c \<Rightarrow> 'c"
  ns_delete :: "string \<Rightarrow> 'c \<Rightarrow> 'c"

datatype attr_val = AStr string | ANum int | AList "attr_val list" | AHeaders "(string \<times> string) list"

datatype aaa_call =
    Notify string "attr_val list" int
  | Call string "(string, attr_val) gomap" int

record ('d, 'c) acct_state =
  as_db :: 'd
  as_sessions :: 'c
  as_calls :: "aaa_call list"

record SwitchInfo =
  sw_Nasname :: string
  sw_Secret :: string
  sw_TenantId :: int
  sw_RadiusAttributes :: "string list"

datatype attr_type = AttributeString | AttributeInteger | AttributeInteger64 | AttributeIPAddr | AttributeDate | AttributeOther

record dict_attr =
  da_Name :: string
  da_Type :: attr_type

text \<open>
  The dictionary and the decoders of go-radius: \<open>rd_vendor_specific\<close> splits the value of a
  vendor-specific attribute, \<open>rd_decode\<close> reads a value of a type, \<open>None\<close> on an error.
\<close>

record radius_dict =
  rd_attribute :: "nat \<Rightarrow> dict_attr option"
  rd_vendor :: "nat \<Rightarrow> (nat \<Rightarrow> dict_attr option) option"
  rd_vendor_specific :: "bytes \<Rightarrow> nat \<times> bytes \<times> go_err"
  rd_decode :: "attr_type \<Rightarrow> bytes \<Rightarrow> attr_val option"

section \<open>Statements\<close>

definition rows_ok :: "exec_result \<Rightarrow> bool \<times> go_err" where
  "rows_ok res =
     (case res of
        ExecErr err \<Rightarrow> (False, Some err)
      | Affected count err \<Rightarrow> if count \<le> 0 \<or> err \<noteq> None then (False, err) else (True, None))"

definition IsUnreg :: "'d acct_db \<Rightarrow> string \<Rightarrow> int \<Rightarrow> 'd \<Rightarrow> bool \<times> go_err" where
  "IsUnreg db m tenant d = (let (found, err) = db_isUnreg db tenant m d in (found = 1, err))"

definition CloseSession :: "'d acct_db \<Rightarrow> u64 \<Rightarrow> u64 \<Rightarrow> 'd \<Rightarrow> (int \<times> go_err) \<times> 'd" where
  "CloseSession db node_id session d =
     (case db_closeSession db node_id session d of
        (ExecErr err, d) \<Rightarrow> ((0, Some err), d)
      | (Affected count err, d) \<Rightarrow> ((count, err), d))"

definition IsNodeTimeBalanceZero :: "'d acct_db \<Rightarrow> int \<Rightarrow> Mac \<Rightarrow> 'd \<Rightarrow> bool \<times> go_err" where
  "IsNodeTimeBalanceZero db tenant m d = (let (found, err) = db_isTimeZero db tenant m d in (found = 1, err))"

definition IsNodeBandwidthBalanceZero :: "'d acct_db \<Rightarrow> int \<Rightarrow> Mac \<Rightarrow> 'd \<Rightarrow> bool \<times> go_err" where
  "IsNodeBandwidthBalanceZero db tenant m d = (let (found, err) = db_isBandwidthZero db tenant m d in (found = 1, err))"

definition SoftNodeTimeBalanceUpdate ::
  "'d acct_db \<Rightarrow> mac_lib \<Rightarrow> int \<Rightarrow> Mac \<Rightarrow> int \<Rightarrow> 'd \<Rightarrow> (bool \<times> go_err) \<times> 'd" where
  "SoftNodeTimeBalanceUpdate db ml tenant m balance d = apfst rows_ok (db_softTime db tenant (ml_String ml m) balance d)"

definition NodeTimeBalanceSubtract ::
  "'d acct_db \<Rightarrow> mac_lib \<Rightarrow> int \<Rightarrow> Mac \<Rightarrow> int \<Rightarrow> 'd \<Rightarrow> (bool \<times> go_err) \<times> 'd" where
  "NodeTimeBalanceSubtract db ml tenant m balance d = apfst rows_ok (db_subTime db balance tenant (ml_String ml m) d)"

definition SoftNodeBandwidthBalanceUpdate ::
  "'d acct_db \<Rightarrow> mac_lib \<Rightarrow> int \<Rightarrow> Mac \<Rightarrow> int \<Rightarrow> 'd \<Rightarrow> (bool \<times> go_err) \<times> 'd" where
  "SoftNodeBandwidthBalanceUpdate db ml tenant m balance d =
     apfst rows_ok (db_softBandwidth db tenant (ml_String ml m) balance d)"

definition NodeBandwidthBalanceSubtract ::
  "'d acct_db \<Rightarrow> mac_lib \<Rightarrow> int \<Rightarrow> Mac \<Rightarrow> int \<Rightarrow> 'd \<Rightarrow> (bool \<times> go_err) \<times> 'd" where
  "NodeBandwidthBalanceSubtract db ml tenant m balance d =
     apfst rows_ok (db_subBandwidth db balance tenant (ml_String ml m) d)"

section \<open>The cache of sessions\<close>

fun base36 :: "nat \<Rightarrow> string" where
  "base36 n = (let d = n mod 36; c = char_of (if d < 10 then d + 48 else d + 87)
               in if n < 36 then [c] else base36 (n div 36) @ [c])"

declare base36.simps [simp del]

definition formatNodeId :: "u64 \<Rightarrow> string" where
  "formatNodeId sessionId = base36 (unat sessionId)"

definition setNodeSessionCache :: "'c ns_cache \<Rightarrow> u64 \<Rightarrow> nodeSession \<Rightarrow> 'c \<Rightarrow> 'c" where
  "setNodeSessionCache C sessionId ns c = ns_set C (formatNodeId sessionId) ns c"

definition getNodeSessionFromCache :: "'c ns_cache \<Rightarrow> u64 \<Rightarrow> 'c \<Rightarrow> nodeSession option" where
  "getNodeSessionFromCache C sessionId c = ns_get C (formatNodeId sessionId) c"

definition deleteNodeSessionFromCache :: "'c ns_cache \<Rightarrow> u64 \<Rightarrow> 'c \<Rightarrow> 'c" where
  "deleteNodeSessionFromCache C sessionId c = ns_delete C (formatNodeId sessionId) c"

section \<open>Balances\<close>

record ('p, 'd, 'c) acct_env =
  ae_radius :: "'p radius_lib"
  ae_mac :: mac_lib
  ae_db :: "'d acct_db"
  ae_cache :: "'c ns_cache"
  ae_dict :: radius_dict
  ae_hash :: "bytes \<Rightarrow> u64"
  ae_prio :: "nat \<Rightarrow> nat"
  ae_TimeDuration :: int

definition TRIGGER_TYPE_ACCOUNTING :: string where "TRIGGER_TYPE_ACCOUNTING = ''accounting''"
definition ACCOUNTING_POLICY_BANDWIDTH :: string where "ACCOUNTING_POLICY_BANDWIDTH = ''BandwidthExpired''"
definition ACCOUNTING_POLICY_TIME :: string where "ACCOUNTING_POLICY_TIME = ''TimeExpired''"

definition security_event :: "('p, 'd, 'c) acct_env \<Rightarrow> Mac \<Rightarrow> string \<Rightarrow> int \<Rightarrow> aaa_call" where
  "security_event E m policy tenant =
     Notify ''trigger_security_event''
       [AStr ''type'', AStr TRIGGER_TYPE_ACCOUNTING, AStr ''mac'', AStr (ml_String (ae_mac E) m), AStr ''tid'', AStr policy] tenant"

definition add_call :: "aaa_call \<Rightarrow> ('d, 'c) acct_state \<Rightarrow> ('d, 'c) acct_state" where
  "add_call c st = st\<lparr>as_calls := as_calls st @ [c]\<rparr>"

definition packet_mac :: "('p, 'd, 'c) acct_env \<Rightarrow> 'p \<Rightarrow> Mac" where
  "packet_mac E p = fst (ml_NewFromString (ae_mac E) (rl_CallingStationID (ae_radius E) p))"

text \<open>\<open>timebalance -= ns.timeBalance\<close>, not below zero.\<close>

definition since :: "int \<Rightarrow> nodeSession \<Rightarrow> int" where
  "since timebalance ns =
     (let t = i64 (timebalance - ns_timeBalance ns) in if t < 0 then 0 else t)"

text \<open>The branch of a Stop packet, without the deferred deletion of the session.\<close>

definition time_stop ::
  "('p, 'd, 'c) acct_env \<Rightarrow> Mac \<Rightarrow> int \<Rightarrow> nodeSession option \<Rightarrow> int \<Rightarrow> ('d, 'c) acct_state \<Rightarrow> ('d, 'c) acct_state" where
  "time_stop E m tenant ns timebalance st =
     (let timebalance = (case ns of Some s \<Rightarrow> since timebalance s | None \<Rightarrow> timebalance);
          ((ok, err), d) = NodeTimeBalanceSubtract (ae_db E) (ae_mac E) tenant m timebalance (as_db st);
          st = st\<lparr>as_db := d\<rparr>
      in if err \<noteq> None then st
         else if ok \<and> fst (IsNodeTimeBalanceZero (ae_db E) tenant m d)
              then add_call (security_event E m ACCOUNTING_POLICY_TIME tenant) st
              else st)"

definition time_interim ::
  "('p, 'd, 'c) acct_env \<Rightarrow> Mac \<Rightarrow> int \<Rightarrow> u64 \<Rightarrow> nodeSession option \<Rightarrow> int \<Rightarrow> ('d, 'c) acct_state \<Rightarrow> ('d, 'c) acct_state" where
  "time_interim E m tenant session ns timebalance st =
     (let (timebalance, st) = (case ns of
            None \<Rightarrow> (timebalance, st)
          | Some s \<Rightarrow> if ns_timeBalance s = - 1
                       then (timebalance, st\<lparr>as_sessions :=
                              setNodeSessionCache (ae_cache E) session (s\<lparr>ns_timeBalance := timebalance\<rparr>) (as_sessions st)\<rparr>)
                       else (since timebalance s, st))
      in if timebalance > 0 then
           (let ((ok, err), d) = SoftNodeTimeBalanceUpdate (ae_db E) (ae_mac E) tenant m timebalance (as_db st);
                st = st\<lparr>as_db := d\<rparr>
            in if err \<noteq> None then st
               else if ok then add_call (security_event E m ACCOUNTING_POLICY_TIME tenant) st
               else st)
         else st)"

definition handleTimeBalance ::
  "('p, 'd, 'c) acct_env \<Rightarrow> 'p \<Rightarrow> SwitchInfo \<Rightarrow> u64 \<Rightarrow> ('d, 'c) acct_state \<Rightarrow> ('d, 'c) acct_state" where
  "handleTimeBalance E p switchInfo session st =
     (let timebalance = uint (rl_SessionTime (ae_radius E) p) in
      if timebalance = 0 then st
      else
        let m = packet_mac E p;
            tenant = sw_TenantId switchInfo;
            isUnreg = fst (IsUnreg (ae_db E) (ml_String (ae_mac E) m) tenant (as_db st));
            ns = getNodeSessionFromCache (ae_cache E) session (as_sessions st)
        in if rl_StatusType (ae_radius E) p = AcctStop then
             (let st = (if isUnreg then st else time_stop E m tenant ns timebalance st)
              in st\<lparr>as_sessions := deleteNodeSessionFromCache (ae_cache E) session (as_sessions st)\<rparr>)
           else if isUnreg then
             (let s = (case ns of
                         None \<Rightarrow> \<lparr>ns_timeBalance = - 1, ns_bandwidthBalance = 0\<rparr>
                       | Some s \<Rightarrow> s\<lparr>ns_timeBalance := - 1\<rparr>)
              in st\<lparr>as_sessions := setNodeSessionCache (ae_cache E) session s (as_sessions st)\<rparr>)
           else time_interim E m tenant session ns timebalance st)"

definition handleBandwidthBalance ::
  "('p, 'd, 'c) acct_env \<Rightarrow> 'p \<Rightarrow> SwitchInfo \<Rightarrow> int \<Rightarrow> ('d, 'c) acct_state \<Rightarrow> ('d, 'c) acct_state" where
  "handleBandwidthBalance E p switchInfo balance st =
     (if balance = 0 then st
      else
        let m = packet_mac E p; tenant = sw_TenantId switchInfo
        in if rl_StatusType (ae_radius E) p = AcctStop then
             (let ((ok, err), d) = NodeBandwidthBalanceSubtract (ae_db E) (ae_mac E) tenant m balance (as_db st);
                  st = st\<lparr>as_db := d\<rparr>
              in if err \<noteq> None then st
                 else if ok \<and> fst (IsNodeBandwidthBalanceZero (ae_db E) tenant m d)
                      then add_call (security_event E m ACCOUNTING_POLICY_BANDWIDTH tenant) st
                      else st)
           else
             (let ((ok, err), d) = SoftNodeBandwidthBalanceUpdate (ae_db E) (ae_mac E) tenant m balance (as_db st);
                  st = st\<lparr>as_db := d\<rparr>
              in if err \<noteq> None then st
                 else if ok then add_call (security_event E m ACCOUNTING_POLICY_BANDWIDTH tenant) st
                 else st))"

section \<open>Attributes of a packet\<close>

abbreviation (input) "VendorSpecific_Type \<equiv> (26 :: nat)"

definition addAttributeToMap ::
  "radius_dict \<Rightarrow> dict_attr \<Rightarrow> bytes \<Rightarrow> (string, attr_val) gomap \<Rightarrow> (string, attr_val) gomap" where
  "addAttributeToMap R da attr attributes =
     (let item = (case da_Type da of AttributeOther \<Rightarrow> None | ty \<Rightarrow> rd_decode R ty attr) in
      case item of
        None \<Rightarrow> attributes
      | Some item \<Rightarrow>
          (case fmlookup attributes (da_Name da) of
             Some (AList old) \<Rightarrow> fmupd (da_Name da) (AList (old @ [item])) attributes
           | Some old \<Rightarrow> fmupd (da_Name da) (AList [old, item]) attributes
           | None \<Rightarrow> fmupd (da_Name da) item attributes))"

text \<open>
  The attributes inside a vendor-specific one. Slicing outside of the value panics: the
  length byte counts the two header bytes, and is not checked.
\<close>

function vsa_loop ::
  "radius_dict \<Rightarrow> (nat \<Rightarrow> dict_attr option) \<Rightarrow> bytes \<Rightarrow> (string, attr_val) gomap \<Rightarrow> (string, attr_val) gomap outcome" where
  "vsa_loop R v vsa attributes =
     (if length vsa \<ge> 3 then
        let vsaTyp = unat (vsa ! 0); vsaLen = unat (vsa ! 1) in
        if vsaLen < 2 \<or> length vsa < vsaLen then Panic ''slice bounds out of range''
        else let data = drop 2 (take vsaLen vsa)
             in vsa_loop R v (drop vsaLen vsa)
                  (case v vsaTyp of None \<Rightarrow> attributes | Some a \<Rightarrow> addAttributeToMap R a data attributes)
      else Ret attributes)"
  by pat_completeness auto
termination by (relation "measure (\<lambda>(R, v, vsa, m). length vsa)") auto

declare vsa_loop.simps [simp del]

fun vendor_attributes :: "radius_dict \<Rightarrow> bytes list \<Rightarrow> (string, attr_val) gomap \<Rightarrow> (string, attr_val) gomap outcome" where
  "vendor_attributes R [] attributes = Ret attributes"
| "vendor_attributes R (vattrs # rest) attributes =
     (let (vid, vsa, err) = rd_vendor_specific R vattrs in
      if err \<noteq> None then vendor_attributes R rest attributes
      else case rd_vendor R vid of
             None \<Rightarrow> vendor_attributes R rest attributes
           | Some v \<Rightarrow> go_bind (vsa_loop R v vsa attributes) (vendor_attributes R rest))"

fun attributes_loop ::
  "radius_dict \<Rightarrow> (nat, bytes list) gomap \<Rightarrow> nat list \<Rightarrow> (string, attr_val) gomap \<Rightarrow> (string, attr_val) gomap outcome" where
  "attributes_loop R as [] attributes = Ret attributes"
| "attributes_loop R as (i # is) attributes =
     (let attr = gm_get [] as i in
      if i = VendorSpecific_Type then go_bind (vendor_attributes R attr attributes) (attributes_loop R as is)
      else case rd_attribute R i of
             None \<Rightarrow> attributes_loop R as is attributes
           | Some a \<Rightarrow>
               (case attr of
                  [] \<Rightarrow> Panic ''index out of range''
                | x # _ \<Rightarrow> attributes_loop R as is (addAttributeToMap R a x attributes)))"

definition packetToMap ::
  "mac_lib \<Rightarrow> radius_dict \<Rightarrow> (nat \<Rightarrow> nat) \<Rightarrow> (nat, bytes list) gomap \<Rightarrow> (string, attr_val) gomap outcome" where
  "packetToMap ml R prio as =
     go_bind (attributes_loop R as (range_keys prio as) fmempty) (\<lambda>attributes.
     case fmlookup attributes ''Calling-Station-Id'' of
       None \<Rightarrow> Ret attributes
     | Some (AStr s) \<Rightarrow>
         (case ml_NewFromString ml s of
            (m, None) \<Rightarrow> Ret (fmupd ''Calling-Station-Id'' (AStr (ml_String ml m)) attributes)
          | (m, Some err) \<Rightarrow> Ret attributes)
     | Some v \<Rightarrow> Panic ''interface conversion'')"

section \<open>Requests\<close>

text \<open>
  A request carries the information of its switch in the context (\<open>rq_switchInfo\<close>), put there
  by \<open>RADIUSSecret\<close>.
\<close>

record 'p radius_request =
  rq_Code :: nat
  rq_Packet :: 'p
  rq_RemoteAddr :: string
  rq_switchInfo :: "SwitchInfo option"

record 'p radiusRequest =
  rr_r :: "'p radius_request"
  rr_switchInfo :: SwitchInfo
  rr_status :: u32
  rr_mac :: Mac

record radius_reply =
  rp_Code :: nat
  rp_ReplyMessage :: "string option"
  rp_ProxyState :: "bytes option"

abbreviation (input) "CodeAccessAccept \<equiv> (2 :: nat)"
abbreviation (input) "CodeAccountingRequest \<equiv> (4 :: nat)"
abbreviation (input) "CodeAccountingResponse \<equiv> (5 :: nat)"
abbreviation (input) "CodeStatusServer \<equiv> (12 :: nat)"

definition AddProxyState :: "'p radius_lib \<Rightarrow> radius_reply \<Rightarrow> 'p radius_request \<Rightarrow> radius_reply" where
  "AddProxyState L packet r =
     (case rl_ProxyState L (rq_Packet r) of
        Some state \<Rightarrow> packet\<lparr>rp_ProxyState := Some state\<rparr>
      | None \<Rightarrow> packet)"

definition djb2Hash :: "bytes \<Rightarrow> u64" where
  "djb2Hash s = fold (\<lambda>c hash. (push_bit 5 hash + hash) + ucast c) s 5381"

definition accounting_ok :: radius_reply where
  "accounting_ok = \<lparr>rp_Code = CodeAccountingResponse, rp_ReplyMessage = Some ''Accounting OK'', rp_ProxyState = None\<rparr>"

definition HandleStatusServer :: "'p radius_lib \<Rightarrow> 'p radius_request \<Rightarrow> radius_reply" where
  "HandleStatusServer L r = AddProxyState L \<lparr>rp_Code = CodeAccessAccept, rp_ReplyMessage = None, rp_ProxyState = None\<rparr> r"

text \<open>What a request leads to at once: an answer, a place in a queue, or nothing.\<close>

datatype 'p served = Answered radius_reply | Queued nat "'p radiusRequest" | Ignored

definition sendRadiusRequestToQueue :: "nat \<Rightarrow> 'p radiusRequest \<Rightarrow> 'p served outcome" where
  "sendRadiusRequestToQueue queues rr =
     (if queues = 0 then Panic ''integer divide by zero''
      else Ret (Queued (unat (djb2Hash (rr_mac rr)) mod queues) rr))"

definition HandleAccounting :: "('p, 'd, 'c) acct_env \<Rightarrow> nat \<Rightarrow> 'p radius_request \<Rightarrow> 'p served outcome" where
  "HandleAccounting E queues r =
     (let status = rl_StatusType (ae_radius E) (rq_Packet r) in
      if status > AcctInterimUpdate then Ret (Answered (AddProxyState (ae_radius E) accounting_ok r))
      else case rq_switchInfo r of
             None \<Rightarrow> Panic ''SwitchInfo: not found''
           | Some switchInfo \<Rightarrow>
               sendRadiusRequestToQueue queues
                 \<lparr>rr_r = r, rr_switchInfo = switchInfo, rr_status = status, rr_mac = packet_mac E (rq_Packet r)\<rparr>)"

definition ServeRADIUS :: "('p, 'd, 'c) acct_env \<Rightarrow> nat \<Rightarrow> 'p radius_request \<Rightarrow> 'p served outcome" where
  "ServeRADIUS E queues r =
     (if rq_Code r = CodeAccountingRequest then HandleAccounting E queues r
      else if rq_Code r = CodeStatusServer then Ret (Answered (HandleStatusServer (ae_radius E) r))
      else Ret Ignored)"

definition accountingUniqueSessionId :: "('p, 'd, 'c) acct_env \<Rightarrow> 'p \<Rightarrow> u64" where
  "accountingUniqueSessionId E p =
     ae_hash E (rl_UserName (ae_radius E) p @ [44] @ rl_CallingStation (ae_radius E) p @ [44] @ rl_SessionID (ae_radius E) p)"

definition sendRadiusAccounting ::
  "('p, 'd, 'c) acct_env \<Rightarrow> 'p radius_request \<Rightarrow> SwitchInfo \<Rightarrow> ('d, 'c) acct_state \<Rightarrow> ('d, 'c) acct_state outcome" where
  "sendRadiusAccounting E r switchInfo st =
     go_bind (packetToMap (ae_mac E) (ae_dict E) (ae_prio E) (rl_Attributes (ae_radius E) (rq_Packet r))) (\<lambda>attr.
     let attr = fmupd ''PF_HEADERS''
                  (AHeaders [(''X-FreeRADIUS-Server'', ''packetfence''), (''X-FreeRADIUS-Section'', ''accounting'')]) attr;
         attr = (if fmlookup attr ''NAS-IP-Address'' = None \<or> fmlookup attr ''NAS-IP-Address'' = Some (AStr ''0.0.0.0'')
                 then fmupd ''NAS-IP-Address'' (AStr (hd (strings_Split (rq_RemoteAddr r) CHR '':''))) attr
                 else attr)
     in Ret (add_call (Call ''radius_accounting'' attr (sw_TenantId switchInfo)) st))"

definition InsertBandwidthAccounting ::
  "'d acct_db \<Rightarrow> u64 \<Rightarrow> int \<Rightarrow> string \<Rightarrow> u64 \<Rightarrow> int \<Rightarrow> int \<Rightarrow> int \<Rightarrow> 'd \<Rightarrow> go_err \<times> 'd" where
  "InsertBandwidthAccounting db node_id tenant m session bucket in_bytes out_bytes d =
     db_insertBandwidth db node_id tenant m session bucket in_bytes out_bytes d"

definition acct_bytes :: "u32 \<Rightarrow> u32 \<Rightarrow> int" where
  "acct_bytes octets gigawords = i64 (uint octets + i64 (uint gigawords * 2 ^ 32))"

text \<open>
  The handler of a queued request. The deferred function answers also when the handler panics.
\<close>

definition handleAccountingRequest ::
  "('p, 'd, 'c) acct_env \<Rightarrow> int \<Rightarrow> 'p radiusRequest \<Rightarrow> ('d, 'c) acct_state \<Rightarrow> radius_reply \<times> ('d, 'c) acct_state outcome" where
  "handleAccountingRequest E now rr st =
     (let r = rr_r rr; p = rq_Packet r; L = ae_radius E; switchInfo = rr_switchInfo rr; tenant = sw_TenantId switchInfo;
          in_bytes = acct_bytes (rl_InputOctets L p) (rl_InputGigawords L p);
          out_bytes = acct_bytes (rl_OutputOctets L p) (rl_OutputGigawords L p);
          timestamp = (case rl_EventTimestamp L p of None \<Rightarrow> now | Some t \<Rightarrow> t);
          timestamp = time_Truncate timestamp (ae_TimeDuration E);
          node_id = ml_NodeId (ae_mac E) (rr_mac rr) (word_of_int tenant);
          session = accountingUniqueSessionId E p;
          (err, d) = InsertBandwidthAccounting (ae_db E) node_id tenant (ml_String (ae_mac E) (rr_mac rr)) session
                       timestamp in_bytes out_bytes (as_db st);
          d = (if rr_status rr = AcctStop then snd (CloseSession (ae_db E) node_id session d) else d)
      in (AddProxyState L accounting_ok r,
          go_bind (sendRadiusAccounting E r switchInfo (st\<lparr>as_db := d\<rparr>)) (\<lambda>st.
          Ret (handleBandwidthBalance E p switchInfo (i64 (in_bytes + out_bytes)) (handleTimeBalance E p switchInfo session st)))))"

section \<open>Secrets of the switches\<close>

text \<open>
  What \<open>RADIUSSecret\<close> uses of go-radius: \<open>pa_ParseAttributes\<close> gives the lookup function of the
  attributes, \<open>pa_IPAddr\<close> the printed address of an attribute.
\<close>

record 'p parse_lib =
  pa_ParseAttributes :: "bytes \<Rightarrow> string + (nat \<Rightarrow> bytes option)"
  pa_Parse :: "bytes \<Rightarrow> string \<Rightarrow> string + 'p"
  pa_IPAddr :: "bytes \<Rightarrow> string option"
  pa_MaxPacketLength :: nat

record 'k switch_cache =
  sc_get :: "string \<Rightarrow> 'k \<Rightarrow> SwitchInfo option"
  sc_set :: "string \<Rightarrow> SwitchInfo \<Rightarrow> 'k \<Rightarrow> 'k"

record acct_config =
  ac_isProxied :: bool
  ac_localSecret :: string

abbreviation (input) "NASIPAddress_Type \<equiv> (4 :: nat)"
abbreviation (input) "CalledStationID_Type \<equiv> (30 :: nat)"

definition isProxied :: "int \<Rightarrow> bool \<Rightarrow> bool" where
  "isProxied ClusterEnabled radiusdAcctEnabled = (ClusterEnabled = 1 \<or> radiusdAcctEnabled)"

definition PacketTooSmall :: string where "PacketTooSmall = ''radius: packet not at least 20 bytes long''"
definition PacketInvalidLength :: string where "PacketInvalidLength = ''radius: invalid packet length''"

definition checkPacket :: "'p parse_lib \<Rightarrow> bytes \<Rightarrow> go_err" where
  "checkPacket L raw =
     (if length raw < 20 then Some PacketTooSmall
      else let len = 256 * unat (raw ! 2) + unat (raw ! 3)
           in if len < 20 \<or> len > pa_MaxPacketLength L \<or> length raw \<noteq> len then Some PacketInvalidLength else None)"

definition SwitchLookup ::
  "acct_config \<Rightarrow> 'd acct_db \<Rightarrow> 'k switch_cache \<Rightarrow> string \<Rightarrow> string \<Rightarrow> 'd \<Rightarrow> 'k \<Rightarrow> (string + SwitchInfo) \<times> 'k" where
  "SwitchLookup cfg db C m ip d k =
     (let key = m @ '':'' @ ip in
      case sc_get C key k of
        Some item \<Rightarrow> (Inr item, k)
      | None \<Rightarrow>
          (case db_switchLookup db m ip d of
             Inl err \<Rightarrow> (Inl err, k)
           | Inr (nasname, secret, tenant, attrs) \<Rightarrow>
               (let switchInfo = \<lparr>sw_Nasname = nasname, sw_Secret = secret, sw_TenantId = tenant, sw_RadiusAttributes = attrs\<rparr>;
                    switchInfo = (if ac_isProxied cfg then switchInfo\<lparr>sw_Secret := ac_localSecret cfg\<rparr> else switchInfo)
                in (Inr switchInfo, sc_set C key switchInfo k))))"

definition called_station :: "mac_lib \<Rightarrow> (nat \<Rightarrow> bytes option) \<Rightarrow> string" where
  "called_station ml attrs =
     (case attrs CalledStationID_Type of
        None \<Rightarrow> []
      | Some attr \<Rightarrow>
          (case ml_NewFromString ml (string_of_bytes attr) of
             (m, Some err) \<Rightarrow> []
           | (m, None) \<Rightarrow> ml_String ml m))"

definition nas_address :: "acct_config \<Rightarrow> 'p parse_lib \<Rightarrow> (nat \<Rightarrow> bytes option) \<Rightarrow> string \<Rightarrow> string" where
  "nas_address cfg L attrs ip =
     (if ac_isProxied cfg
      then case attrs NASIPAddress_Type of
             None \<Rightarrow> ip
           | Some attr \<Rightarrow> (case pa_IPAddr L attr of Some val \<Rightarrow> val | None \<Rightarrow> ip)
      else ip)"

definition RADIUSSecret ::
  "('p, 'd, 'c) acct_env \<Rightarrow> acct_config \<Rightarrow> 'p parse_lib \<Rightarrow> 'k switch_cache \<Rightarrow> ip \<Rightarrow> bytes \<Rightarrow> 'd \<Rightarrow> 'k
     \<Rightarrow> (string + string \<times> SwitchInfo) \<times> 'k" where
  "RADIUSSecret E cfg L C remoteAddr raw d k =
     (case checkPacket L raw of
        Some err \<Rightarrow> (Inl err, k)
      | None \<Rightarrow>
     case pa_ParseAttributes L (drop 20 raw) of
        Inl err \<Rightarrow> (Inl err, k)
      | Inr attrs \<Rightarrow>
     case SwitchLookup cfg (ae_db E) C (called_station (ae_mac E) attrs) (nas_address cfg L attrs (ip_String remoteAddr)) d k of
        (Inl err, k) \<Rightarrow> (Inl err, k)
      | (Inr switchInfo, k) \<Rightarrow>
     case pa_Parse L raw (sw_Secret switchInfo) of
        Inl err \<Rightarrow> (Inl err, k)
      | Inr packet \<Rightarrow>
          (let val = rl_TenantID (ae_radius E) packet
           in if val \<noteq> 0
              then (Inr (sw_Secret switchInfo, switchInfo\<lparr>sw_TenantId := uint val\<rparr>), k)
              else (Inr (sw_Secret switchInfo, switchInfo), k)))"

section \<open>Queues\<close>

text \<open>
  \<open>makeRadiusRequests\<close> makes a channel with a backlog and one worker for each index. The sender
  of a request waits until the worker has taken and handled it. \<open>aq_sent\<close> and \<open>aq_handled\<close> record
  the requests in the order in which they were accepted by a channel and handled by a worker;
  \<open>aq_busy\<close> is the request a worker holds.
\<close>

record 'p acct_queues =
  aq_channels :: "'p radiusRequest list list"
  aq_busy :: "'p radiusRequest option list"
  aq_sent :: "'p radiusRequest list"
  aq_handled :: "'p radiusRequest list"

definition makeRadiusRequests :: "nat \<Rightarrow> 'p acct_queues" where
  "makeRadiusRequests requestFanOut =
     \<lparr>aq_channels = replicate requestFanOut [], aq_busy = replicate requestFanOut None, aq_sent = [], aq_handled = []\<rparr>"

inductive queue_step :: "nat \<Rightarrow> 'p acct_queues \<Rightarrow> 'p acct_queues \<Rightarrow> bool" for backlog where
  send: "sendRadiusRequestToQueue (length (aq_channels q)) rr = Ret (Queued i rr) \<Longrightarrow>
         length (aq_channels q ! i) < backlog \<Longrightarrow>
         queue_step backlog q
           (q\<lparr>aq_channels := (aq_channels q)[i := aq_channels q ! i @ [rr]], aq_sent := aq_sent q @ [rr]\<rparr>)"
| take: "i < length (aq_channels q) \<Longrightarrow> aq_channels q ! i = rr # rest \<Longrightarrow> aq_busy q ! i = None \<Longrightarrow>
         queue_step backlog q
           (q\<lparr>aq_channels := (aq_channels q)[i := rest], aq_busy := (aq_busy q)[i := Some rr]\<rparr>)"
| handle: "i < length (aq_channels q) \<Longrightarrow> aq_busy q ! i = Some rr \<Longrightarrow>
         queue_step backlog q
           (q\<lparr>aq_busy := (aq_busy q)[i := None], aq_handled := aq_handled q @ [rr]\<rparr>)"

end
