(* ===== verification/PfacctSpec.thy ===== *)
theory PfacctSpec
  imports PfacctRadius "HOL-Library.Sublist"
begin

text \<open>
  What RADIUS accounting promises: the requests of a device are handled in the order in which they
  arrived, a session of a registered device is charged once and its user is told once that the
  balance is used up, and vendor attributes are read or refused.
\<close>

section \<open>Order of requests\<close>

inductive_cases queue_stepE: "queue_step backlog q q'"

definition queue_of :: "nat \<Rightarrow> Mac \<Rightarrow> nat" where
  "queue_of n m = unat (djb2Hash m) mod n"

lemma sendRadiusRequestToQueue_iff [simp]:
  "sendRadiusRequestToQueue n rr = Ret (Queued i rr') \<longleftrightarrow> n \<noteq> 0 \<and> i = queue_of n (rr_mac rr) \<and> rr' = rr"
  by (auto simp: sendRadiusRequestToQueue_def queue_of_def)

definition waiting :: "'p acct_queues \<Rightarrow> nat \<Rightarrow> 'p radiusRequest list" where
  "waiting q i = (case aq_busy q ! i of None \<Rightarrow> [] | Some rr \<Rightarrow> [rr]) @ aq_channels q ! i"

definition of_mac :: "Mac \<Rightarrow> 'p radiusRequest list \<Rightarrow> 'p radiusRequest list" where
  "of_mac m rs = [rr \<leftarrow> rs. rr_mac rr = m]"

lemma of_mac_simps [simp]:
  "of_mac m [] = []"
  "of_mac m (rr # rs) = (if rr_mac rr = m then rr # of_mac m rs else of_mac m rs)"
  "of_mac m (rs @ ss) = of_mac m rs @ of_mac m ss"
  by (auto simp: of_mac_def)

definition queues_ok :: "nat \<Rightarrow> 'p acct_queues \<Rightarrow> bool" where
  "queues_ok n q \<longleftrightarrow>
     length (aq_channels q) = n \<and> length (aq_busy q) = n \<and>
     (\<forall>i<n. \<forall>rr\<in>set (waiting q i). queue_of n (rr_mac rr) = i) \<and>
     (\<forall>m. of_mac m (aq_sent q) = of_mac m (aq_handled q) @ of_mac m (waiting q (queue_of n m)))"

lemma of_mac_none: "(\<forall>rr\<in>set rs. rr_mac rr \<noteq> m) \<Longrightarrow> of_mac m rs = []"
  by (auto simp: of_mac_def filter_empty_conv)

lemma queue_of_less: "0 < n \<Longrightarrow> queue_of n m < n"
  by (simp add: queue_of_def)

lemma queues_ok_step:
  assumes "queue_step backlog q q'" "queues_ok n q" "0 < n"
  shows "queues_ok n q'"
  using assms(1)
proof (cases rule: queue_step.cases)
  case (send rr i)
  then show ?thesis
    using assms(2,3) queue_of_less [OF assms(3)]
    by (auto simp: queues_ok_def waiting_def nth_list_update split: option.splits)
next
  case (take i rr rest)
  then have w: "waiting q' j = waiting q j" if "j < n" for j
    using assms(2) that by (auto simp: queues_ok_def waiting_def nth_list_update)
  with take show ?thesis
    using assms(2,3) queue_of_less [OF assms(3)] by (auto simp: queues_ok_def)
next
  case (handle i rr)
  then have i: "i < n" "queue_of n (rr_mac rr) = i"
    using assms(2) by (auto simp: queues_ok_def waiting_def)
  have w: "waiting q i = rr # waiting q' i" "\<And>j. j < n \<Longrightarrow> j \<noteq> i \<Longrightarrow> waiting q' j = waiting q j"
    using handle i assms(2) by (auto simp: waiting_def queues_ok_def)
  have m: "of_mac m (waiting q (queue_of n m)) = of_mac m [rr] @ of_mac m (waiting q' (queue_of n m))" for m
    using w i queue_of_less [OF assms(3), of m] by (cases "queue_of n m = i") auto
  have sub: "set (waiting q' j) \<subseteq> set (waiting q j)" if "j < n" for j
    using w that by (cases "j = i") auto
  show ?thesis unfolding queues_ok_def
  proof (intro conjI allI impI)
    fix m
    show "of_mac m (aq_sent q') = of_mac m (aq_handled q') @ of_mac m (waiting q' (queue_of n m))"
      using handle m [of m] assms(2) by (simp add: queues_ok_def)
  next
    fix j assume "j < n"
    then show "\<forall>rr\<in>set (waiting q' j). queue_of n (rr_mac rr) = j" using assms(2) sub unfolding queues_ok_def by blast
  qed (use handle assms(2) in \<open>simp_all add: queues_ok_def\<close>)
qed

lemma queues_ok_init: "queues_ok n (makeRadiusRequests n)" if "0 < n"
  using that queue_of_less [OF that] by (auto simp: queues_ok_def makeRadiusRequests_def waiting_def)

lemma queues_ok_reachable: "(queue_step backlog)\<^sup>*\<^sup>* (makeRadiusRequests n) q \<Longrightarrow> 0 < n \<Longrightarrow> queues_ok n q"
  by (induction rule: rtranclp_induct) (auto intro: queues_ok_init queues_ok_step)

lemma queues_progress:
  assumes "queues_ok n q" "0 < n" "rr \<in> set (aq_sent q)" "rr \<notin> set (aq_handled q)"
  shows "\<exists>q'. queue_step backlog q q' \<and> aq_sent q' = aq_sent q"
proof -
  let ?i = "queue_of n (rr_mac rr)"
  have i: "?i < length (aq_channels q)" using assms(1,2) queue_of_less by (auto simp: queues_ok_def)
  have "rr \<in> set (of_mac (rr_mac rr) (aq_sent q))" using assms(3) by (simp add: of_mac_def)
  then have "waiting q ?i \<noteq> []"
    using assms(1,4) unfolding queues_ok_def by (metis Un_iff filter_is_subset in_mono of_mac_def of_mac_simps(1) append_Nil2)
  then consider r where "aq_busy q ! ?i = Some r" | r rest where "aq_busy q ! ?i = None" "aq_channels q ! ?i = r # rest"
    by (cases "aq_busy q ! ?i"; cases "aq_channels q ! ?i") (auto simp: waiting_def)
  then show ?thesis
    by cases (use i in \<open>auto intro!: exI conjI intro: queue_step.take queue_step.handle\<close>)
qed

text \<open>
  C7. However the senders and the workers of the five queues interleave, the requests of one device
  (one MAC address) are handled in the order in which they were accepted: the handled ones are a
  prefix of the sent ones, and those that are left wait in one queue behind one worker. As long as a
  request that was sent is not handled, some worker can make a step.
\<close>
theorem requests_handled_in_order:
  assumes "(queue_step backlog)\<^sup>*\<^sup>* (makeRadiusRequests n) q" "0 < n"
  shows "[rr \<leftarrow> aq_sent q. rr_mac rr = m] =
           [rr \<leftarrow> aq_handled q. rr_mac rr = m] @ [rr \<leftarrow> waiting q (unat (djb2Hash m) mod n). rr_mac rr = m] \<and>
         prefix [rr \<leftarrow> aq_handled q. rr_mac rr = m] [rr \<leftarrow> aq_sent q. rr_mac rr = m] \<and>
         (\<forall>rr. rr \<in> set (aq_sent q) \<longrightarrow> rr \<notin> set (aq_handled q) \<longrightarrow>
            (\<exists>q'. queue_step backlog q q' \<and> aq_sent q' = aq_sent q))"
  using queues_ok_reachable [OF assms] queues_progress [OF queues_ok_reachable [OF assms] assms(2)]
  unfolding queues_ok_def by (auto simp: of_mac_def queue_of_def)

definition demo_request :: "Mac \<Rightarrow> u32 \<Rightarrow> unit radiusRequest" where
  "demo_request m status =
     \<lparr>rr_r = \<lparr>rq_Code = 4, rq_Packet = (), rq_RemoteAddr = ''10.0.0.1:1813'', rq_switchInfo = None\<rparr>,
      rr_switchInfo = \<lparr>sw_Nasname = ''sw1'', sw_Secret = ''s'', sw_TenantId = 1, sw_RadiusAttributes = []\<rparr>,
      rr_status = status, rr_mac = m\<rparr>"

definition demo_queues :: "unit acct_queues" where
  "demo_queues =
     (let a = demo_request [0, 0, 0, 0, 0, 1] AcctStart; b = demo_request [0, 0, 0, 0, 0, 1] AcctStop
      in (makeRadiusRequests 1)\<lparr>aq_channels := [[b]], aq_busy := [Some a], aq_sent := [a, b]\<rparr>)"

lemma demo_queues_reachable: "(queue_step 10)\<^sup>*\<^sup>* (makeRadiusRequests 1) demo_queues"
proof -
  let ?a = "demo_request [0, 0, 0, 0, 0, 1] AcctStart" and ?b = "demo_request [0, 0, 0, 0, 0, 1] AcctStop"
  let ?q0 = "makeRadiusRequests 1 :: unit acct_queues"
  let ?q1 = "?q0\<lparr>aq_channels := [[?a]], aq_sent := [?a]\<rparr>"
  let ?q2 = "?q1\<lparr>aq_channels := [[]], aq_busy := [Some ?a]\<rparr>"
  have "queue_step 10 ?q0 ?q1"
    using queue_step.send [of ?q0 ?a 0 10] by (simp add: makeRadiusRequests_def queue_of_def)
  moreover have "queue_step 10 ?q1 ?q2"
    using queue_step.take [of 0 ?q1 ?a "[]" 10] by (simp add: makeRadiusRequests_def)
  moreover have "queue_step 10 ?q2 demo_queues"
    using queue_step.send [of ?q2 ?b 0 10] by (simp add: makeRadiusRequests_def queue_of_def demo_queues_def Let_def)
  ultimately show ?thesis by (meson converse_rtranclp_into_rtranclp rtranclp.rtrancl_refl)
qed

theorem requests_handled_in_order_witness:
  "[rr \<leftarrow> aq_sent demo_queues. rr_mac rr = [0, 0, 0, 0, 0, 1]] =
     [rr \<leftarrow> waiting demo_queues 0. rr_mac rr = [0, 0, 0, 0, 0, 1]] \<and>
   aq_sent demo_queues \<noteq> [] \<and> aq_handled demo_queues = []"
  using requests_handled_in_order [OF demo_queues_reachable, of "[0, 0, 0, 0, 0, 1]"]
  by (simp add: demo_queues_def makeRadiusRequests_def Let_def)

section \<open>Balances\<close>

text \<open>
  A meter: a balance, the alerts raised when it is used up, a report of the use so far, and the
  final one, which is charged. Its laws are what the statements of the database promise; the
  reports of a session are cumulative.
\<close>

locale balance_meter =
  fixes good :: "'s \<Rightarrow> bool"
    and balance :: "'s \<Rightarrow> int"
    and alerts :: "'s \<Rightarrow> nat"
    and step :: "'u \<Rightarrow> 's \<Rightarrow> 's"
    and interim :: "'u \<Rightarrow> bool"
    and final :: "'u \<Rightarrow> bool"
    and used :: "'u \<Rightarrow> int"
  assumes used_nonneg: "interim u \<or> final u \<Longrightarrow> 0 \<le> used u"
    and balance_nonneg: "good s \<Longrightarrow> 0 \<le> balance s"
    and interim_good: "good s \<Longrightarrow> interim u \<Longrightarrow> good (step u s)"
    and interim_balance: "good s \<Longrightarrow> interim u \<Longrightarrow> balance (step u s) = (if balance s \<le> used u then 0 else balance s)"
    and final_balance: "good s \<Longrightarrow> final u \<Longrightarrow> balance (step u s) = max (balance s - used u) 0"
    and step_alerts: "good s \<Longrightarrow> interim u \<or> final u \<Longrightarrow>
          alerts (step u s) = alerts s + (if 0 < balance s \<and> balance s \<le> used u then 1 else 0)"
begin

lemma interims_good: "good s \<Longrightarrow> \<forall>u\<in>set us. interim u \<Longrightarrow> good (fold step us s)"
  by (induction us arbitrary: s) (auto simp: interim_good)

lemma interims_zero:
  "good s \<Longrightarrow> balance s = 0 \<Longrightarrow> \<forall>u\<in>set us. interim u \<Longrightarrow>
     balance (fold step us s) = 0 \<and> alerts (fold step us s) = alerts s"
  by (induction us arbitrary: s) (auto simp: interim_good interim_balance step_alerts)

lemma interims_effect:
  assumes "good s" and "\<forall>u\<in>set us. interim u"
  shows "balance (fold step us s) = (if \<exists>u\<in>set us. balance s \<le> used u then 0 else balance s) \<and>
         alerts (fold step us s) = alerts s + (if 0 < balance s \<and> (\<exists>u\<in>set us. balance s \<le> used u) then 1 else 0)"
  using assms
proof (induction us arbitrary: s)
  case (Cons u us)
  have u: "interim u" and us: "\<forall>u\<in>set us. interim u" using Cons.prems(2) by auto
  show ?case
  proof (cases "balance s \<le> used u")
    case True
    then show ?thesis
      using interims_zero [OF interim_good [OF Cons.prems(1) u] _ us] Cons.prems(1) u
      by (simp add: interim_balance step_alerts)
  next
    case False
    then show ?thesis
      using Cons.IH [OF interim_good [OF Cons.prems(1) u] us] Cons.prems(1) u by (simp add: interim_balance step_alerts)
  qed
qed simp

lemma session_charged_once:
  assumes "good s" and "\<forall>u\<in>set us. interim u \<and> used u \<le> used T" and "final T"
  shows "balance (step T (fold step us s)) = max (balance s - used T) 0 \<and>
         alerts (step T (fold step us s)) = alerts s + (if 0 < balance s \<and> balance s \<le> used T then 1 else 0)"
proof -
  have us: "\<forall>u\<in>set us. interim u" using assms(2) by blast
  note eff = interims_effect [OF assms(1) us] interims_good [OF assms(1) us] used_nonneg [of T] assms(3)
  show ?thesis
  proof (cases "\<exists>u\<in>set us. balance s \<le> used u")
    case True
    then have "balance s \<le> used T" using assms(2) order_trans by blast
    with True show ?thesis using eff by (simp add: final_balance step_alerts)
  next
    case False
    then show ?thesis using eff by (simp add: final_balance step_alerts)
  qed
qed

end

text \<open>
  The row of a node, and what the statements of \<open>RadiusStatements.Setup\<close> do to it:
  \<open>nr_counted\<close> is the condition on \<open>status\<close> and \<open>regdate\<close>, a balance may be \<open>NULL\<close>. An
  \<open>UPDATE\<close> counts the rows it changed. The driver passes a MAC address as its text.
\<close>

record node_row =
  nr_unreg :: bool
  nr_counted :: bool
  nr_time :: "int option"
  nr_bandwidth :: "int option"

definition soft_balance :: "int \<Rightarrow> int option \<Rightarrow> int option" where
  "soft_balance n b = (case b of None \<Rightarrow> None | Some b \<Rightarrow> Some (if b \<le> n then 0 else b))"

definition sub_balance :: "int \<Rightarrow> int option \<Rightarrow> int option" where
  "sub_balance n b = (case b of None \<Rightarrow> None | Some b \<Rightarrow> Some (max (b - n) 0))"

definition on_time :: "(int option \<Rightarrow> int option) \<Rightarrow> node_row \<Rightarrow> node_row" where
  "on_time f r = (if nr_counted r then r\<lparr>nr_time := f (nr_time r)\<rparr> else r)"

definition on_bandwidth :: "(int option \<Rightarrow> int option) \<Rightarrow> node_row \<Rightarrow> node_row" where
  "on_bandwidth f r = (if nr_counted r then r\<lparr>nr_bandwidth := f (nr_bandwidth r)\<rparr> else r)"

type_synonym 'd node_view = "'d \<Rightarrow> int \<times> string \<Rightarrow> node_row option"

definition updates :: "'d node_view \<Rightarrow> (node_row \<Rightarrow> node_row) \<Rightarrow> int \<times> string \<Rightarrow> 'd \<Rightarrow> exec_result \<times> 'd \<Rightarrow> bool" where
  "updates view f k d res \<longleftrightarrow>
     fst res = Affected (if map_option f (view d k) = view d k then 0 else 1) None \<and>
     view (snd res) = (view d)(k := map_option f (view d k))"

definition row_query :: "bool \<Rightarrow> int \<times> go_err" where
  "row_query found = (if found then (1, None) else (0, Some ''sql: no rows in result set''))"

definition node_laws :: "'d acct_db \<Rightarrow> mac_lib \<Rightarrow> 'd node_view \<Rightarrow> bool" where
  "node_laws db ml view \<longleftrightarrow>
     (\<forall>t s n d. updates view (on_time (soft_balance n)) (t, s) d (db_softTime db t s n d)) \<and>
     (\<forall>t s n d. updates view (on_time (sub_balance n)) (t, s) d (db_subTime db n t s d)) \<and>
     (\<forall>t s n d. updates view (on_bandwidth (soft_balance n)) (t, s) d (db_softBandwidth db t s n d)) \<and>
     (\<forall>t s n d. updates view (on_bandwidth (sub_balance n)) (t, s) d (db_subBandwidth db n t s d)) \<and>
     (\<forall>t s d. db_isUnreg db t s d = row_query (\<exists>r. view d (t, s) = Some r \<and> nr_unreg r)) \<and>
     (\<forall>t m d. db_isTimeZero db t m d = row_query (\<exists>r. view d (t, ml_String ml m) = Some r \<and> nr_time r = Some 0)) \<and>
     (\<forall>t m d. db_isBandwidthZero db t m d = row_query (\<exists>r. view d (t, ml_String ml m) = Some r \<and> nr_bandwidth r = Some 0)) \<and>
     (\<forall>n t m s b i out d. view (snd (db_insertBandwidth db n t m s b i out d)) = view d) \<and>
     (\<forall>n s d. view (snd (db_closeSession db n s d)) = view d)"

lemma row_query_found [simp]: "fst (row_query b) = 1 \<longleftrightarrow> b"
  by (simp add: row_query_def)

lemma rows_ok_affected [simp]: "rows_ok (Affected (if c then 0 else 1) None) = (\<not> c, None)"
  by (simp add: rows_ok_def)

lemma row_same [simp]:
  "r\<lparr>nr_time := x\<rparr> = r \<longleftrightarrow> x = nr_time r"
  "r\<lparr>nr_bandwidth := x\<rparr> = r \<longleftrightarrow> x = nr_bandwidth r"
  by (cases r; auto)+

definition keeps_bandwidth :: "node_row \<Rightarrow> node_row option \<Rightarrow> bool" where
  "keeps_bandwidth r r' \<longleftrightarrow>
     (\<exists>q. r' = Some q \<and> nr_unreg q = nr_unreg r \<and> nr_counted q = nr_counted r \<and> nr_bandwidth q = nr_bandwidth r)"

definition keeps_time :: "node_row \<Rightarrow> node_row option \<Rightarrow> bool" where
  "keeps_time r r' \<longleftrightarrow>
     (\<exists>q. r' = Some q \<and> nr_unreg q = nr_unreg r \<and> nr_counted q = nr_counted r \<and> nr_time q = nr_time r)"

definition row_effect :: "'d node_view \<Rightarrow> (node_row \<Rightarrow> node_row) \<Rightarrow> int \<times> string \<Rightarrow> 'd \<Rightarrow> bool \<Rightarrow> go_err \<Rightarrow> 'd \<Rightarrow> bool" where
  "row_effect view f k d ok err d' \<longleftrightarrow>
     err = None \<and> view d' = (view d)(k := map_option f (view d k)) \<and> ok = (map_option f (view d k) \<noteq> view d k)"

lemma updates_effect: "updates view f k d res \<Longrightarrow> apfst rows_ok res = ((ok, err), d') \<Longrightarrow> row_effect view f k d ok err d'"
  by (cases res) (auto simp: updates_def row_effect_def)

locale accounting_db =
  fixes E :: "('p, 'd, 'c) acct_env" and view :: "'d node_view"
  assumes laws: "node_laws (ae_db E) (ae_mac E) view"
begin

lemma statement_laws:
  "updates view (on_time (soft_balance n)) (t, s) d (db_softTime (ae_db E) t s n d)"
  "updates view (on_time (sub_balance n)) (t, s) d (db_subTime (ae_db E) n t s d)"
  "updates view (on_bandwidth (soft_balance n)) (t, s) d (db_softBandwidth (ae_db E) t s n d)"
  "updates view (on_bandwidth (sub_balance n)) (t, s) d (db_subBandwidth (ae_db E) n t s d)"
  using laws by (simp_all add: node_laws_def)

lemma softTime:
  "SoftNodeTimeBalanceUpdate (ae_db E) (ae_mac E) t m n d = ((ok, err), d') \<Longrightarrow>
     row_effect view (on_time (soft_balance n)) (t, ml_String (ae_mac E) m) d ok err d'"
  unfolding SoftNodeTimeBalanceUpdate_def by (rule updates_effect [OF statement_laws(1)])

lemma subTime:
  "NodeTimeBalanceSubtract (ae_db E) (ae_mac E) t m n d = ((ok, err), d') \<Longrightarrow>
     row_effect view (on_time (sub_balance n)) (t, ml_String (ae_mac E) m) d ok err d'"
  unfolding NodeTimeBalanceSubtract_def by (rule updates_effect [OF statement_laws(2)])

lemma softBandwidth:
  "SoftNodeBandwidthBalanceUpdate (ae_db E) (ae_mac E) t m n d = ((ok, err), d') \<Longrightarrow>
     row_effect view (on_bandwidth (soft_balance n)) (t, ml_String (ae_mac E) m) d ok err d'"
  unfolding SoftNodeBandwidthBalanceUpdate_def by (rule updates_effect [OF statement_laws(3)])

lemma subBandwidth:
  "NodeBandwidthBalanceSubtract (ae_db E) (ae_mac E) t m n d = ((ok, err), d') \<Longrightarrow>
     row_effect view (on_bandwidth (sub_balance n)) (t, ml_String (ae_mac E) m) d ok err d'"
  unfolding NodeBandwidthBalanceSubtract_def by (rule updates_effect [OF statement_laws(4)])

lemma queries:
  "fst (IsUnreg (ae_db E) s t d) = (\<exists>r. view d (t, s) = Some r \<and> nr_unreg r)"
  "fst (IsNodeTimeBalanceZero (ae_db E) t m d) = (\<exists>r. view d (t, ml_String (ae_mac E) m) = Some r \<and> nr_time r = Some 0)"
  "fst (IsNodeBandwidthBalanceZero (ae_db E) t m d) = (\<exists>r. view d (t, ml_String (ae_mac E) m) = Some r \<and> nr_bandwidth r = Some 0)"
  using laws by (auto simp: IsUnreg_def IsNodeTimeBalanceZero_def IsNodeBandwidthBalanceZero_def node_laws_def row_query_def)

lemma other_tables:
  "view (snd (InsertBandwidthAccounting (ae_db E) n t m s b i out d)) = view d"
  "view (snd (CloseSession (ae_db E) n s d)) = view d"
proof -
  show "view (snd (InsertBandwidthAccounting (ae_db E) n t m s b i out d)) = view d"
    using laws by (simp add: InsertBandwidthAccounting_def node_laws_def)
  have "view (snd (db_closeSession (ae_db E) n s d)) = view d" using laws by (simp add: node_laws_def)
  then show "view (snd (CloseSession (ae_db E) n s d)) = view d"
    by (auto simp: CloseSession_def split: prod.splits exec_result.splits)
qed

lemma time_report:
  assumes "view (as_db st) (sw_TenantId sw, ml_String (ae_mac E) (packet_mac E p)) = Some r" "\<not> nr_unreg r" "nr_counted r"
    and "nr_time r = Some b" "0 \<le> b" "getNodeSessionFromCache (ae_cache E) session (as_sessions st) = None"
    and "rl_StatusType (ae_radius E) p \<noteq> AcctStop"
    and "n = uint (rl_SessionTime (ae_radius E) p)"
  shows "view (as_db (handleTimeBalance E p sw session st)) (sw_TenantId sw, ml_String (ae_mac E) (packet_mac E p)) =
           Some (r\<lparr>nr_time := Some (if b \<le> n then 0 else b)\<rparr>)"
    and "as_calls (handleTimeBalance E p sw session st) = as_calls st @
           (if 0 < b \<and> b \<le> n then [security_event E (packet_mac E p) ACCOUNTING_POLICY_TIME (sw_TenantId sw)] else [])"
    and "as_sessions (handleTimeBalance E p sw session st) = as_sessions st"
  using assms
  by (auto simp: handleTimeBalance_def time_interim_def Let_def queries add_call_def on_time_def soft_balance_def row_effect_def
      split: prod.splits if_splits dest!: softTime)

lemma time_close:
  assumes "view (as_db st) (sw_TenantId sw, ml_String (ae_mac E) (packet_mac E p)) = Some r" "\<not> nr_unreg r" "nr_counted r"
    and "nr_time r = Some b" "0 \<le> b" "getNodeSessionFromCache (ae_cache E) session (as_sessions st) = None"
    and "rl_StatusType (ae_radius E) p = AcctStop"
    and "n = uint (rl_SessionTime (ae_radius E) p)"
  shows "view (as_db (handleTimeBalance E p sw session st)) (sw_TenantId sw, ml_String (ae_mac E) (packet_mac E p)) = Some (r\<lparr>nr_time := Some (max (b - n) 0)\<rparr>)"
    and "as_calls (handleTimeBalance E p sw session st) = as_calls st @
           (if 0 < b \<and> b \<le> n then [security_event E (packet_mac E p) ACCOUNTING_POLICY_TIME (sw_TenantId sw)] else [])"
  using assms uint_ge_0 [of "rl_SessionTime (ae_radius E) p"]
  by (auto simp: handleTimeBalance_def time_stop_def Let_def queries add_call_def on_time_def sub_balance_def row_effect_def
      split: prod.splits if_splits dest!: subTime)

lemma bandwidth_report:
  assumes "view (as_db st) (sw_TenantId sw, ml_String (ae_mac E) (packet_mac E p)) = Some r" "nr_counted r" "nr_bandwidth r = Some b" "0 \<le> b" "0 \<le> n"
    and "rl_StatusType (ae_radius E) p \<noteq> AcctStop"
  shows "view (as_db (handleBandwidthBalance E p sw n st)) (sw_TenantId sw, ml_String (ae_mac E) (packet_mac E p)) = Some (r\<lparr>nr_bandwidth := Some (if b \<le> n then 0 else b)\<rparr>)"
    and "as_calls (handleBandwidthBalance E p sw n st) = as_calls st @
           (if 0 < b \<and> b \<le> n then [security_event E (packet_mac E p) ACCOUNTING_POLICY_BANDWIDTH (sw_TenantId sw)] else [])"
  using assms
  by (auto simp: handleBandwidthBalance_def Let_def queries add_call_def on_bandwidth_def soft_balance_def row_effect_def
      split: prod.splits if_splits dest!: softBandwidth)

lemma bandwidth_close:
  assumes "view (as_db st) (sw_TenantId sw, ml_String (ae_mac E) (packet_mac E p)) = Some r" "nr_counted r" "nr_bandwidth r = Some b" "0 \<le> b" "0 \<le> n"
    and "rl_StatusType (ae_radius E) p = AcctStop"
  shows "view (as_db (handleBandwidthBalance E p sw n st)) (sw_TenantId sw, ml_String (ae_mac E) (packet_mac E p)) = Some (r\<lparr>nr_bandwidth := Some (max (b - n) 0)\<rparr>)"
    and "as_calls (handleBandwidthBalance E p sw n st) = as_calls st @
           (if 0 < b \<and> b \<le> n then [security_event E (packet_mac E p) ACCOUNTING_POLICY_BANDWIDTH (sw_TenantId sw)] else [])"
  using assms
  by (auto simp: handleBandwidthBalance_def Let_def queries add_call_def on_bandwidth_def sub_balance_def row_effect_def
      split: prod.splits if_splits dest!: subBandwidth)

lemma time_parts_frame:
  assumes "view (as_db st) (t, ml_String (ae_mac E) m) = Some r"
  shows "keeps_bandwidth r (view (as_db (time_stop E m t ns n st)) (t, ml_String (ae_mac E) m))"
    and "keeps_bandwidth r (view (as_db (time_interim E m t session ns n st)) (t, ml_String (ae_mac E) m))"
    and "\<exists>cs. as_calls (time_stop E m t ns n st) = as_calls st @ cs \<and> set cs \<subseteq> {security_event E m ACCOUNTING_POLICY_TIME t}"
    and "\<exists>cs. as_calls (time_interim E m t session ns n st) = as_calls st @ cs \<and> set cs \<subseteq> {security_event E m ACCOUNTING_POLICY_TIME t}"
proof -
  show "keeps_bandwidth r (view (as_db (time_stop E m t ns n st)) (t, ml_String (ae_mac E) m))"
    using assms
    by (cases ns) (auto simp: time_stop_def Let_def add_call_def on_time_def row_effect_def keeps_bandwidth_def
        split: prod.splits dest!: subTime)
  show "keeps_bandwidth r (view (as_db (time_interim E m t session ns n st)) (t, ml_String (ae_mac E) m))"
    using assms
    by (cases ns) (auto simp: time_interim_def Let_def add_call_def on_time_def row_effect_def keeps_bandwidth_def
        split: prod.splits dest!: softTime)
  show "\<exists>cs. as_calls (time_stop E m t ns n st) = as_calls st @ cs \<and> set cs \<subseteq> {security_event E m ACCOUNTING_POLICY_TIME t}"
    by (simp add: time_stop_def Let_def add_call_def split: prod.split)
  show "\<exists>cs. as_calls (time_interim E m t session ns n st) = as_calls st @ cs \<and> set cs \<subseteq> {security_event E m ACCOUNTING_POLICY_TIME t}"
    by (cases ns) (simp_all add: time_interim_def Let_def add_call_def split: prod.split)
qed

lemma time_frame:
  assumes "view (as_db st) (sw_TenantId sw, ml_String (ae_mac E) (packet_mac E p)) = Some r"
  shows "keeps_bandwidth r (view (as_db (handleTimeBalance E p sw session st)) (sw_TenantId sw, ml_String (ae_mac E) (packet_mac E p)))"
    and "\<exists>cs. as_calls (handleTimeBalance E p sw session st) = as_calls st @ cs \<and>
           set cs \<subseteq> {security_event E (packet_mac E p) ACCOUNTING_POLICY_TIME (sw_TenantId sw)}"
  using assms time_parts_frame [OF assms] by (auto simp: handleTimeBalance_def Let_def keeps_bandwidth_def)

lemma bandwidth_frame:
  assumes "view (as_db st) (sw_TenantId sw, ml_String (ae_mac E) (packet_mac E p)) = Some r"
  shows "keeps_time r (view (as_db (handleBandwidthBalance E p sw n st)) (sw_TenantId sw, ml_String (ae_mac E) (packet_mac E p)))"
    and "\<exists>cs. as_calls (handleBandwidthBalance E p sw n st) = as_calls st @ cs \<and>
           set cs \<subseteq> {security_event E (packet_mac E p) ACCOUNTING_POLICY_BANDWIDTH (sw_TenantId sw)}"
    and "as_sessions (handleBandwidthBalance E p sw n st) = as_sessions st"
proof -
  show "keeps_time r (view (as_db (handleBandwidthBalance E p sw n st)) (sw_TenantId sw, ml_String (ae_mac E) (packet_mac E p)))"
    using assms
    by (auto simp: handleBandwidthBalance_def Let_def add_call_def on_bandwidth_def row_effect_def keeps_time_def
        split: prod.splits dest!: subBandwidth softBandwidth)
  show "\<exists>cs. as_calls (handleBandwidthBalance E p sw n st) = as_calls st @ cs \<and>
           set cs \<subseteq> {security_event E (packet_mac E p) ACCOUNTING_POLICY_BANDWIDTH (sw_TenantId sw)}"
    and "as_sessions (handleBandwidthBalance E p sw n st) = as_sessions st"
    by (simp_all add: handleBandwidthBalance_def Let_def add_call_def split: prod.split)
qed

end

subsection \<open>A session of requests\<close>

text \<open>
  The requests of one session, each with the time at which it is handled: a device, a tenant and a
  session identifier, attributes that can be read, and an amount of bytes that has not wrapped.
\<close>

definition request_bytes :: "('p, 'd, 'c) acct_env \<Rightarrow> 'p radiusRequest \<Rightarrow> int" where
  "request_bytes E rr =
     (let p = rq_Packet (rr_r rr); L = ae_radius E
      in i64 (acct_bytes (rl_InputOctets L p) (rl_InputGigawords L p) + acct_bytes (rl_OutputOctets L p) (rl_OutputGigawords L p)))"

definition request_time :: "('p, 'd, 'c) acct_env \<Rightarrow> 'p radiusRequest \<Rightarrow> int" where
  "request_time E rr = uint (rl_SessionTime (ae_radius E) (rq_Packet (rr_r rr)))"

definition in_session :: "('p, 'd, 'c) acct_env \<Rightarrow> int \<Rightarrow> Mac \<Rightarrow> u64 \<Rightarrow> 'p radiusRequest \<Rightarrow> bool" where
  "in_session E tenant m session rr \<longleftrightarrow>
     (let p = rq_Packet (rr_r rr) in
      rr_status rr = rl_StatusType (ae_radius E) p \<and> packet_mac E p = m \<and> rr_mac rr = m \<and>
      sw_TenantId (rr_switchInfo rr) = tenant \<and> accountingUniqueSessionId E p = session \<and> 0 \<le> request_bytes E rr \<and>
      (case packetToMap (ae_mac E) (ae_dict E) (ae_prio E) (rl_Attributes (ae_radius E) p) of Ret _ \<Rightarrow> True | Panic _ \<Rightarrow> False))"

fun run_accounting ::
  "('p, 'd, 'c) acct_env \<Rightarrow> (int \<times> 'p radiusRequest) list \<Rightarrow> ('d, 'c) acct_state \<Rightarrow> ('d, 'c) acct_state outcome" where
  "run_accounting E [] st = Ret st"
| "run_accounting E ((now, rr) # rest) st = go_bind (snd (handleAccountingRequest E now rr st)) (run_accounting E rest)"

definition account :: "('p, 'd, 'c) acct_env \<Rightarrow> int \<times> 'p radiusRequest \<Rightarrow> ('d, 'c) acct_state \<Rightarrow> ('d, 'c) acct_state" where
  "account E u st = (case snd (handleAccountingRequest E (fst u) (snd u) st) of Ret st' \<Rightarrow> st' | Panic _ \<Rightarrow> st)"

definition alerts_of :: "('p, 'd, 'c) acct_env \<Rightarrow> Mac \<Rightarrow> string \<Rightarrow> int \<Rightarrow> ('d, 'c) acct_state \<Rightarrow> nat" where
  "alerts_of E m policy tenant st = count_list (as_calls st) (security_event E m policy tenant)"

lemma policies_differ [simp]: "ACCOUNTING_POLICY_TIME \<noteq> ACCOUNTING_POLICY_BANDWIDTH"
  by (simp add: ACCOUNTING_POLICY_TIME_def ACCOUNTING_POLICY_BANDWIDTH_def)

lemma security_event_eq [simp]:
  "security_event E m policy tenant = security_event E m policy' tenant \<longleftrightarrow> policy = policy'"
  "security_event E m policy tenant \<noteq> Call f attr tenant'"
  "Call f attr tenant' \<noteq> security_event E m policy tenant"
  by (auto simp: security_event_def)

lemma count_other: "set cs \<subseteq> {security_event E m policy' tenant} \<Longrightarrow> policy \<noteq> policy' \<Longrightarrow>
    count_list cs (security_event E m policy tenant) = 0"
  by (rule count_notin) auto

lemma sendRadiusAccounting_Ret:
  assumes "packetToMap (ae_mac E) (ae_dict E) (ae_prio E) (rl_Attributes (ae_radius E) (rq_Packet r)) = Ret a"
  shows "\<exists>attr. sendRadiusAccounting E r sw st = Ret (add_call (Call ''radius_accounting'' attr (sw_TenantId sw)) st)"
  using assms by (auto simp: sendRadiusAccounting_def Let_def)

definition before_balances :: "('p, 'd, 'c) acct_env \<Rightarrow> 'd node_view \<Rightarrow> ('d, 'c) acct_state \<Rightarrow> ('d, 'c) acct_state \<Rightarrow> bool" where
  "before_balances E view st st1 \<longleftrightarrow>
     view (as_db st1) = view (as_db st) \<and> as_sessions st1 = as_sessions st \<and>
     (\<forall>m policy tenant. alerts_of E m policy tenant st1 = alerts_of E m policy tenant st)"

context accounting_db
begin

lemma bandwidth_keeps_time_alerts:
  "alerts_of E (packet_mac E p) ACCOUNTING_POLICY_TIME (sw_TenantId sw) (handleBandwidthBalance E p sw n st) =
   alerts_of E (packet_mac E p) ACCOUNTING_POLICY_TIME (sw_TenantId sw) st"
  by (simp add: handleBandwidthBalance_def Let_def add_call_def alerts_of_def policies_differ [symmetric] split: prod.split)

lemma time_keeps_bandwidth_alerts:
  assumes "view (as_db st) (sw_TenantId sw, ml_String (ae_mac E) (packet_mac E p)) = Some r"
  shows "alerts_of E (packet_mac E p) ACCOUNTING_POLICY_BANDWIDTH (sw_TenantId sw) (handleTimeBalance E p sw session st) =
         alerts_of E (packet_mac E p) ACCOUNTING_POLICY_BANDWIDTH (sw_TenantId sw) st"
  using time_frame(2) [OF assms, of session] by (auto simp: alerts_of_def count_other policies_differ [symmetric])

lemma accounting_record:
  "\<exists>d. view d = view (as_db st) \<and>
     snd (handleAccountingRequest E now rr st) =
       go_bind (sendRadiusAccounting E (rr_r rr) (rr_switchInfo rr) (st\<lparr>as_db := d\<rparr>)) (\<lambda>st.
         Ret (handleBandwidthBalance E (rq_Packet (rr_r rr)) (rr_switchInfo rr) (request_bytes E rr)
               (handleTimeBalance E (rq_Packet (rr_r rr)) (rr_switchInfo rr) (accountingUniqueSessionId E (rq_Packet (rr_r rr))) st)))"
proof -
  have db: "view (if c then snd (CloseSession (ae_db E) n s d) else d) = view (as_db st)"
    if "InsertBandwidthAccounting (ae_db E) n t x s b i out (as_db st) = (err, d)" for c n s d t x b i out err
    using that other_tables(1) [of n t x s b i out "as_db st"] other_tables(2) [of n s d] by simp
  show ?thesis
    unfolding handleAccountingRequest_def request_bytes_def Let_def
    by (split prod.split, intro allI impI exI conjI, erule db, simp only: snd_conv split_conv)
qed

lemma handle_parts:
  assumes "in_session E tenant m session rr"
  shows "\<exists>st1. before_balances E view st st1 \<and>
     snd (handleAccountingRequest E now rr st) =
       Ret (handleBandwidthBalance E (rq_Packet (rr_r rr)) (rr_switchInfo rr) (request_bytes E rr)
             (handleTimeBalance E (rq_Packet (rr_r rr)) (rr_switchInfo rr) session st1))"
proof -
  obtain a where a: "packetToMap (ae_mac E) (ae_dict E) (ae_prio E) (rl_Attributes (ae_radius E) (rq_Packet (rr_r rr))) = Ret a"
    using assms by (auto simp: in_session_def Let_def split: outcome.splits)
  have s: "accountingUniqueSessionId E (rq_Packet (rr_r rr)) = session" using assms by (simp add: in_session_def Let_def)
  obtain d where d: "view d = view (as_db st)" "snd (handleAccountingRequest E now rr st) =
       go_bind (sendRadiusAccounting E (rr_r rr) (rr_switchInfo rr) (st\<lparr>as_db := d\<rparr>)) (\<lambda>st.
         Ret (handleBandwidthBalance E (rq_Packet (rr_r rr)) (rr_switchInfo rr) (request_bytes E rr)
               (handleTimeBalance E (rq_Packet (rr_r rr)) (rr_switchInfo rr) session st)))"
    using accounting_record [of st now rr] s by auto
  obtain attr where "sendRadiusAccounting E (rr_r rr) (rr_switchInfo rr) (st\<lparr>as_db := d\<rparr>) =
      Ret (add_call (Call ''radius_accounting'' attr (sw_TenantId (rr_switchInfo rr))) (st\<lparr>as_db := d\<rparr>))"
    using sendRadiusAccounting_Ret [OF a] by blast
  moreover have "before_balances E view st (add_call (Call f attr t) (st\<lparr>as_db := d\<rparr>))" for f t
    using d(1) by (simp add: before_balances_def add_call_def alerts_of_def)
  ultimately show ?thesis using d(2) by auto
qed

end

definition account_row :: "'d node_view \<Rightarrow> mac_lib \<Rightarrow> int \<Rightarrow> Mac \<Rightarrow> ('d, 'c) acct_state \<Rightarrow> node_row option" where
  "account_row view ml tenant m st = view (as_db st) (tenant, ml_String ml m)"

definition time_good :: "('p, 'd, 'c) acct_env \<Rightarrow> 'd node_view \<Rightarrow> int \<Rightarrow> Mac \<Rightarrow> u64 \<Rightarrow> ('d, 'c) acct_state \<Rightarrow> bool" where
  "time_good E view tenant m session st \<longleftrightarrow>
     (\<exists>r b. account_row view (ae_mac E) tenant m st = Some r \<and> \<not> nr_unreg r \<and> nr_counted r \<and> nr_time r = Some b \<and> 0 \<le> b) \<and>
     getNodeSessionFromCache (ae_cache E) session (as_sessions st) = None"

definition time_left :: "('p, 'd, 'c) acct_env \<Rightarrow> 'd node_view \<Rightarrow> int \<Rightarrow> Mac \<Rightarrow> ('d, 'c) acct_state \<Rightarrow> int" where
  "time_left E view tenant m st = the (nr_time (the (account_row view (ae_mac E) tenant m st)))"

definition bandwidth_good :: "('p, 'd, 'c) acct_env \<Rightarrow> 'd node_view \<Rightarrow> int \<Rightarrow> Mac \<Rightarrow> ('d, 'c) acct_state \<Rightarrow> bool" where
  "bandwidth_good E view tenant m st \<longleftrightarrow>
     (\<exists>r b. account_row view (ae_mac E) tenant m st = Some r \<and> nr_counted r \<and> nr_bandwidth r = Some b \<and> 0 \<le> b)"

definition bandwidth_left :: "('p, 'd, 'c) acct_env \<Rightarrow> 'd node_view \<Rightarrow> int \<Rightarrow> Mac \<Rightarrow> ('d, 'c) acct_state \<Rightarrow> int" where
  "bandwidth_left E view tenant m st = the (nr_bandwidth (the (account_row view (ae_mac E) tenant m st)))"

definition interim_request :: "('p, 'd, 'c) acct_env \<Rightarrow> int \<Rightarrow> Mac \<Rightarrow> u64 \<Rightarrow> int \<times> 'p radiusRequest \<Rightarrow> bool" where
  "interim_request E tenant m session u \<longleftrightarrow> in_session E tenant m session (snd u) \<and> rr_status (snd u) \<noteq> AcctStop"

definition final_request :: "('p, 'd, 'c) acct_env \<Rightarrow> int \<Rightarrow> Mac \<Rightarrow> u64 \<Rightarrow> int \<times> 'p radiusRequest \<Rightarrow> bool" where
  "final_request E tenant m session u \<longleftrightarrow> in_session E tenant m session (snd u) \<and> rr_status (snd u) = AcctStop"

locale session_accounts = accounting_db E view
  for E :: "('p, 'd, 'c) acct_env" and view :: "'d node_view" +
  fixes tenant :: int and m :: Mac and session :: u64
begin

abbreviation "row \<equiv> account_row view (ae_mac E) tenant m"
abbreviation "talerts \<equiv> alerts_of E m ACCOUNTING_POLICY_TIME tenant"
abbreviation "balerts \<equiv> alerts_of E m ACCOUNTING_POLICY_BANDWIDTH tenant"

lemma account_parts:
  assumes "in_session E tenant m session (snd u)"
  obtains st1 p sw where "before_balances E view st st1" "p = rq_Packet (rr_r (snd u))" "sw = rr_switchInfo (snd u)"
    and "sw_TenantId sw = tenant" "packet_mac E p = m" "rl_StatusType (ae_radius E) p = rr_status (snd u)"
    and "account E u st = handleBandwidthBalance E p sw (request_bytes E (snd u)) (handleTimeBalance E p sw session st1)"
  using handle_parts [OF assms, of st "fst u"] assms unfolding account_def in_session_def Let_def
  by (metis outcome.simps(5))

lemma time_request:
  assumes u: "in_session E tenant m session (snd u)" and good: "time_good E view tenant m session st"
  shows "time_left E view tenant m (account E u st) =
           (let b = time_left E view tenant m st; n = request_time E (snd u)
            in if rr_status (snd u) = AcctStop then max (b - n) 0 else if b \<le> n then 0 else b)"
    and "talerts (account E u st) = talerts st +
           (if 0 < time_left E view tenant m st \<and> time_left E view tenant m st \<le> request_time E (snd u) then 1 else 0)"
    and "rr_status (snd u) \<noteq> AcctStop \<Longrightarrow> time_good E view tenant m session (account E u st)"
    and "\<exists>r b. row (account E u st) = Some r \<and> nr_time r = Some b"
proof -
  obtain st1 p sw where st1: "before_balances E view st st1" "p = rq_Packet (rr_r (snd u))" "sw = rr_switchInfo (snd u)"
    and p: "sw_TenantId sw = tenant" "packet_mac E p = m" "rl_StatusType (ae_radius E) p = rr_status (snd u)"
    and acc: "account E u st = handleBandwidthBalance E p sw (request_bytes E (snd u)) (handleTimeBalance E p sw session st1)"
    by (rule account_parts [OF u])
  obtain r b where r: "row st = Some r" "\<not> nr_unreg r" "nr_counted r" "nr_time r = Some b" "0 \<le> b"
    and ns: "getNodeSessionFromCache (ae_cache E) session (as_sessions st) = None"
    using good unfolding time_good_def by blast
  define st2 where "st2 = handleTimeBalance E p sw session st1"
  define n where "n = request_time E (snd u)"
  have n: "n = uint (rl_SessionTime (ae_radius E) p)" by (simp add: n_def request_time_def st1(2))
  have row1: "view (as_db st1) (sw_TenantId sw, ml_String (ae_mac E) (packet_mac E p)) = Some r"
    and ns1: "getNodeSessionFromCache (ae_cache E) session (as_sessions st1) = None"
    and al1: "talerts st1 = talerts st"
    using r(1) ns st1(1) p by (simp_all add: before_balances_def account_row_def)
  note report = time_report [OF row1 r(2-5) ns1 _ n] and close = time_close [OF row1 r(2-5) ns1 _ n]
  have row2: "row st2 = Some (r\<lparr>nr_time := Some (if rr_status (snd u) = AcctStop then max (b - n) 0 else if b \<le> n then 0 else b)\<rparr>)"
    and calls2: "talerts st2 = talerts st + (if 0 < b \<and> b \<le> n then 1 else 0)"
    using report(1,2) close(1,2) p al1
    by (cases "rr_status (snd u) = AcctStop"; auto simp: st2_def account_row_def alerts_of_def)+
  have "keeps_time (r\<lparr>nr_time := x\<rparr>) (row (account E u st))" if "row st2 = Some (r\<lparr>nr_time := x\<rparr>)" for x
    using that p bandwidth_frame(1) [of st2 sw p "r\<lparr>nr_time := x\<rparr>"] by (simp add: acc st2_def account_row_def)
  note keep = this [OF row2]
  show "time_left E view tenant m (account E u st) =
           (let b = time_left E view tenant m st; n = request_time E (snd u)
            in if rr_status (snd u) = AcctStop then max (b - n) 0 else if b \<le> n then 0 else b)"
    using keep r by (auto simp: time_left_def keeps_time_def Let_def n_def)
  show "talerts (account E u st) = talerts st +
           (if 0 < time_left E view tenant m st \<and> time_left E view tenant m st \<le> request_time E (snd u) then 1 else 0)"
    using bandwidth_keeps_time_alerts [of p sw _ st2] calls2 r p by (simp add: acc st2_def [symmetric] time_left_def n_def)
  show "rr_status (snd u) \<noteq> AcctStop \<Longrightarrow> time_good E view tenant m session (account E u st)"
    using keep r ns1 report(3) row2 p bandwidth_frame(3) [of st2 sw p]
    by (simp add: time_good_def keeps_time_def acc st2_def account_row_def) (metis order_refl)
  show "\<exists>r b. row (account E u st) = Some r \<and> nr_time r = Some b" using keep by (auto simp: keeps_time_def)
qed

end

context session_accounts
begin

lemma bandwidth_request:
  assumes u: "in_session E tenant m session (snd u)" and good: "bandwidth_good E view tenant m st"
  shows "bandwidth_left E view tenant m (account E u st) =
           (let b = bandwidth_left E view tenant m st; n = request_bytes E (snd u)
            in if rr_status (snd u) = AcctStop then max (b - n) 0 else if b \<le> n then 0 else b)"
    and "balerts (account E u st) = balerts st +
           (if 0 < bandwidth_left E view tenant m st \<and> bandwidth_left E view tenant m st \<le> request_bytes E (snd u) then 1 else 0)"
    and "bandwidth_good E view tenant m (account E u st)"
proof -
  obtain st1 p sw where st1: "before_balances E view st st1" "p = rq_Packet (rr_r (snd u))" "sw = rr_switchInfo (snd u)"
    and p: "sw_TenantId sw = tenant" "packet_mac E p = m" "rl_StatusType (ae_radius E) p = rr_status (snd u)"
    and acc: "account E u st = handleBandwidthBalance E p sw (request_bytes E (snd u)) (handleTimeBalance E p sw session st1)"
    by (rule account_parts [OF u])
  obtain r b where r: "row st = Some r" "nr_counted r" "nr_bandwidth r = Some b" "0 \<le> b"
    using good unfolding bandwidth_good_def by blast
  define st2 where "st2 = handleTimeBalance E p sw session st1"
  define n where "n = request_bytes E (snd u)"
  have n0: "0 \<le> n" using u by (simp add: n_def in_session_def Let_def)
  have row1: "view (as_db st1) (sw_TenantId sw, ml_String (ae_mac E) (packet_mac E p)) = Some r"
    and al1: "balerts st1 = balerts st"
    using r(1) st1(1) p by (simp_all add: before_balances_def account_row_def)
  obtain q where row2: "view (as_db st2) (sw_TenantId sw, ml_String (ae_mac E) (packet_mac E p)) = Some q"
    and q: "nr_counted q" "nr_bandwidth q = Some b"
    using time_frame(1) [OF row1, of session] r by (auto simp: st2_def keeps_bandwidth_def)
  have al2: "balerts st2 = balerts st"
    using time_keeps_bandwidth_alerts [OF row1, of session] al1 p by (simp add: st2_def)
  note report = bandwidth_report [OF row2 q r(4) n0] and close = bandwidth_close [OF row2 q r(4) n0]
  have acc': "account E u st = handleBandwidthBalance E p sw n st2" by (simp add: acc st2_def n_def)
  have row3: "row (account E u st) =
      Some (q\<lparr>nr_bandwidth := Some (if rr_status (snd u) = AcctStop then max (b - n) 0 else if b \<le> n then 0 else b)\<rparr>)"
    and calls3: "balerts (account E u st) = balerts st + (if 0 < b \<and> b \<le> n then 1 else 0)"
    using report close p al2
    by (cases "rr_status (snd u) = AcctStop"; auto simp: acc' account_row_def alerts_of_def)+
  show "bandwidth_left E view tenant m (account E u st) =
           (let b = bandwidth_left E view tenant m st; n = request_bytes E (snd u)
            in if rr_status (snd u) = AcctStop then max (b - n) 0 else if b \<le> n then 0 else b)"
    using row3 r by (simp add: bandwidth_left_def n_def Let_def)
  show "balerts (account E u st) = balerts st +
           (if 0 < bandwidth_left E view tenant m st \<and> bandwidth_left E view tenant m st \<le> request_bytes E (snd u) then 1 else 0)"
    using calls3 r by (simp add: bandwidth_left_def n_def)
  show "bandwidth_good E view tenant m (account E u st)"
    using row3 q r(4) by (simp add: bandwidth_good_def)
qed

lemma run_accounting_fold:
  "\<forall>u\<in>set us. in_session E tenant m session (snd u) \<Longrightarrow> run_accounting E us st = Ret (fold (account E) us st)"
proof (induction us arbitrary: st)
  case (Cons u us)
  obtain st1 where "snd (handleAccountingRequest E (fst u) (snd u) st) = Ret st1"
    using handle_parts [of tenant m session "snd u" st "fst u"] Cons.prems by auto
  then show ?case using Cons by (cases u) (simp add: account_def)
qed simp

end

sublocale session_accounts \<subseteq> time: balance_meter "time_good E view tenant m session" "time_left E view tenant m"
    "alerts_of E m ACCOUNTING_POLICY_TIME tenant" "account E" "interim_request E tenant m session"
    "final_request E tenant m session" "\<lambda>u. request_time E (snd u)"
proof
  fix u s
  show "interim_request E tenant m session u \<or> final_request E tenant m session u \<Longrightarrow> 0 \<le> request_time E (snd u)"
    by (simp add: request_time_def)
  show "time_good E view tenant m session s \<Longrightarrow> 0 \<le> time_left E view tenant m s"
    by (auto simp: time_good_def time_left_def)
qed (auto simp: time_request interim_request_def final_request_def Let_def)

sublocale session_accounts \<subseteq> bandwidth: balance_meter "bandwidth_good E view tenant m" "bandwidth_left E view tenant m"
    "alerts_of E m ACCOUNTING_POLICY_BANDWIDTH tenant" "account E" "interim_request E tenant m session"
    "final_request E tenant m session" "\<lambda>u. request_bytes E (snd u)"
proof
  fix u s
  show "interim_request E tenant m session u \<or> final_request E tenant m session u \<Longrightarrow> 0 \<le> request_bytes E (snd u)"
    by (auto simp: interim_request_def final_request_def in_session_def Let_def)
  show "bandwidth_good E view tenant m s \<Longrightarrow> 0 \<le> bandwidth_left E view tenant m s"
    by (auto simp: bandwidth_good_def bandwidth_left_def)
qed (auto simp: bandwidth_request interim_request_def final_request_def Let_def)

context session_accounts
begin

lemma session_charged:
  assumes row: "row st = Some r" "\<not> nr_unreg r" "nr_counted r"
    and B: "nr_time r = Some B" "0 \<le> B" and C: "nr_bandwidth r = Some C" "0 \<le> C"
    and ns: "getNodeSessionFromCache (ae_cache E) session (as_sessions st) = None"
    and us: "\<forall>u\<in>set us. interim_request E tenant m session u \<and> request_time E (snd u) \<le> request_time E (snd T) \<and>
               request_bytes E (snd u) \<le> request_bytes E (snd T)"
    and T: "final_request E tenant m session T"
  shows "\<exists>st' r'. run_accounting E (us @ [T]) st = Ret st' \<and> row st' = Some r' \<and>
     nr_time r' = Some (max (B - request_time E (snd T)) 0) \<and>
     nr_bandwidth r' = Some (max (C - request_bytes E (snd T)) 0) \<and>
     talerts st' = talerts st + (if 0 < B \<and> B \<le> request_time E (snd T) then 1 else 0) \<and>
     balerts st' = balerts st + (if 0 < C \<and> C \<le> request_bytes E (snd T) then 1 else 0)"
proof -
  let ?st = "fold (account E) us st"
  have tg: "time_good E view tenant m session st" and bg: "bandwidth_good E view tenant m st"
    using row B C ns by (simp_all add: time_good_def bandwidth_good_def)
  have left: "time_left E view tenant m st = B" "bandwidth_left E view tenant m st = C"
    using row B C by (simp_all add: time_left_def bandwidth_left_def)
  have i: "\<forall>u\<in>set us. interim_request E tenant m session u" using us by blast
  have s: "\<forall>u\<in>set (us @ [T]). in_session E tenant m session (snd u)" "in_session E tenant m session (snd T)"
    using us T by (auto simp: interim_request_def final_request_def)
  obtain r1 b1 where r1: "row (account E T ?st) = Some r1" "nr_time r1 = Some b1"
    using time_request(4) [OF s(2) time.interims_good [OF tg i]] by blast
  obtain b2 where b2: "nr_bandwidth r1 = Some b2"
    using bandwidth_request(3) [OF s(2) bandwidth.interims_good [OF bg i]] r1 by (auto simp: bandwidth_good_def)
  have "run_accounting E (us @ [T]) st = Ret (account E T ?st)" using run_accounting_fold [OF s(1)] by simp
  then show ?thesis
    using time.session_charged_once [OF tg _ T, of us] bandwidth.session_charged_once [OF bg _ T, of us] us r1 b2
    by (simp add: left) (simp add: time_left_def bandwidth_left_def)
qed

end


subsection \<open>A table of nodes\<close>

text \<open>
  The laws hold for a table that maps a tenant and a MAC address to a row, with the statements
  executed on it; the other tables are left out.
\<close>

type_synonym node_table = "int \<times> string \<Rightarrow> node_row option"

definition table_update :: "(node_row \<Rightarrow> node_row) \<Rightarrow> int \<times> string \<Rightarrow> node_table \<Rightarrow> exec_result \<times> node_table" where
  "table_update f k d = (Affected (if map_option f (d k) = d k then 0 else 1) None, d(k := map_option f (d k)))"

definition table_query :: "(node_row \<Rightarrow> bool) \<Rightarrow> int \<times> string \<Rightarrow> node_table \<Rightarrow> int \<times> go_err" where
  "table_query P k d = row_query (case d k of None \<Rightarrow> False | Some r \<Rightarrow> P r)"

definition table_db :: "mac_lib \<Rightarrow> node_table acct_db" where
  "table_db ml =
     \<lparr>db_isUnreg = (\<lambda>t s. table_query nr_unreg (t, s)),
      db_isTimeZero = (\<lambda>t m. table_query (\<lambda>r. nr_time r = Some 0) (t, ml_String ml m)),
      db_isBandwidthZero = (\<lambda>t m. table_query (\<lambda>r. nr_bandwidth r = Some 0) (t, ml_String ml m)),
      db_softTime = (\<lambda>t s n. table_update (on_time (soft_balance n)) (t, s)),
      db_subTime = (\<lambda>n t s. table_update (on_time (sub_balance n)) (t, s)),
      db_softBandwidth = (\<lambda>t s n. table_update (on_bandwidth (soft_balance n)) (t, s)),
      db_subBandwidth = (\<lambda>n t s. table_update (on_bandwidth (sub_balance n)) (t, s)),
      db_insertBandwidth = (\<lambda>n t m s b i out d. (None, d)),
      db_closeSession = (\<lambda>n s d. (Affected 1 None, d)),
      db_switchLookup = (\<lambda>m ip d. Inl ''sql: no rows in result set'')\<rparr>"

lemma table_laws: "node_laws (table_db ml) ml (\<lambda>d. d)"
  by (auto simp: node_laws_def table_db_def updates_def table_update_def table_query_def split: option.splits
      intro!: arg_cong [where f = row_query])

definition map_cache :: "(string \<Rightarrow> nodeSession option) ns_cache" where
  "map_cache = \<lparr>ns_get = (\<lambda>k c. c k), ns_set = (\<lambda>k v c. c(k := Some v)), ns_delete = (\<lambda>k c. c(k := None))\<rparr>"

text \<open>A packet with a status, a session time and an amount of octets received.\<close>

definition demo_radius :: "(u32 \<times> u32 \<times> u32) radius_lib" where
  "demo_radius =
     \<lparr>rl_StatusType = fst, rl_InputOctets = (\<lambda>p. snd (snd p)), rl_OutputOctets = (\<lambda>_. 0), rl_InputGigawords = (\<lambda>_. 0),
      rl_OutputGigawords = (\<lambda>_. 0), rl_SessionTime = (\<lambda>p. fst (snd p)), rl_EventTimestamp = (\<lambda>_. None),
      rl_CallingStationID = (\<lambda>_. ''00:00:00:00:00:01''), rl_UserName = (\<lambda>_. []), rl_CallingStation = (\<lambda>_. []),
      rl_SessionID = (\<lambda>_. []), rl_ProxyState = (\<lambda>_. None), rl_TenantID = (\<lambda>_. 0), rl_Attributes = (\<lambda>_. fmempty)\<rparr>"

definition demo_mac :: mac_lib where
  "demo_mac = \<lparr>ml_NewFromString = (\<lambda>s. ([0, 0, 0, 0, 0, 1], None)), ml_String = (\<lambda>m. mac_String m), ml_NodeId = (\<lambda>m t. 1)\<rparr>"

definition demo_dict :: radius_dict where
  "demo_dict = \<lparr>rd_attribute = (\<lambda>_. None), rd_vendor = (\<lambda>_. None), rd_vendor_specific = (\<lambda>_. (0, [], None)), rd_decode = (\<lambda>_ _. None)\<rparr>"

definition demo_env :: "(u32 \<times> u32 \<times> u32, node_table, string \<Rightarrow> nodeSession option) acct_env" where
  "demo_env =
     \<lparr>ae_radius = demo_radius, ae_mac = demo_mac, ae_db = table_db demo_mac, ae_cache = map_cache, ae_dict = demo_dict,
      ae_hash = (\<lambda>_. 7), ae_prio = (\<lambda>_. 0), ae_TimeDuration = 300\<rparr>"

interpretation demo: session_accounts demo_env "\<lambda>d. d" 1 "[0, 0, 0, 0, 0, 1]" 7
  by unfold_locales (simp add: demo_env_def table_laws)

definition demo_rr :: "u32 \<Rightarrow> u32 \<Rightarrow> u32 \<Rightarrow> (u32 \<times> u32 \<times> u32) radiusRequest" where
  "demo_rr status time octets =
     \<lparr>rr_r = \<lparr>rq_Code = 4, rq_Packet = (status, time, octets), rq_RemoteAddr = ''10.0.0.1:1813'', rq_switchInfo = None\<rparr>,
      rr_switchInfo = \<lparr>sw_Nasname = ''sw1'', sw_Secret = ''s'', sw_TenantId = 1, sw_RadiusAttributes = []\<rparr>,
      rr_status = status, rr_mac = [0, 0, 0, 0, 0, 1]\<rparr>"

definition demo_accounts :: "(node_table, string \<Rightarrow> nodeSession option) acct_state" where
  "demo_accounts =
     \<lparr>as_db = [(1, mac_String [0, 0, 0, 0, 0, 1]) \<mapsto>
                \<lparr>nr_unreg = False, nr_counted = True, nr_time = Some 100, nr_bandwidth = Some 5000\<rparr>],
      as_sessions = Map.empty, as_calls = []\<rparr>"

lemma demo_request_bytes [simp]: "request_bytes demo_env (demo_rr s t n) = uint n"
  using uint_lt2p [of n]
  by (simp add: request_bytes_def demo_env_def demo_rr_def demo_radius_def acct_bytes_def i64_def)

lemma demo_request_time [simp]: "request_time demo_env (demo_rr s t n) = uint t"
  by (simp add: request_time_def demo_env_def demo_rr_def demo_radius_def)

lemma demo_in_session: "in_session demo_env 1 [0, 0, 0, 0, 0, 1] 7 (demo_rr s t n)"
  unfolding in_session_def
  by (simp add: Let_def) (simp add: demo_env_def demo_rr_def demo_radius_def demo_mac_def demo_dict_def packet_mac_def
    accountingUniqueSessionId_def packetToMap_def)


end
