(* ===== verification/PfacctPackets.thy ===== *)
theory PfacctPackets
  imports PfacctSpec
begin

text \<open>
  The attributes of accounting packets (\<open>packetToMap\<close>) and the secret of a switch
  (\<open>RADIUSSecret\<close>, \<open>SwitchLookup\<close>) in \<open>cmd/pfacct/radius.go\<close>.
\<close>

section \<open>Vendor attributes\<close>

text \<open>
  A vendor attribute is well formed when it is a sequence of a type, a length that counts the
  two header bytes, and the data, with at most two bytes left over.
\<close>

definition vsa_enc :: "u8 \<times> bytes \<Rightarrow> bytes" where
  "vsa_enc c = fst c # of_nat (length (snd c) + 2) # snd c"

definition vsa_ok :: "bytes \<Rightarrow> bool" where
  "vsa_ok vsa \<longleftrightarrow> (\<exists>cs rest. vsa = concat (map vsa_enc cs) @ rest \<and> length rest < 3 \<and> (\<forall>c\<in>set cs. length (snd c) \<le> 253))"

definition add_vsa :: "radius_dict \<Rightarrow> (nat \<Rightarrow> dict_attr option) \<Rightarrow> u8 \<times> bytes \<Rightarrow> (string, attr_val) gomap \<Rightarrow> (string, attr_val) gomap" where
  "add_vsa R v c a = (case v (unat (fst c)) of None \<Rightarrow> a | Some da \<Rightarrow> addAttributeToMap R da (snd c) a)"

lemma unat_vsa_length: "n \<le> 253 \<Longrightarrow> unat (of_nat (n + 2) :: u8) = n + 2"
  by (simp only: unat_of_nat) (simp add: take_bit_nat_eq_self)

lemma vsa_loop_chunk:
  assumes "length (snd c) \<le> 253" and "3 \<le> length (vsa_enc c @ vsa)"
  shows "vsa_loop R v (vsa_enc c @ vsa) a = vsa_loop R v vsa (add_vsa R v c a)"
  using assms unat_vsa_length [OF assms(1)]
  by (subst vsa_loop.simps) (auto simp: vsa_enc_def add_vsa_def Let_def split: option.splits)

lemma vsa_loop_short: "length vsa < 3 \<Longrightarrow> vsa_loop R v vsa a = Ret a"
  by (subst vsa_loop.simps) simp

lemma vsa_loop_Ret:
  "length rest < 3 \<Longrightarrow> \<forall>c\<in>set cs. length (snd c) \<le> 253 \<Longrightarrow> \<exists>b. vsa_loop R v (concat (map vsa_enc cs) @ rest) a = Ret b"
proof (induction cs arbitrary: a)
  case (Cons c cs)
  show ?case
  proof (cases "3 \<le> length (vsa_enc c @ concat (map vsa_enc cs) @ rest)")
    case True
    then show ?thesis using vsa_loop_chunk [of c, OF _ True] Cons by simp
  qed (use vsa_loop_short in \<open>simp add: not_le\<close>)
qed (simp add: vsa_loop_short)

lemma vsa_loop_values:
  "length rest < 3 \<Longrightarrow> \<forall>c\<in>set cs. snd c \<noteq> [] \<and> length (snd c) \<le> 253 \<Longrightarrow>
     vsa_loop R v (concat (map vsa_enc cs) @ rest) a = Ret (fold (add_vsa R v) cs a)"
proof (induction cs arbitrary: a)
  case (Cons c cs)
  then have "3 \<le> length (vsa_enc c @ concat (map vsa_enc cs) @ rest)" by (cases "snd c") (auto simp: vsa_enc_def)
  then show ?case using vsa_loop_chunk [of c "concat (map vsa_enc cs) @ rest"] Cons by simp
qed (simp add: vsa_loop_short)

lemma vsa_ok_of_Ret: "vsa_loop R v vsa a = Ret b \<Longrightarrow> vsa_ok vsa"
proof (induction R v vsa a rule: vsa_loop.induct)
  case (1 R v vsa a)
  show ?case
  proof (cases "3 \<le> length vsa")
    case True
    define n where "n = unat (vsa ! 1)"
    have step: "\<not> (n < 2 \<or> length vsa < n)" "vsa_loop R v (drop n vsa)
        (case v (unat (vsa ! 0)) of None \<Rightarrow> a | Some da \<Rightarrow> addAttributeToMap R da (drop 2 (take n vsa)) a) = Ret b"
      using 1(2) True unfolding vsa_loop.simps [of R v vsa] n_def
      by (simp_all add: Let_def del: One_nat_def split: if_splits)
    then have n: "2 \<le> n" "n \<le> length vsa" and run: "vsa_ok (drop n vsa)"
      using 1(1) [OF True refl n_def step(1) refl step(2)] by simp_all
    obtain x y zs where vsa: "vsa = x # y # zs" using True by (cases vsa; cases "tl vsa") auto
    have "n < 256" unfolding n_def by (rule order.strict_trans2 [OF unsigned_less]) simp
    let ?c = "(x, take (n - 2) zs)"
    have "vsa = vsa_enc ?c @ drop n vsa"
    proof -
      have "drop n vsa = drop (n - 2) zs" using n(1) vsa by (simp add: numeral_2_eq_2 drop_Cons')
      moreover have "length (take (n - 2) zs) + 2 = n" using n vsa by simp
      moreover have "of_nat n = y" using vsa by (simp add: n_def)
      ultimately show ?thesis by (simp only: vsa_enc_def fst_conv snd_conv vsa) simp
    qed
    moreover have "length (snd ?c) \<le> 253" using n vsa \<open>n < 256\<close> by simp
    ultimately show ?thesis
      using run unfolding vsa_ok_def by (metis (no_types, lifting) append.assoc concat.simps(2) list.simps(9) set_ConsD)
  next
    case False
    then show ?thesis unfolding vsa_ok_def by (intro exI [of _ "[]"] exI [of _ vsa]) simp
  qed
qed

lemma vsa_loop_exact: "(\<exists>b. vsa_loop R v vsa a = Ret b) \<longleftrightarrow> vsa_ok vsa"
  using vsa_ok_of_Ret vsa_loop_Ret unfolding vsa_ok_def by blast

definition vendor_ok :: "radius_dict \<Rightarrow> bytes \<Rightarrow> bool" where
  "vendor_ok R x = (case rd_vendor_specific R x of (vid, vsa, err) \<Rightarrow> err = None \<longrightarrow> rd_vendor R vid \<noteq> None \<longrightarrow> vsa_ok vsa)"

definition attributes_ok :: "radius_dict \<Rightarrow> (nat, bytes list) gomap \<Rightarrow> bool" where
  "attributes_ok R as \<longleftrightarrow>
     (\<forall>i xs. fmlookup as i = Some xs \<longrightarrow>
        (if i = VendorSpecific_Type then \<forall>x\<in>set xs. vendor_ok R x else rd_attribute R i \<noteq> None \<longrightarrow> xs \<noteq> []))"

lemma go_bind_Ret_iff: "(\<exists>b. go_bind x f = Ret b) \<longleftrightarrow> (\<exists>a. x = Ret a \<and> (\<exists>b. f a = Ret b))"
  by (cases x) auto

lemma vendor_attributes_exact: "(\<exists>b. vendor_attributes R xs a = Ret b) \<longleftrightarrow> (\<forall>x\<in>set xs. vendor_ok R x)"
proof (induction xs arbitrary: a)
  case (Cons x xs)
  obtain vid vsa err where x: "rd_vendor_specific R x = (vid, vsa, err)" by (cases "rd_vendor_specific R x") auto
  show ?case
  proof (cases "err = None \<and> rd_vendor R vid \<noteq> None")
    case True
    then obtain v where "err = None" "rd_vendor R vid = Some v" by auto
    then show ?thesis
      using Cons x vsa_loop_exact [of R v vsa a] by (auto simp: vendor_ok_def Let_def go_bind_Ret_iff)
  next
    case False
    then show ?thesis using Cons x by (auto simp: vendor_ok_def Let_def split: option.splits)
  qed
qed simp

lemma attributes_loop_exact:
  "(\<exists>b. attributes_loop R as is a = Ret b) \<longleftrightarrow>
     (\<forall>i\<in>set is. if i = VendorSpecific_Type then \<forall>x\<in>set (gm_get [] as i). vendor_ok R x
                   else rd_attribute R i \<noteq> None \<longrightarrow> gm_get [] as i \<noteq> [])"
proof (induction "is" arbitrary: a)
  case (Cons i "is")
  show ?case
  proof (cases "i = VendorSpecific_Type")
    case True
    then show ?thesis using Cons vendor_attributes_exact [of R "gm_get [] as i" a] by (auto simp: Let_def go_bind_Ret_iff)
  next
    case False
    then show ?thesis using Cons by (auto simp: Let_def split: option.splits list.splits)
  qed
qed simp

lemma attributes_read: "(\<exists>b. attributes_loop R as (range_keys prio as) a = Ret b) \<longleftrightarrow> attributes_ok R as"
proof -
  have "(\<forall>i\<in>set (range_keys prio as). P i (gm_get [] as i)) \<longleftrightarrow> (\<forall>i xs. fmlookup as i = Some xs \<longrightarrow> P i xs)" for P
    by (auto simp: gm_has_def gm_get_def split: option.splits)
  from this [of "\<lambda>i xs. if i = VendorSpecific_Type then \<forall>x\<in>set xs. vendor_ok R x else rd_attribute R i \<noteq> None \<longrightarrow> xs \<noteq> []"]
  show ?thesis unfolding attributes_loop_exact attributes_ok_def .
qed

lemma packetToMap_panics:
  assumes "\<not> attributes_ok R as"
  shows "\<exists>e. packetToMap ml R prio as = Panic e"
  using assms attributes_read [of R as prio fmempty]
  by (cases "attributes_loop R as (range_keys prio as) fmempty") (auto simp: packetToMap_def)

lemma handle_panics:
  assumes "packetToMap (ae_mac E) (ae_dict E) (ae_prio E) (rl_Attributes (ae_radius E) (rq_Packet (rr_r rr))) = Panic e"
  shows "snd (handleAccountingRequest E now rr st) = Panic e"
  using assms by (simp add: handleAccountingRequest_def sendRadiusAccounting_def Let_def split: prod.split)

text \<open>
  C40. Reading the attributes of a packet. In whatever order the map of attributes is visited, it is
  read to the end exactly when every value of a known vendor is a sequence of complete attributes (and
  no known attribute has an empty list of values). Otherwise the slice expressions of
  \<open>packetToMap\<close> are out of range, and handling the request panics after the answer: nothing in the
  worker recovers.
\<close>
theorem accounting_attributes_exact:
  "((\<exists>a. attributes_loop R as (range_keys prio as) fmempty = Ret a) \<longleftrightarrow> attributes_ok R as) \<and>
   (\<not> attributes_ok (ae_dict E) (rl_Attributes (ae_radius E) (rq_Packet (rr_r rr))) \<longrightarrow>
      (\<exists>e. handleAccountingRequest E now rr st = (AddProxyState (ae_radius E) accounting_ok (rr_r rr), Panic e)))"
proof -
  have reply: "fst (handleAccountingRequest E now rr st) = AddProxyState (ae_radius E) accounting_ok (rr_r rr)"
    by (simp add: handleAccountingRequest_def Let_def split: prod.split)
  show ?thesis
    using attributes_read packetToMap_panics handle_panics [of E rr _ now st] reply
    by (metis prod.collapse)
qed

definition demo_bad_env :: "(u32 \<times> u32 \<times> u32, node_table, string \<Rightarrow> nodeSession option) acct_env" where
  "demo_bad_env = demo_env
     \<lparr>ae_radius := demo_radius\<lparr>rl_Attributes := \<lambda>_. fmupd 26 [[0, 0, 0, 9, 1, 200, 65]] fmempty\<rparr>,
      ae_dict := demo_dict\<lparr>rd_vendor := \<lambda>n. if n = 9 then Some (\<lambda>_. None) else None,
                           rd_vendor_specific := \<lambda>x. (unat (x ! 3), drop 4 x, None)\<rparr>\<rparr>"

theorem accounting_attributes_exact_witness:
  "\<exists>e. handleAccountingRequest demo_bad_env 0 (demo_rr AcctInterimUpdate 60 1000) demo_accounts =
     (AddProxyState (ae_radius demo_bad_env) accounting_ok (rr_r (demo_rr AcctInterimUpdate 60 1000)), Panic e)"
proof -
  have "\<not> vsa_ok [1, 200, 65]"
    using vsa_loop_exact [of demo_dict "\<lambda>_. None" "[1, 200, 65]" fmempty] by (simp add: vsa_loop.simps)
  then have "\<not> attributes_ok (ae_dict demo_bad_env)
      (rl_Attributes (ae_radius demo_bad_env) (rq_Packet (rr_r (demo_rr AcctInterimUpdate 60 1000))))"
    by (simp add: attributes_ok_def vendor_ok_def demo_bad_env_def demo_dict_def demo_radius_def)
  then show ?thesis using accounting_attributes_exact [of demo_dict fmempty "\<lambda>_. 0"] by blast
qed

text \<open>Complete attributes of a vendor are all added, in their order.\<close>

lemma vendor_attributes_added:
  assumes "rd_vendor_specific R x = (vid, concat (map vsa_enc cs) @ rest, None)" "rd_vendor R vid = Some v"
    and "length rest < 3" "\<forall>c\<in>set cs. snd c \<noteq> [] \<and> length (snd c) \<le> 253"
  shows "vendor_attributes R [x] a = Ret (fold (add_vsa R v) cs a)"
  using assms by (simp add: vsa_loop_values)

section \<open>The secret of a switch\<close>

text \<open>
  The row of a switch as the database gives it, without a cache, and what \<open>RADIUSSecret\<close> would
  answer with it.
\<close>

definition switch_row :: "acct_config \<Rightarrow> 'd acct_db \<Rightarrow> 'd \<Rightarrow> string \<Rightarrow> string \<Rightarrow> string + SwitchInfo" where
  "switch_row cfg db d m ip =
     (case db_switchLookup db m ip d of
        Inl err \<Rightarrow> Inl err
      | Inr (nasname, secret, tenant, attrs) \<Rightarrow>
          Inr \<lparr>sw_Nasname = nasname, sw_Secret = (if ac_isProxied cfg then ac_localSecret cfg else secret),
               sw_TenantId = tenant, sw_RadiusAttributes = attrs\<rparr>)"

definition uncached_secret ::
  "('p, 'd, 'c) acct_env \<Rightarrow> acct_config \<Rightarrow> 'p parse_lib \<Rightarrow> ip \<Rightarrow> bytes \<Rightarrow> 'd \<Rightarrow> string + string \<times> SwitchInfo" where
  "uncached_secret E cfg L remoteAddr raw d =
     (case checkPacket L raw of Some err \<Rightarrow> Inl err | None \<Rightarrow>
     (case pa_ParseAttributes L (drop 20 raw) of Inl err \<Rightarrow> Inl err | Inr attrs \<Rightarrow>
     (case switch_row cfg (ae_db E) d (called_station (ae_mac E) attrs) (nas_address cfg L attrs (ip_String remoteAddr)) of
        Inl err \<Rightarrow> Inl err | Inr info \<Rightarrow>
     (case pa_Parse L raw (sw_Secret info) of Inl err \<Rightarrow> Inl err | Inr packet \<Rightarrow>
        Inr (sw_Secret info, if rl_TenantID (ae_radius E) packet = 0 then info
                             else info\<lparr>sw_TenantId := uint (rl_TenantID (ae_radius E) packet)\<rparr>)))))"

text \<open>
  Documented behaviour of the expiring cache: an entry read is the one stored last under its key,
  and may be gone. A printed MAC address has 17 characters and does not start with a colon.
\<close>

definition switch_cache_laws :: "'k switch_cache \<Rightarrow> bool" where
  "switch_cache_laws C \<longleftrightarrow>
     (\<forall>key v k. sc_get C key (sc_set C key v k) = Some v) \<and>
     (\<forall>key key' v k w. key' \<noteq> key \<longrightarrow> sc_get C key' (sc_set C key v k) = Some w \<longrightarrow> sc_get C key' k = Some w)"

definition mac_text :: "mac_lib \<Rightarrow> bool" where
  "mac_text ml \<longleftrightarrow> (\<forall>m. length (ml_String ml m) = 17 \<and> hd (ml_String ml m) \<noteq> CHR '':'')"

definition station :: "mac_lib \<Rightarrow> string \<Rightarrow> bool" where
  "station ml m \<longleftrightarrow> m = [] \<or> (\<exists>a. m = ml_String ml a)"

definition cache_ok :: "acct_config \<Rightarrow> 'd acct_db \<Rightarrow> mac_lib \<Rightarrow> 'k switch_cache \<Rightarrow> 'd \<Rightarrow> 'k \<Rightarrow> bool" where
  "cache_ok cfg db ml C d k \<longleftrightarrow>
     (\<forall>m ip info. station ml m \<longrightarrow> sc_get C (m @ '':'' @ ip) k = Some info \<longrightarrow> switch_row cfg db d m ip = Inr info)"

lemma called_station_station: "station ml (called_station ml attrs)"
  by (auto simp: station_def called_station_def split: option.splits prod.splits)

lemma station_cases:
  assumes "mac_text ml" "station ml m"
  shows "m = [] \<or> length m = 17 \<and> m \<noteq> [] \<and> hd m \<noteq> CHR '':''"
proof -
  have "length (ml_String ml a) = 17 \<and> ml_String ml a \<noteq> [] \<and> hd (ml_String ml a) \<noteq> CHR '':''" for a
    using assms(1) unfolding mac_text_def by (metis list.size(3) zero_neq_numeral)
  then show ?thesis using assms(2) by (auto simp: station_def)
qed

lemma switch_key_inj:
  assumes "mac_text ml" "station ml m" "station ml m'" "m @ '':'' @ ip = m' @ '':'' @ ip'"
  shows "m = m' \<and> ip = ip'"
  using station_cases [OF assms(1,2)] station_cases [OF assms(1,3)] assms(4)
  by (auto simp: neq_Nil_conv)

lemma SwitchLookup_uncached:
  assumes "switch_cache_laws C" "mac_text ml" "station ml m" "cache_ok cfg db ml C d k"
  shows "fst (SwitchLookup cfg db C m ip d k) = switch_row cfg db d m ip"
    and "cache_ok cfg db ml C d (snd (SwitchLookup cfg db C m ip d k))"
proof -
  show "fst (SwitchLookup cfg db C m ip d k) = switch_row cfg db d m ip"
    using assms(3,4) unfolding cache_ok_def
    by (auto simp: SwitchLookup_def switch_row_def Let_def split: option.splits sum.splits)
  have "cache_ok cfg db ml C d (sc_set C (m @ '':'' @ ip) info k)" if "switch_row cfg db d m ip = Inr info" for info
    unfolding cache_ok_def
  proof (intro allI impI)
    fix m' ip' w assume m': "station ml m'" and w: "sc_get C (m' @ '':'' @ ip') (sc_set C (m @ '':'' @ ip) info k) = Some w"
    show "switch_row cfg db d m' ip' = Inr w"
    proof (cases "m' @ '':'' @ ip' = m @ '':'' @ ip")
      case True
      then show ?thesis
        using switch_key_inj [OF assms(2) m' assms(3) True] w that assms(1) by (simp add: switch_cache_laws_def)
    next
      case False
      then show ?thesis using w assms(1,4) m' unfolding switch_cache_laws_def cache_ok_def by blast
    qed
  qed
  then show "cache_ok cfg db ml C d (snd (SwitchLookup cfg db C m ip d k))"
    using assms(4) by (auto simp: SwitchLookup_def switch_row_def Let_def split: option.splits sum.splits)
qed


definition demo_switch_cache :: "(string \<Rightarrow> SwitchInfo option) switch_cache" where
  "demo_switch_cache = \<lparr>sc_get = (\<lambda>key k. k key), sc_set = (\<lambda>key v k. k(key := Some v))\<rparr>"

definition demo_parse :: "(u32 \<times> u32 \<times> u32) parse_lib" where
  "demo_parse = \<lparr>pa_ParseAttributes = (\<lambda>_. Inr (\<lambda>_. None)), pa_Parse = (\<lambda>raw secret. Inr (1, 0, 0)), pa_IPAddr = (\<lambda>_. None),
                 pa_MaxPacketLength = 4096\<rparr>"

definition demo_tenant_env :: "(u32 \<times> u32 \<times> u32, node_table, string \<Rightarrow> nodeSession option) acct_env" where
  "demo_tenant_env = demo_env
     \<lparr>ae_radius := demo_radius\<lparr>rl_TenantID := \<lambda>_. 5\<rparr>, ae_mac := demo_mac\<lparr>ml_String := \<lambda>_. ''00:00:00:00:00:01''\<rparr>,
      ae_db := (table_db demo_mac)\<lparr>db_switchLookup := \<lambda>m ip d. Inr (''10.0.0.9'', ''s3cret'', 1, [])\<rparr>\<rparr>"


section \<open>A device registered during a session\<close>

text \<open>
  An unregistered device leaves \<open>-1\<close> in the cache of sessions. When it is registered before the
  session ends, the stop charges the whole session and one second more, and an interim request compares
  the balance with the whole session, not with the time since the registration.
\<close>

lemma registered_at_stop_charged_more:
  assumes "ns_timeBalance s = - 1" "0 \<le> t" "t < 2 ^ 32"
  shows "since t s = t + 1"
  using assms by (simp add: since_def Let_def i64_def)

lemma registered_interim_compares_session:
  assumes "rl_StatusType (ae_radius E) p = AcctInterimUpdate" "uint (rl_SessionTime (ae_radius E) p) = t" "0 < t"
    and "getNodeSessionFromCache (ae_cache E) session (as_sessions st) = Some s" "ns_timeBalance s = - 1"
    and "\<not> fst (IsUnreg (ae_db E) (ml_String (ae_mac E) (packet_mac E p)) (sw_TenantId sw) (as_db st))"
  shows "as_db (handleTimeBalance E p sw session st) =
         snd (SoftNodeTimeBalanceUpdate (ae_db E) (ae_mac E) (sw_TenantId sw) (packet_mac E p) t (as_db st))"
  using assms by (simp add: handleTimeBalance_def time_interim_def Let_def add_call_def split: prod.split)

end
